(* ===== verification/Edge_Prelude.thy ===== *)
theory Edge_Prelude
  imports Complex_Main "HOL-Library.Word" "HOL-Library.Char_ord" "HOL-Library.List_Lexorder"
    "HOL-Library.Multiset" "HOL-Library.Code_Target_Nat"
begin

text \<open>
  Shared vocabulary of the development: Go's machine types, the error values the packages
  return, the early-return discipline of the validators (\<open>first_err\<close>), the loops that check
  every element of a slice (\<open>each_err\<close>) and that reject duplicates (\<open>each_unique\<close>), and the
  generic lemmas that turn an accepted value into the conjunction of its checks.
  A Go string is a list of bytes, which is what the type \<^typ>\<open>string\<close> is; \<open>len(s)\<close> is its length.
\<close>

section \<open>Machine types\<close>

type_synonym uint64 = "64 word"
type_synonym uint32 = "32 word"

text \<open>
  A \<open>time.Time\<close> is modelled by what the code reads of it: the instant (in nanoseconds after the
  zero time) and whether its location is \<open>time.UTC\<close>.
\<close>

record gotime =
  t_instant :: int
  t_utc :: bool

definition time_IsZero :: "gotime \<Rightarrow> bool" where
  "time_IsZero t \<longleftrightarrow> t_instant t = 0"

definition time_Before :: "gotime \<Rightarrow> gotime \<Rightarrow> bool" where
  "time_Before a b \<longleftrightarrow> t_instant a < t_instant b"

definition time_After :: "gotime \<Rightarrow> gotime \<Rightarrow> bool" where
  "time_After a b \<longleftrightarrow> t_instant b < t_instant a"

definition time_Equal :: "gotime \<Rightarrow> gotime \<Rightarrow> bool" where
  "time_Equal a b \<longleftrightarrow> t_instant a = t_instant b"

text \<open>A float64 as the comparisons of the code see it: NaN, the infinities, or a number.\<close>

datatype float64 = NaN | PosInf | NegInf | Fin rat

fun float_less :: "float64 \<Rightarrow> float64 \<Rightarrow> bool" where
  "float_less NaN _ = False"
| "float_less _ NaN = False"
| "float_less NegInf y = (y \<noteq> NegInf)"
| "float_less _ NegInf = False"
| "float_less PosInf _ = False"
| "float_less (Fin a) PosInf = True"
| "float_less (Fin a) (Fin b) = (a < b)"

definition float_IsNaN :: "float64 \<Rightarrow> bool" where
  "float_IsNaN x \<longleftrightarrow> x = NaN"

definition float_IsInf :: "float64 \<Rightarrow> bool" where
  "float_IsInf x \<longleftrightarrow> x = PosInf \<or> x = NegInf"

section \<open>Error values\<close>

text \<open>
  The protocol's structured error (\<open>protocol.Error\<close>) and Go's \<open>error\<close> interface as the code
  uses it: text errors of \<open>fmt.Errorf\<close>, structured errors, errors wrapped with \<open>%w\<close>, and
  package-level sentinel values compared with \<open>errors.Is\<close>. A nil error is \<^term>\<open>None\<close>.
\<close>

record Error =
  err_Code :: string
  err_Message :: string
  err_RequiredCapability :: string
  err_AdvertisedCapabilities :: "string list"

datatype go_error =
    Plain string
  | Structured Error
  | Wrapped string go_error
  | Sentinel string

type_synonym verr = "go_error option"

abbreviation nil :: verr where
  "nil \<equiv> None"

abbreviation errorf :: "string \<Rightarrow> verr" where
  "errorf s \<equiv> Some (Plain s)"

text \<open>\<open>errors.As(err, &target)\<close> with a \<open>*protocol.Error\<close> target; wrapping is transparent.\<close>

fun errors_As :: "go_error \<Rightarrow> Error option" where
  "errors_As (Plain _) = None"
| "errors_As (Structured e) = Some e"
| "errors_As (Wrapped _ e) = errors_As e"
| "errors_As (Sentinel _) = None"

fun errors_Is :: "go_error \<Rightarrow> string \<Rightarrow> bool" where
  "errors_Is (Sentinel a) s = (a = s)"
| "errors_Is (Wrapped _ e) s = errors_Is e s"
| "errors_Is _ s = False"

section \<open>Early returns\<close>

named_theorems accepted \<open>characterisations of when a validator returns nil\<close>

text \<open>
  A validator is a sequence of statements \<open>if err := check; err != nil { return err }\<close>: the
  result is the first check that fails.
\<close>

fun first_err :: "verr list \<Rightarrow> verr" where
  "first_err [] = nil"
| "first_err (e # es) = (case e of None \<Rightarrow> first_err es | Some x \<Rightarrow> Some x)"

lemma first_err_Cons_nil [simp]: "first_err (e # es) = nil \<longleftrightarrow> e = nil \<and> first_err es = nil"
  by (cases e) auto

declare first_err.simps(2) [simp del]

lemma first_err_nil_head [simp]: "first_err (nil # es) = first_err es"
  and first_err_Some_head [simp]: "first_err (Some x # es) = Some x"
  by (simp_all add: first_err.simps)

lemma first_err_nil_iff: "first_err es = nil \<longleftrightarrow> (\<forall>e \<in> set es. e = nil)"
  by (induction es) auto

lemma first_err_Some_mem: "first_err es = Some x \<Longrightarrow> Some x \<in> set es"
  by (induction es) (auto simp: first_err.simps split: option.splits)

lemma if_errorf_nil [simp]: "((if b then Some e else r) = nil) \<longleftrightarrow> \<not> b \<and> r = nil"
  by simp

text \<open>\<open>for _, x := range xs { if err := f(x); err != nil { return err } }\<close>\<close>

fun each_err :: "('a \<Rightarrow> verr) \<Rightarrow> 'a list \<Rightarrow> verr" where
  "each_err f [] = nil"
| "each_err f (x # xs) = (case f x of None \<Rightarrow> each_err f xs | Some e \<Rightarrow> Some e)"

lemma each_err_nil [accepted]: "each_err f xs = nil \<longleftrightarrow> (\<forall>x \<in> set xs. f x = nil)"
  by (induction xs) (auto split: option.splits)

lemma each_err_Cons_nil [simp]: "each_err f (x # xs) = nil \<longleftrightarrow> f x = nil \<and> each_err f xs = nil"
  by (simp split: option.splits)

declare each_err.simps(2) [simp del]

lemma unat_inject [simp]: "unat a = unat b \<longleftrightarrow> a = (b :: 'a::len word)"
  by (simp add: word_unat_eq_iff)

text \<open>
  The loop with a \<open>seen\<close> set: every element is checked, then its key is refused when an earlier
  element already had it. The set is the list of the keys seen so far.
\<close>

fun each_unique_from :: "('a \<Rightarrow> verr) \<Rightarrow> ('a \<Rightarrow> 'k) \<Rightarrow> string \<Rightarrow> 'k list \<Rightarrow> 'a list \<Rightarrow> verr" where
  "each_unique_from f key msg seen [] = nil"
| "each_unique_from f key msg seen (x # xs) =
     (case f x of
        Some e \<Rightarrow> Some e
      | None \<Rightarrow> if key x \<in> set seen then errorf msg
                else each_unique_from f key msg (key x # seen) xs)"

abbreviation each_unique :: "('a \<Rightarrow> verr) \<Rightarrow> ('a \<Rightarrow> 'k) \<Rightarrow> string \<Rightarrow> 'a list \<Rightarrow> verr" where
  "each_unique f key msg xs \<equiv> each_unique_from f key msg [] xs"

lemma each_unique_from_nil:
  "each_unique_from f key msg seen xs = nil \<longleftrightarrow>
     (\<forall>x \<in> set xs. f x = nil) \<and> distinct (map key xs) \<and> key ` set xs \<inter> set seen = {}"
  by (induction xs arbitrary: seen) (auto split: option.splits)

lemma each_unique_nil [accepted]:
  "each_unique f key msg xs = nil \<longleftrightarrow> (\<forall>x \<in> set xs. f x = nil) \<and> distinct (map key xs)"
  by (simp add: each_unique_from_nil)

text \<open>
  \<open>for field, value := range map[string]string{...}\<close> visits the entries in an unspecified order.
  The model visits them in the order of the literal; only the text of the error depends on that.
\<close>

lemma each_err_order_irrelevant:
  "mset xs = mset ys \<Longrightarrow> each_err f xs = nil \<longleftrightarrow> each_err f ys = nil"
  by (metis each_err_nil set_mset_mset)

section \<open>Optional values and words\<close>

abbreviation optional_err :: "('a \<Rightarrow> verr) \<Rightarrow> 'a option \<Rightarrow> verr" where
  "optional_err f p \<equiv> (case p of None \<Rightarrow> nil | Some x \<Rightarrow> f x)"

lemma optional_err_nil [accepted]:
  "optional_err f p = nil \<longleftrightarrow> (\<forall>x. p = Some x \<longrightarrow> f x = nil)"
  by (cases p) auto

lemma word_pos_iff: "(w :: 'a::len word) \<noteq> 0 \<longleftrightarrow> 0 < unat w"
  by (simp add: unat_gt_0)

lemma word_add_overflow_iff:
  "(a :: 'a::len word) + b < a \<longleftrightarrow> 2 ^ LENGTH('a) \<le> unat a + unat b"
proof -
  have "a + b < a \<longleftrightarrow> \<not> a \<le> a + b" by auto
  also have "\<dots> \<longleftrightarrow> \<not> unat a + unat b < 2 ^ LENGTH('a)"
    by (simp add: no_olen_add_nat)
  finally show ?thesis by (simp only: not_less)
qed

lemma unat_sub_le: "b \<le> a \<Longrightarrow> unat (a - b :: 'a::len word) = unat a - unat b"
  by (simp add: unat_sub)

lemma sort_eq_iff_mset: "sort xs = sort ys \<longleftrightarrow> mset xs = mset (ys :: 'a::linorder list)"
  by (metis mset_sort properties_for_sort sorted_sort)

end
