(* ===== verification/Go_Encoding.thy ===== *)
theory Go_Encoding
  imports Go_Strings
begin

text \<open>
  \<open>encoding/hex\<close> and \<open>encoding/base64\<close> as the repository uses them: lower-case hexadecimal
  encoding and its decoder, and the base64 decoders \<open>RawURLEncoding\<close> (no padding, trailing bits
  ignored) and \<open>StdEncoding.Strict()\<close> (padding required, trailing bits zero). Both decoders skip
  carriage returns and line feeds, as Go's do. An encoder is given as the reference for the
  decoders' round trip.
\<close>

section \<open>Hexadecimal\<close>

definition hexDigit :: "nat \<Rightarrow> char" where
  "hexDigit n = (if n < 10 then char_of (48 + n) else char_of (87 + n))"

definition hexVal :: "char \<Rightarrow> nat option" where
  "hexVal c =
     (let b = byte c in
      if 48 \<le> b \<and> b \<le> 57 then Some (b - 48)
      else if 97 \<le> b \<and> b \<le> 102 then Some (b - 87)
      else if 65 \<le> b \<and> b \<le> 70 then Some (b - 55)
      else None)"

fun hexEncode :: "string \<Rightarrow> string" where
  "hexEncode [] = []"
| "hexEncode (c # s) = hexDigit (byte c div 16) # hexDigit (byte c mod 16) # hexEncode s"

fun hexDecode :: "string \<Rightarrow> string option" where
  "hexDecode [] = Some []"
| "hexDecode [a] = None"
| "hexDecode (a # b # s) =
     (case (hexVal a, hexVal b, hexDecode s) of
        (Some x, Some y, Some r) \<Rightarrow> Some (char_of (x * 16 + y) # r)
      | _ \<Rightarrow> None)"

lemma byte_less_256 [simp]: "byte c < 256"
  by (rule nat_of_char_less_256)

lemma hexDigit_cases: "n < 16 \<Longrightarrow> byte (hexDigit n) = (if n < 10 then 48 + n else 87 + n)"
  by (simp add: hexDigit_def)

lemma hexVal_hexDigit [simp]: "n < 16 \<Longrightarrow> hexVal (hexDigit n) = Some n"
  by (simp add: hexVal_def hexDigit_cases Let_def)

lemma byte_div16_less [simp]: "byte c div 16 < 16"
  using byte_less_256 [of c] by linarith

lemma length_hexEncode [simp]: "length (hexEncode s) = 2 * length s"
  by (induction s) auto

lemma hexDecode_hexEncode [simp]: "hexDecode (hexEncode s) = Some s"
  by (induction s) auto

lemma hexDigit_lower: "n < 16 \<Longrightarrow> toLowerASCII (hexDigit n) = hexDigit n"
  by (simp add: toLowerASCII_def hexDigit_cases)

lemma hexEncode_lower [simp]: "map toLowerASCII (hexEncode s) = hexEncode s"
  by (induction s) (auto simp: hexDigit_lower)

lemma hexEncode_inject [simp]: "hexEncode s = hexEncode t \<longleftrightarrow> s = t"
  by (metis hexDecode_hexEncode option.inject)

section \<open>Base64\<close>

definition b64URLVal :: "char \<Rightarrow> nat option" where
  "b64URLVal c =
     (let b = byte c in
      if 65 \<le> b \<and> b \<le> 90 then Some (b - 65)
      else if 97 \<le> b \<and> b \<le> 122 then Some (b - 71)
      else if 48 \<le> b \<and> b \<le> 57 then Some (b + 4)
      else if b = 45 then Some 62
      else if b = 95 then Some 63
      else None)"

definition b64StdVal :: "char \<Rightarrow> nat option" where
  "b64StdVal c =
     (let b = byte c in
      if 65 \<le> b \<and> b \<le> 90 then Some (b - 65)
      else if 97 \<le> b \<and> b \<le> 122 then Some (b - 71)
      else if 48 \<le> b \<and> b \<le> 57 then Some (b + 4)
      else if b = 43 then Some 62
      else if b = 47 then Some 63
      else None)"

fun b64Values :: "(char \<Rightarrow> nat option) \<Rightarrow> string \<Rightarrow> nat list option" where
  "b64Values val [] = Some []"
| "b64Values val (c # s) =
     (case (val c, b64Values val s) of (Some v, Some vs) \<Rightarrow> Some (v # vs) | _ \<Rightarrow> None)"

text \<open>Sextets to bytes; a final group of two or three sextets gives one or two bytes.\<close>

fun b64Bytes :: "bool \<Rightarrow> nat list \<Rightarrow> string option" where
  "b64Bytes strict [] = Some []"
| "b64Bytes strict [a] = None"
| "b64Bytes strict [a, b] =
     (if strict \<and> b mod 16 \<noteq> 0 then None else Some [char_of (a * 4 + b div 16)])"
| "b64Bytes strict [a, b, c] =
     (if strict \<and> c mod 4 \<noteq> 0 then None
      else Some [char_of (a * 4 + b div 16), char_of ((b mod 16) * 16 + c div 4)])"
| "b64Bytes strict (a # b # c # d # vs) =
     (case b64Bytes strict vs of
        None \<Rightarrow> None
      | Some r \<Rightarrow> Some (char_of (a * 4 + b div 16) # char_of ((b mod 16) * 16 + c div 4)
                          # char_of ((c mod 4) * 64 + d) # r))"

abbreviation skipNewlines :: "string \<Rightarrow> string" where
  "skipNewlines s \<equiv> filter (\<lambda>c. c \<noteq> CHR 0x0D \<and> c \<noteq> CHR 0x0A) s"

definition b64RawURLDecode :: "string \<Rightarrow> string option" where
  "b64RawURLDecode s =
     (case b64Values b64URLVal (skipNewlines s) of
        None \<Rightarrow> None | Some vs \<Rightarrow> b64Bytes False vs)"

text \<open>\<open>StdEncoding.Strict()\<close>: whole groups of four, the last possibly padded with one or two \<open>=\<close>.\<close>

definition b64StripPadding :: "string \<Rightarrow> string" where
  "b64StripPadding s =
     (if 4 \<le> length s \<and> s ! (length s - 1) = CHR ''=''
      then (if s ! (length s - 2) = CHR ''='' then take (length s - 2) s else take (length s - 1) s)
      else s)"

definition b64StdStrictDecode :: "string \<Rightarrow> string option" where
  "b64StdStrictDecode s =
     (let t = skipNewlines s in
      if length t mod 4 \<noteq> 0 then None
      else case b64Values b64StdVal (b64StripPadding t) of
             None \<Rightarrow> None | Some vs \<Rightarrow> b64Bytes True vs)"

fun b64Sextets :: "string \<Rightarrow> nat list" where
  "b64Sextets [] = []"
| "b64Sextets [x] = [byte x div 4, (byte x mod 4) * 16]"
| "b64Sextets [x, y] =
     [byte x div 4, (byte x mod 4) * 16 + byte y div 16, (byte y mod 16) * 4]"
| "b64Sextets (x # y # z # s) =
     (byte x div 4) # ((byte x mod 4) * 16 + byte y div 16) #
     ((byte y mod 16) * 4 + byte z div 64) # (byte z mod 64) # b64Sextets s"

definition b64URLDigit :: "nat \<Rightarrow> char" where
  "b64URLDigit n =
     (if n < 26 then char_of (65 + n) else if n < 52 then char_of (71 + n)
      else if n < 62 then char_of (n - 4) else if n = 62 then CHR ''-'' else CHR ''_'')"

definition b64RawURLEncode :: "string \<Rightarrow> string" where
  "b64RawURLEncode s = map b64URLDigit (b64Sextets s)"

lemma char_of_byte: "n = byte c \<Longrightarrow> char_of n = c"
  by simp

lemma sextet_arith:
  fixes x y z :: nat
  assumes "x < 256" "y < 256" "z < 256"
  shows "x div 4 * 4 + (x mod 4 * 16 + y div 16) div 16 = x"
    and "(x mod 4 * 16 + y div 16) mod 16 * 16 + (y mod 16 * 4 + z div 64) div 4 = y"
    and "(y mod 16 * 4 + z div 64) mod 4 * 64 + z mod 64 = z"
proof -
  have "y div 16 < 16" "z div 64 < 4" using assms by auto
  then have a: "(x mod 4 * 16 + y div 16) div 16 = x mod 4" "(x mod 4 * 16 + y div 16) mod 16 = y div 16"
    "(y mod 16 * 4 + z div 64) div 4 = y mod 16" "(y mod 16 * 4 + z div 64) mod 4 = z div 64"
    by auto
  show "x div 4 * 4 + (x mod 4 * 16 + y div 16) div 16 = x" by (simp add: a)
  show "(x mod 4 * 16 + y div 16) mod 16 * 16 + (y mod 16 * 4 + z div 64) div 4 = y"
    using assms(2) by (simp add: a)
  show "(y mod 16 * 4 + z div 64) mod 4 * 64 + z mod 64 = z"
    using assms(3) by (simp add: a)
qed

lemma b64Bytes_Sextets: "b64Bytes strict (b64Sextets s) = Some s"
proof (induction s rule: b64Sextets.induct)
  case 1
  show ?case by simp
next
  case (2 x)
  show ?case using sextet_arith [of "byte x" 0 0] by simp
next
  case (3 x y)
  show ?case using sextet_arith [of "byte x" "byte y" 0] by simp
next
  case (4 x y z s)
  show ?case using 4 sextet_arith [of "byte x" "byte y" "byte z"] by simp
qed

lemma sextet_bounds:
  fixes x y z :: nat
  assumes "x < 256" "y < 256" "z < 256"
  shows "x div 4 < 64" "x mod 4 * 16 + y div 16 < 64" "y mod 16 * 4 + z div 64 < 64"
    "x mod 4 * 16 < 64" "y mod 16 * 4 < 64" "z mod 64 < 64"
proof -
  have "x div 4 < 64" "y div 16 < 16" "z div 64 < 4"
    using assms by (simp_all add: less_mult_imp_div_less)
  moreover have "x mod 4 < 4" "y mod 16 < 16" "z mod 64 < 64" by simp_all
  ultimately show "x div 4 < 64" "x mod 4 * 16 + y div 16 < 64" "y mod 16 * 4 + z div 64 < 64"
    "x mod 4 * 16 < 64" "y mod 16 * 4 < 64" "z mod 64 < 64" by linarith+
qed

lemma b64Sextets_bound: "v \<in> set (b64Sextets s) \<Longrightarrow> v < 64"
proof (induction s rule: b64Sextets.induct)
  case (4 x y z s)
  then show ?case using sextet_bounds [of "byte x" "byte y" "byte z"] by auto
next
  case (3 x y)
  then show ?case using sextet_bounds [of "byte x" "byte y" "byte x"] by auto
next
  case (2 x)
  then show ?case using sextet_bounds [of "byte x" "byte x" "byte x"] by auto
qed simp

lemma byte_b64URLDigit:
  "n < 64 \<Longrightarrow> byte (b64URLDigit n) =
     (if n < 26 then 65 + n else if n < 52 then 71 + n else if n < 62 then n - 4
      else if n = 62 then 45 else 95)"
  by (simp add: b64URLDigit_def)

lemma b64URLVal_Digit: "n < 64 \<Longrightarrow> b64URLVal (b64URLDigit n) = Some n"
  by (auto simp: b64URLVal_def byte_b64URLDigit Let_def)

lemma b64URLDigit_not_newline: "n < 64 \<Longrightarrow> b64URLDigit n \<noteq> CHR 0x0D \<and> b64URLDigit n \<noteq> CHR 0x0A"
proof -
  assume "n < 64"
  then have "45 \<le> byte (b64URLDigit n)" by (simp add: byte_b64URLDigit) linarith
  then show ?thesis by auto
qed

lemma b64Values_map: "\<forall>v \<in> set vs. v < 64 \<Longrightarrow> b64Values b64URLVal (map b64URLDigit vs) = Some vs"
  by (induction vs) (auto simp: b64URLVal_Digit)

lemma b64RawURL_roundtrip: "b64RawURLDecode (b64RawURLEncode s) = Some s"
proof -
  have b: "\<forall>v \<in> set (b64Sextets s). v < 64" using b64Sextets_bound by blast
  then have "skipNewlines (b64RawURLEncode s) = b64RawURLEncode s"
    by (auto simp: b64RawURLEncode_def b64URLDigit_not_newline filter_id_conv)
  then show ?thesis
    by (simp add: b64RawURLDecode_def b64RawURLEncode_def b64Values_map [OF b] b64Bytes_Sextets)
qed

end
