(* ===== verification/Go_Json.thy ===== *)
theory Go_Json
  imports Go_Encoding
begin

text \<open>
  JSON as \<open>encoding/json\<close> reads it: the grammar of the scanner on bytes, string unquoting
  (escapes, surrogate pairs, replacement of ill-formed UTF-8), \<open>json.Valid\<close>, \<open>json.Compact\<close>,
  decoding an object into raw members, and the token reader that \<open>rejectDuplicateKeys\<close> of
  \<open>protocol/validate.go\<close> drives. The readers take fuel, one unit per nested call; an open
  bracket costs two calls and consumes a byte, and \<open>jparse_fuel\<close> shows that any fuel above
  twice the length of the input gives the same result.
\<close>

section \<open>Values\<close>

datatype json =
    JNull
  | JBool bool
  | JNum string
  | JStr string
  | JArr "json list"
  | JObj "(string \<times> json) list"

section \<open>Scanning\<close>

definition isWS :: "char \<Rightarrow> bool" where
  "isWS c \<longleftrightarrow> c = CHR 0x20 \<or> c = CHR 0x09 \<or> c = CHR 0x0D \<or> c = CHR 0x0A"

abbreviation skipWS :: "string \<Rightarrow> string" where
  "skipWS s \<equiv> dropWhile isWS s"

abbreviation quote_ch :: char where "quote_ch \<equiv> CHR 0x22"
abbreviation backslash_ch :: char where "backslash_ch \<equiv> CHR 0x5C"

definition isHex :: "char \<Rightarrow> bool" where
  "isHex c \<longleftrightarrow> hexVal c \<noteq> None"

definition isEscape :: "char \<Rightarrow> bool" where
  "isEscape c \<longleftrightarrow> c \<in> set ''bfnrt/'' \<or> c = backslash_ch \<or> c = quote_ch"

text \<open>The body of a string literal up to its closing quote, and what follows the quote.\<close>

fun scanStr :: "string \<Rightarrow> (string \<times> string) option" where
  "scanStr [] = None"
| "scanStr (c # s) =
     (if c = quote_ch then Some ([], s)
      else if c = backslash_ch then
        (case s of
           [] \<Rightarrow> None
         | e # t \<Rightarrow>
             if isEscape e then map_option (\<lambda>(b, r). (c # e # b, r)) (scanStr t)
             else if e = CHR ''u'' then
               (case t of
                  h1 # h2 # h3 # h4 # u \<Rightarrow>
                    if isHex h1 \<and> isHex h2 \<and> isHex h3 \<and> isHex h4
                    then map_option (\<lambda>(b, r). (c # e # h1 # h2 # h3 # h4 # b, r)) (scanStr u)
                    else None
                | _ \<Rightarrow> None)
             else None)
      else if byte c < 0x20 then None
      else map_option (\<lambda>(b, r). (c # b, r)) (scanStr s))"

declare scanStr.simps(2) [simp del]

definition isDigit :: "char \<Rightarrow> bool" where
  "isDigit c \<longleftrightarrow> 48 \<le> byte c \<and> byte c \<le> 57"

text \<open>Digits, then an optional fraction, then an optional exponent; the consumed text and the rest.\<close>

definition scanDigits :: "string \<Rightarrow> (string \<times> string) option" where
  "scanDigits s = (let d = takeWhile isDigit s in if d = [] then None else Some (d, dropWhile isDigit s))"

definition scanInt :: "string \<Rightarrow> (string \<times> string) option" where
  "scanInt s = (case s of
      c # r \<Rightarrow> if c = CHR ''0'' then Some ([c], r) else scanDigits s
    | [] \<Rightarrow> None)"

definition scanFrac :: "string \<Rightarrow> (string \<times> string) option" where
  "scanFrac s = (case s of
      c # r \<Rightarrow> if c = CHR ''.'' then map_option (\<lambda>(d, t). (c # d, t)) (scanDigits r) else Some ([], s)
    | [] \<Rightarrow> Some ([], []))"

definition scanExp :: "string \<Rightarrow> (string \<times> string) option" where
  "scanExp s = (case s of
      c # r \<Rightarrow>
        if c = CHR ''e'' \<or> c = CHR ''E'' then
          (case r of
             d # t \<Rightarrow> if d = CHR ''+'' \<or> d = CHR ''-''
                        then map_option (\<lambda>(x, u). (c # d # x, u)) (scanDigits t)
                        else map_option (\<lambda>(x, u). (c # x, u)) (scanDigits r)
           | [] \<Rightarrow> None)
        else Some ([], s)
    | [] \<Rightarrow> Some ([], []))"

definition scanNum :: "string \<Rightarrow> (string \<times> string) option" where
  "scanNum s =
     (let (sign, s1) = (case s of c # r \<Rightarrow> if c = CHR ''-'' then ([c], r) else ([], s) | [] \<Rightarrow> ([], s)) in
      case scanInt s1 of None \<Rightarrow> None
      | Some (i, s2) \<Rightarrow>
          (case scanFrac s2 of None \<Rightarrow> None
           | Some (f, s3) \<Rightarrow>
               (case scanExp s3 of None \<Rightarrow> None
                | Some (e, s4) \<Rightarrow> Some (sign @ i @ f @ e, s4))))"

section \<open>Unquoting\<close>

text \<open>\<open>utf8.EncodeRune\<close> for scalar values.\<close>

definition encodeRune :: "nat \<Rightarrow> string" where
  "encodeRune r =
     (if r < 0x80 then [char_of r]
      else if r < 0x800 then [char_of (0xC0 + r div 64), char_of (0x80 + r mod 64)]
      else if r < 0x10000 then
        [char_of (0xE0 + r div 4096), char_of (0x80 + (r div 64) mod 64), char_of (0x80 + r mod 64)]
      else [char_of (0xF0 + r div 262144), char_of (0x80 + (r div 4096) mod 64),
            char_of (0x80 + (r div 64) mod 64), char_of (0x80 + r mod 64)])"

definition hexNat :: "char \<Rightarrow> nat" where
  "hexNat c = (case hexVal c of None \<Rightarrow> 0 | Some v \<Rightarrow> v)"

definition hex4 :: "char \<Rightarrow> char \<Rightarrow> char \<Rightarrow> char \<Rightarrow> nat" where
  "hex4 a b c d = ((hexNat a * 16 + hexNat b) * 16 + hexNat c) * 16 + hexNat d"

definition isSurrogate :: "nat \<Rightarrow> bool" where
  "isSurrogate r \<longleftrightarrow> 0xD800 \<le> r \<and> r < 0xE000"

definition utf16Decode :: "nat \<Rightarrow> nat \<Rightarrow> nat" where
  "utf16Decode a b =
     (if 0xD800 \<le> a \<and> a < 0xDC00 \<and> 0xDC00 \<le> b \<and> b < 0xE000
      then (a - 0xD800) * 1024 + (b - 0xDC00) + 0x10000 else RuneError)"

definition escapeByte :: "char \<Rightarrow> char" where
  "escapeByte e =
     (if e = CHR ''b'' then CHR 0x08 else if e = CHR ''f'' then CHR 0x0C
      else if e = CHR ''n'' then CHR 0x0A else if e = CHR ''r'' then CHR 0x0D
      else if e = CHR ''t'' then CHR 0x09 else e)"

text \<open>The four hex digits of a \<open>\uXXXX\<close> at the head of the text (\<open>getu4\<close>).\<close>

fun getu4 :: "string \<Rightarrow> nat option" where
  "getu4 (a # b # h1 # h2 # h3 # h4 # s) =
     (if a = backslash_ch \<and> b = CHR ''u'' \<and> isHex h1 \<and> isHex h2 \<and> isHex h3 \<and> isHex h4
      then Some (hex4 h1 h2 h3 h4) else None)"
| "getu4 _ = None"

function unquote :: "string \<Rightarrow> string" where
  "unquote s =
     (case s of
        [] \<Rightarrow> []
      | c # t \<Rightarrow>
          if c = backslash_ch then
            (case getu4 s of
               Some r \<Rightarrow>
                 if isSurrogate r then
                   (case getu4 (drop 6 s) of
                      Some r2 \<Rightarrow>
                        if utf16Decode r r2 \<noteq> RuneError
                        then encodeRune (utf16Decode r r2) @ unquote (drop 12 s)
                        else encodeRune RuneError @ unquote (drop 6 s)
                    | None \<Rightarrow> encodeRune RuneError @ unquote (drop 6 s))
                 else encodeRune r @ unquote (drop 6 s)
             | None \<Rightarrow> (case t of [] \<Rightarrow> [] | e # u \<Rightarrow> escapeByte e # unquote u))
          else let (r, n) = decodeRune s in encodeRune r @ unquote (drop (max 1 n) s))"
  by pat_completeness auto
termination by (relation "measure length") auto

declare unquote.simps [simp del]

section \<open>Parsing\<close>

text \<open>A scalar at the head of the text (after white space).\<close>

definition scanScalar :: "string \<Rightarrow> (json \<times> string) option" where
  "scanScalar s =
     (case s of
        [] \<Rightarrow> None
      | c # r \<Rightarrow>
          if c = quote_ch then map_option (\<lambda>(b, t). (JStr (unquote b), t)) (scanStr r)
          else if hasPrefix s ''true'' then Some (JBool True, drop 4 s)
          else if hasPrefix s ''false'' then Some (JBool False, drop 5 s)
          else if hasPrefix s ''null'' then Some (JNull, drop 4 s)
          else map_option (\<lambda>(n, t). (JNum n, t)) (scanNum s))"

text \<open>
  An object key followed by its colon. A list of members or elements is entered with a flag that
  says whether an element was already read, so that a comma is expected before the next one.
\<close>

definition scanKey :: "string \<Rightarrow> (string \<times> string) option" where
  "scanKey s =
     (case skipWS s of
        c # r \<Rightarrow>
          if c = quote_ch then
            (case scanStr r of
               Some (b, t) \<Rightarrow>
                 (case skipWS t of
                    d # u \<Rightarrow> if d = CHR '':'' then Some (unquote b, u) else None
                  | [] \<Rightarrow> None)
             | None \<Rightarrow> None)
          else None
      | [] \<Rightarrow> None)"

definition nextItem :: "char \<Rightarrow> bool \<Rightarrow> string \<Rightarrow> (bool \<times> string) option" where
  "nextItem closer started s =
     (case skipWS s of
        [] \<Rightarrow> None
      | c # r \<Rightarrow>
          if c = closer then Some (False, r)
          else if \<not> started then Some (True, c # r)
          else if c = CHR '','' then Some (True, r)
          else None)"

text \<open>After a comma a closing bracket is not an element, so a trailing comma is refused.\<close>

fun jparse :: "nat \<Rightarrow> string \<Rightarrow> (json \<times> string) option"
  and jelems :: "nat \<Rightarrow> bool \<Rightarrow> string \<Rightarrow> (json list \<times> string) option"
  and jmembers :: "nat \<Rightarrow> bool \<Rightarrow> string \<Rightarrow> ((string \<times> json) list \<times> string) option" where
  "jparse 0 s = None"
| "jparse (Suc f) s =
     (case skipWS s of
        [] \<Rightarrow> None
      | c # r \<Rightarrow>
          if c = CHR ''{'' then map_option (\<lambda>(ms, t). (JObj ms, t)) (jmembers f False r)
          else if c = CHR ''['' then map_option (\<lambda>(vs, t). (JArr vs, t)) (jelems f False r)
          else scanScalar (c # r))"
| "jelems 0 started s = None"
| "jelems (Suc f) started s =
     (case nextItem (CHR '']'') started s of
        None \<Rightarrow> None
      | Some (False, t) \<Rightarrow> Some ([], t)
      | Some (True, t) \<Rightarrow>
          (case jparse f t of
             None \<Rightarrow> None
           | Some (v, u) \<Rightarrow> map_option (\<lambda>(vs, w). (v # vs, w)) (jelems f True u)))"
| "jmembers 0 started s = None"
| "jmembers (Suc f) started s =
     (case nextItem (CHR ''}'') started s of
        None \<Rightarrow> None
      | Some (False, t) \<Rightarrow> Some ([], t)
      | Some (True, t) \<Rightarrow>
          (case scanKey t of
             None \<Rightarrow> None
           | Some (k, t') \<Rightarrow>
               (case jparse f t' of
                  None \<Rightarrow> None
                | Some (v, u) \<Rightarrow> map_option (\<lambda>(ms, w). ((k, v) # ms, w)) (jmembers f True u))))"

abbreviation json_fuel :: "string \<Rightarrow> nat" where
  "json_fuel s \<equiv> Suc (2 * length s)"

definition parseJSON :: "string \<Rightarrow> json option" where
  "parseJSON s =
     (case jparse (json_fuel s) s of
        Some (v, r) \<Rightarrow> if skipWS r = [] then Some v else None
      | None \<Rightarrow> None)"

text \<open>The scanner refuses more than 10000 open brackets.\<close>

fun jdepth :: "json \<Rightarrow> nat" where
  "jdepth (JArr vs) = Suc (fold max (map jdepth vs) 0)"
| "jdepth (JObj ms) = Suc (fold max (map (\<lambda>(k, v). jdepth v) ms) 0)"
| "jdepth _ = 0"

definition json_decode :: "string \<Rightarrow> json option" where
  "json_decode s =
     (case parseJSON s of Some v \<Rightarrow> if jdepth v \<le> 10000 then Some v else None | None \<Rightarrow> None)"

definition json_Valid :: "string \<Rightarrow> bool" where
  "json_Valid s \<longleftrightarrow> json_decode s \<noteq> None"

text \<open>\<open>json.Compact\<close> drops the white space outside strings of a valid text.\<close>

fun stripWS :: "bool \<Rightarrow> string \<Rightarrow> string" where
  "stripWS inStr [] = []"
| "stripWS False (c # s) =
     (if isWS c then stripWS False s else c # stripWS (c = quote_ch) s)"
| "stripWS True (c # s) =
     (if c = backslash_ch then (case s of [] \<Rightarrow> [c] | e # t \<Rightarrow> c # e # stripWS True t)
      else c # stripWS (c \<noteq> quote_ch) s)"

definition json_Compact :: "string \<Rightarrow> string option" where
  "json_Compact s = (if json_Valid s then Some (stripWS False s) else None)"

section \<open>Progress and fuel\<close>

lemma length_skipWS: "length (skipWS s) \<le> length s"
  by (rule length_dropWhile_le)

lemma scanStr_less: "scanStr s = Some (b, r) \<Longrightarrow> length r < length s"
proof (induction s arbitrary: b r rule: length_induct)
  case (1 s)
  have IH: "length r < length t" if "scanStr t = Some (b, r)" "length t < length s" for t b r
    using 1(1) that by blast
  from 1(2) show ?case
    by (cases s) (auto simp: scanStr.simps split: if_splits list.splits dest!: IH)
qed

lemma scanDigits_less: "scanDigits s = Some (d, r) \<Longrightarrow> length r < length s"
  by (cases s) (auto simp: scanDigits_def Let_def less_Suc_eq_le length_dropWhile_le split: if_splits)

lemma scanInt_less: "scanInt s = Some (d, r) \<Longrightarrow> length r < length s"
  by (auto simp: scanInt_def dest: scanDigits_less split: list.splits if_splits)

lemma scanFrac_le: "scanFrac s = Some (d, r) \<Longrightarrow> length r \<le> length s"
  by (auto simp: scanFrac_def dest: scanDigits_less split: list.splits if_splits)

lemma scanExp_le: "scanExp s = Some (d, r) \<Longrightarrow> length r \<le> length s"
  by (auto simp: scanExp_def dest: scanDigits_less split: list.splits if_splits)

lemma scanNum_less: "scanNum s = Some (d, r) \<Longrightarrow> length r < length s"
  by (fastforce simp: scanNum_def Let_def dest!: scanInt_less scanFrac_le scanExp_le
      split: list.splits if_splits option.splits prod.splits)

lemma scanScalar_less: "scanScalar s = Some (v, r) \<Longrightarrow> length r < length s"
  by (auto simp: scanScalar_def hasPrefix_iff dest: scanStr_less scanNum_less
      split: list.splits if_splits)

lemma scanKey_less: "scanKey s = Some (k, r) \<Longrightarrow> length r < length s"
proof -
  assume "scanKey s = Some (k, r)"
  then obtain t b u where "skipWS s = quote_ch # t" "scanStr t = Some (b, u)"
    "skipWS u = CHR '':'' # r"
    by (auto simp: scanKey_def split: list.splits if_splits option.splits)
  moreover have "length (skipWS s) \<le> length s" "length (skipWS u) \<le> length u"
    by (rule length_skipWS)+
  ultimately show ?thesis by (auto dest!: scanStr_less)
qed

lemma nextItem_le: "nextItem c started s = Some (b, r) \<Longrightarrow> length r \<le> length s \<and> (\<not> b \<longrightarrow> length r < length s)"
  by (cases "skipWS s") (use length_skipWS [of s] in \<open>auto simp: nextItem_def length_dropWhile_le split: if_splits\<close>)

lemma jread_less:
  "(jparse f s = Some (v, r) \<longrightarrow> length r < length s) \<and>
   (jelems f st s = Some (vs, r) \<longrightarrow> length r < length s) \<and>
   (jmembers f st s = Some (ms, r) \<longrightarrow> length r < length s)"
proof (induction f arbitrary: s st v vs ms r)
  case (Suc f)
  have p: "jparse f s = Some (v, r) \<Longrightarrow> length r < length s"
    and e: "jelems f st s = Some (vs, r) \<Longrightarrow> length r < length s"
    and m: "jmembers f st s = Some (ms, r) \<Longrightarrow> length r < length s" for s st v vs ms r
    using Suc by blast+
  have 1: "length r < length s" if "jparse (Suc f) s = Some (v, r)" for s v r
  proof -
    from that obtain c t where w: "skipWS s = c # t" by (auto split: list.splits)
    have "length (c # t) \<le> length s" using length_skipWS [of s] w by simp
    with that w show ?thesis
      by (auto split: if_splits dest!: e m scanScalar_less)
  qed
  have 2: "length r < length s" if "jelems (Suc f) st s = Some (vs, r)" for s st vs r
    using that by (auto split: option.splits bool.splits dest!: nextItem_le p e)
  have 3: "length r < length s" if "jmembers (Suc f) st s = Some (ms, r)" for s st ms r
    using that by (auto split: option.splits bool.splits dest!: nextItem_le p m scanKey_less)
  from 1 2 3 show ?case by blast
qed simp

lemmas jparse_less = jread_less [THEN conjunct1, rule_format]

text \<open>The result does not depend on the fuel once it exceeds twice the length.\<close>

lemma jread_fuel:
  "(2 * length s < f \<longrightarrow> 2 * length s < g \<longrightarrow> jparse f s = jparse g s) \<and>
   (2 * length s + 1 < f \<longrightarrow> 2 * length s + 1 < g \<longrightarrow> jelems f st s = jelems g st s) \<and>
   (2 * length s + 1 < f \<longrightarrow> 2 * length s + 1 < g \<longrightarrow> jmembers f st s = jmembers g st s)"
proof (induction f arbitrary: s st g)
  case (Suc f)
  have p: "2 * length s < f \<Longrightarrow> 2 * length s < g \<Longrightarrow> jparse f s = jparse g s"
    and e: "2 * length s + 1 < f \<Longrightarrow> 2 * length s + 1 < g \<Longrightarrow> jelems f st s = jelems g st s"
    and m: "2 * length s + 1 < f \<Longrightarrow> 2 * length s + 1 < g \<Longrightarrow> jmembers f st s = jmembers g st s"
    for s st g using Suc by blast+
  have 1: "jparse (Suc f) s = jparse g s" if "2 * length s < Suc f" "2 * length s < g" for s g
  proof (cases "skipWS s")
    case Nil
    with that show ?thesis by (cases g) (auto simp del: dropWhile_eq_Nil_conv)
  next
    case (Cons c t)
    then have "length (c # t) \<le> length s" using length_skipWS [of s] by simp
    with that have "2 * length t + 1 < f" "2 * length t + 1 < g - 1" by auto
    with that Cons show ?thesis using e [of t "g - 1"] m [of t "g - 1"] by (cases g) auto
  qed
  have 2: "jelems (Suc f) st s = jelems g st s"
    if "2 * length s + 1 < Suc f" "2 * length s + 1 < g" for s st g
  proof (cases "nextItem (CHR '']'') st s")
    case None
    with that show ?thesis by (cases g) auto
  next
    case (Some bt)
    obtain b t where bt: "bt = (b, t)" by (cases bt)
    obtain g' where g: "g = Suc g'" using \<open>2 * length s + 1 < g\<close> by (cases g) auto
    from Some bt have "length t \<le> length s" using nextItem_le by blast
    with that g have t: "2 * length t < f" "2 * length t < g'" by auto
    then have "jparse f t = jparse g' t" by (rule p)
    moreover have "jelems f True u = jelems g' True u" if "jparse g' t = Some (v, u)" for v u
      using jparse_less [OF that] t by (intro e) auto
    ultimately show ?thesis using Some bt g by (auto split: bool.splits option.splits)
  qed
  have 3: "jmembers (Suc f) st s = jmembers g st s"
    if "2 * length s + 1 < Suc f" "2 * length s + 1 < g" for s st g
  proof (cases "nextItem (CHR ''}'') st s")
    case None
    with that show ?thesis by (cases g) auto
  next
    case (Some bt)
    obtain b t where bt: "bt = (b, t)" by (cases bt)
    obtain g' where g: "g = Suc g'" using \<open>2 * length s + 1 < g\<close> by (cases g) auto
    from Some bt have t: "length t \<le> length s" using nextItem_le by blast
    have k: "jparse f u = jparse g' u" "2 * length u < f" "2 * length u < g'"
      if "scanKey t = Some (k, u)" for k u
      using scanKey_less [OF that] t \<open>2 * length s + 1 < Suc f\<close> \<open>2 * length s + 1 < g\<close> g
      by (auto intro!: p)
    have "jmembers f True w = jmembers g' True w"
      if "scanKey t = Some (k, u)" "jparse g' u = Some (v, w)" for k u v w
      using jparse_less [OF that(2)] k(2,3) [OF that(1)] by (intro m) auto
    then show ?thesis using Some bt g k(1) by (auto split: bool.splits option.splits)
  qed
  from 1 2 3 show ?case by blast
qed simp

lemma jparse_fuel: "2 * length s < f \<Longrightarrow> jparse f s = jparse (json_fuel s) s"
  using jread_fuel [of s f "json_fuel s"] by simp

end
