(* ===== verification/Json_Raw.thy ===== *)
theory Json_Raw
  imports Go_Json "HOL-Library.Sublist"
begin

text \<open>
  Decoding an object into raw members: \<open>json.Unmarshal\<close> into a \<open>map[string]json.RawMessage\<close>, which
  keeps the source text of every member. The lemmas show that the readers of \<open>Go_Json\<close> consume a
  prefix, that what follows a value does not influence how it is read, and hence that the kept text
  of a member parses to the member's value (\<open>rawObject_parse\<close>).
\<close>

section \<open>Raw members\<close>

definition rawText :: "string \<Rightarrow> string \<Rightarrow> string" where
  "rawText s rest = take (length (skipWS s) - length rest) (skipWS s)"

fun rawMembers :: "nat \<Rightarrow> bool \<Rightarrow> string \<Rightarrow> ((string \<times> string) list \<times> string) option" where
  "rawMembers 0 started s = None"
| "rawMembers (Suc f) started s =
     (case nextItem (CHR ''}'') started s of
        None \<Rightarrow> None
      | Some (False, t) \<Rightarrow> Some ([], t)
      | Some (True, t) \<Rightarrow>
          (case scanKey t of
             None \<Rightarrow> None
           | Some (k, t') \<Rightarrow>
               (case jparse f t' of
                  None \<Rightarrow> None
                | Some (v, u) \<Rightarrow>
                    map_option (\<lambda>(ms, w). ((k, rawText t' u) # ms, w)) (rawMembers f True u))))"

text \<open>
  A JSON null leaves the destination map nil; any other value that is not an object is a type
  error. A repeated key overwrites the earlier entry.
\<close>

definition rawObject :: "string \<Rightarrow> (string \<times> string) list option" where
  "rawObject s =
     (case json_decode s of
        Some (JObj ms) \<Rightarrow>
          (case skipWS s of
             c # r \<Rightarrow> map_option fst (rawMembers (2 * length s) False r)
           | [] \<Rightarrow> None)
      | Some JNull \<Rightarrow> Some []
      | _ \<Rightarrow> None)"

definition rawLookup :: "(string \<times> string) list \<Rightarrow> string \<Rightarrow> string option" where
  "rawLookup ms k = map_of (rev ms) k"

section \<open>Readers consume a prefix\<close>

named_theorems suffix_intros \<open>the rest of a reader is a suffix of its input\<close>

lemma suffix_skipWS [suffix_intros]: "suffix (skipWS s) s"
  by (rule suffix_dropWhile)

lemma scanStr_suffix: "scanStr s = Some (b, r) \<Longrightarrow> suffix r s"
proof (induction s arbitrary: b r rule: length_induct)
  case (1 s)
  have IH: "suffix r t" if "scanStr t = Some (b, r)" "length t < length s" for t b r
    using 1(1) that by blast
  from 1(2) show ?case
    by (cases s) (auto simp: scanStr.simps split: if_splits list.splits dest!: IH simp: suffix_Cons)
qed

lemma scanDigits_suffix: "scanDigits s = Some (d, r) \<Longrightarrow> suffix r s"
  by (auto simp: scanDigits_def Let_def suffix_dropWhile split: if_splits)

lemma scanInt_suffix: "scanInt s = Some (d, r) \<Longrightarrow> suffix r s"
  by (auto simp: scanInt_def dest: scanDigits_suffix intro: suffix_ConsI split: list.splits if_splits)

lemma scanFrac_suffix: "scanFrac s = Some (d, r) \<Longrightarrow> suffix r s"
  by (auto simp: scanFrac_def dest: scanDigits_suffix intro: suffix_ConsI split: list.splits if_splits)

lemma scanExp_suffix: "scanExp s = Some (d, r) \<Longrightarrow> suffix r s"
  by (auto simp: scanExp_def dest!: scanDigits_suffix intro: suffix_ConsI split: list.splits if_splits)

lemma scanNum_suffix: "scanNum s = Some (d, r) \<Longrightarrow> suffix r s"
  by (auto simp: scanNum_def Let_def split: list.splits if_splits option.splits prod.splits
      dest!: scanInt_suffix scanFrac_suffix scanExp_suffix
      intro: suffix_order.trans suffix_ConsI)

lemma scanScalar_suffix: "scanScalar s = Some (v, r) \<Longrightarrow> suffix r s"
  by (auto simp: scanScalar_def hasPrefix_iff suffix_Cons dest: scanStr_suffix scanNum_suffix
      split: list.splits if_splits)

lemma scanKey_suffix: "scanKey s = Some (k, r) \<Longrightarrow> suffix r s"
proof -
  assume "scanKey s = Some (k, r)"
  then obtain t b u where k: "skipWS s = quote_ch # t" "scanStr t = Some (b, u)"
    "skipWS u = CHR '':'' # r"
    by (auto simp: scanKey_def split: list.splits if_splits option.splits)
  have "suffix r (skipWS u)" unfolding k(3) by (simp add: suffix_ConsI)
  moreover have "suffix (skipWS u) u" by (rule suffix_skipWS)
  moreover have "suffix u t" using k(2) by (rule scanStr_suffix)
  moreover have "suffix t (skipWS s)" unfolding k(1) by (simp add: suffix_ConsI)
  moreover have "suffix (skipWS s) s" by (rule suffix_skipWS)
  ultimately show ?thesis by (blast intro: suffix_order.trans)
qed

lemma nextItem_suffix: "nextItem c started s = Some (b, r) \<Longrightarrow> suffix r s"
proof -
  assume "nextItem c started s = Some (b, r)"
  then have "suffix r (skipWS s)"
    by (cases "skipWS s") (auto simp: nextItem_def suffix_ConsI split: if_splits)
  then show ?thesis using suffix_skipWS [of s] by (rule suffix_order.trans)
qed

lemma jread_suffix:
  "(jparse f s = Some (v, r) \<longrightarrow> suffix r (skipWS s)) \<and>
   (jelems f st s = Some (vs, r) \<longrightarrow> suffix r s) \<and>
   (jmembers f st s = Some (ms, r) \<longrightarrow> suffix r s)"
proof (induction f arbitrary: s st v vs ms r)
  case (Suc f)
  have p: "suffix r s" if "jparse f s = Some (v, r)" for s v r
    using Suc that suffix_skipWS suffix_order.trans by blast
  have e: "jelems f st s = Some (vs, r) \<Longrightarrow> suffix r s"
    and m: "jmembers f st s = Some (ms, r) \<Longrightarrow> suffix r s" for s st vs ms r
    using Suc by blast+
  have 1: "suffix r (skipWS s)" if "jparse (Suc f) s = Some (v, r)" for s v r
    using that by (auto split: list.splits if_splits dest!: e m scanScalar_suffix intro: suffix_ConsI)
  have 2: "suffix r s" if "jelems (Suc f) st s = Some (vs, r)" for s st vs r
    using that by (auto split: option.splits bool.splits dest!: nextItem_suffix p e
        intro: suffix_order.trans)
  have 3: "suffix r s" if "jmembers (Suc f) st s = Some (ms, r)" for s st ms r
    using that by (auto split: option.splits bool.splits dest!: nextItem_suffix scanKey_suffix p m)
      (meson suffix_order.trans)
  from 1 2 3 show ?case by blast
qed simp

lemmas jparse_suffix = jread_suffix [THEN conjunct1, rule_format]
  and jelems_suffix = jread_suffix [THEN conjunct2, THEN conjunct1, rule_format]
  and jmembers_suffix = jread_suffix [THEN conjunct2, THEN conjunct2, rule_format]

section \<open>What follows a value does not matter\<close>

lemma between_suffixes:
  assumes "suffix t (s @ z)" "suffix (r @ z) t"
  obtains t' where "t = t' @ z" "suffix t' s" "suffix r t'"
proof -
  from assms(2) obtain q where q: "t = q @ r @ z" by (auto simp: suffix_def)
  from assms(1) obtain p where "s @ z = p @ t" by (auto simp: suffix_def)
  with q have "s = p @ q @ r" by simp
  then show thesis using that [of "q @ r"] q by (auto simp: suffix_def)
qed

lemma dropWhile_trunc: "dropWhile P (s @ z) = r @ z \<Longrightarrow> dropWhile P s = r"
proof (induction s)
  case Nil
  then have "length (r @ z) \<le> length z" by (metis append_Nil length_dropWhile_le)
  then show ?case by simp
qed (simp split: if_splits)

lemma scanStr_prefix: "scanStr s = Some (b, r) \<Longrightarrow> \<exists>p. s = p @ r \<and> (\<forall>z. scanStr (p @ z) = Some (b, z))"
proof (induction s arbitrary: b r rule: length_induct)
  case (1 s)
  have IH: "\<exists>p. t = p @ r \<and> (\<forall>z. scanStr (p @ z) = Some (b, z))"
    if "scanStr t = Some (b, r)" "length t < length s" for t b r
    using 1(1) that by blast
  from 1(2) obtain c s' where s: "s = c # s'" by (cases s) auto
  consider "c = quote_ch" | "c \<noteq> quote_ch" "c \<noteq> backslash_ch"
    | e t where "c = backslash_ch" "s' = e # t" "isEscape e"
    | e h1 h2 h3 h4 u where "c = backslash_ch" "s' = e # h1 # h2 # h3 # h4 # u" "\<not> isEscape e"
    using 1(2) s by (auto simp: scanStr.simps split: if_splits list.splits)
  then show ?case
  proof cases
    case 1
    with s \<open>scanStr s = Some (b, r)\<close> show ?thesis
      by (intro exI [of _ "[c]"]) (simp add: scanStr.simps)
  next
    case 2
    with s \<open>scanStr s = Some (b, r)\<close> obtain b' where b: "scanStr s' = Some (b', r)" "b = c # b'" "\<not> byte c < 32"
      by (auto simp: scanStr.simps split: if_splits)
    with IH s obtain p where "s' = p @ r" "\<forall>z. scanStr (p @ z) = Some (b', z)" by force
    with 2 b s show ?thesis by (intro exI [of _ "c # p"]) (simp add: scanStr.simps)
  next
    case 3
    with s \<open>scanStr s = Some (b, r)\<close> obtain b' where b: "scanStr t = Some (b', r)" "b = c # e # b'"
      by (auto simp: scanStr.simps split: if_splits)
    with IH s 3 obtain p where "t = p @ r" "\<forall>z. scanStr (p @ z) = Some (b', z)" by force
    with 3 b s show ?thesis by (intro exI [of _ "c # e # p"]) (simp add: scanStr.simps)
  next
    case 4
    with s \<open>scanStr s = Some (b, r)\<close> obtain b' where
      b: "scanStr u = Some (b', r)" "b = c # e # h1 # h2 # h3 # h4 # b'" "e = CHR ''u''"
        "isHex h1 \<and> isHex h2 \<and> isHex h3 \<and> isHex h4"
      by (auto simp: scanStr.simps split: if_splits)
    with IH s 4 obtain p where "u = p @ r" "\<forall>z. scanStr (p @ z) = Some (b', z)" by force
    with 4 b s show ?thesis
      by (intro exI [of _ "c # e # h1 # h2 # h3 # h4 # p"]) (simp add: scanStr.simps)
  qed
qed

lemma scanStr_trunc: "scanStr (s @ z) = Some (b, r @ z) \<Longrightarrow> scanStr s = Some (b, r)"
  using scanStr_prefix by fastforce

lemma scanDigits_trunc: "scanDigits (s @ z) = Some (d, r @ z) \<Longrightarrow> scanDigits s = Some (d, r)"
proof -
  assume a: "scanDigits (s @ z) = Some (d, r @ z)"
  then have d: "d = takeWhile isDigit (s @ z)" "dropWhile isDigit (s @ z) = r @ z" "d \<noteq> []"
    by (auto simp: scanDigits_def Let_def split: if_splits)
  then have r: "dropWhile isDigit s = r" by (blast dest: dropWhile_trunc)
  have "d @ r @ z = s @ z" using d takeWhile_dropWhile_id by metis
  moreover have "takeWhile isDigit s @ r = s" using r takeWhile_dropWhile_id by metis
  ultimately have "takeWhile isDigit s = d" by (metis append_assoc append_same_eq)
  with r d show ?thesis by (simp add: scanDigits_def)
qed

lemmas scanDigits_trunc_Cons = scanDigits_trunc [of "c # s" for c s, simplified]

lemma scanInt_trunc: "scanInt (s @ z) = Some (d, r @ z) \<Longrightarrow> scanInt s = Some (d, r)"
proof (cases s)
  case Nil
  then show "scanInt (s @ z) = Some (d, r @ z) \<Longrightarrow> ?thesis" by (auto dest!: scanInt_less)
qed (auto simp: scanInt_def dest: scanDigits_trunc_Cons split: if_splits)

lemma scanFrac_trunc: "scanFrac (s @ z) = Some (d, r @ z) \<Longrightarrow> scanFrac s = Some (d, r)"
proof (cases s)
  case Nil
  then show "scanFrac (s @ z) = Some (d, r @ z) \<Longrightarrow> ?thesis"
    by (auto simp: scanFrac_def dest!: scanDigits_less split: if_splits list.splits)
qed (auto simp: scanFrac_def dest: scanDigits_trunc split: if_splits)

lemma scanExp_trunc: "scanExp (s @ z) = Some (d, r @ z) \<Longrightarrow> scanExp s = Some (d, r)"
proof (cases s)
  case Nil
  then show "scanExp (s @ z) = Some (d, r @ z) \<Longrightarrow> ?thesis"
    by (auto simp: scanExp_def dest!: scanDigits_less split: if_splits list.splits)
next
  case (Cons c s')
  assume "scanExp (s @ z) = Some (d, r @ z)"
  with Cons show ?thesis
  proof (cases s')
    case Nil
    with Cons \<open>scanExp (s @ z) = Some (d, r @ z)\<close> show ?thesis
      by (auto simp: scanExp_def dest!: scanDigits_less split: if_splits list.splits)
  qed (auto simp: scanExp_def dest: scanDigits_trunc scanDigits_trunc_Cons split: if_splits)
qed

lemma scanUnsigned_trunc:
  assumes "scanInt (s @ z) = Some (i, s2)" "scanFrac s2 = Some (f, s3)" "scanExp s3 = Some (e, r @ z)"
  shows "\<exists>t2 t3. scanInt s = Some (i, t2) \<and> scanFrac t2 = Some (f, t3) \<and> scanExp t3 = Some (e, r)"
proof -
  have sf: "suffix s2 (s @ z)" "suffix s3 s2" "suffix (r @ z) s3"
    using assms by (blast dest: scanInt_suffix scanFrac_suffix scanExp_suffix)+
  then obtain t2 where "s2 = t2 @ z" by (meson between_suffixes suffix_order.trans)
  moreover obtain t3 where "s3 = t3 @ z" using sf by (meson between_suffixes suffix_order.trans)
  ultimately show ?thesis using assms scanInt_trunc scanFrac_trunc scanExp_trunc by blast
qed

lemma scanNum_trunc: "scanNum (s @ z) = Some (d, r @ z) \<Longrightarrow> scanNum s = Some (d, r)"
proof (cases s)
  case Nil
  then show "scanNum (s @ z) = Some (d, r @ z) \<Longrightarrow> ?thesis" by (auto dest!: scanNum_less)
next
  case (Cons c s')
  assume "scanNum (s @ z) = Some (d, r @ z)"
  then show ?thesis
    using Cons scanUnsigned_trunc [of s' z] scanUnsigned_trunc [of s z]
    by (fastforce simp: scanNum_def split: if_splits option.splits)
qed

lemma hasPrefix_trunc:
  "hasPrefix (s @ z) p \<Longrightarrow> drop n (s @ z) = r @ z \<Longrightarrow> length p = n \<Longrightarrow> hasPrefix s p \<and> drop n s = r"
  by (metis append_assoc append_eq_conv_conj append_same_eq hasPrefix_iff)

lemma scanScalar_trunc: "scanScalar (s @ z) = Some (v, r @ z) \<Longrightarrow> scanScalar s = Some (v, r)"
proof (cases s)
  case Nil
  then show "scanScalar (s @ z) = Some (v, r @ z) \<Longrightarrow> ?thesis" by (auto dest!: scanScalar_less)
next
  case (Cons c s')
  assume a: "scanScalar (s @ z) = Some (v, r @ z)"
  have mono: "hasPrefix (s @ z) p" if "hasPrefix s p" for p using that by (auto simp: hasPrefix_iff)
  have word: "hasPrefix s p \<and> drop n s = r"
    if "hasPrefix (s @ z) p" "drop n (s @ z) = r @ z" "length p = n" for p n
    using that by (rule hasPrefix_trunc)
  consider "c = quote_ch"
    | "c \<noteq> quote_ch" "hasPrefix (s @ z) ''true''"
    | "c \<noteq> quote_ch" "\<not> hasPrefix (s @ z) ''true''" "hasPrefix (s @ z) ''false''"
    | "c \<noteq> quote_ch" "\<not> hasPrefix (s @ z) ''true''" "\<not> hasPrefix (s @ z) ''false''"
      "hasPrefix (s @ z) ''null''"
    | "c \<noteq> quote_ch" "\<not> hasPrefix (s @ z) ''true''" "\<not> hasPrefix (s @ z) ''false''"
      "\<not> hasPrefix (s @ z) ''null''"
    by blast
  then show ?thesis
  proof cases
    case 1
    with a Cons show ?thesis by (auto simp: scanScalar_def dest!: scanStr_trunc)
  next
    case 2
    with a Cons have "v = JBool True" "drop 4 (s @ z) = r @ z" by (auto simp: scanScalar_def)
    with word [of "''true''" 4] 2 Cons show ?thesis by (simp add: scanScalar_def)
  next
    case 3
    with a Cons have "v = JBool False" "drop 5 (s @ z) = r @ z" by (auto simp: scanScalar_def)
    with word [of "''false''" 5] 3 mono [of "''true''"] Cons show ?thesis by (simp add: scanScalar_def)
  next
    case 4
    with a Cons have "v = JNull" "drop 4 (s @ z) = r @ z" by (auto simp: scanScalar_def)
    with word [of "''null''" 4] 4 mono [of "''true''"] mono [of "''false''"] Cons
    show ?thesis by (simp add: scanScalar_def)
  next
    case 5
    with a Cons obtain d where "v = JNum d" "scanNum (s @ z) = Some (d, r @ z)"
      by (auto simp: scanScalar_def simp del: hasPrefix.simps)
    moreover from this have "scanNum s = Some (d, r)" by (blast dest: scanNum_trunc)
    ultimately show ?thesis
      using 5 mono [of "''true''"] mono [of "''false''"] mono [of "''null''"] Cons
      by (auto simp: scanScalar_def simp del: hasPrefix.simps)
  qed
qed

lemma scanKey_trunc: "scanKey (s @ z) = Some (k, r @ z) \<Longrightarrow> scanKey s = Some (k, r)"
proof -
  assume "scanKey (s @ z) = Some (k, r @ z)"
  then obtain t b u where k: "skipWS (s @ z) = quote_ch # t" "scanStr t = Some (b, u)"
    "skipWS u = CHR '':'' # r @ z" "k = unquote b"
    by (auto simp: scanKey_def split: list.splits if_splits option.splits)
  have sf: "suffix (r @ z) u" "suffix u t"
    using suffix_skipWS [of u] k(2,3) by (auto simp: suffix_ConsD dest: scanStr_suffix)
  moreover have "suffix t (s @ z)" using suffix_skipWS [of "s @ z"] k(1) by (simp add: suffix_ConsD)
  ultimately obtain t' u' where tu: "t = t' @ z" "u = u' @ z"
    by (meson between_suffixes suffix_order.trans)
  have "skipWS s = quote_ch # t'" using k(1) tu dropWhile_trunc [of isWS s z "quote_ch # t'"] by simp
  moreover have "scanStr t' = Some (b, u')" using k(2) tu scanStr_trunc by blast
  moreover have "skipWS u' = CHR '':'' # r" using k(3) tu dropWhile_trunc [of isWS u' z "CHR '':'' # r"] by simp
  ultimately show ?thesis using k(4) by (simp add: scanKey_def)
qed

lemma nextItem_trunc:
  assumes a: "nextItem c st (s @ z) = Some (b, r @ z)" and "b \<Longrightarrow> r \<noteq> []"
  shows "nextItem c st s = Some (b, r)"
proof -
  obtain d t where w: "skipWS (s @ z) = d # t" "d # t = r @ z \<and> r \<noteq> [] \<or> t = r @ z"
    using assms by (cases "skipWS (s @ z)") (auto simp: nextItem_def split: if_splits)
  then obtain t' where t': "skipWS (s @ z) = (d # t') @ z" "t = t' @ z"
    by (auto simp: Cons_eq_append_conv)
  then have "skipWS s = d # t'" by (blast dest: dropWhile_trunc)
  then show ?thesis using a t' by (auto simp: nextItem_def split: if_splits)
qed

lemma jread_trunc:
  "(jparse f (s @ z) = Some (v, r @ z) \<longrightarrow> jparse f s = Some (v, r)) \<and>
   (jelems f st (s @ z) = Some (vs, r @ z) \<longrightarrow> jelems f st s = Some (vs, r)) \<and>
   (jmembers f st (s @ z) = Some (ms, r @ z) \<longrightarrow> jmembers f st s = Some (ms, r))"
proof (induction f arbitrary: s st v vs ms r)
  case (Suc f)
  have p: "jparse f (s @ z) = Some (v, r @ z) \<Longrightarrow> jparse f s = Some (v, r)"
    and e: "jelems f st (s @ z) = Some (vs, r @ z) \<Longrightarrow> jelems f st s = Some (vs, r)"
    and m: "jmembers f st (s @ z) = Some (ms, r @ z) \<Longrightarrow> jmembers f st s = Some (ms, r)"
    for s st v vs ms r using Suc by blast+
  have sfx: "suffix r s" if "jparse f s = Some (v, r)" for s v r
    using jparse_suffix [OF that] suffix_skipWS suffix_order.trans by blast
  have 1: "jparse (Suc f) s = Some (v, r)" if a: "jparse (Suc f) (s @ z) = Some (v, r @ z)" for s v r
  proof -
    obtain c t where w: "skipWS (s @ z) = c # t" using a by (auto split: list.splits)
    have "length (r @ z) < length (c # t)" using a w
      by (auto split: if_splits dest!: jelems_suffix jmembers_suffix scanScalar_less
          dest: suffix_length_le)
    moreover have "suffix (r @ z) (c # t)" using jparse_suffix [OF a] w by simp
    ultimately obtain t' where t': "t = t' @ z"
      by (auto simp: suffix_def Cons_eq_append_conv)
    then have "skipWS s = c # t'" using w dropWhile_trunc [of isWS s z "c # t'"] by simp
    then show ?thesis using a w t'
      by (auto split: if_splits dest!: e m scanScalar_trunc [of "c # t'", simplified])
  qed
  have 2: "jelems (Suc f) st s = Some (vs, r)" if a: "jelems (Suc f) st (s @ z) = Some (vs, r @ z)" for s st vs r
  proof -
    consider "nextItem (CHR '']'') st (s @ z) = Some (False, r @ z)" "vs = []"
      | t v u vs' where "nextItem (CHR '']'') st (s @ z) = Some (True, t)" "jparse f t = Some (v, u)"
          "jelems f True u = Some (vs', r @ z)" "vs = v # vs'"
      using a by (auto split: option.splits bool.splits)
    then show ?thesis
    proof cases
      case 1
      then show ?thesis using nextItem_trunc [OF 1(1)] by simp
    next
      case 2
      have "suffix t (s @ z)" "suffix u t" "suffix (r @ z) u"
        using 2 by (blast dest: nextItem_suffix sfx jelems_suffix)+
      then obtain t' u' where tu: "t = t' @ z" "u = u' @ z"
        by (meson between_suffixes suffix_order.trans)
      moreover have "t' \<noteq> []" using jparse_less [OF 2(2)] tu by auto
      ultimately have "nextItem (CHR '']'') st s = Some (True, t')" "jparse f t' = Some (v, u')"
        "jelems f True u' = Some (vs', r)"
        using 2 nextItem_trunc p e by blast+
      then show ?thesis using 2(4) by simp
    qed
  qed
  have 3: "jmembers (Suc f) st s = Some (ms, r)" if a: "jmembers (Suc f) st (s @ z) = Some (ms, r @ z)" for s st ms r
  proof -
    consider "nextItem (CHR ''}'') st (s @ z) = Some (False, r @ z)" "ms = []"
      | t k q v u ms' where "nextItem (CHR ''}'') st (s @ z) = Some (True, t)" "scanKey t = Some (k, q)"
          "jparse f q = Some (v, u)" "jmembers f True u = Some (ms', r @ z)" "ms = (k, v) # ms'"
      using a by (auto split: option.splits bool.splits)
    then show ?thesis
    proof cases
      case 1
      then show ?thesis using nextItem_trunc [OF 1(1)] by simp
    next
      case 2
      have "suffix t (s @ z)" "suffix q t" "suffix u q" "suffix (r @ z) u"
        using 2 by (blast dest: nextItem_suffix scanKey_suffix sfx jmembers_suffix)+
      then obtain t' q' u' where tu: "t = t' @ z" "q = q' @ z" "u = u' @ z"
        by (meson between_suffixes suffix_order.trans)
      moreover have "t' \<noteq> []" using scanKey_less [OF 2(2)] tu by auto
      ultimately have "nextItem (CHR ''}'') st s = Some (True, t')" "scanKey t' = Some (k, q')"
        "jparse f q' = Some (v, u')" "jmembers f True u' = Some (ms', r)"
        using 2 nextItem_trunc scanKey_trunc p m by blast+
      then show ?thesis using 2(5) by simp
    qed
  qed
  from 1 2 3 show ?case by blast
qed simp

lemmas jparse_trunc = jread_trunc [THEN conjunct1, rule_format]

section \<open>A kept member parses to its value\<close>

lemma jread_mono:
  "(jparse f s = Some (v, r) \<longrightarrow> jparse (Suc f) s = Some (v, r)) \<and>
   (jelems f st s = Some (vs, r) \<longrightarrow> jelems (Suc f) st s = Some (vs, r)) \<and>
   (jmembers f st s = Some (ms, r) \<longrightarrow> jmembers (Suc f) st s = Some (ms, r))"
proof (induction f arbitrary: s st v vs ms r)
  case (Suc f)
  define g where "g = Suc f"
  have p: "jparse f s = Some (v, r) \<Longrightarrow> jparse g s = Some (v, r)"
    and e: "jelems f st s = Some (vs, r) \<Longrightarrow> jelems g st s = Some (vs, r)"
    and m: "jmembers f st s = Some (ms, r) \<Longrightarrow> jmembers g st s = Some (ms, r)"
    for s st v vs ms r using Suc unfolding g_def by blast+
  have 1: "jparse (Suc g) s = Some (v, r)" if "jparse (Suc f) s = Some (v, r)" for s v r
    using that by (cases "skipWS s") (auto simp del: dropWhile_eq_Nil_conv split: if_splits dest!: e m)
  have 2: "jelems (Suc g) st s = Some (vs, r)" if "jelems (Suc f) st s = Some (vs, r)" for s st vs r
    using that by (auto split: option.splits bool.splits dest!: p e)
  have 3: "jmembers (Suc g) st s = Some (ms, r)" if "jmembers (Suc f) st s = Some (ms, r)" for s st ms r
    using that by (auto split: option.splits bool.splits dest!: p m)
  from 1 2 3 show ?case unfolding g_def by blast
qed simp

lemma jparse_mono: "jparse f s = Some (v, r) \<Longrightarrow> f \<le> g \<Longrightarrow> jparse g s = Some (v, r)"
  by (rotate_tac, induction rule: dec_induct) (use jread_mono in blast)+

lemma jparse_json_fuel: "jparse f s = Some (v, r) \<Longrightarrow> jparse (json_fuel s) s = Some (v, r)"
  using jparse_mono [of f s v r "max f (json_fuel s)"] jparse_fuel [of s "max f (json_fuel s)"] by auto

lemma rawText_parse:
  assumes "jparse f t = Some (v, u)"
  shows "parseJSON (rawText t u) = Some v"
proof -
  have w: "jparse f (skipWS t) = Some (v, u)" using assms by (cases f) auto
  then obtain p where p: "skipWS t = p @ u" using jparse_suffix [OF assms] by (auto simp: suffix_def)
  with w have "jparse f p = Some (v, [])" using jparse_trunc [of f p u v "[]"] by simp
  then have "jparse (json_fuel p) p = Some (v, [])" by (rule jparse_json_fuel)
  moreover have "rawText t u = p" by (simp add: rawText_def p)
  ultimately show ?thesis by (simp add: parseJSON_def)
qed

lemma rawMembers_jmembers:
  "jmembers f st s = Some (ms, r) \<Longrightarrow>
     \<exists>rs. rawMembers f st s = Some (rs, r) \<and>
       list_all2 (\<lambda>(k, raw) (k', v). k = k' \<and> parseJSON raw = Some v) rs ms"
proof (induction f arbitrary: st s ms r)
  case (Suc f)
  consider "nextItem (CHR ''}'') st s = Some (False, r)" "ms = []"
    | t k q v u ms' where "nextItem (CHR ''}'') st s = Some (True, t)" "scanKey t = Some (k, q)"
        "jparse f q = Some (v, u)" "jmembers f True u = Some (ms', r)" "ms = (k, v) # ms'"
    using Suc.prems by (auto split: option.splits bool.splits)
  then show ?case
  proof cases
    case 2
    obtain rs where "rawMembers f True u = Some (rs, r)"
      "list_all2 (\<lambda>(k, raw) (k', v). k = k' \<and> parseJSON raw = Some v) rs ms'"
      using Suc.IH [OF 2(4)] by blast
    then show ?thesis using 2 rawText_parse [OF 2(3)] by simp
  qed simp
qed simp

text \<open>
  On a decodable object the raw members are the members of the parse tree, in order, each with a
  text that parses to the member's value.
\<close>

lemma rawObject_parse:
  assumes "json_decode s = Some (JObj ms)"
  obtains rs where "rawObject s = Some rs" "map fst rs = map fst ms"
    "\<And>k raw. (k, raw) \<in> set rs \<Longrightarrow> \<exists>v. (k, v) \<in> set ms \<and> parseJSON raw = Some v"
    "\<And>k v. (k, v) \<in> set ms \<Longrightarrow> \<exists>raw. (k, raw) \<in> set rs \<and> parseJSON raw = Some v"
proof -
  from assms obtain r where "jparse (json_fuel s) s = Some (JObj ms, r)"
    by (auto simp: json_decode_def parseJSON_def split: option.splits if_splits)
  then obtain t where t: "skipWS s = CHR ''{'' # t" "jmembers (2 * length s) False t = Some (ms, r)"
    by (auto simp: scanScalar_def split: list.splits if_splits)
  then obtain rs where rs: "rawMembers (2 * length s) False t = Some (rs, r)"
    and all: "list_all2 (\<lambda>(k, raw) (k', v). k = k' \<and> parseJSON raw = Some v) rs ms"
    using rawMembers_jmembers by blast
  have "map fst rs = map fst ms" using all by (induction rule: list_all2_induct) auto
  moreover have "\<exists>v. (k, v) \<in> set ms \<and> parseJSON raw = Some v" if "(k, raw) \<in> set rs" for k raw
    using all that by (induction rule: list_all2_induct) auto
  moreover have "\<exists>raw. (k, raw) \<in> set rs \<and> parseJSON raw = Some v" if "(k, v) \<in> set ms" for k v
    using all that by (induction rule: list_all2_induct) auto
  ultimately show thesis using that t rs assms by (simp add: rawObject_def)
qed

end
