(* ===== verification/Json_Print.thy ===== *)
theory Json_Print
  imports Json_Raw
begin

text \<open>
  \<open>json.Marshal\<close> on the documents the protocol signs: compact output, object members in field order,
  strings with Go's escapes (HTML-sensitive bytes included), unsigned integers in decimal. For trees
  whose strings need no escape the reader of \<open>Go_Json\<close> recovers the tree from its text
  (\<open>parse_jprint\<close>), so printing such trees is injective.
\<close>

section \<open>Printing\<close>

definition hexByte :: "nat \<Rightarrow> string" where
  "hexByte n = [hexDigit (n div 16), hexDigit (n mod 16)]"

definition escapeU :: "nat \<Rightarrow> string" where
  "escapeU r = backslash_ch # CHR ''u'' # hexByte (r div 256) @ hexByte (r mod 256)"

text \<open>The bytes that \<open>encoding/json\<close> writes as they are (its \<open>htmlSafeSet\<close>).\<close>

definition plainByte :: "char \<Rightarrow> bool" where
  "plainByte c \<longleftrightarrow> 0x20 \<le> byte c \<and> byte c < 0x80 \<and>
     c \<notin> {quote_ch, backslash_ch, CHR ''<'', CHR ''>'', CHR 0x26}"

definition escapeASCII :: "char \<Rightarrow> string" where
  "escapeASCII c =
     (if c = quote_ch \<or> c = backslash_ch then [backslash_ch, c]
      else if c = CHR 0x08 then [backslash_ch, CHR ''b''] else if c = CHR 0x0C then [backslash_ch, CHR ''f'']
      else if c = CHR 0x0A then [backslash_ch, CHR ''n''] else if c = CHR 0x0D then [backslash_ch, CHR ''r'']
      else if c = CHR 0x09 then [backslash_ch, CHR ''t'']
      else escapeU (byte c))"

function encodeString :: "string \<Rightarrow> string" where
  "encodeString s =
     (case s of
        [] \<Rightarrow> []
      | c # t \<Rightarrow>
          if byte c < 0x80 then (if plainByte c then c # encodeString t else escapeASCII c @ encodeString t)
          else let (r, n) = decodeRune s in
            if r = RuneError \<and> n = 1 then escapeU RuneError @ encodeString t
            else if r = 0x2028 \<or> r = 0x2029 then escapeU r @ encodeString (drop (max 1 n) s)
            else take (max 1 n) s @ encodeString (drop (max 1 n) s))"
  by pat_completeness auto
termination by (relation "measure length") auto

declare encodeString.simps [simp del]

definition joinComma :: "string list \<Rightarrow> string" where
  "joinComma xs = (case xs of [] \<Rightarrow> [] | y # ys \<Rightarrow> y @ concat (map (\<lambda>x. CHR '','' # x) ys))"

definition jquote :: "string \<Rightarrow> string" where
  "jquote s = quote_ch # encodeString s @ [quote_ch]"

fun jprint :: "json \<Rightarrow> string" where
  "jprint JNull = ''null''"
| "jprint (JBool b) = (if b then ''true'' else ''false'')"
| "jprint (JNum d) = d"
| "jprint (JStr s) = jquote s"
| "jprint (JArr vs) = ''['' @ joinComma (map jprint vs) @ '']''"
| "jprint (JObj ms) = ''{'' @ joinComma (map (\<lambda>(k, v). jquote k @ '':'' @ jprint v) ms) @ ''}''"

text \<open>Unsigned integers: \<open>strconv.AppendUint\<close> in base ten.\<close>

fun decimal :: "nat \<Rightarrow> string" where
  "decimal n = (if n < 10 then [hexDigit n] else decimal (n div 10) @ [hexDigit (n mod 10)])"

declare decimal.simps [simp del]

lemma decimal_small: "n < 10 \<Longrightarrow> decimal n = [hexDigit n]"
  by (subst decimal.simps) simp

lemma decimal_big: "\<not> n < 10 \<Longrightarrow> decimal n = decimal (n div 10) @ [hexDigit (n mod 10)]"
  by (subst decimal.simps) simp

section \<open>Safe trees\<close>

definition plainText :: "string \<Rightarrow> bool" where
  "plainText s \<longleftrightarrow> (\<forall>c \<in> set s. plainByte c)"

definition decimalText :: "string \<Rightarrow> bool" where
  "decimalText d \<longleftrightarrow> d \<noteq> [] \<and> (\<forall>c \<in> set d. isDigit c) \<and> (d = ''0'' \<or> hd d \<noteq> CHR ''0'')"

fun printable :: "json \<Rightarrow> bool" where
  "printable (JNum d) = decimalText d"
| "printable (JStr s) = plainText s"
| "printable (JArr vs) = list_all printable vs"
| "printable (JObj ms) = list_all (\<lambda>(k, v). plainText k \<and> printable v) ms"
| "printable _ = True"

lemma plainText_simps [simp]: "plainText []" "plainText (c # s) \<longleftrightarrow> plainByte c \<and> plainText s"
  "plainText (s @ t) \<longleftrightarrow> plainText s \<and> plainText t"
  by (auto simp: plainText_def)

lemma encodeString_plain: "plainText s \<Longrightarrow> encodeString s = s"
  by (induction s) (auto simp: encodeString.simps plainByte_def)

lemma unquote_plain: "plainText s \<Longrightarrow> unquote s = s"
proof (induction s)
  case (Cons c s)
  then have "byte c < 128" "c \<noteq> backslash_ch" by (auto simp: plainByte_def)
  then show ?case using Cons by (subst unquote.simps) (simp add: encodeRune_def)
qed (simp add: unquote.simps)

lemma scanStr_plain: "plainText s \<Longrightarrow> scanStr (s @ quote_ch # z) = Some (s, z)"
  by (induction s) (auto simp: scanStr.simps plainByte_def)

lemma hexDigit_isDigit [simp]: "n < 10 \<Longrightarrow> isDigit (hexDigit n)"
  by (simp add: isDigit_def hexDigit_def)

lemma decimal_digits: "\<forall>c \<in> set (decimal n). isDigit c"
proof (induction n rule: decimal.induct)
  case (1 n)
  show ?case
  proof (cases "n < 10")
    case False
    then show ?thesis using 1 by (simp add: decimal_big)
  qed (simp add: decimal_small)
qed

lemma decimal_ne [simp]: "decimal n \<noteq> []" "[] \<noteq> decimal n"
  by (subst decimal.simps, simp)+

lemma hexDigit_zero [simp]: "hexDigit 0 = CHR ''0''"
  by code_simp

lemma hexDigit_0: "n < 10 \<Longrightarrow> hexDigit n = CHR ''0'' \<longleftrightarrow> n = 0"
proof
  assume "n < 10" "hexDigit n = CHR ''0''"
  then have "byte (hexDigit n) = 48" by simp
  with \<open>n < 10\<close> show "n = 0" by (simp add: hexDigit_def)
qed simp

lemma decimal_hd: "0 < n \<Longrightarrow> hd (decimal n) \<noteq> CHR ''0''"
proof (induction n rule: decimal.induct)
  case (1 n)
  show ?case
  proof (cases "n < 10")
    case True
    then show ?thesis using 1(2) by (simp add: decimal_small hexDigit_0)
  next
    case False
    then show ?thesis using 1 by (simp add: decimal_big hd_append)
  qed
qed

lemma decimalText_decimal [simp]: "decimalText (decimal n)"
proof (cases "n = 0")
  case True
  then show ?thesis by (simp add: decimalText_def decimal_small isDigit_def)
next
  case False
  then show ?thesis using decimal_digits decimal_hd by (simp add: decimalText_def)
qed

lemma decimal_inject [simp]: "decimal m = decimal n \<longleftrightarrow> m = n"
proof
  have inj: "a = b" if "hexDigit a = hexDigit b" "a < 10" "b < 10" for a b
  proof -
    have "byte (hexDigit a) = byte (hexDigit b)" using that(1) by simp
    with that(2,3) show ?thesis by (simp add: hexDigit_def)
  qed
  show "m = n" if "decimal m = decimal n" using that
  proof (induction m arbitrary: n rule: decimal.induct)
    case (1 m)
    show ?case
    proof (cases "m < 10 \<or> n < 10")
      case True
      then show ?thesis using 1(2) inj
        by (cases "m < 10"; cases "n < 10") (auto simp: decimal_small decimal_big)
    next
      case False
      then have "decimal (m div 10) = decimal (n div 10)" "hexDigit (m mod 10) = hexDigit (n mod 10)"
        using 1(2) by (auto simp: decimal_big)
      then have "m div 10 = n div 10" "m mod 10 = n mod 10" using 1(1) False inj by auto
      then show ?thesis by (metis div_mult_mod_eq)
    qed
  qed
qed simp

text \<open>What may follow a number without being read as part of it.\<close>

definition endsNumber :: "string \<Rightarrow> bool" where
  "endsNumber z \<longleftrightarrow> (case z of [] \<Rightarrow> True | c # _ \<Rightarrow> c \<in> {CHR '','', CHR '']'', CHR ''}''})"

lemma endsNumber_simps [simp]: "endsNumber []" "endsNumber (CHR '','' # z)" "endsNumber (CHR '']'' # z)"
  "endsNumber (CHR ''}'' # z)"
  by (simp_all add: endsNumber_def)

lemma scanDigits_decimal:
  assumes "d \<noteq> []" "\<forall>c \<in> set d. isDigit c" "endsNumber z"
  shows "scanDigits (d @ z) = Some (d, z)"
proof -
  have "takeWhile isDigit z = []" "dropWhile isDigit z = z"
    using assms(3) by (cases z, auto simp: endsNumber_def isDigit_def)+
  then show ?thesis using assms by (simp add: scanDigits_def)
qed

lemma scanNum_decimal:
  assumes "decimalText d" "endsNumber z"
  shows "scanNum (d @ z) = Some (d, z)"
proof -
  have minus: "c \<noteq> CHR ''-''" if "isDigit c" for c using that by (auto simp: isDigit_def)
  obtain c t where d: "d = c # t" "isDigit c" using assms(1) by (cases d) (auto simp: decimalText_def)
  have "scanInt (d @ z) = Some (d, z)"
  proof (cases "c = CHR ''0''")
    case True
    then show ?thesis using assms(1) d by (auto simp: scanInt_def decimalText_def)
  next
    case False
    then show ?thesis using scanDigits_decimal [OF _ _ assms(2), of d] assms(1) d
      by (simp add: scanInt_def decimalText_def)
  qed
  moreover have "scanFrac z = Some ([], z)" "scanExp z = Some ([], z)"
    using assms(2) by (cases z, auto simp: scanFrac_def scanExp_def endsNumber_def)+
  ultimately show ?thesis using d minus by (simp add: scanNum_def)
qed

section \<open>Reading back what was printed\<close>

lemma jelems_mono: "jelems f st s = Some (vs, r) \<Longrightarrow> f \<le> g \<Longrightarrow> jelems g st s = Some (vs, r)"
  by (rotate_tac, induction rule: dec_induct) (use jread_mono in blast)+

lemma jmembers_mono: "jmembers f st s = Some (ms, r) \<Longrightarrow> f \<le> g \<Longrightarrow> jmembers g st s = Some (ms, r)"
  by (rotate_tac, induction rule: dec_induct) (use jread_mono in blast)+

lemma isWS_simps [simp]: "\<not> isWS (CHR '']'')" "\<not> isWS (CHR ''}'')" "\<not> isWS (CHR '','')" "\<not> isWS (CHR '':'')"
  "\<not> isWS (CHR ''['')" "\<not> isWS (CHR ''{'')" "\<not> isWS quote_ch"
  by (simp_all add: isWS_def)

lemma jprint_hd:
  assumes "printable v"
  obtains c t where "jprint v = c # t" "\<not> isWS c" "c \<noteq> CHR '']''"
proof (cases v)
  case (JBool b)
  then show ?thesis using that by (cases b) (auto simp: isWS_def)
next
  case (JNum d)
  then obtain c t where "d = c # t" "isDigit c" using assms by (cases d) (auto simp: decimalText_def)
  moreover from this have "\<not> isWS c" "c \<noteq> CHR '']''" by (auto simp: isDigit_def isWS_def)
  ultimately show ?thesis using that JNum by auto
qed (use that in \<open>auto simp: isWS_def jquote_def\<close>)

lemma scanKey_jquote: "plainText k \<Longrightarrow> scanKey (jquote k @ CHR '':'' # r) = Some (k, r)"
  by (simp add: scanKey_def jquote_def encodeString_plain scanStr_plain unquote_plain)

abbreviation reads :: "json \<Rightarrow> bool" where
  "reads v \<equiv> \<forall>z. endsNumber z \<longrightarrow> (\<exists>f. jparse f (jprint v @ z) = Some (v, z))"

lemma jelems_tail:
  "\<forall>v \<in> set vs. reads v \<Longrightarrow>
     \<exists>f. jelems f True (concat (map (\<lambda>x. CHR '','' # x) (map jprint vs)) @ CHR '']'' # z) = Some (vs, z)"
proof (induction vs)
  case Nil
  then show ?case by (intro exI [of _ 1]) (simp add: nextItem_def)
next
  case (Cons v vs)
  let ?r = "concat (map (\<lambda>x. CHR '','' # x) (map jprint vs)) @ CHR '']'' # z"
  have "endsNumber ?r" by (cases vs) simp_all
  then obtain f1 f2 where f: "jparse f1 (jprint v @ ?r) = Some (v, ?r)" "jelems f2 True ?r = Some (vs, z)"
    using Cons by auto
  then have "jparse (max f1 f2) (jprint v @ ?r) = Some (v, ?r)" "jelems (max f1 f2) True ?r = Some (vs, z)"
    by (auto intro: jparse_mono jelems_mono)
  then show ?case by (intro exI [of _ "Suc (max f1 f2)"]) (simp add: nextItem_def)
qed

lemma jelems_list:
  assumes "\<forall>v \<in> set vs. reads v" "\<forall>v \<in> set vs. printable v"
  shows "\<exists>f. jelems f False (joinComma (map jprint vs) @ CHR '']'' # z) = Some (vs, z)"
proof (cases vs)
  case Nil
  then show ?thesis by (intro exI [of _ 1]) (simp add: nextItem_def joinComma_def)
next
  case (Cons v vs')
  let ?r = "concat (map (\<lambda>x. CHR '','' # x) (map jprint vs')) @ CHR '']'' # z"
  have "endsNumber ?r" by (cases vs') simp_all
  then obtain f1 where f1: "jparse f1 (jprint v @ ?r) = Some (v, ?r)" using assms(1) Cons by auto
  obtain f2 where "jelems f2 True ?r = Some (vs', z)" using jelems_tail [of vs' z] assms(1) Cons by auto
  then have "jparse (max f1 f2) (jprint v @ ?r) = Some (v, ?r)" "jelems (max f1 f2) True ?r = Some (vs', z)"
    using f1 by (auto intro: jparse_mono jelems_mono)
  moreover obtain c t where "jprint v = c # t" "\<not> isWS c" "c \<noteq> CHR '']''"
    using jprint_hd assms(2) Cons by auto
  ultimately show ?thesis using Cons
    by (intro exI [of _ "Suc (max f1 f2)"]) (simp add: nextItem_def joinComma_def)
qed

abbreviation printMember :: "string \<times> json \<Rightarrow> string" where
  "printMember m \<equiv> (case m of (k, v) \<Rightarrow> jquote k @ '':'' @ jprint v)"

lemma jmembers_tail:
  "\<forall>(k, v) \<in> set ms. reads v \<and> plainText k \<Longrightarrow>
     \<exists>f. jmembers f True (concat (map (\<lambda>x. CHR '','' # x) (map printMember ms)) @ CHR ''}'' # z) = Some (ms, z)"
proof (induction ms)
  case Nil
  then show ?case by (intro exI [of _ 1]) (simp add: nextItem_def)
next
  case (Cons m ms)
  obtain k v where m: "m = (k, v)" by (cases m)
  let ?r = "concat (map (\<lambda>x. CHR '','' # x) (map printMember ms)) @ CHR ''}'' # z"
  have "endsNumber ?r" by (cases ms) simp_all
  then obtain f1 f2 where f: "jparse f1 (jprint v @ ?r) = Some (v, ?r)" "jmembers f2 True ?r = Some (ms, z)"
    using Cons m by auto
  then have "jparse (max f1 f2) (jprint v @ ?r) = Some (v, ?r)" "jmembers (max f1 f2) True ?r = Some (ms, z)"
    by (auto intro: jparse_mono jmembers_mono)
  then show ?case using Cons.prems m scanKey_jquote [of k "jprint v @ ?r"]
    by (intro exI [of _ "Suc (max f1 f2)"]) (simp add: nextItem_def)
qed

lemma jmembers_list:
  assumes "\<forall>(k, v) \<in> set ms. reads v \<and> plainText k"
  shows "\<exists>f. jmembers f False (joinComma (map printMember ms) @ CHR ''}'' # z) = Some (ms, z)"
proof (cases ms)
  case Nil
  then show ?thesis by (intro exI [of _ 1]) (simp add: nextItem_def joinComma_def)
next
  case (Cons m ms')
  obtain k v where m: "m = (k, v)" by (cases m)
  let ?r = "concat (map (\<lambda>x. CHR '','' # x) (map printMember ms')) @ CHR ''}'' # z"
  have "endsNumber ?r" by (cases ms') simp_all
  then obtain f1 where f1: "jparse f1 (jprint v @ ?r) = Some (v, ?r)" using assms Cons m by auto
  obtain f2 where "jmembers f2 True ?r = Some (ms', z)" using jmembers_tail [of ms' z] assms Cons by auto
  then have "jparse (max f1 f2) (jprint v @ ?r) = Some (v, ?r)" "jmembers (max f1 f2) True ?r = Some (ms', z)"
    using f1 by (auto intro: jparse_mono jmembers_mono)
  moreover have "nextItem (CHR ''}'') False (jquote k @ x) = Some (True, jquote k @ x)" for x
    by (simp add: nextItem_def jquote_def)
  ultimately show ?thesis using Cons m assms scanKey_jquote [of k "jprint v @ ?r"]
    by (intro exI [of _ "Suc (max f1 f2)"]) (simp add: joinComma_def)
qed

lemma reads_printable: "printable v \<Longrightarrow> reads v"
proof (induction v)
  case (JNum d)
  show ?case
  proof (intro allI impI)
    fix z assume "endsNumber z"
    then have n: "scanNum (d @ z) = Some (d, z)" using scanNum_decimal JNum by simp
    obtain c t where d: "d = c # t" "isDigit c" using JNum by (cases d) (auto simp: decimalText_def)
    then have "\<not> isWS c" "c \<notin> {CHR ''{'', CHR ''['', quote_ch, CHR ''t'', CHR ''f'', CHR ''n''}"
      by (auto simp: isDigit_def isWS_def)
    then show "\<exists>f. jparse f (jprint (JNum d) @ z) = Some (JNum d, z)"
      using n d by (intro exI [of _ 1]) (simp add: scanScalar_def)
  qed
next
  case (JStr s)
  then show ?case
    by (intro allI impI exI [of _ 1]) (simp add: jquote_def scanScalar_def encodeString_plain scanStr_plain unquote_plain)
next
  case (JArr vs)
  show ?case
  proof (intro allI impI)
    fix z
    have "\<exists>f. jelems f False (joinComma (map jprint vs) @ CHR '']'' # z) = Some (vs, z)"
      using JArr by (intro jelems_list) (auto simp: list_all_iff)
    then obtain f where "jelems f False (joinComma (map jprint vs) @ CHR '']'' # z) = Some (vs, z)" by blast
    then show "\<exists>f. jparse f (jprint (JArr vs) @ z) = Some (JArr vs, z)" by (intro exI [of _ "Suc f"]) simp
  qed
next
  case (JObj ms)
  show ?case
  proof (intro allI impI)
    fix z
    have "reads v" if "(k, v) \<in> set ms" for k v
      using JObj.IH [OF that] JObj.prems that by (auto simp: list_all_iff)
    then have "\<exists>f. jmembers f False (joinComma (map printMember ms) @ CHR ''}'' # z) = Some (ms, z)"
      using JObj.prems by (intro jmembers_list) (auto simp: list_all_iff)
    then obtain f where "jmembers f False (joinComma (map printMember ms) @ CHR ''}'' # z) = Some (ms, z)" by blast
    then show "\<exists>f. jparse f (jprint (JObj ms) @ z) = Some (JObj ms, z)" by (intro exI [of _ "Suc f"]) simp
  qed
qed (auto simp: scanScalar_def isWS_def intro!: exI [of _ 1])

lemma parse_jprint: "printable v \<Longrightarrow> parseJSON (jprint v) = Some v"
proof -
  assume "printable v"
  then have "\<exists>f. jparse f (jprint v @ []) = Some (v, [])"
    by (intro reads_printable [rule_format] endsNumber_simps)
  then obtain f where "jparse f (jprint v) = Some (v, [])" by auto
  then have "jparse (json_fuel (jprint v)) (jprint v) = Some (v, [])" by (rule jparse_json_fuel)
  then show ?thesis by (simp add: parseJSON_def)
qed

lemma jprint_inject: "printable v \<Longrightarrow> printable w \<Longrightarrow> jprint v = jprint w \<longleftrightarrow> v = w"
  by (metis option.inject parse_jprint)

section \<open>Length\<close>

text \<open>A bound on the length of a printed document that needs no escapes to be computed.\<close>

fun jbound :: "json \<Rightarrow> nat" where
  "jbound JNull = 4"
| "jbound (JBool b) = 5"
| "jbound (JNum d) = length d"
| "jbound (JStr s) = 6 * length s + 2"
| "jbound (JArr vs) = 2 + sum_list (map (\<lambda>v. jbound v + 1) vs)"
| "jbound (JObj ms) = 2 + sum_list (map (\<lambda>(k, v). 6 * length k + jbound v + 4) ms)"

lemma encodeString_length: "length (encodeString s) \<le> 6 * length s"
proof (induction s rule: encodeString.induct)
  case (1 s)
  have esc: "length (escapeASCII c) \<le> 6" "length (escapeU r) = 6" for c r
    by (simp_all add: escapeASCII_def escapeU_def hexByte_def)
  show ?case
  proof (cases s)
    case (Cons c t)
    obtain r n where rn: "decodeRune s = (r, n)" by fastforce
    have d: "length (encodeString (drop (max 1 n) s)) \<le> 6 * (length s - max 1 n)" if "\<not> byte c < 0x80" "\<not> (r = RuneError \<and> n = 1)"
      using "1.IH"(4,5) [OF Cons] that rn by (cases "r = 0x2028 \<or> r = 0x2029") auto
    show ?thesis
    proof (cases "byte c < 0x80 \<or> r = RuneError \<and> n = 1")
      case True
      then have "length (encodeString t) \<le> 6 * length t" using "1.IH"(1,2,3) [OF Cons] rn by (cases "byte c < 0x80"; cases "plainByte c") auto
      then show ?thesis using True Cons rn esc(1) [of c] esc(2) by (subst encodeString.simps) (auto simp: Cons)
    next
      case False
      then show ?thesis using d Cons rn esc(2) by (subst encodeString.simps) (auto simp: Let_def)
    qed
  qed (simp add: encodeString.simps)
qed

lemma joinComma_length: "length (joinComma xs) \<le> sum_list (map (\<lambda>x. length x + 1) xs)"
  by (cases xs) (simp_all add: joinComma_def length_concat comp_def)

lemma jprint_length: "length (jprint v) \<le> jbound v"
proof (induction v)
  case (JStr s)
  then show ?case using encodeString_length [of s] by (simp add: jquote_def)
next
  case (JArr vs)
  have "sum_list (map (\<lambda>x. length x + 1) (map jprint vs)) \<le> sum_list (map (\<lambda>v. jbound v + 1) vs)"
    using JArr by (simp add: comp_def sum_list_mono)
  then show ?case using joinComma_length [of "map jprint vs"] by simp
next
  case (JObj ms)
  have "sum_list (map (\<lambda>x. length x + 1) (map (\<lambda>(k, v). jquote k @ '':'' @ jprint v) ms)) \<le>
      sum_list (map (\<lambda>(k, v). 6 * length k + jbound v + 4) ms)"
    unfolding map_map
  proof (rule sum_list_mono)
    fix m assume m: "m \<in> set ms"
    obtain k v where kv: "m = (k, v)" by fastforce
    have "length (jprint v) \<le> jbound v" using JObj [of m v] m by (simp add: kv)
    then show "((\<lambda>x. length x + 1) \<circ> (\<lambda>(k, v). jquote k @ '':'' @ jprint v)) m \<le> (case m of (k, v) \<Rightarrow> 6 * length k + jbound v + 4)"
      using encodeString_length [of k] by (simp add: kv jquote_def)
  qed
  then show ?case using joinComma_length [of "map (\<lambda>(k, v). jquote k @ '':'' @ jprint v) ms"] by simp
qed auto

end
