(* ===== verification/Go_Regex.thy ===== *)
theory Go_Regex
  imports Go_Strings
begin

text \<open>
  The fragment of Go's \<open>regexp\<close> syntax used by the protocol's patterns: character classes,
  concatenation, alternation, repetition and bounded repetition, anchored at both ends. Matching is by
  derivatives; \<open>matchString_lang\<close> says that it decides membership in the pattern's language, and
  the lemmas on classes give the arithmetic reading of a pattern (first byte, class of the rest,
  length).
\<close>

text \<open>A class is the list of its ranges, as in \<open>[A-Za-z0-9._-]\<close>.\<close>

type_synonym char_class = "(char \<times> char) list"

definition in_class :: "char_class \<Rightarrow> char \<Rightarrow> bool" where
  "in_class k c \<longleftrightarrow> list_ex (\<lambda>(lo, hi). byte lo \<le> byte c \<and> byte c \<le> byte hi) k"

lemma in_class_single [simp]: "in_class [(c, c)] d \<longleftrightarrow> d = c"
proof -
  have "in_class [(c, c)] d \<longleftrightarrow> byte d = byte c" by (auto simp: in_class_def)
  then show ?thesis by simp
qed

datatype regex =
    REmpty
  | REps
  | RCls char_class
  | RSeq regex regex
  | RAlt regex regex
  | RStar regex
  | RUpTo nat regex

abbreviation ROpt :: "regex \<Rightarrow> regex" where
  "ROpt r \<equiv> RUpTo 1 r"

abbreviation RPlus :: "regex \<Rightarrow> regex" where
  "RPlus r \<equiv> RSeq r (RStar r)"

abbreviation RChr :: "char \<Rightarrow> regex" where
  "RChr c \<equiv> RCls [(c, c)]"

fun nullable :: "regex \<Rightarrow> bool" where
  "nullable REmpty = False"
| "nullable REps = True"
| "nullable (RCls k) = False"
| "nullable (RSeq a b) = (nullable a \<and> nullable b)"
| "nullable (RAlt a b) = (nullable a \<or> nullable b)"
| "nullable (RStar a) = True"
| "nullable (RUpTo n a) = True"

fun mkSeq :: "regex \<Rightarrow> regex \<Rightarrow> regex" where
  "mkSeq REmpty b = REmpty"
| "mkSeq REps b = b"
| "mkSeq a b = RSeq a b"

fun mkAlt :: "regex \<Rightarrow> regex \<Rightarrow> regex" where
  "mkAlt REmpty b = b"
| "mkAlt a REmpty = a"
| "mkAlt a b = RAlt a b"

fun deriv :: "char \<Rightarrow> regex \<Rightarrow> regex" where
  "deriv c REmpty = REmpty"
| "deriv c REps = REmpty"
| "deriv c (RCls k) = (if in_class k c then REps else REmpty)"
| "deriv c (RSeq a b) =
     (if nullable a then mkAlt (mkSeq (deriv c a) b) (deriv c b) else mkSeq (deriv c a) b)"
| "deriv c (RAlt a b) = mkAlt (deriv c a) (deriv c b)"
| "deriv c (RStar a) = mkSeq (deriv c a) (RStar a)"
| "deriv c (RUpTo n a) = (if n = 0 then REmpty else mkSeq (deriv c a) (RUpTo (n - 1) a))"

fun matchString :: "regex \<Rightarrow> string \<Rightarrow> bool" where
  "matchString r [] = nullable r"
| "matchString r (c # s) = matchString (deriv c r) s"

section \<open>The language of a pattern\<close>

fun lang :: "regex \<Rightarrow> string set" where
  "lang REmpty = {}"
| "lang REps = {[]}"
| "lang (RCls k) = {[c] | c. in_class k c}"
| "lang (RSeq a b) = {s @ t | s t. s \<in> lang a \<and> t \<in> lang b}"
| "lang (RAlt a b) = lang a \<union> lang b"
| "lang (RStar a) = {concat ss | ss. set ss \<subseteq> lang a}"
| "lang (RUpTo n a) = {concat ss | ss. set ss \<subseteq> lang a \<and> length ss \<le> n}"

lemma nullable_iff: "nullable r \<longleftrightarrow> [] \<in> lang r"
proof (induction r)
  case (RStar r)
  show ?case by (auto intro: exI [of _ "[]"])
next
  case (RUpTo n r)
  show ?case by (auto intro: exI [of _ "[]"])
qed auto

lemma lang_mkSeq [simp]: "lang (mkSeq a b) = lang (RSeq a b)"
  by (cases a) auto

lemma lang_mkAlt [simp]: "lang (mkAlt a b) = lang (RAlt a b)"
  by (cases a; cases b) auto

text \<open>A concatenation that starts with \<open>c\<close> takes it from its first non-empty piece.\<close>

lemma concat_Cons_split:
  "concat ss = c # s \<Longrightarrow>
     \<exists>es t us. ss = es @ (c # t) # us \<and> s = t @ concat us \<and> set es \<subseteq> {[]}"
proof (induction ss)
  case (Cons x ss)
  show ?case
  proof (cases x)
    case Nil
    with Cons obtain es t us where "ss = es @ (c # t) # us" "s = t @ concat us" "set es \<subseteq> {[]}"
      by auto
    with Nil show ?thesis by (intro exI [of _ "[] # es"] exI [of _ t] exI [of _ us]) auto
  next
    case (Cons d t)
    with Cons.prems show ?thesis by (intro exI [of _ "[]"] exI [of _ t] exI [of _ ss]) auto
  qed
qed simp

lemma concat_in_Cons:
  "set ss \<subseteq> A \<Longrightarrow> length ss \<le> n \<Longrightarrow> concat ss = c # s \<Longrightarrow>
     \<exists>t us. c # t \<in> A \<and> s = t @ concat us \<and> set us \<subseteq> A \<and> Suc (length us) \<le> n"
  by (drule concat_Cons_split) force

lemma lang_deriv: "s \<in> lang (deriv c r) \<longleftrightarrow> c # s \<in> lang r"
proof (induction r arbitrary: s)
  case (RSeq a b)
  have "c # s \<in> lang (RSeq a b) \<longleftrightarrow>
      (\<exists>t u. c # t \<in> lang a \<and> u \<in> lang b \<and> s = t @ u) \<or> [] \<in> lang a \<and> c # s \<in> lang b"
    by (auto simp: Cons_eq_append_conv)
  with RSeq show ?case by (auto simp: nullable_iff)
next
  case (RStar a)
  have "c # s \<in> lang (RStar a) \<longleftrightarrow>
      (\<exists>t us. c # t \<in> lang a \<and> s = t @ concat us \<and> set us \<subseteq> lang a)"
  proof
    assume "c # s \<in> lang (RStar a)"
    then obtain ss where "set ss \<subseteq> lang a" "concat ss = c # s" by auto
    then show "\<exists>t us. c # t \<in> lang a \<and> s = t @ concat us \<and> set us \<subseteq> lang a"
      using concat_in_Cons [of ss "lang a" "length ss"] by blast
  next
    assume "\<exists>t us. c # t \<in> lang a \<and> s = t @ concat us \<and> set us \<subseteq> lang a"
    then obtain t us where "c # t \<in> lang a" "s = t @ concat us" "set us \<subseteq> lang a" by blast
    then show "c # s \<in> lang (RStar a)" by (auto intro!: exI [of _ "(c # t) # us"])
  qed
  with RStar show ?case by auto
next
  case (RUpTo n a)
  have "c # s \<in> lang (RUpTo n a) \<longleftrightarrow>
      (\<exists>t us. c # t \<in> lang a \<and> s = t @ concat us \<and> set us \<subseteq> lang a \<and> Suc (length us) \<le> n)"
  proof
    assume "c # s \<in> lang (RUpTo n a)"
    then obtain ss where "set ss \<subseteq> lang a" "length ss \<le> n" "concat ss = c # s" by auto
    then show "\<exists>t us. c # t \<in> lang a \<and> s = t @ concat us \<and> set us \<subseteq> lang a \<and> Suc (length us) \<le> n"
      by (rule concat_in_Cons)
  next
    assume "\<exists>t us. c # t \<in> lang a \<and> s = t @ concat us \<and> set us \<subseteq> lang a \<and> Suc (length us) \<le> n"
    then obtain t us where "c # t \<in> lang a" "s = t @ concat us" "set us \<subseteq> lang a"
      "Suc (length us) \<le> n" by blast
    then show "c # s \<in> lang (RUpTo n a)" by (auto intro!: exI [of _ "(c # t) # us"])
  qed
  moreover have "s \<in> lang (deriv c (RUpTo n a)) \<longleftrightarrow>
      (\<exists>t us. c # t \<in> lang a \<and> s = t @ concat us \<and> set us \<subseteq> lang a \<and> Suc (length us) \<le> n)"
    using RUpTo by (cases n) auto
  ultimately show ?case by simp
qed auto

theorem matchString_lang: "matchString r s \<longleftrightarrow> s \<in> lang r"
  by (induction s arbitrary: r) (auto simp: nullable_iff lang_deriv)

section \<open>Arithmetic reading of classes\<close>

lemma lang_UpTo_Cls:
  "s \<in> lang (RUpTo n (RCls k)) \<longleftrightarrow> length s \<le> n \<and> list_all (in_class k) s"
proof
  assume "s \<in> lang (RUpTo n (RCls k))"
  then obtain ss where ss: "s = concat ss" "set ss \<subseteq> {[c] | c. in_class k c}" "length ss \<le> n" by auto
  have "length (concat ss) = length ss \<and> list_all (in_class k) (concat ss)"
    using ss(2) by (induction ss) auto
  with ss show "length s \<le> n \<and> list_all (in_class k) s" by simp
next
  assume a: "length s \<le> n \<and> list_all (in_class k) s"
  have "s = concat (map (\<lambda>c. [c]) s)" by simp
  moreover have "set (map (\<lambda>c. [c]) s) \<subseteq> {[c] | c. in_class k c}"
    using a by (auto simp: list_all_iff)
  ultimately show "s \<in> lang (RUpTo n (RCls k))"
    using a by (auto simp: list_all_iff intro!: exI [of _ "map (\<lambda>c. [c]) s"])
qed

lemma lang_Star_Cls: "s \<in> lang (RStar (RCls k)) \<longleftrightarrow> list_all (in_class k) s"
proof -
  have "s \<in> lang (RStar (RCls k)) \<longleftrightarrow> (\<exists>n. s \<in> lang (RUpTo n (RCls k)))" by auto
  also have "\<dots> \<longleftrightarrow> list_all (in_class k) s" by (auto simp only: lang_UpTo_Cls)
  finally show ?thesis .
qed

lemma match_head_tail:
  "matchString (RSeq (RCls h) (RUpTo n (RCls k))) s \<longleftrightarrow>
     (\<exists>c cs. s = c # cs \<and> in_class h c \<and> length cs \<le> n \<and> list_all (in_class k) cs)"
  unfolding matchString_lang
  by (auto simp del: lang.simps(7) simp: lang_UpTo_Cls intro: exI [of _ "[_]"])

lemma match_head_star:
  "matchString (RSeq (RCls h) (RStar (RCls k))) s \<longleftrightarrow>
     (\<exists>c cs. s = c # cs \<and> in_class h c \<and> list_all (in_class k) cs)"
  unfolding matchString_lang
  by (auto simp del: lang.simps(6) simp: lang_Star_Cls intro: exI [of _ "[_]"])

text \<open>Every byte of a matched string belongs to some class of the pattern.\<close>

fun classes :: "regex \<Rightarrow> char_class" where
  "classes (RCls k) = k"
| "classes (RSeq a b) = classes a @ classes b"
| "classes (RAlt a b) = classes a @ classes b"
| "classes (RStar a) = classes a"
| "classes (RUpTo n a) = classes a"
| "classes _ = []"

lemma lang_classes: "s \<in> lang r \<Longrightarrow> c \<in> set s \<Longrightarrow> in_class (classes r) c"
  by (induction r arbitrary: s) (force simp: in_class_def)+

lemma match_classes: "matchString r s \<Longrightarrow> c \<in> set s \<Longrightarrow> in_class (classes r) c"
  by (simp add: matchString_lang lang_classes)

end
