(* ===== verification/Proto_Capability.thy ===== *)
theory Proto_Capability
  imports Go_Regex
begin

text \<open>
  \<open>protocol/capability.go\<close>: provider roles, delivery classes, capability descriptors, the core
  capability catalog and the namespace of extension capabilities. The lemmas show that the catalog
  names are distinct, that every catalog entry is a valid descriptor, and that a core name can never
  be claimed through the extension pattern.
\<close>

section \<open>Roles and delivery classes\<close>

abbreviation RoleProvider :: string where "RoleProvider \<equiv> ''provider''"
abbreviation RoleAgentHarness :: string where "RoleAgentHarness \<equiv> ''agent-harness''"
abbreviation RoleSessionRuntime :: string where "RoleSessionRuntime \<equiv> ''session-runtime''"
abbreviation RoleExecutionEnvironment :: string where
  "RoleExecutionEnvironment \<equiv> ''execution-environment''"
abbreviation RoleOrchestration :: string where "RoleOrchestration \<equiv> ''orchestration''"

definition Role_Validate :: "string \<Rightarrow> verr" where
  "Role_Validate r =
     (if r \<in> {RoleProvider, RoleAgentHarness, RoleSessionRuntime, RoleExecutionEnvironment,
              RoleOrchestration}
      then nil else errorf ''provider role is unsupported'')"

definition Role_validateConcern :: "string \<Rightarrow> verr" where
  "Role_validateConcern r =
     (if r = RoleProvider
      then errorf ''provider is a neutral capability role, not a provider concern''
      else Role_Validate r)"

abbreviation DeliveryProviderIdempotent :: string where
  "DeliveryProviderIdempotent \<equiv> ''provider_idempotent''"
abbreviation DeliveryStateReconciled :: string where
  "DeliveryStateReconciled \<equiv> ''state_reconciled''"
abbreviation DeliveryAtMostOnce :: string where
  "DeliveryAtMostOnce \<equiv> ''at_most_once''"

definition validDeliveryClass :: "string \<Rightarrow> bool" where
  "validDeliveryClass c \<longleftrightarrow>
     c \<in> {DeliveryProviderIdempotent, DeliveryStateReconciled, DeliveryAtMostOnce}"

section \<open>Descriptors and the catalog\<close>

record CapabilityDescriptor =
  cap_Name :: string
  cap_Role :: string
  cap_Mutating :: bool
  cap_DeliveryClass :: string
  cap_Required :: bool

text \<open>The two shapes of the catalog's composite literals.\<close>

definition readonly_cap :: "string \<Rightarrow> string \<Rightarrow> CapabilityDescriptor" where
  "readonly_cap n r = \<lparr>cap_Name = n, cap_Role = r, cap_Mutating = False,
     cap_DeliveryClass = [], cap_Required = False\<rparr>"

definition mutating_cap :: "string \<Rightarrow> string \<Rightarrow> string \<Rightarrow> CapabilityDescriptor" where
  "mutating_cap n r d = \<lparr>cap_Name = n, cap_Role = r, cap_Mutating = True,
     cap_DeliveryClass = d, cap_Required = False\<rparr>"

definition capabilityCatalog :: "CapabilityDescriptor list" where
  "capabilityCatalog =
     [readonly_cap ''provider.capabilities'' RoleProvider,
      readonly_cap ''provider.health'' RoleProvider,
      readonly_cap ''provider.initialize'' RoleProvider,
      mutating_cap ''provider.shutdown'' RoleProvider DeliveryProviderIdempotent,
      readonly_cap ''events.subscribe'' RoleProvider,
      mutating_cap ''events.unsubscribe'' RoleProvider DeliveryProviderIdempotent,
      readonly_cap ''command.get_result'' RoleProvider,
      readonly_cap ''environment.health'' RoleExecutionEnvironment,
      readonly_cap ''environment.inspect'' RoleExecutionEnvironment,
      mutating_cap ''environment.mount'' RoleExecutionEnvironment DeliveryStateReconciled,
      mutating_cap ''environment.provision'' RoleExecutionEnvironment DeliveryStateReconciled,
      mutating_cap ''environment.shutdown'' RoleExecutionEnvironment DeliveryProviderIdempotent,
      readonly_cap ''runtime.list_sessions'' RoleSessionRuntime,
      readonly_cap ''runtime.get_session'' RoleSessionRuntime,
      mutating_cap ''runtime.create_session'' RoleSessionRuntime DeliveryStateReconciled,
      mutating_cap ''runtime.stop_session'' RoleSessionRuntime DeliveryProviderIdempotent,
      mutating_cap ''runtime.terminate_session'' RoleSessionRuntime DeliveryAtMostOnce,
      mutating_cap ''runtime.attach'' RoleSessionRuntime DeliveryStateReconciled,
      mutating_cap ''runtime.detach'' RoleSessionRuntime DeliveryProviderIdempotent,
      readonly_cap ''runtime.snapshot'' RoleSessionRuntime,
      mutating_cap ''runtime.checkpoint'' RoleSessionRuntime DeliveryProviderIdempotent,
      mutating_cap ''runtime.restore'' RoleSessionRuntime DeliveryStateReconciled,
      mutating_cap ''runtime.adopt'' RoleSessionRuntime DeliveryStateReconciled,
      mutating_cap ''runtime.resume'' RoleSessionRuntime DeliveryStateReconciled,
      mutating_cap ''runtime.clone'' RoleSessionRuntime DeliveryStateReconciled,
      mutating_cap ''runtime.fork'' RoleSessionRuntime DeliveryStateReconciled,
      mutating_cap ''runtime.migrate'' RoleSessionRuntime DeliveryStateReconciled,
      mutating_cap ''runtime.export'' RoleSessionRuntime DeliveryProviderIdempotent,
      mutating_cap ''runtime.import'' RoleSessionRuntime DeliveryStateReconciled,
      mutating_cap ''runtime.archive'' RoleSessionRuntime DeliveryProviderIdempotent,
      readonly_cap ''terminal.read'' RoleSessionRuntime,
      readonly_cap ''terminal.subscribe'' RoleSessionRuntime,
      mutating_cap ''terminal.send_input'' RoleSessionRuntime DeliveryAtMostOnce,
      mutating_cap ''terminal.send_keys'' RoleSessionRuntime DeliveryAtMostOnce,
      mutating_cap ''terminal.resize'' RoleSessionRuntime DeliveryStateReconciled,
      mutating_cap ''terminal.attach'' RoleSessionRuntime DeliveryStateReconciled,
      mutating_cap ''terminal.detach'' RoleSessionRuntime DeliveryProviderIdempotent,
      readonly_cap ''workspace.list'' RoleSessionRuntime,
      readonly_cap ''workspace.get'' RoleSessionRuntime,
      mutating_cap ''workspace.create'' RoleSessionRuntime DeliveryStateReconciled,
      mutating_cap ''workspace.close'' RoleSessionRuntime DeliveryProviderIdempotent,
      readonly_cap ''topology.get'' RoleSessionRuntime,
      readonly_cap ''topology.subscribe'' RoleSessionRuntime,
      readonly_cap ''pane.list'' RoleSessionRuntime,
      readonly_cap ''pane.get'' RoleSessionRuntime,
      mutating_cap ''pane.create'' RoleSessionRuntime DeliveryStateReconciled,
      mutating_cap ''pane.split'' RoleSessionRuntime DeliveryStateReconciled,
      mutating_cap ''pane.focus'' RoleSessionRuntime DeliveryStateReconciled,
      mutating_cap ''pane.resize'' RoleSessionRuntime DeliveryStateReconciled,
      mutating_cap ''pane.close'' RoleSessionRuntime DeliveryProviderIdempotent,
      readonly_cap ''harness.list'' RoleAgentHarness,
      readonly_cap ''harness.inspect'' RoleAgentHarness,
      mutating_cap ''harness.launch'' RoleAgentHarness DeliveryAtMostOnce,
      mutating_cap ''harness.resume'' RoleAgentHarness DeliveryAtMostOnce,
      mutating_cap ''harness.stop'' RoleAgentHarness DeliveryProviderIdempotent,
      mutating_cap ''agent.send_message'' RoleAgentHarness DeliveryAtMostOnce,
      mutating_cap ''agent.interrupt'' RoleAgentHarness DeliveryAtMostOnce,
      mutating_cap ''agent.cancel'' RoleAgentHarness DeliveryAtMostOnce,
      readonly_cap ''agent.get_state'' RoleAgentHarness,
      readonly_cap ''agent.get_usage'' RoleAgentHarness,
      readonly_cap ''agent.get_pending_approvals'' RoleAgentHarness,
      readonly_cap ''agent.get_tools'' RoleAgentHarness,
      readonly_cap ''agent.get_native_identity'' RoleAgentHarness,
      mutating_cap ''context.deliver'' RoleAgentHarness DeliveryAtMostOnce,
      readonly_cap ''context.confirm'' RoleAgentHarness,
      readonly_cap ''approval.list'' RoleAgentHarness,
      mutating_cap ''approval.approve'' RoleAgentHarness DeliveryAtMostOnce,
      mutating_cap ''approval.reject'' RoleAgentHarness DeliveryAtMostOnce,
      mutating_cap ''approval.expire'' RoleAgentHarness DeliveryAtMostOnce,
      readonly_cap ''artifact.list'' RoleAgentHarness,
      mutating_cap ''artifact.register'' RoleAgentHarness DeliveryProviderIdempotent]"

text \<open>\<open>KnownCapabilities\<close>: the catalog sorted by name; \<open>Capability\<close>: a linear search.\<close>

definition KnownCapabilities :: "CapabilityDescriptor list" where
  "KnownCapabilities = sort_key cap_Name capabilityCatalog"

definition Capability :: "string \<Rightarrow> CapabilityDescriptor option" where
  "Capability name = find (\<lambda>known. cap_Name known = name) capabilityCatalog"

text \<open>
  \<open>^[a-z0-9](?:[a-z0-9-]{0,61}[a-z0-9])?(?:\.[a-z0-9](?:[a-z0-9-]{0,61}[a-z0-9])?)+/[a-z][a-z0-9._-]{0,127}$\<close>
\<close>

abbreviation cls_az09 :: char_class where
  "cls_az09 \<equiv> [(CHR ''a'', CHR ''z''), (CHR ''0'', CHR ''9'')]"
abbreviation cls_az09_dash :: char_class where
  "cls_az09_dash \<equiv> [(CHR ''a'', CHR ''z''), (CHR ''0'', CHR ''9''), (CHR ''-'', CHR ''-'')]"
abbreviation cls_token :: char_class where
  "cls_token \<equiv> [(CHR ''a'', CHR ''z''), (CHR ''0'', CHR ''9''), (CHR ''.'', CHR ''.''),
     (CHR ''_'', CHR ''_''), (CHR ''-'', CHR ''-'')]"

definition dnsLabel :: regex where
  "dnsLabel = RSeq (RCls cls_az09) (ROpt (RSeq (RUpTo 61 (RCls cls_az09_dash)) (RCls cls_az09)))"

definition reverseDNSPattern :: "nat \<Rightarrow> regex" where
  "reverseDNSPattern n =
     RSeq dnsLabel (RSeq (RPlus (RSeq (RChr (CHR ''.'')) dnsLabel))
       (RSeq (RChr (CHR ''/'')) (RSeq (RCls [(CHR ''a'', CHR ''z'')]) (RUpTo n (RCls cls_token)))))"

definition extensionCapabilityPattern :: regex where
  "extensionCapabilityPattern = reverseDNSPattern 127"

definition validCapabilityName :: "string \<Rightarrow> bool" where
  "validCapabilityName name \<longleftrightarrow>
     Capability name \<noteq> None \<or> matchString extensionCapabilityPattern name"

definition Descriptor_Validate :: "CapabilityDescriptor \<Rightarrow> verr" where
  "Descriptor_Validate c =
     first_err
      [if \<not> validCapabilityName (cap_Name c) then errorf ''capability name is invalid'' else nil,
       Role_Validate (cap_Role c),
       if cap_Mutating c then
         (if \<not> validDeliveryClass (cap_DeliveryClass c)
          then errorf ''mutating capability requires a delivery class'' else nil)
       else if cap_DeliveryClass c \<noteq> []
         then errorf ''read-only capability cannot declare a delivery class'' else nil]"

definition equalCapabilityDefinition :: "CapabilityDescriptor \<Rightarrow> CapabilityDescriptor \<Rightarrow> bool" where
  "equalCapabilityDefinition actual expected \<longleftrightarrow>
     cap_Name actual = cap_Name expected \<and> cap_Role actual = cap_Role expected \<and>
     cap_Mutating actual = cap_Mutating expected \<and>
     cap_DeliveryClass actual = cap_DeliveryClass expected"

section \<open>The catalog is well formed\<close>

abbreviation core_names :: "string list" where
  "core_names \<equiv> map cap_Name capabilityCatalog"

lemma core_names_eq:
  "core_names = [''provider.capabilities'',
     ''provider.health'',
     ''provider.initialize'',
     ''provider.shutdown'',
     ''events.subscribe'',
     ''events.unsubscribe'',
     ''command.get_result'',
     ''environment.health'',
     ''environment.inspect'',
     ''environment.mount'',
     ''environment.provision'',
     ''environment.shutdown'',
     ''runtime.list_sessions'',
     ''runtime.get_session'',
     ''runtime.create_session'',
     ''runtime.stop_session'',
     ''runtime.terminate_session'',
     ''runtime.attach'',
     ''runtime.detach'',
     ''runtime.snapshot'',
     ''runtime.checkpoint'',
     ''runtime.restore'',
     ''runtime.adopt'',
     ''runtime.resume'',
     ''runtime.clone'',
     ''runtime.fork'',
     ''runtime.migrate'',
     ''runtime.export'',
     ''runtime.import'',
     ''runtime.archive'',
     ''terminal.read'',
     ''terminal.subscribe'',
     ''terminal.send_input'',
     ''terminal.send_keys'',
     ''terminal.resize'',
     ''terminal.attach'',
     ''terminal.detach'',
     ''workspace.list'',
     ''workspace.get'',
     ''workspace.create'',
     ''workspace.close'',
     ''topology.get'',
     ''topology.subscribe'',
     ''pane.list'',
     ''pane.get'',
     ''pane.create'',
     ''pane.split'',
     ''pane.focus'',
     ''pane.resize'',
     ''pane.close'',
     ''harness.list'',
     ''harness.inspect'',
     ''harness.launch'',
     ''harness.resume'',
     ''harness.stop'',
     ''agent.send_message'',
     ''agent.interrupt'',
     ''agent.cancel'',
     ''agent.get_state'',
     ''agent.get_usage'',
     ''agent.get_pending_approvals'',
     ''agent.get_tools'',
     ''agent.get_native_identity'',
     ''context.deliver'',
     ''context.confirm'',
     ''approval.list'',
     ''approval.approve'',
     ''approval.reject'',
     ''approval.expire'',
     ''artifact.list'',
     ''artifact.register'']"
  by (simp add: capabilityCatalog_def readonly_cap_def mutating_cap_def)

lemma core_names_distinct: "distinct core_names"
  unfolding core_names_eq by code_simp

lemma Capability_Some_iff: "Capability name = Some d \<longleftrightarrow> d \<in> set capabilityCatalog \<and> cap_Name d = name"
proof
  assume "Capability name = Some d"
  then show "d \<in> set capabilityCatalog \<and> cap_Name d = name"
    by (auto simp: Capability_def find_Some_iff)
next
  assume d: "d \<in> set capabilityCatalog \<and> cap_Name d = name"
  then obtain e where e: "Capability name = Some e"
    by (cases "Capability name") (auto simp: Capability_def find_None_iff)
  then have "e \<in> set capabilityCatalog" "cap_Name e = name"
    by (auto simp: Capability_def find_Some_iff)
  with d core_names_distinct have "e = d" by (auto simp: distinct_map inj_on_def)
  with e show "Capability name = Some d" by simp
qed

lemma Capability_dom: "Capability name \<noteq> None \<longleftrightarrow> name \<in> set core_names"
  by (auto simp: Capability_def find_None_iff)

lemma reverseDNS_has_slash: "matchString (reverseDNSPattern n) s \<Longrightarrow> CHR ''/'' \<in> set s"
  by (auto simp: matchString_lang reverseDNSPattern_def simp del: lang.simps(6,7))

lemma core_names_no_slash: "name \<in> set core_names \<Longrightarrow> CHR ''/'' \<notin> set name"
proof -
  have "list_all (\<lambda>n. CHR ''/'' \<notin> set n) core_names"
    unfolding core_names_eq by code_simp
  then show "name \<in> set core_names \<Longrightarrow> ?thesis" by (auto simp: list_all_iff)
qed

lemma catalog_entry_shape:
  "d \<in> set capabilityCatalog \<Longrightarrow>
     Role_Validate (cap_Role d) = nil \<and>
     (if cap_Mutating d then validDeliveryClass (cap_DeliveryClass d) else cap_DeliveryClass d = [])"
proof -
  have "list_all (\<lambda>d. Role_Validate (cap_Role d) = nil \<and>
     (if cap_Mutating d then validDeliveryClass (cap_DeliveryClass d) else cap_DeliveryClass d = []))
     capabilityCatalog"
    by (simp add: capabilityCatalog_def readonly_cap_def mutating_cap_def Role_Validate_def
        validDeliveryClass_def)
  then show "d \<in> set capabilityCatalog \<Longrightarrow> ?thesis" by (auto simp: list_all_iff)
qed

lemma Role_Validate_nil [accepted]:
  "Role_Validate r = nil \<longleftrightarrow>
     r \<in> {RoleProvider, RoleAgentHarness, RoleSessionRuntime, RoleExecutionEnvironment,
          RoleOrchestration}"
  by (simp add: Role_Validate_def)

lemma Role_validateConcern_nil [accepted]:
  "Role_validateConcern r = nil \<longleftrightarrow>
     r \<in> {RoleAgentHarness, RoleSessionRuntime, RoleExecutionEnvironment, RoleOrchestration}"
  by (auto simp: Role_validateConcern_def Role_Validate_def)

lemma Descriptor_Validate_nil [accepted]:
  "Descriptor_Validate c = nil \<longleftrightarrow>
     validCapabilityName (cap_Name c) \<and> Role_Validate (cap_Role c) = nil \<and>
     (if cap_Mutating c then validDeliveryClass (cap_DeliveryClass c) else cap_DeliveryClass c = [])"
  by (auto simp: Descriptor_Validate_def)

lemma equalCapabilityDefinition_iff:
  "equalCapabilityDefinition a b \<longleftrightarrow> a\<lparr>cap_Required := cap_Required b\<rparr> = b"
  by (cases a; cases b) (auto simp: equalCapabilityDefinition_def)

section \<open>Properties\<close>

text \<open>
  The core catalog has no duplicate name, every entry is a valid descriptor (a delivery class
  exactly on the mutating ones), and no core name has the form of an extension capability, so an
  extension can never shadow a core capability.
\<close>

theorem capabilityCatalog_wellformed:
  "distinct (map cap_Name capabilityCatalog) \<and>
   (\<forall>d \<in> set capabilityCatalog.
      Descriptor_Validate d = nil \<and> Capability (cap_Name d) = Some d \<and>
      \<not> matchString extensionCapabilityPattern (cap_Name d))"
proof -
  have "Descriptor_Validate d = nil \<and> Capability (cap_Name d) = Some d \<and>
      \<not> matchString extensionCapabilityPattern (cap_Name d)" if d: "d \<in> set capabilityCatalog" for d
  proof -
    have "cap_Name d \<in> set core_names" using d by simp
    then have "\<not> matchString extensionCapabilityPattern (cap_Name d)"
      using core_names_no_slash reverseDNS_has_slash unfolding extensionCapabilityPattern_def by blast
    moreover have "Capability (cap_Name d) = Some d" using d by (simp add: Capability_Some_iff)
    ultimately show ?thesis using catalog_entry_shape [OF d]
      by (simp add: Descriptor_Validate_nil validCapabilityName_def)
  qed
  then show ?thesis using core_names_distinct by blast
qed

theorem capabilityCatalog_wellformed_witness:
  "\<not> matchString extensionCapabilityPattern ''provider.health'' \<and> Capability ''provider.health'' \<noteq> None"
proof -
  have "readonly_cap ''provider.health'' RoleProvider \<in> set capabilityCatalog"
    by (simp add: capabilityCatalog_def)
  then have "\<not> matchString extensionCapabilityPattern (cap_Name (readonly_cap ''provider.health'' RoleProvider)) \<and>
      Capability (cap_Name (readonly_cap ''provider.health'' RoleProvider)) \<noteq> None"
    using capabilityCatalog_wellformed by simp
  then show ?thesis by (simp add: readonly_cap_def)
qed

end
