(* ===== verification/Proto_Validate.thy ===== *)
theory Proto_Validate
  imports Proto_Capability Go_Json
begin

text \<open>
  \<open>protocol/error.go\<close> (the closed error vocabulary), the scalar validators of
  \<open>protocol/validate.go\<close>, \<open>protocol/identity.go\<close>, and the ASCII, nonce and reference validators of
  \<open>protocol/custody.go\<close> and \<open>protocol/verification.go\<close>. Each validator has an \<open>accepted\<close> lemma with
  the exact condition under which it returns nil.
\<close>

section \<open>Protocol errors\<close>

abbreviation ProtocolVersion :: string where
  "ProtocolVersion \<equiv> ''mission-control.provider.v1alpha1''"

abbreviation MaxMessageBytes :: nat where
  "MaxMessageBytes \<equiv> 4194304"

abbreviation CodeInvalidArgument :: string where "CodeInvalidArgument \<equiv> ''invalid_argument''"
abbreviation CodeMessageTooLarge :: string where "CodeMessageTooLarge \<equiv> ''message_too_large''"
abbreviation CodeNotSupported :: string where "CodeNotSupported \<equiv> ''not_supported''"
abbreviation CodeSequenceConflict :: string where "CodeSequenceConflict \<equiv> ''sequence_conflict''"
abbreviation CodeReplay :: string where "CodeReplay \<equiv> ''replay''"
abbreviation CodeExpired :: string where "CodeExpired \<equiv> ''expired''"
abbreviation CodeUnauthenticated :: string where "CodeUnauthenticated \<equiv> ''unauthenticated''"
abbreviation CodePermissionDenied :: string where "CodePermissionDenied \<equiv> ''permission_denied''"
abbreviation CodeConflict :: string where "CodeConflict \<equiv> ''conflict''"
abbreviation CodeDeadlineExceeded :: string where "CodeDeadlineExceeded \<equiv> ''deadline_exceeded''"
abbreviation CodeCancelled :: string where "CodeCancelled \<equiv> ''cancelled''"
abbreviation CodeResourceExhausted :: string where "CodeResourceExhausted \<equiv> ''resource_exhausted''"
abbreviation CodeUnavailable :: string where "CodeUnavailable \<equiv> ''unavailable''"
abbreviation CodeOutcomeUnknown :: string where "CodeOutcomeUnknown \<equiv> ''outcome_unknown''"

definition canonicalErrorMessages :: "(string \<times> string) list" where
  "canonicalErrorMessages =
     [(CodeInvalidArgument, ''protocol value is invalid''),
      (CodeMessageTooLarge, ''protocol message exceeds its limit''),
      (CodeNotSupported, ''required capability is not supported''),
      (CodeSequenceConflict, ''event sequence conflicts with prior content''),
      (CodeReplay, ''one-use value was already consumed''),
      (CodeExpired, ''authorization or evidence has expired''),
      (CodeUnauthenticated, ''protocol identity or signature is not authenticated''),
      (CodePermissionDenied, ''operation is not authorized''),
      (CodeConflict, ''operation conflicts with current state''),
      (CodeDeadlineExceeded, ''operation deadline was exceeded''),
      (CodeCancelled, ''operation was cancelled''),
      (CodeResourceExhausted, ''protocol resource limit was exhausted''),
      (CodeUnavailable, ''provider is unavailable''),
      (CodeOutcomeUnknown, ''operation outcome is unknown'')]"

definition errorMessage :: "string \<Rightarrow> string option" where
  "errorMessage code = map_of canonicalErrorMessages code"

definition ErrorCode_Validate :: "string \<Rightarrow> verr" where
  "ErrorCode_Validate c =
     (if errorMessage c = None then errorf ''protocol error code is unsupported'' else nil)"

text \<open>\<open>(*Error).Error\<close>, with a nil receiver as \<^term>\<open>None\<close>.\<close>

definition Error_Error :: "Error option \<Rightarrow> string" where
  "Error_Error p =
     (case p of
        None \<Rightarrow> []
      | Some e \<Rightarrow>
          (case errorMessage (err_Code e) of
             None \<Rightarrow> ''protocol_error''
           | Some m \<Rightarrow> err_Code e @ '': '' @ m))"

definition Error_Validate :: "Error \<Rightarrow> verr" where
  "Error_Validate e =
     first_err
      [ErrorCode_Validate (err_Code e),
       if Some (err_Message e) \<noteq> errorMessage (err_Code e)
         then errorf ''protocol error message is not canonical'' else nil,
       if err_Code e \<noteq> CodeNotSupported then
         (if err_RequiredCapability e \<noteq> [] \<or> err_AdvertisedCapabilities e \<noteq> []
          then errorf ''capability details are valid only for not_supported'' else nil)
       else first_err
         [if \<not> validCapabilityName (err_RequiredCapability e)
            then errorf ''required capability is invalid'' else nil,
          if length (err_AdvertisedCapabilities e) > 256
            then errorf ''too many advertised capabilities'' else nil,
          each_unique
            (\<lambda>c. if \<not> validCapabilityName c then errorf ''advertised capability is invalid'' else nil)
            id ''advertised capability is duplicated'' (err_AdvertisedCapabilities e)]]"

text \<open>\<open>protocolError(code, _)\<close>: the text argument is dropped, so no content crosses the boundary.\<close>

definition protocolError :: "string \<Rightarrow> go_error" where
  "protocolError code =
     Structured
       (case errorMessage code of
          Some m \<Rightarrow> \<lparr>err_Code = code, err_Message = m, err_RequiredCapability = [],
                      err_AdvertisedCapabilities = []\<rparr>
        | None \<Rightarrow> \<lparr>err_Code = CodeInvalidArgument, err_Message = ''protocol value is invalid'',
                     err_RequiredCapability = [], err_AdvertisedCapabilities = []\<rparr>)"

definition IsCode :: "verr \<Rightarrow> string \<Rightarrow> bool" where
  "IsCode err code \<longleftrightarrow>
     (case err of None \<Rightarrow> False
      | Some x \<Rightarrow> (case errors_As x of None \<Rightarrow> False | Some e \<Rightarrow> err_Code e = code))"

definition NotSupported :: "string \<Rightarrow> string list \<Rightarrow> go_error" where
  "NotSupported required advertised =
     Structured \<lparr>err_Code = CodeNotSupported, err_Message = ''required capability is not supported'',
       err_RequiredCapability = required, err_AdvertisedCapabilities = advertised\<rparr>"

section \<open>Patterns and scalar validators\<close>

abbreviation cls_AZaz09 :: char_class where
  "cls_AZaz09 \<equiv> [(CHR ''A'', CHR ''Z''), (CHR ''a'', CHR ''z''), (CHR ''0'', CHR ''9'')]"
abbreviation cls_id :: char_class where
  "cls_id \<equiv> [(CHR ''A'', CHR ''Z''), (CHR ''a'', CHR ''z''), (CHR ''0'', CHR ''9''),
     (CHR ''.'', CHR ''.''), (CHR ''_'', CHR ''_''), (CHR ''-'', CHR ''-'')]"
abbreviation cls_ref :: char_class where
  "cls_ref \<equiv> [(CHR ''A'', CHR ''Z''), (CHR ''a'', CHR ''z''), (CHR ''0'', CHR ''9''),
     (CHR ''.'', CHR ''.''), (CHR ''_'', CHR ''_''), (CHR ''/'', CHR ''/''), (CHR ''-'', CHR ''-'')]"

definition idPattern :: regex where
  "idPattern = RSeq (RCls cls_AZaz09) (RUpTo 127 (RCls cls_id))"

definition tokenPattern :: regex where
  "tokenPattern = RSeq (RCls cls_az09) (RUpTo 127 (RCls cls_token))"

definition extensionPattern :: regex where
  "extensionPattern = reverseDNSPattern 63"

definition localSchemaRefPattern :: regex where
  "localSchemaRefPattern = RSeq (RCls cls_AZaz09) (RStar (RCls cls_ref))"

definition validateProtocol :: "string \<Rightarrow> verr" where
  "validateProtocol version =
     (if version \<noteq> ProtocolVersion then errorf (''protocol_version must be '' @ ProtocolVersion) else nil)"

definition validateID :: "string \<Rightarrow> string \<Rightarrow> verr" where
  "validateID field value =
     (if \<not> matchString idPattern value then errorf (field @ '' is invalid'') else nil)"

definition validateToken :: "string \<Rightarrow> string \<Rightarrow> verr" where
  "validateToken field value =
     (if \<not> matchString tokenPattern value then errorf (field @ '' is invalid'') else nil)"

definition validateVersion :: "string \<Rightarrow> string \<Rightarrow> verr" where
  "validateVersion field value =
     (if value = [] \<or> length value > 128 \<or> trimSpace value \<noteq> value
         \<or> containsAny value [CHR 0x00, CHR 0x0D, CHR 0x0A, CHR 0x09, CHR 0x20]
      then errorf (field @ '' is invalid'') else nil)"

definition validateTextRange :: "string \<Rightarrow> string \<Rightarrow> nat \<Rightarrow> nat \<Rightarrow> verr" where
  "validateTextRange field value minimum maximum =
     (if length value < minimum \<or> length value > maximum \<or> \<not> validString value
         \<or> containsAny value nulCRLF
      then errorf (field @ '' is invalid'') else nil)"

definition validateText :: "string \<Rightarrow> string \<Rightarrow> nat \<Rightarrow> verr" where
  "validateText field value mx = validateTextRange field value 1 mx"

definition validateExecutable :: "string \<Rightarrow> verr" where
  "validateExecutable value =
     first_err
      [validateText ''executable'' value 256,
       if containsAny value [CHR ''/'', CHR 0x5C] \<or> value = ''.'' \<or> value = ''..''
         then errorf ''executable must be a name, not a path'' else nil]"

definition validateLocalSchemaRef :: "string \<Rightarrow> verr" where
  "validateLocalSchemaRef value =
     (if length value > 512 \<or> \<not> matchString localSchemaRefPattern value \<or> contains value ''..''
      then errorf ''configuration_schema is invalid'' else nil)"

text \<open>A Go map is the list of its entries, with distinct keys; the iteration order is unspecified.\<close>

type_synonym extensions = "(string \<times> string) list"

definition validateExtensions :: "extensions \<Rightarrow> verr" where
  "validateExtensions values =
     first_err
      [if length values > 64 then errorf ''too many extensions'' else nil,
       each_err (\<lambda>(key, value).
         if \<not> matchString extensionPattern key then errorf ''extension key is invalid''
         else if \<not> json_Valid value then errorf ''extension value is invalid JSON'' else nil) values,
       if sum_list (map (\<lambda>(key, value). length key + length value) values) > 262144
         then errorf ''extensions exceed size limit'' else nil]"

definition validateTime :: "string \<Rightarrow> gotime \<Rightarrow> verr" where
  "validateTime field value =
     (if time_IsZero value \<or> \<not> t_utc value
      then errorf (field @ '' must be a UTC timestamp'') else nil)"

fun equalStrings :: "string list \<Rightarrow> string list \<Rightarrow> bool" where
  "equalStrings [] [] = True"
| "equalStrings (a # as) (b # bs) = (a = b \<and> equalStrings as bs)"
| "equalStrings _ _ = False"

definition validateUniqueStrings :: "string \<Rightarrow> string list \<Rightarrow> verr" where
  "validateUniqueStrings field values =
     each_unique
       (\<lambda>value. if value = [] \<or> containsAny value nulCRLF
                then errorf (field @ '' contains an invalid value'') else nil)
       id (field @ '' contains a duplicate'') values"

abbreviation validateIDs :: "(string \<times> string) list \<Rightarrow> verr" where
  "validateIDs entries \<equiv> each_err (\<lambda>(field, value). validateID field value) entries"

section \<open>Identities\<close>

definition NativeID_Validate :: "string \<Rightarrow> verr" where
  "NativeID_Validate value =
     (if value = [] then errorf ''native_id is required''
      else if length value > 1024 \<or> \<not> validString value \<or> containsAny value nulCRLF
      then errorf ''native_id is invalid'' else nil)"

text \<open>
  \<open>strings.ToLower\<close> is read on ASCII letters: on other bytes the comparison may give a different
  one of the two errors, since a non-hexadecimal byte is refused either way.
\<close>

definition Digest_Validate :: "string \<Rightarrow> verr" where
  "Digest_Validate value =
     (if \<not> hasPrefix value ''sha256:'' then errorf ''digest must use sha256''
      else let hexPart = trimPrefix value ''sha256:'' in
        if length hexPart \<noteq> 64 \<or> map toLowerASCII hexPart \<noteq> hexPart
        then errorf ''digest must contain 64 lowercase hexadecimal characters''
        else if hexDecode hexPart = None then errorf ''digest is invalid'' else nil)"

record ArtifactIdentity =
  ai_ID :: string
  ai_Version :: string
  ai_Digest :: string

definition ArtifactIdentity_Validate :: "ArtifactIdentity \<Rightarrow> verr" where
  "ArtifactIdentity_Validate a =
     first_err [validateID ''artifact.id'' (ai_ID a), validateVersion ''artifact.version'' (ai_Version a),
       Digest_Validate (ai_Digest a)]"

record Platform =
  pf_OS :: string
  pf_Architecture :: string

definition Platform_Validate :: "Platform \<Rightarrow> verr" where
  "Platform_Validate p =
     first_err [validateToken ''platform.os'' (pf_OS p),
       validateToken ''platform.architecture'' (pf_Architecture p)]"

record ProviderBinding =
  pb_ProviderID :: string
  pb_ProviderVersion :: string
  pb_NativeID :: string
  pb_NativeResumeReference :: string
  pb_ArtifactDigest :: string

definition ProviderBinding_Validate :: "ProviderBinding \<Rightarrow> verr" where
  "ProviderBinding_Validate b =
     first_err
      [validateID ''provider_id'' (pb_ProviderID b),
       validateVersion ''provider_version'' (pb_ProviderVersion b),
       NativeID_Validate (pb_NativeID b),
       if pb_NativeResumeReference b \<noteq> [] then NativeID_Validate (pb_NativeResumeReference b) else nil,
       Digest_Validate (pb_ArtifactDigest b)]"

section \<open>Signed text\<close>

definition safeASCII :: "char \<Rightarrow> bool" where
  "safeASCII c \<longleftrightarrow>
     (CHR ''a'' \<le> c \<and> c \<le> CHR ''z'') \<or> (CHR ''A'' \<le> c \<and> c \<le> CHR ''Z'') \<or>
     (CHR ''0'' \<le> c \<and> c \<le> CHR ''9'') \<or>
     c \<in> {CHR ''.'', CHR ''_'', CHR ''-'', CHR '':'', CHR ''/'', CHR ''@'', CHR ''+'', CHR ''='', CHR ''~''}"

definition validateSafeASCII :: "string \<Rightarrow> string \<Rightarrow> nat \<Rightarrow> nat \<Rightarrow> verr" where
  "validateSafeASCII field value minimum maximum =
     (if length value < minimum \<or> length value > maximum then errorf (field @ '' is invalid'')
      else each_err (\<lambda>c. if safeASCII c then nil else errorf (field @ '' is invalid'')) value)"

definition nonceChar :: "char \<Rightarrow> bool" where
  "nonceChar c \<longleftrightarrow>
     (CHR ''a'' \<le> c \<and> c \<le> CHR ''z'') \<or> (CHR ''A'' \<le> c \<and> c \<le> CHR ''Z'') \<or>
     (CHR ''0'' \<le> c \<and> c \<le> CHR ''9'') \<or> c = CHR ''_'' \<or> c = CHR ''-''"

definition validateNonce :: "string \<Rightarrow> verr" where
  "validateNonce value =
     (if length value < 22 \<or> length value > 256 then errorf ''nonce is invalid''
      else each_err (\<lambda>c. if nonceChar c then nil else errorf ''nonce is invalid'') value)"

definition validateSignedArtifact :: "string \<Rightarrow> ArtifactIdentity \<Rightarrow> verr" where
  "validateSignedArtifact field artifact =
     first_err
      [ArtifactIdentity_Validate artifact,
       validateSafeASCII (field @ '' id'') (ai_ID artifact) 1 128,
       validateSafeASCII (field @ '' version'') (ai_Version artifact) 1 128,
       validateSafeASCII (field @ '' digest'') (ai_Digest artifact) 71 71]"

text \<open>
  \<open>validateOpaqueReference\<close> ranges over the runes of the value with their byte offsets. NUL, CR, LF
  and the colon are ASCII, so they are runes of their own wherever they occur and every other rune
  leaves the loop's state unchanged: the scan over bytes takes the same branches at the same offsets.
\<close>

fun opaqueScan :: "string \<Rightarrow> nat \<Rightarrow> string \<Rightarrow> verr" where
  "opaqueScan field i [] = errorf (field @ '' must be an opaque typed reference'')"
| "opaqueScan field i (r # s) =
     (if r \<in> set nulCRLF then errorf (field @ '' is invalid'')
      else if r = CHR '':'' \<and> i > 0 then nil
      else opaqueScan field (Suc i) s)"

definition validateOpaqueReference :: "string \<Rightarrow> string \<Rightarrow> verr" where
  "validateOpaqueReference field value =
     (if length value = 0 \<or> length value > 1024 then errorf (field @ '' is invalid'')
      else opaqueScan field 0 value)"

definition validateSignedReference :: "string \<Rightarrow> string \<Rightarrow> verr" where
  "validateSignedReference field value =
     first_err [validateOpaqueReference field value, validateSafeASCII field value 3 1024]"

section \<open>Operation results\<close>

abbreviation OperationAccepted :: string where "OperationAccepted \<equiv> ''accepted''"
abbreviation OperationRunning :: string where "OperationRunning \<equiv> ''running''"
abbreviation OperationSucceeded :: string where "OperationSucceeded \<equiv> ''succeeded''"
abbreviation OperationFailed :: string where "OperationFailed \<equiv> ''failed''"
abbreviation OperationOutcomeUnknown :: string where "OperationOutcomeUnknown \<equiv> ''outcome_unknown''"

record OperationResult =
  or_OperationID :: string
  or_Status :: string
  or_ObservedAt :: gotime
  or_ResultReference :: string
  or_Error :: "Error option"

definition OperationResult_Validate :: "OperationResult \<Rightarrow> verr" where
  "OperationResult_Validate r =
     first_err
      [NativeID_Validate (or_OperationID r),
       validateTime ''observed_at'' (or_ObservedAt r),
       if or_Status r \<in> {OperationAccepted, OperationRunning, OperationSucceeded, OperationOutcomeUnknown}
       then (if or_Error r \<noteq> None then errorf ''non-failed operation cannot contain an error'' else nil)
       else if or_Status r = OperationFailed
       then (case or_Error r of None \<Rightarrow> errorf ''failed operation requires an error''
             | Some e \<Rightarrow> Error_Validate e)
       else errorf ''operation status is unsupported'',
       if or_ResultReference r \<noteq> []
         then validateOpaqueReference ''result_reference'' (or_ResultReference r) else nil]"

section \<open>When the validators accept\<close>

lemma validateProtocol_nil [accepted]: "validateProtocol v = nil \<longleftrightarrow> v = ProtocolVersion"
  by (simp add: validateProtocol_def)

lemma validateID_nil [accepted]: "validateID f v = nil \<longleftrightarrow> matchString idPattern v"
  by (simp add: validateID_def)

lemma validateToken_nil [accepted]: "validateToken f v = nil \<longleftrightarrow> matchString tokenPattern v"
  by (simp add: validateToken_def)

lemma validateTextRange_nil [accepted]:
  "validateTextRange f v lo hi = nil \<longleftrightarrow>
     lo \<le> length v \<and> length v \<le> hi \<and> validString v \<and> \<not> containsAny v nulCRLF"
  by (auto simp: validateTextRange_def)

lemma validateText_nil [accepted]:
  "validateText f v hi = nil \<longleftrightarrow>
     v \<noteq> [] \<and> length v \<le> hi \<and> validString v \<and> \<not> containsAny v nulCRLF"
  by (cases v) (auto simp: validateText_def validateTextRange_nil)

lemma validateTime_nil [accepted]:
  "validateTime f t = nil \<longleftrightarrow> t_instant t \<noteq> 0 \<and> t_utc t"
  by (simp add: validateTime_def time_IsZero_def)

lemma validateUniqueStrings_nil [accepted]:
  "validateUniqueStrings f vs = nil \<longleftrightarrow>
     (\<forall>v \<in> set vs. v \<noteq> [] \<and> \<not> containsAny v nulCRLF) \<and> distinct vs"
  by (auto simp: validateUniqueStrings_def each_unique_nil split: if_splits)

lemma NativeID_Validate_nil [accepted]:
  "NativeID_Validate v = nil \<longleftrightarrow>
     v \<noteq> [] \<and> length v \<le> 1024 \<and> validString v \<and> \<not> containsAny v nulCRLF"
  by (auto simp: NativeID_Validate_def)

lemma validateSafeASCII_nil [accepted]:
  "validateSafeASCII f v lo hi = nil \<longleftrightarrow>
     lo \<le> length v \<and> length v \<le> hi \<and> (\<forall>c \<in> set v. safeASCII c)"
  by (auto simp: validateSafeASCII_def each_err_nil split: if_splits)

lemma validateNonce_nil [accepted]:
  "validateNonce v = nil \<longleftrightarrow> 22 \<le> length v \<and> length v \<le> 256 \<and> (\<forall>c \<in> set v. nonceChar c)"
  by (auto simp: validateNonce_def each_err_nil split: if_splits)

lemma equalStrings_iff [simp]: "equalStrings a b \<longleftrightarrow> a = b"
  by (induction a b rule: equalStrings.induct) auto

text \<open>Identifiers: the arithmetic reading of \<open>idPattern\<close> and \<open>tokenPattern\<close>.\<close>

lemma idPattern_iff:
  "matchString idPattern s \<longleftrightarrow>
     (\<exists>c cs. s = c # cs \<and> in_class cls_AZaz09 c \<and> length cs \<le> 127 \<and> list_all (in_class cls_id) cs)"
  by (simp add: idPattern_def match_head_tail)

lemma idPattern_Cons [simp]:
  "matchString idPattern (c # cs) \<longleftrightarrow>
     in_class cls_AZaz09 c \<and> length cs \<le> 127 \<and> list_all (in_class cls_id) cs"
  by (simp add: idPattern_iff del: matchString.simps)

lemma idPattern_Nil [simp]: "\<not> matchString idPattern []"
  by (simp add: idPattern_iff del: matchString.simps)

lemma tokenPattern_Cons [simp]:
  "matchString tokenPattern (c # cs) \<longleftrightarrow>
     in_class cls_az09 c \<and> length cs \<le> 127 \<and> list_all (in_class cls_token) cs"
  by (simp add: tokenPattern_def match_head_tail del: matchString.simps)

lemma idPattern_length: "matchString idPattern s \<Longrightarrow> 1 \<le> length s \<and> length s \<le> 128"
  by (auto simp: idPattern_iff)

lemma in_class_id_head: "in_class cls_AZaz09 c \<Longrightarrow> in_class cls_id c"
  by (auto simp: in_class_def)

lemma idPattern_chars: "matchString idPattern s \<Longrightarrow> c \<in> set s \<Longrightarrow> in_class cls_id c"
  by (auto simp: idPattern_iff list_all_iff in_class_id_head)

lemma in_class_id_ascii: "in_class cls_id c \<Longrightarrow> byte c < 128 \<and> c \<notin> set nulCRLF"
  by (auto simp: in_class_def)

text \<open>
  An identifier is a native identifier: the canonical space is inside the native one.
\<close>

lemma idPattern_NativeID:
  assumes "matchString idPattern s"
  shows "NativeID_Validate s = nil"
proof -
  have "ascii s" using assms by (auto simp: ascii_def dest!: idPattern_chars in_class_id_ascii)
  moreover have "\<not> containsAny s nulCRLF"
  proof -
    have "c \<notin> set nulCRLF" if "c \<in> set s" for c
      using in_class_id_ascii [OF idPattern_chars [OF assms that]] by (rule conjunct2)
    then show ?thesis unfolding containsAny_iff by blast
  qed
  moreover have "s \<noteq> []" "length s \<le> 1024" using idPattern_length [OF assms] by auto
  ultimately show ?thesis by (simp add: NativeID_Validate_nil validString_ascii)
qed

text \<open>Digests: what \<open>"sha256:" + hex.EncodeToString(sum)\<close> produces is always accepted.\<close>

definition digestOf :: "string \<Rightarrow> string" where
  "digestOf h = ''sha256:'' @ hexEncode h"

lemma hasPrefix_digest [simp]: "hasPrefix (digestOf h) ''sha256:''"
  unfolding digestOf_def by (rule hasPrefix_append)

lemma trimPrefix_digest [simp]: "trimPrefix (digestOf h) ''sha256:'' = hexEncode h"
  unfolding digestOf_def by (rule trimPrefix_append)

lemma Digest_Validate_digestOf: "length h = 32 \<Longrightarrow> Digest_Validate (digestOf h) = nil"
  by (simp add: Digest_Validate_def Let_def)

lemma digestOf_inject [simp]: "digestOf a = digestOf b \<longleftrightarrow> a = b"
  by (simp add: digestOf_def)

lemma Digest_Validate_nil [accepted]:
  "Digest_Validate d = nil \<longleftrightarrow>
     (\<exists>h. d = ''sha256:'' @ h \<and> length h = 64 \<and> map toLowerASCII h = h \<and> hexDecode h \<noteq> None)"
proof
  assume v: "Digest_Validate d = nil"
  then obtain h where h: "d = ''sha256:'' @ h" unfolding Digest_Validate_def hasPrefix_iff
    by (auto simp: hasPrefix_iff split: if_splits)
  have "trimPrefix d ''sha256:'' = h" unfolding h by (rule trimPrefix_append)
  with v have "length h = 64 \<and> map toLowerASCII h = h \<and> hexDecode h \<noteq> None"
    by (auto simp: Digest_Validate_def Let_def split: if_splits)
  with h show "\<exists>h. d = ''sha256:'' @ h \<and> length h = 64 \<and> map toLowerASCII h = h \<and> hexDecode h \<noteq> None"
    by blast
next
  assume "\<exists>h. d = ''sha256:'' @ h \<and> length h = 64 \<and> map toLowerASCII h = h \<and> hexDecode h \<noteq> None"
  then obtain h where h: "d = ''sha256:'' @ h" "length h = 64" "map toLowerASCII h = h" "hexDecode h \<noteq> None"
    by blast
  have "hasPrefix d ''sha256:''" "trimPrefix d ''sha256:'' = h"
    unfolding h(1) by (rule hasPrefix_append, rule trimPrefix_append)
  with h(2-4) show "Digest_Validate d = nil" by (simp add: Digest_Validate_def Let_def)
qed

text \<open>Opaque references: accepted exactly when a colon follows a non-empty clean prefix.\<close>

lemma opaqueScan_nil:
  "opaqueScan f i s = nil \<longleftrightarrow>
     (\<exists>p q. s = p @ CHR '':'' # q \<and> 0 < i + length p \<and> set p \<inter> set nulCRLF = {})"
proof (induction s arbitrary: i)
  case (Cons r s)
  have "(\<exists>p q. r # s = p @ CHR '':'' # q \<and> 0 < i + length p \<and> set p \<inter> set nulCRLF = {}) \<longleftrightarrow>
      (r = CHR '':'' \<and> 0 < i) \<or>
      (r \<notin> set nulCRLF \<and> (\<exists>p q. s = p @ CHR '':'' # q \<and> set p \<inter> set nulCRLF = {}))"
    (is "?L = ?R")
  proof
    assume ?L
    then obtain p q where "r # s = p @ CHR '':'' # q" "0 < i + length p" "set p \<inter> set nulCRLF = {}"
      by blast
    then show ?R by (cases p) auto
  next
    assume ?R
    then show ?L
    proof
      assume "r = CHR '':'' \<and> 0 < i"
      then show ?L by (intro exI [of _ "[]"] exI [of _ s]) simp
    next
      assume "r \<notin> set nulCRLF \<and> (\<exists>p q. s = p @ CHR '':'' # q \<and> set p \<inter> set nulCRLF = {})"
      then obtain p q where "r \<notin> set nulCRLF" "s = p @ CHR '':'' # q" "set p \<inter> set nulCRLF = {}"
        by blast
      then show ?L by (intro exI [of _ "r # p"] exI [of _ q]) auto
    qed
  qed
  then show ?case using Cons [of "Suc i"] by auto
qed simp

lemma validateOpaqueReference_nil [accepted]:
  "validateOpaqueReference f v = nil \<longleftrightarrow>
     length v \<le> 1024 \<and>
     (\<exists>p q. v = p @ CHR '':'' # q \<and> p \<noteq> [] \<and> set p \<inter> set nulCRLF = {})"
  by (auto simp: validateOpaqueReference_def opaqueScan_nil)

text \<open>Errors built by the package are well formed, and their text is fixed by their code.\<close>

lemma errorMessage_codes:
  "errorMessage c \<noteq> None \<longleftrightarrow> c \<in> fst ` set canonicalErrorMessages"
  by (simp add: errorMessage_def map_of_eq_None_iff)

lemma protocolError_valid:
  "c \<noteq> CodeNotSupported \<Longrightarrow> \<exists>e. protocolError c = Structured e \<and> Error_Validate e = nil"
  by (cases "errorMessage c")
    (auto simp: protocolError_def Error_Validate_def ErrorCode_Validate_def, simp_all add: errorMessage_def canonicalErrorMessages_def)

lemma IsCode_protocolError [simp]:
  "errorMessage c \<noteq> None \<Longrightarrow> IsCode (Some (protocolError c)) d \<longleftrightarrow> c = d"
  by (auto simp: IsCode_def protocolError_def)

section \<open>Properties\<close>

text \<open>
  An opaque reference is accepted exactly when it has at most 1024 bytes and a colon follows a
  non-empty prefix free of NUL, CR and LF. Nothing is asked of the bytes after the colon.
\<close>

theorem validateOpaqueReference_correct:
  "validateOpaqueReference field v = nil \<longleftrightarrow>
     length v \<le> 1024 \<and>
     (\<exists>p q. v = p @ CHR '':'' # q \<and> p \<noteq> [] \<and> set p \<inter> set nulCRLF = {})"
  by (rule validateOpaqueReference_nil)

text \<open>
  The scan stops at the first colon, so a reference whose part after the colon contains a line
  feed is accepted, although the same byte before the colon is refused as invalid.
\<close>

theorem validateOpaqueReference_suffix_unchecked:
  "validateOpaqueReference f (''run:'' @ [CHR 0x0A] @ ''x'') = nil \<and>
   validateOpaqueReference f (''r'' @ [CHR 0x0A] @ '':x'') = errorf (f @ '' is invalid'')"
  by (simp add: validateOpaqueReference_def)

text \<open>
  C41: Every canonical identifier (\<open>validateID\<close>) is also a valid native identifier, so the
  canonical identifier space is contained in the native one.
\<close>

theorem validateID_NativeID:
  assumes "validateID field value = nil"
  shows "NativeID_Validate value = nil"
  using assms by (simp add: accepted idPattern_NativeID del: NativeID_Validate_nil)

theorem validateID_NativeID_witness: "NativeID_Validate ''Session-1.a_b'' = nil"
  by (rule validateID_NativeID [of "''session_id''"]) code_simp

text \<open>
  C42: An error built by \<open>protocolError\<close> passes \<open>Error.Validate\<close> for every code but not_supported,
  unknown codes included, so its text is always one of the closed canonical messages.
\<close>

theorem protocolError_canonical:
  assumes "code \<noteq> CodeNotSupported"
  shows "\<exists>e. protocolError code = Structured e \<and> Error_Validate e = nil \<and>
           (err_Code e, err_Message e) \<in> set canonicalErrorMessages"
proof -
  obtain e where e: "protocolError code = Structured e" "Error_Validate e = nil"
    using protocolError_valid [OF assms] by blast
  then have "errorMessage (err_Code e) = Some (err_Message e)" by (simp add: Error_Validate_def)
  then show ?thesis using e by (auto simp: errorMessage_def dest: map_of_SomeD)
qed

theorem protocolError_canonical_witness:
  "\<exists>e. protocolError ''no_such_code'' = Structured e \<and> Error_Validate e = nil \<and>
     (err_Code e, err_Message e) \<in> set canonicalErrorMessages"
  by (rule protocolError_canonical) simp

end
