(* ===== verification/Json_Guard.thy ===== *)
theory Json_Guard
  imports Json_Raw Proto_Validate
begin

text \<open>
  The content guards of \<open>protocol/validate.go\<close>: \<open>rejectDuplicateKeys\<close> (a token reader with one
  \<open>seen\<close> set per open object), \<open>rejectReservedProviderContent\<close> (a worklist over the decoded value),
  the guards on provider-authored objects, compact-JSON digests, and \<open>Decode\<close>, which composes them.
  The reference definitions are predicates on the parse tree: \<open>jdistinct\<close> (no object repeats a key)
  and \<open>authorityFree\<close> (no reserved key outside the allowed ones at the root).
\<close>

section \<open>Duplicate keys\<close>

text \<open>
  \<open>consume\<close> reads one value: \<open>Inr\<close> is the input left after it. \<open>decoder.More()\<close> and the delimiter
  handling of \<open>decoder.Token()\<close> are \<^const>\<open>nextItem\<close>; a key token with its colon is \<^const>\<open>scanKey\<close>.
  The errors of the decoder are not told apart, as the callers only test for nil.
\<close>

abbreviation syntaxError :: go_error where
  "syntaxError \<equiv> Plain ''invalid JSON''"

fun consume :: "nat \<Rightarrow> string \<Rightarrow> go_error + string"
  and consumeElems :: "nat \<Rightarrow> bool \<Rightarrow> string \<Rightarrow> go_error + string"
  and consumeMembers :: "nat \<Rightarrow> string list \<Rightarrow> bool \<Rightarrow> string \<Rightarrow> go_error + string" where
  "consume 0 s = Inl syntaxError"
| "consume (Suc f) s =
     (case skipWS s of
        [] \<Rightarrow> Inl syntaxError
      | c # r \<Rightarrow>
          if c = CHR ''{'' then consumeMembers f [] False r
          else if c = CHR ''['' then consumeElems f False r
          else (case scanScalar (c # r) of None \<Rightarrow> Inl syntaxError | Some (_, t) \<Rightarrow> Inr t))"
| "consumeElems 0 started s = Inl syntaxError"
| "consumeElems (Suc f) started s =
     (case nextItem (CHR '']'') started s of
        None \<Rightarrow> Inl syntaxError
      | Some (False, t) \<Rightarrow> Inr t
      | Some (True, t) \<Rightarrow>
          (case consume f t of Inl e \<Rightarrow> Inl e | Inr u \<Rightarrow> consumeElems f True u))"
| "consumeMembers 0 seen started s = Inl syntaxError"
| "consumeMembers (Suc f) seen started s =
     (case nextItem (CHR ''}'') started s of
        None \<Rightarrow> Inl syntaxError
      | Some (False, t) \<Rightarrow> Inr t
      | Some (True, t) \<Rightarrow>
          (case scanKey t of
             None \<Rightarrow> Inl syntaxError
           | Some (key, t') \<Rightarrow>
               if key \<in> set seen then Inl (Plain ''duplicate object key'')
               else (case consume f t' of Inl e \<Rightarrow> Inl e
                     | Inr u \<Rightarrow> consumeMembers f (key # seen) True u)))"

definition rejectDuplicateKeys :: "string \<Rightarrow> verr" where
  "rejectDuplicateKeys data =
     (case consume (json_fuel data) data of
        Inl e \<Rightarrow> Some e
      | Inr rest \<Rightarrow> if skipWS rest = [] then nil else errorf ''multiple JSON values'')"

fun jdistinct :: "json \<Rightarrow> bool" where
  "jdistinct (JArr vs) = list_all jdistinct vs"
| "jdistinct (JObj ms) = (distinct (map fst ms) \<and> list_all (\<lambda>(k, v). jdistinct v) ms)"
| "jdistinct _ = True"

lemma scanScalar_jdistinct: "scanScalar s = Some (v, r) \<Longrightarrow> jdistinct v"
  by (auto simp: scanScalar_def split: list.splits if_splits)

lemma consume_iff:
  "(consume f s = Inr r \<longleftrightarrow> (\<exists>v. jparse f s = Some (v, r) \<and> jdistinct v)) \<and>
   (consumeElems f st s = Inr r \<longleftrightarrow> (\<exists>vs. jelems f st s = Some (vs, r) \<and> list_all jdistinct vs)) \<and>
   (consumeMembers f seen st s = Inr r \<longleftrightarrow>
      (\<exists>ms. jmembers f st s = Some (ms, r) \<and> distinct (map fst ms) \<and>
         fst ` set ms \<inter> set seen = {} \<and> list_all (\<lambda>(k, v). jdistinct v) ms))"
proof (induction f arbitrary: s st seen r)
  case (Suc f)
  have p: "consume f s = Inr r \<longleftrightarrow> (\<exists>v. jparse f s = Some (v, r) \<and> jdistinct v)"
    and e: "consumeElems f st s = Inr r \<longleftrightarrow> (\<exists>vs. jelems f st s = Some (vs, r) \<and> list_all jdistinct vs)"
    and m: "consumeMembers f seen st s = Inr r \<longleftrightarrow>
      (\<exists>ms. jmembers f st s = Some (ms, r) \<and> distinct (map fst ms) \<and>
         fst ` set ms \<inter> set seen = {} \<and> list_all (\<lambda>(k, v). jdistinct v) ms)"
    for s st seen r using Suc by blast+
  have 1: "consume (Suc f) s = Inr r \<longleftrightarrow> (\<exists>v. jparse (Suc f) s = Some (v, r) \<and> jdistinct v)"
    by (cases "skipWS s") (auto simp: e m scanScalar_jdistinct simp del: dropWhile_eq_Nil_conv split: option.splits)
  have 2: "consumeElems (Suc f) st s = Inr r \<longleftrightarrow>
      (\<exists>vs. jelems (Suc f) st s = Some (vs, r) \<and> list_all jdistinct vs)"
  proof (cases "nextItem (CHR '']'') st s")
    case (Some bt)
    obtain b t where bt: "bt = (b, t)" by (cases bt)
    have "(case consume f t of Inl e \<Rightarrow> Inl e | Inr u \<Rightarrow> consumeElems f True u) = Inr r \<longleftrightarrow>
        (\<exists>u. consume f t = Inr u \<and> consumeElems f True u = Inr r)" by (auto split: sum.splits)
    then show ?thesis using Some bt by (cases b) (auto simp: p e split: option.splits)
  qed simp
  have 3: "consumeMembers (Suc f) seen st s = Inr r \<longleftrightarrow>
      (\<exists>ms. jmembers (Suc f) st s = Some (ms, r) \<and> distinct (map fst ms) \<and>
         fst ` set ms \<inter> set seen = {} \<and> list_all (\<lambda>(k, v). jdistinct v) ms)"
  proof (cases "nextItem (CHR ''}'') st s")
    case (Some bt)
    obtain b t where bt: "bt = (b, t)" by (cases bt)
    have "(case consume f t' of Inl e \<Rightarrow> Inl e | Inr u \<Rightarrow> consumeMembers f (k # seen) True u) = Inr r \<longleftrightarrow>
        (\<exists>u. consume f t' = Inr u \<and> consumeMembers f (k # seen) True u = Inr r)" for t' k
      by (auto split: sum.splits)
    then show ?thesis using Some bt
      by (cases b; cases "scanKey t") (force simp: p m split: option.splits)+
  qed simp
  from 1 2 3 show ?case by blast
qed simp

lemma rejectDuplicateKeys_nil [accepted]:
  "rejectDuplicateKeys data = nil \<longleftrightarrow> (\<exists>v. parseJSON data = Some v \<and> jdistinct v)"
proof -
  have "rejectDuplicateKeys data = nil \<longleftrightarrow> (\<exists>r. consume (json_fuel data) data = Inr r \<and> skipWS r = [])"
    by (auto simp: rejectDuplicateKeys_def simp del: consume.simps dropWhile_eq_Nil_conv split: sum.splits)
  also have "\<dots> \<longleftrightarrow> (\<exists>r v. jparse (json_fuel data) data = Some (v, r) \<and> jdistinct v \<and> skipWS r = [])"
    using consume_iff [THEN conjunct1, of "json_fuel data" data] by (simp del: consume.simps jparse.simps dropWhile_eq_Nil_conv) blast
  also have "\<dots> \<longleftrightarrow> (\<exists>v. parseJSON data = Some v \<and> jdistinct v)"
    by (auto simp: parseJSON_def simp del: jparse.simps dropWhile_eq_Nil_conv split: option.splits)
  finally show ?thesis .
qed

section \<open>Reserved authority keys\<close>

definition providerCanonicalAuthorityKeys :: "string list" where
  "providerCanonicalAuthorityKeys =
     [''tenant_id'', ''project_id'', ''initiative_id'', ''work_item_id'',
      ''gateway_id'', ''session_id'', ''canonical_session_id'',
      ''correlation_id'', ''causation_id'', ''sensitivity'', ''authority'',
      ''verification_tier'', ''tier'', ''verified'']"

definition providerReviewAuthorityKeys :: "string list" where
  "providerReviewAuthorityKeys =
     [''artifact_id'', ''creator_type'', ''creator_id'', ''review_state'',
      ''classification'', ''approval_id'', ''approved'', ''decision_revision'']"

abbreviation reservedKey :: "string \<Rightarrow> bool" where
  "reservedKey k \<equiv> k \<in> set providerCanonicalAuthorityKeys \<or> k \<in> set providerReviewAuthorityKeys"

abbreviation permissionDenied :: go_error where
  "permissionDenied \<equiv> protocolError CodePermissionDenied"

abbreviation invalidArgument :: go_error where
  "invalidArgument \<equiv> protocolError CodeInvalidArgument"

text \<open>
  The stack is a list with its top at the head; children are pushed in order, so the last child is
  on top. The order in which Go visits the members of a map is unspecified, and \<open>reservedLoop_nil\<close>
  shows that the outcome does not depend on it.
\<close>

definition checkMember :: "string list \<Rightarrow> bool \<Rightarrow> string \<times> json \<Rightarrow> verr" where
  "checkMember allowedRoot rt m =
     (let key = fst m; allowed = key \<in> set allowedRoot in
      if \<not> rt \<or> \<not> allowed then
        (if key \<in> set providerCanonicalAuthorityKeys then Some permissionDenied
         else if key \<in> set providerReviewAuthorityKeys then Some permissionDenied
         else nil)
      else nil)"

function reservedLoop :: "string list \<Rightarrow> (json \<times> bool) list \<Rightarrow> verr" where
  "reservedLoop allowedRoot [] = nil"
| "reservedLoop allowedRoot ((value, rt) # stack) =
     (case value of
        JObj ms \<Rightarrow>
          (case each_err (checkMember allowedRoot rt) ms of
             Some e \<Rightarrow> Some e
           | None \<Rightarrow> reservedLoop allowedRoot (rev (map (\<lambda>m. (snd m, False)) ms) @ stack))
      | JArr vs \<Rightarrow> reservedLoop allowedRoot (rev (map (\<lambda>v. (v, False)) vs) @ stack)
      | _ \<Rightarrow> reservedLoop allowedRoot stack)"
  by pat_completeness auto

lemma sum_list_size_members: "sum_list (map (\<lambda>m. Suc (size (snd m))) ms) \<le> size_list (size_prod (\<lambda>x. 0) size) ms"
  by (induction ms) (auto split: prod.splits)

lemma sum_list_size_elems: "sum_list (map (\<lambda>v. Suc (size v)) vs) \<le> size_list size vs"
  by (induction vs) auto

termination reservedLoop
  by (relation "measure (\<lambda>(a, stack). sum_list (map (\<lambda>n. Suc (size (fst n))) stack))")
    (auto simp: rev_map [symmetric] comp_def less_Suc_eq_le
      intro: order_trans [OF sum_list_size_members] order_trans [OF sum_list_size_elems])

declare reservedLoop.simps(2) [simp del]

definition rejectReservedProviderContent :: "string \<Rightarrow> string list \<Rightarrow> verr" where
  "rejectReservedProviderContent data allowedRoot =
     (if rejectDuplicateKeys data \<noteq> nil then Some invalidArgument
      else case json_decode data of
             None \<Rightarrow> Some invalidArgument
           | Some value \<Rightarrow> reservedLoop allowedRoot [(value, True)])"

definition rejectReservedExtensions :: "extensions \<Rightarrow> verr" where
  "rejectReservedExtensions values = each_err (\<lambda>(key, value). rejectReservedProviderContent value []) values"

text \<open>Every key that occurs in a value, at any depth, and the specification of the worklist.\<close>

fun allKeys :: "json \<Rightarrow> string set" where
  "allKeys (JArr vs) = (\<Union>v \<in> set vs. allKeys v)"
| "allKeys (JObj ms) = fst ` set ms \<union> (\<Union>m \<in> set ms. allKeys (snd m))"
| "allKeys _ = {}"

definition authorityFree :: "string list \<Rightarrow> json \<Rightarrow> bool" where
  "authorityFree allowedRoot v \<longleftrightarrow>
     (case v of
        JObj ms \<Rightarrow> (\<forall>(k, x) \<in> set ms. (reservedKey k \<longrightarrow> k \<in> set allowedRoot) \<and>
                      (\<forall>q \<in> allKeys x. \<not> reservedKey q))
      | _ \<Rightarrow> \<forall>q \<in> allKeys v. \<not> reservedKey q)"

definition nodeFree :: "string list \<Rightarrow> json \<times> bool \<Rightarrow> bool" where
  "nodeFree allowedRoot n \<longleftrightarrow>
     (if snd n then authorityFree allowedRoot (fst n) else \<forall>q \<in> allKeys (fst n). \<not> reservedKey q)"

lemma checkMember_nil:
  "checkMember allowedRoot rt m = nil \<longleftrightarrow> (reservedKey (fst m) \<longrightarrow> rt \<and> fst m \<in> set allowedRoot)"
  by (auto simp: checkMember_def Let_def)

lemma nodeFree_JObj:
  "nodeFree a (JObj ms, rt) \<longleftrightarrow>
     (\<forall>m \<in> set ms. checkMember a rt m = nil) \<and> (\<forall>m \<in> set ms. nodeFree a (snd m, False))"
  by (auto simp: nodeFree_def authorityFree_def checkMember_nil split_beta)

lemma nodeFree_JArr: "nodeFree a (JArr vs, rt) \<longleftrightarrow> (\<forall>v \<in> set vs. nodeFree a (v, False))"
  by (auto simp: nodeFree_def authorityFree_def)

lemma nodeFree_scalar:
  "(\<And>ms. v \<noteq> JObj ms) \<Longrightarrow> (\<And>vs. v \<noteq> JArr vs) \<Longrightarrow> nodeFree a (v, rt)"
  by (cases v) (auto simp: nodeFree_def authorityFree_def)

lemma reservedLoop_nil:
  "reservedLoop a stack = nil \<longleftrightarrow> (\<forall>n \<in> set stack. nodeFree a n)"
proof (induction a stack rule: reservedLoop.induct)
  case (2 a val rt stack)
  show ?case
  proof (cases val)
    case (JArr vs)
    then show ?thesis using 2 by (auto simp: reservedLoop.simps nodeFree_JArr)
  next
    case (JObj ms)
    then show ?thesis using 2
      by (cases "each_err (checkMember a rt) ms")
        (auto simp: reservedLoop.simps nodeFree_JObj each_err_nil [symmetric])
  qed (use 2 in \<open>auto simp: reservedLoop.simps nodeFree_scalar\<close>)
qed simp

lemma each_err_checkMember: "each_err (checkMember a rt) ms = Some e \<Longrightarrow> e = permissionDenied"
  by (induction ms) (auto simp: each_err.simps checkMember_def Let_def split: option.splits if_splits)

lemma reservedLoop_error: "reservedLoop a stack = Some e \<Longrightarrow> e = permissionDenied"
proof (induction a stack rule: reservedLoop.induct)
  case (2 a val rt stack)
  then show ?case
    by (cases val) (auto simp: reservedLoop.simps dest: each_err_checkMember split: option.splits)
qed simp

lemma rejectReservedProviderContent_nil [accepted]:
  "rejectReservedProviderContent data allowed = nil \<longleftrightarrow>
     (\<exists>v. json_decode data = Some v \<and> jdistinct v \<and> authorityFree allowed v)"
  by (auto simp: rejectReservedProviderContent_def reservedLoop_nil nodeFree_def rejectDuplicateKeys_nil
      json_decode_def split: option.splits if_splits)

section \<open>Provider-authored objects\<close>

text \<open>The destination types that \<open>Decode\<close> tells apart; every other type is \<open>DOther\<close>.\<close>

datatype doc_kind =
    DProviderManifest | DSession | DProviderEvent | DCanonicalEvent | DCommand | DCommandResult
  | DArtifact | DProviderArtifactReport | DEnvironment | DEnvironmentProvisionRequest
  | DRuntimeCreateSessionRequest | DWorkspaceCreateRequest | DHarnessLaunchRequest
  | DAgentMessageRequest | DContextDeliverRequest | DAgentTool | DApprovalBinding
  | DApprovalDecision | DIsolationEvidence | DContentCustodyEvidence
  | DLiveVerificationAuthorization | DLiveVerificationReceipt | DVerificationEvidence | DError
  | DOther

text \<open>Decoding a JSON text into a Go \<open>string\<close>: a string, or null, which leaves the variable empty.\<close>

definition json_string :: "string \<Rightarrow> string option" where
  "json_string raw =
     (case json_decode raw of Some (JStr t) \<Rightarrow> Some t | Some JNull \<Rightarrow> Some [] | _ \<Rightarrow> None)"

abbreviation stateChanged :: string where "stateChanged \<equiv> ''session.state_changed''"

definition allowedPayloadKeys :: "(string \<times> string) list \<Rightarrow> string list" where
  "allowedPayloadKeys object =
     (case rawLookup object ''type'' of
        Some rawType \<Rightarrow> if json_string rawType = Some stateChanged then [''authority''] else []
      | None \<Rightarrow> [])"

definition rejectReservedProviderObject :: "string \<Rightarrow> doc_kind \<Rightarrow> verr" where
  "rejectReservedProviderObject data dst =
     (case rawObject data of
        None \<Rightarrow> Some invalidArgument
      | Some object \<Rightarrow>
          first_err
           [each_err (\<lambda>key. if rawLookup object key \<noteq> None then Some permissionDenied else nil)
              providerCanonicalAuthorityKeys,
            if dst = DProviderArtifactReport then
              each_err (\<lambda>key. if rawLookup object key \<noteq> None then Some permissionDenied else nil)
                providerReviewAuthorityKeys
            else nil,
            if dst = DProviderEvent then
              (case rawLookup object ''payload'' of
                 None \<Rightarrow> nil
               | Some payload \<Rightarrow> rejectReservedProviderContent payload (allowedPayloadKeys object))
            else nil,
            case rawLookup object ''extensions'' of
              None \<Rightarrow> nil
            | Some rawExtensions \<Rightarrow>
                (case rawObject rawExtensions of
                   None \<Rightarrow> Some invalidArgument
                 | Some exts \<Rightarrow> rejectReservedExtensions exts)])"

definition rejectReservedAuthorityFields :: "string \<Rightarrow> doc_kind \<Rightarrow> verr" where
  "rejectReservedAuthorityFields data dst =
     (if dst \<in> {DProviderManifest, DProviderEvent, DProviderArtifactReport}
      then rejectReservedProviderObject data dst
      else if dst = DCanonicalEvent then
        (case rawObject data of
           None \<Rightarrow> Some invalidArgument
         | Some object \<Rightarrow>
             (case rawLookup object ''provider_event'' of
                None \<Rightarrow> nil
              | Some nested \<Rightarrow> rejectReservedProviderObject nested DProviderEvent))
      else nil)"

section \<open>Compaction, digests and Decode\<close>

definition compactRaw :: "string \<Rightarrow> string option" where
  "compactRaw value = json_Compact value"

fun compactExtensions :: "extensions \<Rightarrow> extensions option" where
  "compactExtensions [] = Some []"
| "compactExtensions ((key, value) # values) =
     (case compactRaw value of
        None \<Rightarrow> None
      | Some c \<Rightarrow> map_option (Cons (key, c)) (compactExtensions values))"

text \<open>
  A decoded destination: its type, the one raw JSON field that \<open>normalizeDecoded\<close> rewrites, its
  extensions, and the remaining fields.
\<close>

record 'a document =
  d_kind :: doc_kind
  d_raw :: string
  d_extensions :: extensions
  d_rest :: 'a

definition compactRawField :: "'a document \<Rightarrow> 'a document option" where
  "compactRawField d = map_option (\<lambda>c. d\<lparr>d_raw := c\<rparr>) (compactRaw (d_raw d))"

definition compactExtensionsField :: "'a document \<Rightarrow> 'a document option" where
  "compactExtensionsField d = map_option (\<lambda>c. d\<lparr>d_extensions := c\<rparr>) (compactExtensions (d_extensions d))"

definition normalizeDecoded :: "'a document \<Rightarrow> 'a document option" where
  "normalizeDecoded d =
     (if d_kind d \<in> {DProviderManifest, DSession, DArtifact, DProviderArtifactReport}
      then compactExtensionsField d
      else if d_kind d \<in> {DProviderEvent, DCanonicalEvent}
      then Option.bind (compactRawField d) compactExtensionsField
      else if d_kind d = DCommand then compactRawField d
      else if d_kind d \<in> {DCommandResult, DEnvironment}
      then (if d_raw d = [] then Some d else compactRawField d)
      else if d_kind d \<in> {DEnvironmentProvisionRequest, DRuntimeCreateSessionRequest,
             DWorkspaceCreateRequest, DHarnessLaunchRequest, DAgentMessageRequest,
             DContextDeliverRequest, DAgentTool}
      then compactRawField d
      else Some d)"

definition isClosedSecurityDocument :: "doc_kind \<Rightarrow> bool" where
  "isClosedSecurityDocument dst \<longleftrightarrow>
     dst \<in> {DCommand, DApprovalBinding, DApprovalDecision, DIsolationEvidence,
       DContentCustodyEvidence, DLiveVerificationAuthorization, DLiveVerificationReceipt,
       DVerificationEvidence, DError}"

text \<open>
  \<open>unmarshal strict text\<close> stands for the reflection of \<open>encoding/json\<close> on one JSON value: the
  destination filled by its struct tags, or None on a type error or, when \<open>strict\<close>, on an unknown
  field. A strict decoder reads the first value and then asks for the end of the input.
\<close>

definition decodeJSON :: "(bool \<Rightarrow> string \<Rightarrow> 'a option) \<Rightarrow> string \<Rightarrow> bool \<Rightarrow> 'a option" where
  "decodeJSON unmarshal data strict =
     (if \<not> strict then (if json_Valid data then unmarshal False data else None)
      else case jparse (json_fuel data) data of
             None \<Rightarrow> None
           | Some (v, rest) \<Rightarrow>
               if jdepth v > 10000 then None
               else (case unmarshal True (rawText data rest) of
                       None \<Rightarrow> None
                     | Some d \<Rightarrow> if skipWS rest = [] then Some d else None))"

definition Decode ::
  "(bool \<Rightarrow> string \<Rightarrow> 'a document option) \<Rightarrow> ('a document \<Rightarrow> verr) \<Rightarrow> string \<Rightarrow> doc_kind \<Rightarrow> go_error + 'a document" where
  "Decode unmarshal validate data dst =
     (if length data > MaxMessageBytes then Inl (protocolError CodeMessageTooLarge)
      else if rejectDuplicateKeys data \<noteq> nil then Inl invalidArgument
      else case rejectReservedAuthorityFields data dst of
        Some e \<Rightarrow> Inl e
      | None \<Rightarrow>
          (case decodeJSON unmarshal data (isClosedSecurityDocument dst) of
             None \<Rightarrow> Inl invalidArgument
           | Some d \<Rightarrow>
               (case normalizeDecoded d of
                  None \<Rightarrow> Inl invalidArgument
                | Some n \<Rightarrow> (case validate n of Some _ \<Rightarrow> Inl invalidArgument | None \<Rightarrow> Inr n))))"

text \<open>\<open>crypto/sha256\<close> is a parameter: the 32 bytes of the digest of a text.\<close>

definition validateCompactJSONDigest :: "(string \<Rightarrow> string) \<Rightarrow> string \<Rightarrow> string \<Rightarrow> string \<Rightarrow> verr" where
  "validateCompactJSONDigest sha256 field value expected =
     (if value = [] then errorf (field @ '' is required'')
      else if rejectDuplicateKeys value \<noteq> nil then errorf (field @ '' contains ambiguous JSON'')
      else case compactRaw value of
        None \<Rightarrow> errorf (field @ '' is invalid JSON'')
      | Some compacted \<Rightarrow>
          first_err
           [Digest_Validate expected,
            if ''sha256:'' @ hexEncode (sha256 compacted) \<noteq> expected
              then errorf (field @ '' digest does not match compact JSON'') else nil])"

lemma validateCompactJSONDigest_nil [accepted]:
  "validateCompactJSONDigest sha256 f v d = nil \<longleftrightarrow>
     (\<exists>j. json_decode v = Some j \<and> jdistinct j) \<and> Digest_Validate d = nil \<and>
     d = digestOf (sha256 (stripWS False v))"
proof -
  have "v \<noteq> []" if "json_decode v = Some j" for j
    using that by (auto simp: json_decode_def parseJSON_def)
  then show ?thesis
    by (auto simp: validateCompactJSONDigest_def compactRaw_def json_Compact_def json_Valid_def
        rejectDuplicateKeys_nil digestOf_def json_decode_def split: option.splits if_splits)
qed

lemma Decode_Inr:
  "Decode u val data dst = Inr d \<longleftrightarrow>
     length data \<le> MaxMessageBytes \<and> rejectDuplicateKeys data = nil \<and>
     rejectReservedAuthorityFields data dst = nil \<and>
     (\<exists>d0. decodeJSON u data (isClosedSecurityDocument dst) = Some d0 \<and> normalizeDecoded d0 = Some d) \<and>
     val d = nil"
  by (auto simp: Decode_def split: option.splits if_splits)

section \<open>What an accepted provider document contains\<close>

lemma rawLookup_distinct: "distinct (map fst rs) \<Longrightarrow> rawLookup rs k = Some raw \<longleftrightarrow> (k, raw) \<in> set rs"
  by (simp add: rawLookup_def map_of_eq_Some_iff rev_map [symmetric])

lemma rawLookup_None: "rawLookup rs k = None \<longleftrightarrow> k \<notin> fst ` set rs"
  by (simp add: rawLookup_def map_of_eq_None_iff)

lemma rawObject_Some: "rawObject s = Some rs \<Longrightarrow>
    (json_decode s = Some JNull \<and> rs = []) \<or> (\<exists>ms. json_decode s = Some (JObj ms))"
  by (auto simp: rawObject_def split: option.splits json.splits)

text \<open>
  The parse-tree reading of the extension guard and of the guard on a whole provider object. The
  type that decides which payload keys are allowed is read from the tree.
\<close>

definition extensionsFree :: "json \<Rightarrow> bool" where
  "extensionsFree v \<longleftrightarrow> (case v of JObj es \<Rightarrow> \<forall>(k, x) \<in> set es. authorityFree [] x | JNull \<Rightarrow> True | _ \<Rightarrow> False)"

definition stateEvent :: "(string \<times> json) list \<Rightarrow> bool" where
  "stateEvent ms \<longleftrightarrow> (''type'', JStr stateChanged) \<in> set ms"

definition providerObjectFree :: "doc_kind \<Rightarrow> json \<Rightarrow> bool" where
  "providerObjectFree dst v \<longleftrightarrow>
     (case v of
        JNull \<Rightarrow> True
      | JObj ms \<Rightarrow>
          (\<forall>(k, x) \<in> set ms.
             k \<notin> set providerCanonicalAuthorityKeys \<and>
             (dst = DProviderArtifactReport \<longrightarrow> k \<notin> set providerReviewAuthorityKeys) \<and>
             (dst = DProviderEvent \<and> k = ''payload'' \<longrightarrow>
                authorityFree (if stateEvent ms then [''authority''] else []) x) \<and>
             (k = ''extensions'' \<longrightarrow> extensionsFree x))
      | _ \<Rightarrow> False)"

lemma rejectReservedExtensions_free:
  assumes "rawObject raw = Some exts" "rejectReservedExtensions exts = nil" "parseJSON raw = Some v"
  shows "extensionsFree v"
proof -
  have content: "\<exists>w. json_decode r = Some w \<and> authorityFree [] w" if "(k, r) \<in> set exts" for k r
    using assms(2) that unfolding rejectReservedExtensions_def each_err_nil
    by (fastforce simp: rejectReservedProviderContent_nil)
  from rawObject_Some [OF assms(1)] show ?thesis
  proof
    assume "json_decode raw = Some JNull \<and> exts = []"
    then show ?thesis using assms(3) by (auto simp: json_decode_def extensionsFree_def split: if_splits)
  next
    assume "\<exists>ms. json_decode raw = Some (JObj ms)"
    then obtain ms where ms: "json_decode raw = Some (JObj ms)" by blast
    then have v: "v = JObj ms" using assms(3) by (auto simp: json_decode_def split: if_splits)
    obtain rs where rs: "rawObject raw = Some rs"
      "\<And>k v. (k, v) \<in> set ms \<Longrightarrow> \<exists>r. (k, r) \<in> set rs \<and> parseJSON r = Some v"
      using rawObject_parse [OF ms] by metis
    have "authorityFree [] x" if kx: "(k, x) \<in> set ms" for k x
    proof -
      obtain r where "(k, r) \<in> set exts" "parseJSON r = Some x" using rs kx assms(1) by auto
      then show ?thesis using content by (force simp: json_decode_def split: if_splits)
    qed
    then show ?thesis unfolding v extensionsFree_def by auto
  qed
qed

lemma rejectReservedProviderObject_free:
  assumes dup: "rejectDuplicateKeys data = nil" and ok: "rejectReservedProviderObject data dst = nil"
  obtains v where "json_decode data = Some v" "providerObjectFree dst v"
proof -
  obtain object where ob: "rawObject data = Some object"
    using ok by (auto simp: rejectReservedProviderObject_def split: option.splits)
  from rawObject_Some [OF ob] consider "json_decode data = Some JNull"
    | ms where "json_decode data = Some (JObj ms)" by blast
  then show thesis
  proof cases
    case 1
    then show ?thesis by (intro that [of JNull]) (simp_all add: providerObjectFree_def)
  next
    case 2
    have "distinct (map fst ms)" using dup 2
      by (auto simp: rejectDuplicateKeys_nil json_decode_def split: option.splits if_splits)
    obtain rs where rs: "rawObject data = Some rs" "map fst rs = map fst ms"
      "\<And>k r. (k, r) \<in> set rs \<Longrightarrow> \<exists>v. (k, v) \<in> set ms \<and> parseJSON r = Some v"
      "\<And>k v. (k, v) \<in> set ms \<Longrightarrow> \<exists>r. (k, r) \<in> set rs \<and> parseJSON r = Some v"
      using rawObject_parse [OF 2] by metis
    have o: "object = rs" using ob rs(1) by simp
    have d: "distinct (map fst rs)" using rs(2) \<open>distinct (map fst ms)\<close> by simp
    have checks:
      "\<And>k. k \<in> set providerCanonicalAuthorityKeys \<Longrightarrow> rawLookup rs k = None"
      "\<And>k. dst = DProviderArtifactReport \<Longrightarrow> k \<in> set providerReviewAuthorityKeys \<Longrightarrow> rawLookup rs k = None"
      "\<And>p. dst = DProviderEvent \<Longrightarrow> rawLookup rs ''payload'' = Some p \<Longrightarrow>
         rejectReservedProviderContent p (allowedPayloadKeys rs) = nil"
      "\<And>e. rawLookup rs ''extensions'' = Some e \<Longrightarrow>
         \<exists>exts. rawObject e = Some exts \<and> rejectReservedExtensions exts = nil"
      using ok unfolding rejectReservedProviderObject_def ob o
      by (simp_all add: each_err_nil split: option.splits)
    have keys: "k \<in> fst ` set rs" if "(k, x) \<in> set ms" for k x using rs(4) that by force
    have state: "set (allowedPayloadKeys rs) \<subseteq> set (if stateEvent ms then [''authority''] else [])"
    proof -
      have "stateEvent ms" if t: "rawLookup rs ''type'' = Some r" "json_string r = Some stateChanged" for r
      proof -
        obtain w where w: "(''type'', w) \<in> set ms" "parseJSON r = Some w"
          using rs(3) t(1) rawLookup_distinct [OF d] by blast
        moreover have "w = JStr stateChanged" using t(2) w(2)
          by (auto simp: json_string_def json_decode_def split: option.splits json.splits if_splits)
        ultimately show ?thesis by (simp add: stateEvent_def)
      qed
      then show ?thesis by (cases "rawLookup rs ''type''") (auto simp: allowedPayloadKeys_def)
    qed
    have payload: "authorityFree (if stateEvent ms then [''authority''] else []) x"
      if ev: "dst = DProviderEvent" "(''payload'', x) \<in> set ms" for x
    proof -
      obtain r where r: "rawLookup rs ''payload'' = Some r" "parseJSON r = Some x"
        using rs(4) [OF ev(2)] rawLookup_distinct [OF d] by blast
      then have "authorityFree (allowedPayloadKeys rs) x" using checks(3) [OF ev(1) r(1)]
        by (auto simp: rejectReservedProviderContent_nil json_decode_def split: if_splits)
      then show ?thesis using state unfolding authorityFree_def by (cases x) auto
    qed
    have ext: "extensionsFree x" if "(''extensions'', x) \<in> set ms" for x
      using rs(4) [OF that] rawLookup_distinct [OF d] checks(4) rejectReservedExtensions_free by metis
    have "k \<notin> set providerCanonicalAuthorityKeys"
      "dst = DProviderArtifactReport \<Longrightarrow> k \<notin> set providerReviewAuthorityKeys" if "(k, x) \<in> set ms" for k x
      using checks(1,2) keys [OF that] by (auto simp: rawLookup_None)
    then have "providerObjectFree dst (JObj ms)"
      unfolding providerObjectFree_def using payload ext by auto
    then show ?thesis using that 2 by blast
  qed
qed

section \<open>Properties\<close>

text \<open>
  C40: \<open>rejectDuplicateKeys\<close> returns nil on a text exactly when the text is one JSON value and no object
  in it, at any depth, repeats a key (keys are compared after unquoting). The token reader with one
  \<open>seen\<close> set per open object therefore decides the tree predicate.
\<close>

theorem rejectDuplicateKeys_correct:
  "rejectDuplicateKeys data = nil \<longleftrightarrow> (\<exists>v. parseJSON data = Some v \<and> jdistinct v)"
  by (rule rejectDuplicateKeys_nil)

text \<open>
  C32: The worklist of \<open>rejectReservedProviderContent\<close> computes the recursive predicate: invalid or
  ambiguous JSON gives invalid_argument, a reserved canonical or review key anywhere except an
  allowed key of the root object gives permission_denied, and everything else is accepted.
\<close>

theorem rejectReservedProviderContent_correct:
  "rejectReservedProviderContent data allowed =
     (case json_decode data of
        None \<Rightarrow> Some invalidArgument
      | Some v \<Rightarrow> if \<not> jdistinct v then Some invalidArgument
                  else if authorityFree allowed v then nil else Some permissionDenied)"
proof (cases "json_decode data")
  case None
  then show ?thesis by (simp add: rejectReservedProviderContent_def)
next
  case (Some v)
  then have p: "parseJSON data = Some v" by (auto simp: json_decode_def split: option.splits if_splits)
  show ?thesis
  proof (cases "reservedLoop allowed [(v, True)]")
    case None
    then show ?thesis using Some p
      by (auto simp: rejectReservedProviderContent_def rejectDuplicateKeys_nil reservedLoop_nil nodeFree_def)
  next
    case (Some e)
    moreover from this have "\<not> authorityFree allowed v"
      using reservedLoop_nil [of allowed "[(v, True)]"] by (simp add: nodeFree_def)
    ultimately show ?thesis using \<open>json_decode data = Some v\<close> p reservedLoop_error [OF Some]
      by (auto simp: rejectReservedProviderContent_def rejectDuplicateKeys_nil)
  qed
qed

text \<open>
  C33: Whatever the typed decoder and the validator do, \<open>Decode\<close> lets a provider-authored document
  through only if the text is unambiguous JSON of at most 4 MiB in which no gateway-owned authority
  field is supplied: not at the top level, not anywhere in an event's payload (the \<open>authority\<close> member
  of a state report apart), not in an extension value, and for an artifact report no review field.
\<close>

theorem Decode_provider_authority:
  assumes "Decode unmarshal validate data dst = Inr d"
    and "dst \<in> {DProviderManifest, DProviderEvent, DProviderArtifactReport}"
  shows "\<exists>v. json_decode data = Some v \<and> jdistinct v \<and> providerObjectFree dst v \<and>
           length data \<le> MaxMessageBytes"
proof -
  have ok: "rejectDuplicateKeys data = nil" "rejectReservedProviderObject data dst = nil"
    "length data \<le> MaxMessageBytes"
    using assms by (auto simp: Decode_Inr rejectReservedAuthorityFields_def)
  obtain v where v: "json_decode data = Some v" "providerObjectFree dst v"
    using rejectReservedProviderObject_free [OF ok(1,2)] by blast
  moreover have "jdistinct v" using ok(1) v(1)
    by (auto simp: rejectDuplicateKeys_nil json_decode_def split: option.splits if_splits)
  ultimately show ?thesis using ok(3) by blast
qed

abbreviation jq :: "string \<Rightarrow> string" where
  "jq s \<equiv> quote_ch # s @ [quote_ch]"

definition stateEventText :: string where
  "stateEventText =
     ''{'' @ jq ''type'' @ '':'' @ jq stateChanged @ '', '' @ jq ''payload'' @ '':{'' @
     jq ''authority'' @ '':1}, '' @ jq ''extensions'' @ '':null}''"

definition stateEventDoc :: "unit document" where
  "stateEventDoc = \<lparr>d_kind = DProviderEvent, d_raw = ''{ }'', d_extensions = [], d_rest = ()\<rparr>"

theorem Decode_provider_authority_witness:
  "\<exists>v. json_decode stateEventText = Some v \<and> jdistinct v \<and> providerObjectFree DProviderEvent v \<and>
     length stateEventText \<le> MaxMessageBytes"
proof -
  have "Decode (\<lambda>_ _. Some stateEventDoc) (\<lambda>_. nil) stateEventText DProviderEvent
      = Inr (stateEventDoc\<lparr>d_raw := ''{}''\<rparr>)"
    by code_simp
  then show ?thesis by (rule Decode_provider_authority) simp
qed

text \<open>
  C37: \<open>validateCompactJSONDigest\<close> accepts exactly the unambiguous JSON texts whose digest, taken
  over the text without its insignificant white space, is the expected one, which must be well formed.
\<close>

theorem validateCompactJSONDigest_correct:
  "validateCompactJSONDigest sha256 f v d = nil \<longleftrightarrow>
     (\<exists>j. json_decode v = Some j \<and> jdistinct j) \<and> Digest_Validate d = nil \<and>
     d = ''sha256:'' @ hexEncode (sha256 (stripWS False v))"
  using validateCompactJSONDigest_nil [of sha256 f v d] unfolding digestOf_def .

end
