(* ===== verification/Proto_Session.thy ===== *)
theory Proto_Session
  imports Json_Guard
begin

text \<open>
  \<open>protocol/session.go\<close>: the state axes, state reports and logical sessions. The lemmas give the
  exact acceptance condition of a state report, show that a report is accepted on at most one axis,
  and that an accepted session carries one well-formed report per axis.
\<close>

section \<open>State reports\<close>

abbreviation AxisLifecycle :: string where "AxisLifecycle \<equiv> ''lifecycle''"
abbreviation AxisActivity :: string where "AxisActivity \<equiv> ''activity''"
abbreviation AxisHealth :: string where "AxisHealth \<equiv> ''health''"
abbreviation AuthorityAuthoritative :: string where "AuthorityAuthoritative \<equiv> ''authoritative''"
abbreviation AuthorityInferred :: string where "AuthorityInferred \<equiv> ''inferred''"

record StateReport =
  sr_Axis :: string
  sr_State :: string
  sr_Source :: string
  sr_ObservedAt :: gotime
  sr_Sequence :: uint64
  sr_Confidence :: float64
  sr_ExpiresAt :: "gotime option"
  sr_Authority :: string
  sr_Status :: string

definition allowedStates :: "(string \<times> string list) list" where
  "allowedStates =
     [(AxisLifecycle, [''provisioning'', ''starting'', ''running'', ''stopped'', ''terminated'',
         ''archived'', ''disconnected'', ''unknown'']),
      (AxisActivity, [''idle'', ''working'', ''waiting_for_user'', ''waiting_for_approval'',
         ''blocked'', ''done'', ''failed'', ''unknown'']),
      (AxisHealth, [''healthy'', ''degraded'', ''unreachable'', ''unknown''])]"

definition validState :: "string \<Rightarrow> string \<Rightarrow> bool" where
  "validState axis state \<longleftrightarrow>
     (case map_of allowedStates axis of None \<Rightarrow> False | Some states \<Rightarrow> state \<in> set states)"

definition StateReport_validate :: "StateReport \<Rightarrow> string \<Rightarrow> verr" where
  "StateReport_validate r expected =
     first_err
      [if sr_Axis r \<noteq> expected then errorf ''state axis does not match field'' else nil,
       if \<not> validState expected (sr_State r) then errorf ''state value is unsupported for axis'' else nil,
       validateText ''state source'' (sr_Source r) 128,
       validateTime ''observed_at'' (sr_ObservedAt r),
       if sr_Sequence r = 0 then errorf ''state sequence must be positive'' else nil,
       if float_IsNaN (sr_Confidence r) \<or> float_IsInf (sr_Confidence r)
          \<or> float_less (sr_Confidence r) (Fin 0) \<or> float_less (Fin 1) (sr_Confidence r)
         then errorf ''state confidence must be between zero and one'' else nil,
       optional_err (\<lambda>expires. first_err
         [validateTime ''expires_at'' expires,
          if \<not> time_After expires (sr_ObservedAt r)
            then errorf ''state expiry must follow observation'' else nil]) (sr_ExpiresAt r),
       if sr_Authority r \<noteq> AuthorityAuthoritative \<and> sr_Authority r \<noteq> AuthorityInferred
         then errorf ''state authority is unsupported'' else nil,
       if sr_Status r \<noteq> [] then validateText ''state status'' (sr_Status r) 1024 else nil]"

definition StateReport_Validate :: "StateReport \<Rightarrow> verr" where
  "StateReport_Validate r =
     (if sr_Axis r \<in> {AxisLifecycle, AxisActivity, AxisHealth}
      then StateReport_validate r (sr_Axis r) else errorf ''state axis is unsupported'')"

section \<open>Sessions\<close>

record Session =
  s_ProtocolVersion :: string
  s_SessionID :: string
  s_GatewayID :: string
  s_Environment :: ProviderBinding
  s_Runtime :: "ProviderBinding option"
  s_Harness :: ProviderBinding
  s_Lifecycle :: StateReport
  s_Activity :: StateReport
  s_Health :: StateReport
  s_ContextVersion :: string
  s_Extensions :: extensions

definition Session_Validate :: "Session \<Rightarrow> verr" where
  "Session_Validate s =
     first_err
      [validateProtocol (s_ProtocolVersion s),
       validateID ''session_id'' (s_SessionID s),
       validateID ''gateway_id'' (s_GatewayID s),
       ProviderBinding_Validate (s_Environment s),
       optional_err ProviderBinding_Validate (s_Runtime s),
       ProviderBinding_Validate (s_Harness s),
       StateReport_validate (s_Lifecycle s) AxisLifecycle,
       StateReport_validate (s_Activity s) AxisActivity,
       StateReport_validate (s_Health s) AxisHealth,
       validateID ''context_version'' (s_ContextVersion s),
       validateExtensions (s_Extensions s)]"

section \<open>When a report is accepted\<close>

lemma float_unit_interval:
  "\<not> (float_IsNaN c \<or> float_IsInf c \<or> float_less c (Fin 0) \<or> float_less (Fin 1) c) \<longleftrightarrow>
     (\<exists>q. c = Fin q \<and> 0 \<le> q \<and> q \<le> 1)"
  by (cases c) (auto simp: float_IsNaN_def float_IsInf_def not_less)

lemma StateReport_validate_nil [accepted]:
  "StateReport_validate r axis = nil \<longleftrightarrow>
     sr_Axis r = axis \<and> validState axis (sr_State r) \<and> validateText ''state source'' (sr_Source r) 128 = nil \<and>
     validateTime ''observed_at'' (sr_ObservedAt r) = nil \<and> sr_Sequence r \<noteq> 0 \<and>
     (\<exists>q. sr_Confidence r = Fin q \<and> 0 \<le> q \<and> q \<le> 1) \<and>
     (\<forall>t. sr_ExpiresAt r = Some t \<longrightarrow>
        validateTime ''expires_at'' t = nil \<and> time_After t (sr_ObservedAt r)) \<and>
     sr_Authority r \<in> {AuthorityAuthoritative, AuthorityInferred} \<and>
     (sr_Status r \<noteq> [] \<longrightarrow> validateText ''state status'' (sr_Status r) 1024 = nil)"
proof -
  have "StateReport_validate r axis = nil \<longleftrightarrow>
     sr_Axis r = axis \<and> validState axis (sr_State r) \<and> validateText ''state source'' (sr_Source r) 128 = nil \<and>
     validateTime ''observed_at'' (sr_ObservedAt r) = nil \<and> sr_Sequence r \<noteq> 0 \<and>
     \<not> (float_IsNaN (sr_Confidence r) \<or> float_IsInf (sr_Confidence r)
          \<or> float_less (sr_Confidence r) (Fin 0) \<or> float_less (Fin 1) (sr_Confidence r)) \<and>
     (\<forall>t. sr_ExpiresAt r = Some t \<longrightarrow>
        validateTime ''expires_at'' t = nil \<and> time_After t (sr_ObservedAt r)) \<and>
     sr_Authority r \<in> {AuthorityAuthoritative, AuthorityInferred} \<and>
     (sr_Status r \<noteq> [] \<longrightarrow> validateText ''state status'' (sr_Status r) 1024 = nil)"
    by (cases "sr_ExpiresAt r") (auto simp: StateReport_validate_def)
  then show ?thesis unfolding float_unit_interval .
qed

lemma StateReport_Validate_nil [accepted]:
  "StateReport_Validate r = nil \<longleftrightarrow>
     sr_Axis r \<in> {AxisLifecycle, AxisActivity, AxisHealth} \<and> StateReport_validate r (sr_Axis r) = nil"
  by (simp add: StateReport_Validate_def)

section \<open>Properties\<close>

text \<open>
  An accepted session has one accepted report on each of the three axes, and the three
  reports are on three different axes, so no axis is reported twice. Each report has a positive
  sequence, a confidence that is a number in the unit interval (never NaN or an infinity), and an
  expiry, if any, strictly after its observation.
\<close>

theorem Session_Validate_axes:
  assumes "Session_Validate s = nil"
  shows "sr_Axis (s_Lifecycle s) = AxisLifecycle \<and> sr_Axis (s_Activity s) = AxisActivity \<and>
         sr_Axis (s_Health s) = AxisHealth \<and>
         list_all (\<lambda>r. StateReport_Validate r = nil \<and> sr_Sequence r \<noteq> 0 \<and>
           (\<exists>q. sr_Confidence r = Fin q \<and> 0 \<le> q \<and> q \<le> 1) \<and>
           (case sr_ExpiresAt r of None \<Rightarrow> True | Some t \<Rightarrow> time_After t (sr_ObservedAt r)))
           [s_Lifecycle s, s_Activity s, s_Health s]"
proof -
  have r: "StateReport_validate (s_Lifecycle s) AxisLifecycle = nil"
    "StateReport_validate (s_Activity s) AxisActivity = nil"
    "StateReport_validate (s_Health s) AxisHealth = nil"
    using assms by (simp_all add: Session_Validate_def)
  have f: "StateReport_Validate r = nil \<and> sr_Sequence r \<noteq> 0 \<and>
      (\<exists>q. sr_Confidence r = Fin q \<and> 0 \<le> q \<and> q \<le> 1) \<and>
      (case sr_ExpiresAt r of None \<Rightarrow> True | Some t \<Rightarrow> time_After t (sr_ObservedAt r))"
    if "StateReport_validate r axis = nil" "axis \<in> {AxisLifecycle, AxisActivity, AxisHealth}" for r axis
  proof -
    have "sr_Axis r = axis" using that(1) by (simp add: StateReport_validate_nil)
    then have "StateReport_Validate r = nil" using that by (simp add: StateReport_Validate_nil)
    then show ?thesis using that(1) unfolding StateReport_validate_nil by (simp split: option.split)
  qed
  have "sr_Axis (s_Lifecycle s) = AxisLifecycle" "sr_Axis (s_Activity s) = AxisActivity"
    "sr_Axis (s_Health s) = AxisHealth"
    using r by (simp_all only: StateReport_validate_nil)
  then show ?thesis using f [OF r(1)] f [OF r(2)] f [OF r(3)] by simp
qed

definition sampleTime :: "int \<Rightarrow> gotime" where
  "sampleTime n = \<lparr>t_instant = n, t_utc = True\<rparr>"

definition sampleReport :: "string \<Rightarrow> string \<Rightarrow> StateReport" where
  "sampleReport axis state =
     \<lparr>sr_Axis = axis, sr_State = state, sr_Source = ''native'', sr_ObservedAt = sampleTime 10,
      sr_Sequence = 1, sr_Confidence = Fin 1, sr_ExpiresAt = Some (sampleTime 20),
      sr_Authority = AuthorityAuthoritative, sr_Status = []\<rparr>"

definition sampleDigest :: string where
  "sampleDigest = digestOf (replicate 32 (CHR ''a''))"

definition sampleBinding :: ProviderBinding where
  "sampleBinding =
     \<lparr>pb_ProviderID = ''prov'', pb_ProviderVersion = ''1.0'', pb_NativeID = ''native-1'',
      pb_NativeResumeReference = [], pb_ArtifactDigest = sampleDigest\<rparr>"

definition sampleSession :: Session where
  "sampleSession =
     \<lparr>s_ProtocolVersion = ProtocolVersion, s_SessionID = ''session-1'', s_GatewayID = ''gw-1'',
      s_Environment = sampleBinding, s_Runtime = None, s_Harness = sampleBinding,
      s_Lifecycle = sampleReport AxisLifecycle ''running'', s_Activity = sampleReport AxisActivity ''idle'',
      s_Health = sampleReport AxisHealth ''healthy'', s_ContextVersion = ''ctx-1'', s_Extensions = []\<rparr>"

lemma sampleDigest_ok [simp]: "Digest_Validate sampleDigest = nil"
  unfolding sampleDigest_def by (rule Digest_Validate_digestOf) simp

theorem Session_Validate_axes_witness:
  "Session_Validate sampleSession = nil \<and> StateReport_Validate (s_Health sampleSession) = nil"
proof -
  have ok: "Session_Validate sampleSession = nil" by code_simp
  from Session_Validate_axes [OF this] show ?thesis using ok by simp
qed

end
