(* ===== verification/Proto_Custody.thy ===== *)
theory Proto_Custody
  imports Json_Print Json_Guard Proto_Session
begin

text \<open>
  \<open>protocol/custody.go\<close> and \<open>protocol/isolation.go\<close>: signatures, signing preimages, and the custody and
  isolation evidence a gateway signs. The two evidence types have the same fields and differ in their
  signature purpose, so both are the record \<open>GatewayEvidence\<close>. The lemmas show that a preimage
  determines what was signed, that purposes separate the two evidence types, what a successful
  verification guarantees, and that a nonce store that keeps its contract makes evidence one-use.
\<close>

section \<open>Closed vocabularies\<close>

definition DataMode_Validate :: "string \<Rightarrow> verr" where
  "DataMode_Validate m =
     (if m \<in> {''full'', ''ephemeral-transcript'', ''metadata-only'', ''local-control''}
      then nil else errorf ''data mode is unsupported'')"

definition Sensitivity_Validate :: "string \<Rightarrow> verr" where
  "Sensitivity_Validate s =
     (if s \<in> {''public'', ''metadata'', ''internal'', ''confidential'', ''restricted''}
      then nil else errorf ''sensitivity is unsupported'')"

abbreviation SignatureEd25519 :: string where "SignatureEd25519 \<equiv> ''ed25519''"
abbreviation PurposeIsolationEvidence :: string where "PurposeIsolationEvidence \<equiv> ''isolation-evidence''"
abbreviation PurposeCustodyEvidence :: string where "PurposeCustodyEvidence \<equiv> ''custody-evidence''"

definition signingDomainPrefix :: string where
  "signingDomainPrefix = ProtocolVersion @ [CHR 0x00]"

section \<open>Signatures\<close>

record Signature =
  sig_Algorithm :: string
  sig_Purpose :: string
  sig_Issuer :: string
  sig_KeyID :: string
  sig_Value :: string

abbreviation SignatureSize :: nat where "SignatureSize \<equiv> 64"
abbreviation PublicKeySize :: nat where "PublicKeySize \<equiv> 32"

definition Signature_validateMetadata :: "Signature \<Rightarrow> string \<Rightarrow> verr" where
  "Signature_validateMetadata s expectedPurpose =
     first_err
      [if sig_Algorithm s \<noteq> SignatureEd25519 \<or> sig_Purpose s \<noteq> expectedPurpose
         then errorf ''signature algorithm or purpose is invalid'' else nil,
       validateID ''signature issuer'' (sig_Issuer s),
       validateID ''signature key_id'' (sig_KeyID s)]"

definition Signature_validate :: "Signature \<Rightarrow> string \<Rightarrow> verr" where
  "Signature_validate s expectedPurpose =
     first_err
      [Signature_validateMetadata s expectedPurpose,
       case b64RawURLDecode (sig_Value s) of
         None \<Rightarrow> errorf ''signature value is invalid''
       | Some decoded \<Rightarrow> if length decoded \<noteq> SignatureSize then errorf ''signature value is invalid'' else nil]"

text \<open>
  What the code takes from the standard library: the text of a time in JSON (None when the year has
  more than four digits) and Ed25519 verification of a signature under a 32-byte key.
\<close>

record golib =
  lib_fmtTime :: "gotime \<Rightarrow> string option"
  lib_verify :: "string \<Rightarrow> string \<Rightarrow> string \<Rightarrow> bool"

definition signatureJSON :: "Signature \<Rightarrow> json" where
  "signatureJSON s =
     JObj [(''algorithm'', JStr (sig_Algorithm s)), (''purpose'', JStr (sig_Purpose s)),
           (''issuer'', JStr (sig_Issuer s)), (''key_id'', JStr (sig_KeyID s)), (''value'', JStr (sig_Value s))]"

definition artifactJSON :: "ArtifactIdentity \<Rightarrow> json" where
  "artifactJSON a =
     JObj [(''id'', JStr (ai_ID a)), (''version'', JStr (ai_Version a)), (''digest'', JStr (ai_Digest a))]"

text \<open>Go's \<open>int\<close> has 64 bits here; a part is a length, so it fits and is not negative.\<close>

definition maxInt :: int where "maxInt = 2 ^ 63 - 1"

fun checkedAllocationFrom :: "int \<Rightarrow> int list \<Rightarrow> go_error + int" where
  "checkedAllocationFrom acc [] = Inr acc"
| "checkedAllocationFrom acc (sz # parts) =
     (if sz < 0 \<or> sz > maxInt - acc then Inl (Plain ''allocation size exceeds platform limit'')
      else checkedAllocationFrom (acc + sz) parts)"

abbreviation checkedAllocationSize :: "int list \<Rightarrow> go_error + int" where
  "checkedAllocationSize parts \<equiv> checkedAllocationFrom 0 parts"

definition signingPreimage :: "string \<Rightarrow> json option \<Rightarrow> go_error + string" where
  "signingPreimage purpose document =
     (case validateSafeASCII ''signature purpose'' purpose 1 128 of
        Some e \<Rightarrow> Inl e
      | None \<Rightarrow>
          (case document of
             None \<Rightarrow> Inl (Plain ''json marshal failed'')
           | Some d \<Rightarrow>
               (case checkedAllocationSize [int (length signingDomainPrefix), int (length purpose), 1,
                        int (length (jprint d))] of
                  Inl e \<Rightarrow> Inl (Wrapped ''signing preimage'' e)
                | Inr _ \<Rightarrow> Inr (signingDomainPrefix @ purpose @ [CHR 0x00] @ jprint d))))"

definition sortedStrings :: "string list \<Rightarrow> string list" where
  "sortedStrings values = sort values"

definition equalStringSets :: "string list \<Rightarrow> string list \<Rightarrow> bool" where
  "equalStringSets a b \<longleftrightarrow> (if length a \<noteq> length b then False else equalStrings (sort a) (sort b))"

section \<open>Evidence\<close>

record GatewayBinding =
  gb_SessionID :: string
  gb_PolicyRevision :: uint64
  gb_GatewayID :: string
  gb_GatewayKeyID :: string
  gb_Provider :: ArtifactIdentity
  gb_NativeEnvironmentID :: string
  gb_ConfigurationDigest :: string
  gb_ImageDigest :: string
  gb_Controls :: "string list"
  gb_DataMode :: string

definition bindingValidate :: "string \<Rightarrow> GatewayBinding \<Rightarrow> verr" where
  "bindingValidate label b =
     first_err
      [validateIDs [(''session_id'', gb_SessionID b), (''gateway_id'', gb_GatewayID b),
         (''gateway_key_id'', gb_GatewayKeyID b)],
       if gb_PolicyRevision b = 0 then errorf ''policy_revision must be positive'' else nil,
       validateSignedArtifact (label @ '' provider'') (gb_Provider b),
       NativeID_Validate (gb_NativeEnvironmentID b),
       validateSafeASCII ''native_environment_id'' (gb_NativeEnvironmentID b) 1 1024,
       Digest_Validate (gb_ConfigurationDigest b),
       Digest_Validate (gb_ImageDigest b),
       if gb_Controls b = [] then errorf (label @ '' controls are required'') else nil,
       validateUniqueStrings ''controls'' (gb_Controls b),
       each_err (\<lambda>c. validateSafeASCII (label @ '' control'') c 1 128) (gb_Controls b),
       DataMode_Validate (gb_DataMode b)]"

definition CustodyBinding_Validate :: "GatewayBinding \<Rightarrow> verr" where
  "CustodyBinding_Validate b = bindingValidate ''custody'' b"

definition IsolationBinding_Validate :: "GatewayBinding \<Rightarrow> verr" where
  "IsolationBinding_Validate b = bindingValidate ''isolation'' b"

definition equalBinding :: "GatewayBinding \<Rightarrow> GatewayBinding \<Rightarrow> bool" where
  "equalBinding a b \<longleftrightarrow>
     gb_SessionID a = gb_SessionID b \<and> gb_PolicyRevision a = gb_PolicyRevision b \<and>
     gb_GatewayID a = gb_GatewayID b \<and> gb_GatewayKeyID a = gb_GatewayKeyID b \<and>
     gb_Provider a = gb_Provider b \<and> gb_NativeEnvironmentID a = gb_NativeEnvironmentID b \<and>
     gb_ConfigurationDigest a = gb_ConfigurationDigest b \<and> gb_ImageDigest a = gb_ImageDigest b \<and>
     gb_DataMode a = gb_DataMode b \<and> equalStringSets (gb_Controls a) (gb_Controls b)"

record GatewayEvidence =
  ge_ProtocolVersion :: string
  ge_EvidenceID :: string
  ge_Nonce :: string
  ge_Binding :: GatewayBinding
  ge_IssuedAt :: gotime
  ge_ExpiresAt :: gotime
  ge_Signature :: Signature

definition validateEvidenceTimes :: "gotime \<Rightarrow> gotime \<Rightarrow> verr" where
  "validateEvidenceTimes issuedAt expiresAt =
     first_err
      [validateTime ''issued_at'' issuedAt, validateTime ''expires_at'' expiresAt,
       if \<not> time_After expiresAt issuedAt then errorf ''evidence expiry must follow issue time'' else nil]"

definition evidenceFields :: "(GatewayBinding \<Rightarrow> verr) \<Rightarrow> GatewayEvidence \<Rightarrow> verr" where
  "evidenceFields validateBinding e =
     first_err
      [validateProtocol (ge_ProtocolVersion e),
       validateID ''evidence_id'' (ge_EvidenceID e),
       validateNonce (ge_Nonce e),
       validateBinding (ge_Binding e),
       validateEvidenceTimes (ge_IssuedAt e) (ge_ExpiresAt e)]"

definition evidenceValidate :: "(GatewayBinding \<Rightarrow> verr) \<Rightarrow> string \<Rightarrow> GatewayEvidence \<Rightarrow> verr" where
  "evidenceValidate validateBinding purpose e =
     first_err [evidenceFields validateBinding e, Signature_validate (ge_Signature e) purpose]"

definition bindingJSON :: "GatewayBinding \<Rightarrow> json" where
  "bindingJSON b =
     JObj [(''session_id'', JStr (gb_SessionID b)), (''policy_revision'', JNum (decimal (unat (gb_PolicyRevision b)))),
           (''gateway_id'', JStr (gb_GatewayID b)), (''gateway_key_id'', JStr (gb_GatewayKeyID b)),
           (''provider'', artifactJSON (gb_Provider b)),
           (''native_environment_id'', JStr (gb_NativeEnvironmentID b)),
           (''configuration_digest'', JStr (gb_ConfigurationDigest b)), (''image_digest'', JStr (gb_ImageDigest b)),
           (''controls'', JArr (map JStr (gb_Controls b))), (''data_mode'', JStr (gb_DataMode b))]"

text \<open>The signature of a document that is marshalled here is never the zero value, so it is not omitted.\<close>

definition evidenceJSON :: "golib \<Rightarrow> GatewayEvidence \<Rightarrow> json option" where
  "evidenceJSON lib e =
     (case (lib_fmtTime lib (ge_IssuedAt e), lib_fmtTime lib (ge_ExpiresAt e)) of
        (Some issued, Some expires) \<Rightarrow>
          Some (JObj [(''protocol_version'', JStr (ge_ProtocolVersion e)), (''evidence_id'', JStr (ge_EvidenceID e)),
            (''nonce'', JStr (ge_Nonce e)), (''binding'', bindingJSON (ge_Binding e)),
            (''issued_at'', JStr issued), (''expires_at'', JStr expires),
            (''signature'', signatureJSON (ge_Signature e))])
      | _ \<Rightarrow> None)"

definition canonicalEvidence :: "GatewayEvidence \<Rightarrow> GatewayEvidence" where
  "canonicalEvidence e =
     e\<lparr>ge_Binding := (ge_Binding e)\<lparr>gb_Controls := sortedStrings (gb_Controls (ge_Binding e))\<rparr>,
       ge_Signature := (ge_Signature e)\<lparr>sig_Value := []\<rparr>\<rparr>"

definition evidenceSigningBytes ::
  "golib \<Rightarrow> (GatewayBinding \<Rightarrow> verr) \<Rightarrow> string \<Rightarrow> GatewayEvidence \<Rightarrow> go_error + string" where
  "evidenceSigningBytes lib validateBinding purpose e =
     (case first_err [evidenceFields validateBinding e, Signature_validateMetadata (ge_Signature e) purpose] of
        Some err \<Rightarrow> Inl err
      | None \<Rightarrow> signingPreimage purpose (evidenceJSON lib (canonicalEvidence e)))"

section \<open>Verification\<close>

text \<open>\<open>ed25519.Verify\<close> panics on a key of the wrong length, so a call may also not return.\<close>

datatype outcome = Returns verr | Panics

type_synonym trust = "(string \<Rightarrow> string \<Rightarrow> string \<Rightarrow> string option) option"

abbreviation fails :: "string \<Rightarrow> outcome" where
  "fails code \<equiv> Returns (Some (protocolError code))"

definition verifyEvidenceSignature ::
  "golib \<Rightarrow> Signature \<Rightarrow> string \<Rightarrow> string \<Rightarrow> trust \<Rightarrow> string \<Rightarrow> gotime \<Rightarrow> gotime \<Rightarrow> gotime \<Rightarrow> outcome" where
  "verifyEvidenceSignature lib s expectedIssuer expectedKeyID trust payload now issuedAt expiresAt =
     (if time_Before now issuedAt then fails CodeUnauthenticated
      else if \<not> time_Before now expiresAt then fails CodeExpired
      else case trust of
        None \<Rightarrow> fails CodeUnauthenticated
      | Some publicKey \<Rightarrow>
          if sig_Issuer s \<noteq> expectedIssuer \<or> sig_KeyID s \<noteq> expectedKeyID then fails CodeUnauthenticated
          else case publicKey (sig_Issuer s) (sig_KeyID s) (sig_Purpose s) of
            None \<Rightarrow> fails CodeUnauthenticated
          | Some key \<Rightarrow>
              (case b64RawURLDecode (sig_Value s) of
                 None \<Rightarrow> fails CodeUnauthenticated
               | Some value \<Rightarrow>
                   if length key \<noteq> PublicKeySize then Panics
                   else if \<not> lib_verify lib key payload value then fails CodeUnauthenticated
                   else Returns nil))"

text \<open>
  The two verifiers. A nonce store is a state with the interface's \<open>Consume\<close>; a nil store is None.
  The result is the outcome and the store afterwards.
\<close>

definition verifyEvidence ::
  "golib \<Rightarrow> (GatewayBinding \<Rightarrow> verr) \<Rightarrow> string \<Rightarrow> ('n \<Rightarrow> string \<Rightarrow> bool \<times> 'n) \<Rightarrow>
     GatewayEvidence \<Rightarrow> GatewayBinding \<Rightarrow> trust \<Rightarrow> 'n option \<Rightarrow> gotime \<Rightarrow> outcome \<times> 'n option" where
  "verifyEvidence lib validateBinding purpose Consume e expected trust nonces now =
     (if evidenceValidate validateBinding purpose e \<noteq> nil then (fails CodeInvalidArgument, nonces)
      else if validateBinding expected \<noteq> nil then (fails CodeInvalidArgument, nonces)
      else if \<not> equalBinding (ge_Binding e) expected then (fails CodeConflict, nonces)
      else case evidenceSigningBytes lib validateBinding purpose e of
        Inl _ \<Rightarrow> (fails CodeInvalidArgument, nonces)
      | Inr bytes \<Rightarrow>
          (case verifyEvidenceSignature lib (ge_Signature e) (gb_GatewayID (ge_Binding e))
                  (gb_GatewayKeyID (ge_Binding e)) trust bytes now (ge_IssuedAt e) (ge_ExpiresAt e) of
             Panics \<Rightarrow> (Panics, nonces)
           | Returns (Some err) \<Rightarrow> (Returns (Some err), nonces)
           | Returns None \<Rightarrow>
               (case nonces of
                  None \<Rightarrow> (fails CodeReplay, nonces)
                | Some st \<Rightarrow>
                    let (fresh, st') = Consume st (ge_Nonce e)
                    in (if fresh then Returns nil else fails CodeReplay, Some st'))))"

definition VerifyCustody where
  "VerifyCustody lib = verifyEvidence lib CustodyBinding_Validate PurposeCustodyEvidence"

definition VerifyIsolation where
  "VerifyIsolation lib = verifyEvidence lib IsolationBinding_Validate PurposeIsolationEvidence"

definition Custody_SigningBytes :: "golib \<Rightarrow> GatewayEvidence \<Rightarrow> go_error + string" where
  "Custody_SigningBytes lib = evidenceSigningBytes lib CustodyBinding_Validate PurposeCustodyEvidence"

definition Isolation_SigningBytes :: "golib \<Rightarrow> GatewayEvidence \<Rightarrow> go_error + string" where
  "Isolation_SigningBytes lib = evidenceSigningBytes lib IsolationBinding_Validate PurposeIsolationEvidence"

section \<open>Allocation sizes and string sets\<close>

lemma checkedAllocationFrom_Inr:
  "0 \<le> t \<Longrightarrow> t \<le> maxInt \<Longrightarrow>
     checkedAllocationFrom t ps = Inr r \<longleftrightarrow>
       (\<forall>p \<in> set ps. 0 \<le> p) \<and> r = t + sum_list ps \<and> r \<le> maxInt"
proof (induction ps arbitrary: t)
  case (Cons p ps)
  show ?case
  proof (cases "p < 0 \<or> p > maxInt - t")
    case True
    have "\<not> ((\<forall>q \<in> set (p # ps). 0 \<le> q) \<and> r = t + sum_list (p # ps) \<and> r \<le> maxInt)"
    proof
      assume a: "(\<forall>q \<in> set (p # ps). 0 \<le> q) \<and> r = t + sum_list (p # ps) \<and> r \<le> maxInt"
      then have "0 \<le> sum_list ps" by (intro sum_list_nonneg) auto
      with a True show False by simp
    qed
    with True show ?thesis by auto
  next
    case False
    then show ?thesis using Cons.IH [of "t + p"] Cons.prems by (auto simp: algebra_simps)
  qed
qed auto

lemma equalStringSets_iff: "equalStringSets a b \<longleftrightarrow> mset a = mset b"
proof -
  have "sort a = sort b \<Longrightarrow> length a = length b" by (metis length_sort)
  then show ?thesis by (auto simp: equalStringSets_def sort_eq_iff_mset)
qed

section \<open>Signed text needs no escape\<close>

lemma safeASCII_plain: "safeASCII c \<Longrightarrow> plainByte c"
  by (auto simp: safeASCII_def plainByte_def less_eq_char_def)

lemma in_class_id_plain: "in_class cls_id c \<Longrightarrow> plainByte c"
  by (auto simp: in_class_def plainByte_def)

lemma nonceChar_plain: "nonceChar c \<Longrightarrow> plainByte c"
  by (auto simp: nonceChar_def plainByte_def less_eq_char_def)

lemma hexVal_plain: "hexVal c \<noteq> None \<Longrightarrow> plainByte c"
  by (auto simp: hexVal_def plainByte_def Let_def split: if_splits)

lemma hexDecode_plain: "hexDecode h \<noteq> None \<Longrightarrow> plainText h"
  by (induction h rule: hexDecode.induct) (auto split: option.splits simp: hexVal_plain)

lemma Digest_plain: "Digest_Validate d = nil \<Longrightarrow> plainText d"
proof -
  assume "Digest_Validate d = nil"
  then obtain h where h: "d = ''sha256:'' @ h" "hexDecode h \<noteq> None" by (auto simp: Digest_Validate_nil)
  have "plainText h" using h(2) by (rule hexDecode_plain)
  then show ?thesis unfolding h(1) by (simp add: plainByte_def)
qed

lemma validateID_plain: "validateID f v = nil \<Longrightarrow> plainText v"
  by (auto simp: validateID_nil plainText_def dest!: idPattern_chars intro: in_class_id_plain)

lemma validateSafeASCII_plain: "validateSafeASCII f v a b = nil \<Longrightarrow> plainText v"
  by (auto simp: validateSafeASCII_nil plainText_def intro: safeASCII_plain)

lemma validateNonce_plain: "validateNonce v = nil \<Longrightarrow> plainText v"
  by (auto simp: validateNonce_nil plainText_def intro: nonceChar_plain)

lemma validateProtocol_plain: "validateProtocol v = nil \<Longrightarrow> plainText v"
  by (auto simp: validateProtocol_nil plainByte_def)

lemma DataMode_plain: "DataMode_Validate m = nil \<Longrightarrow> plainText m"
  by (auto simp: DataMode_Validate_def plainByte_def split: if_splits)

lemmas plain_intros = Digest_plain validateID_plain validateSafeASCII_plain validateNonce_plain
  validateProtocol_plain DataMode_plain

lemma validateSignedArtifact_printable:
  "validateSignedArtifact f a = nil \<Longrightarrow> printable (artifactJSON a)"
  by (auto simp: validateSignedArtifact_def artifactJSON_def dest: validateSafeASCII_plain)
    (simp_all add: plainByte_def)

lemma bindingValidate_printable:
  assumes "bindingValidate label b = nil"
  shows "printable (bindingJSON b)"
proof -
  have "plainText (gb_SessionID b)" "plainText (gb_GatewayID b)" "plainText (gb_GatewayKeyID b)"
    "printable (artifactJSON (gb_Provider b))" "plainText (gb_NativeEnvironmentID b)"
    "plainText (gb_ConfigurationDigest b)" "plainText (gb_ImageDigest b)" "plainText (gb_DataMode b)"
    "list_all plainText (gb_Controls b)"
    using assms unfolding bindingValidate_def
    by (auto simp: each_err_nil list_all_iff intro: plain_intros validateSignedArtifact_printable)
  then show ?thesis by (simp add: bindingJSON_def list.pred_map comp_def) (simp add: plainByte_def)
qed

text \<open>The text of a time as the documentation of \<open>time.Time.MarshalJSON\<close> gives it: plain characters,
  and different texts for different instants in UTC.\<close>

definition timeTexts :: "golib \<Rightarrow> bool" where
  "timeTexts lib \<longleftrightarrow>
     (\<forall>t s. lib_fmtTime lib t = Some s \<longrightarrow> plainText s) \<and>
     (\<forall>t u s. t_utc t \<and> t_utc u \<and> lib_fmtTime lib t = Some s \<and> lib_fmtTime lib u = Some s \<longrightarrow> t = u)"

lemma bindingJSON_sorted:
  "printable (bindingJSON (b\<lparr>gb_Controls := sortedStrings (gb_Controls b)\<rparr>)) \<longleftrightarrow> printable (bindingJSON b)"
  by (simp add: bindingJSON_def sortedStrings_def list_all_iff)

lemma signatureJSON_printable:
  assumes "Signature_validateMetadata s p = nil" "plainText p"
  shows "printable (signatureJSON (s\<lparr>sig_Value := []\<rparr>))"
proof -
  have "plainText (sig_Issuer s)" "plainText (sig_KeyID s)"
    "sig_Algorithm s = SignatureEd25519" "sig_Purpose s = p"
    using assms(1) unfolding Signature_validateMetadata_def by (auto intro: plain_intros)
  then show ?thesis using assms(2) by (simp add: signatureJSON_def) (simp add: plainByte_def)
qed

lemma sum_case_Inr: "(case x of Inl e \<Rightarrow> Inl (h e) | Inr y \<Rightarrow> Inr z) = Inr w \<Longrightarrow> z = w"
  by (cases x) auto

lemma signingPreimage_Inr:
  "signingPreimage p d = Inr bytes \<Longrightarrow>
     \<exists>t. d = Some t \<and> bytes = signingDomainPrefix @ p @ [CHR 0x00] @ jprint t \<and> plainText p"
proof -
  assume a: "signingPreimage p d = Inr bytes"
  then have v: "validateSafeASCII ''signature purpose'' p 1 128 = nil"
    by (cases "validateSafeASCII ''signature purpose'' p 1 128") (simp_all add: signingPreimage_def)
  with a obtain t where t: "d = Some t" by (cases d) (simp_all add: signingPreimage_def)
  have "bytes = signingDomainPrefix @ p @ [CHR 0x00] @ jprint t"
    using a unfolding signingPreimage_def v t option.case by (rule sum_case_Inr [symmetric])
  then show ?thesis using t validateSafeASCII_plain [OF v] by blast
qed

text \<open>A NUL ends the purpose, and a purpose has no NUL, so the preimage determines the purpose.\<close>

lemma plain_no_nul: "plainText p \<Longrightarrow> CHR 0x00 \<notin> set p"
proof -
  have "\<not> plainByte (CHR 0x00)" by (simp add: plainByte_def)
  then show "plainText p \<Longrightarrow> ?thesis" unfolding plainText_def by blast
qed

lemma preimage_split:
  assumes "p @ [CHR 0x00] @ a = q @ [CHR 0x00] @ b" "CHR 0x00 \<notin> set p" "CHR 0x00 \<notin> set q"
  shows "p = q \<and> a = b"
  using assms
proof (induction p arbitrary: q)
  case Nil
  then show ?case by (cases q) auto
next
  case (Cons c p)
  then show ?case by (cases q) auto
qed

lemma bindingJSON_inject:
  "bindingJSON b = bindingJSON c \<longleftrightarrow> b = c"
proof
  assume "bindingJSON b = bindingJSON c"
  moreover have "map JStr xs = map JStr ys \<longleftrightarrow> xs = ys" for xs ys by (simp add: inj_map_eq_map inj_def)
  ultimately show "b = c"
    by (cases b; cases c) (auto simp: bindingJSON_def artifactJSON_def intro!: ArtifactIdentity.equality)
qed simp

lemma signatureJSON_inject: "signatureJSON s = signatureJSON t \<longleftrightarrow> s = t"
  by (cases s; cases t) (auto simp: signatureJSON_def)

section \<open>The contract of a signed evidence type\<close>

text \<open>
  What the signing code asks of an evidence type: an accepted binding is printed without escapes, and
  the purpose is plain text. Custody and isolation evidence are its two instances.
\<close>

locale signed_evidence =
  fixes validateBinding :: "GatewayBinding \<Rightarrow> verr" and purpose :: string
  assumes binding_printable: "validateBinding b = nil \<Longrightarrow> printable (bindingJSON b)"
    and purpose_plain: "plainText purpose"
begin

lemma canonicalEvidence_printable:
  assumes "evidenceFields validateBinding e = nil" "Signature_validateMetadata (ge_Signature e) purpose = nil"
    "timeTexts lib" "evidenceJSON lib (canonicalEvidence e) = Some d"
  shows "printable d"
proof -
  have b: "printable (bindingJSON ((ge_Binding e)\<lparr>gb_Controls := sortedStrings (gb_Controls (ge_Binding e))\<rparr>))"
    using binding_printable [of "ge_Binding e"] assms(1)
    unfolding bindingJSON_sorted by (simp add: evidenceFields_def)
  have f: "plainText (ge_ProtocolVersion e)" "plainText (ge_EvidenceID e)" "plainText (ge_Nonce e)"
    using assms(1) unfolding evidenceFields_def by (auto intro: plain_intros)
  obtain issued expires where t: "lib_fmtTime lib (ge_IssuedAt e) = Some issued"
    "lib_fmtTime lib (ge_ExpiresAt e) = Some expires"
    using assms(4) by (auto simp: evidenceJSON_def canonicalEvidence_def split: option.splits)
  then have "plainText issued" "plainText expires" using assms(3) unfolding timeTexts_def by blast+
  moreover have "d = JObj [(''protocol_version'', JStr (ge_ProtocolVersion e)), (''evidence_id'', JStr (ge_EvidenceID e)),
      (''nonce'', JStr (ge_Nonce e)),
      (''binding'', bindingJSON ((ge_Binding e)\<lparr>gb_Controls := sortedStrings (gb_Controls (ge_Binding e))\<rparr>)),
      (''issued_at'', JStr issued), (''expires_at'', JStr expires),
      (''signature'', signatureJSON ((ge_Signature e)\<lparr>sig_Value := []\<rparr>))]"
    using assms(4) t by (simp add: evidenceJSON_def canonicalEvidence_def)
  ultimately show ?thesis using b f signatureJSON_printable [OF assms(2) purpose_plain]
    by (simp add: plainByte_def)
qed

lemma signingBytes_Inr:
  assumes "evidenceSigningBytes lib validateBinding purpose e = Inr bytes"
  obtains d where "evidenceFields validateBinding e = nil"
    "Signature_validateMetadata (ge_Signature e) purpose = nil"
    "evidenceJSON lib (canonicalEvidence e) = Some d"
    "bytes = signingDomainPrefix @ purpose @ [CHR 0x00] @ jprint d"
proof -
  have f: "first_err [evidenceFields validateBinding e, Signature_validateMetadata (ge_Signature e) purpose] = nil"
    using assms unfolding evidenceSigningBytes_def
    by (cases "first_err [evidenceFields validateBinding e, Signature_validateMetadata (ge_Signature e) purpose]") auto
  then have "signingPreimage purpose (evidenceJSON lib (canonicalEvidence e)) = Inr bytes"
    using assms by (simp only: evidenceSigningBytes_def option.case)
  then show thesis using f that by (auto dest!: signingPreimage_Inr)
qed

text \<open>Equal preimages come from evidence that agrees on everything but the order of the controls and
  the signature bytes.\<close>

lemma signingBytes_inject:
  assumes lib: "timeTexts lib"
    and "evidenceSigningBytes lib validateBinding purpose e = Inr bytes"
    and "evidenceSigningBytes lib validateBinding purpose e' = Inr bytes"
  shows "canonicalEvidence e = canonicalEvidence e'"
proof -
  obtain d where d: "evidenceFields validateBinding e = nil"
    "Signature_validateMetadata (ge_Signature e) purpose = nil"
    "evidenceJSON lib (canonicalEvidence e) = Some d"
    "bytes = signingDomainPrefix @ purpose @ [CHR 0x00] @ jprint d"
    using signingBytes_Inr [OF assms(2)] .
  obtain d' where d': "evidenceFields validateBinding e' = nil"
    "Signature_validateMetadata (ge_Signature e') purpose = nil"
    "evidenceJSON lib (canonicalEvidence e') = Some d'"
    "bytes = signingDomainPrefix @ purpose @ [CHR 0x00] @ jprint d'"
    using signingBytes_Inr [OF assms(3)] .
  have "printable d" "printable d'" using canonicalEvidence_printable lib d d' by blast+
  moreover have "jprint d = jprint d'" using d(4) d'(4) by simp
  ultimately have eq: "evidenceJSON lib (canonicalEvidence e) = evidenceJSON lib (canonicalEvidence e')"
    using d(3) d'(3) by (simp add: jprint_inject)
  have utc: "t_utc (ge_IssuedAt x) \<and> t_utc (ge_ExpiresAt x)" if "evidenceFields validateBinding x = nil" for x
    using that by (simp add: evidenceFields_def validateEvidenceTimes_def validateTime_nil)
  obtain i x where i: "lib_fmtTime lib (ge_IssuedAt e) = Some i" "lib_fmtTime lib (ge_ExpiresAt e) = Some x"
    using d(3) by (auto simp: evidenceJSON_def canonicalEvidence_def split: option.splits)
  moreover obtain i' x' where i': "lib_fmtTime lib (ge_IssuedAt e') = Some i'" "lib_fmtTime lib (ge_ExpiresAt e') = Some x'"
    using d'(3) by (auto simp: evidenceJSON_def canonicalEvidence_def split: option.splits)
  ultimately have fields: "i = i'" "x = x'" "ge_ProtocolVersion e = ge_ProtocolVersion e'"
    "ge_EvidenceID e = ge_EvidenceID e'" "ge_Nonce e = ge_Nonce e'"
    "ge_Binding (canonicalEvidence e) = ge_Binding (canonicalEvidence e')"
    "ge_Signature (canonicalEvidence e) = ge_Signature (canonicalEvidence e')"
    using eq by (simp_all add: evidenceJSON_def canonicalEvidence_def bindingJSON_inject signatureJSON_inject)
  have "ge_IssuedAt e = ge_IssuedAt e'" "ge_ExpiresAt e = ge_ExpiresAt e'"
    using lib i i' fields(1,2) utc d(1) d'(1) unfolding timeTexts_def by metis+
  then show ?thesis using fields by (simp add: canonicalEvidence_def)
qed

end

interpretation custody: signed_evidence CustodyBinding_Validate PurposeCustodyEvidence
  by unfold_locales (auto simp: CustodyBinding_Validate_def plainByte_def intro: bindingValidate_printable)

interpretation isolation: signed_evidence IsolationBinding_Validate PurposeIsolationEvidence
  by unfold_locales (auto simp: IsolationBinding_Validate_def plainByte_def intro: bindingValidate_printable)

section \<open>The contract of a nonce store\<close>

text \<open>
  \<open>NonceConsumer.Consume\<close> succeeds exactly on a nonce it has not seen, and remembers it. The
  repository's own implementation is the \<open>nonceSet\<close> of the protocol tests, a set of strings.
\<close>

locale nonce_consumer =
  fixes Consume :: "'n \<Rightarrow> string \<Rightarrow> bool \<times> 'n" and consumed :: "'n \<Rightarrow> string set"
  assumes Consume_fresh: "fst (Consume s n) \<longleftrightarrow> n \<notin> consumed s"
    and Consume_adds: "consumed (snd (Consume s n)) = insert n (consumed s)"
begin

lemma Consume_twice: "\<not> fst (Consume (snd (Consume s n)) n)"
  by (simp add: Consume_fresh Consume_adds)

lemma Consume_mono: "consumed s \<subseteq> consumed (snd (Consume s n))"
  by (auto simp: Consume_adds)

end

definition nonceSet_Consume :: "string list \<Rightarrow> string \<Rightarrow> bool \<times> string list" where
  "nonceSet_Consume st nonce = (if nonce \<in> set st then (False, st) else (True, nonce # st))"

interpretation nonceSet: nonce_consumer nonceSet_Consume set
  by unfold_locales (auto simp: nonceSet_Consume_def)

text \<open>A history of verification attempts against one store; the accepted nonces in order.\<close>

fun acceptedNonces ::
  "(GatewayEvidence \<Rightarrow> GatewayBinding \<Rightarrow> trust \<Rightarrow> 'n option \<Rightarrow> gotime \<Rightarrow> outcome \<times> 'n option) \<Rightarrow> 'n option \<Rightarrow>
     (GatewayEvidence \<times> GatewayBinding \<times> trust \<times> gotime) list \<Rightarrow> string list" where
  "acceptedNonces verify st [] = []"
| "acceptedNonces verify st ((e, expected, trust, now) # attempts) =
     (let (r, st') = verify e expected trust st now
      in (if r = Returns nil then [ge_Nonce e] else []) @ acceptedNonces verify st' attempts)"

lemma verifyEvidence_accepts:
  "verifyEvidence lib vb p Consume e expected trust nonces now = (Returns nil, st') \<longleftrightarrow>
     evidenceValidate vb p e = nil \<and> vb expected = nil \<and> equalBinding (ge_Binding e) expected \<and>
     (\<exists>bytes. evidenceSigningBytes lib vb p e = Inr bytes \<and>
        verifyEvidenceSignature lib (ge_Signature e) (gb_GatewayID (ge_Binding e))
          (gb_GatewayKeyID (ge_Binding e)) trust bytes now (ge_IssuedAt e) (ge_ExpiresAt e) = Returns nil) \<and>
     (\<exists>st. nonces = Some st \<and> fst (Consume st (ge_Nonce e)) \<and> st' = Some (snd (Consume st (ge_Nonce e))))"
  by (auto simp: verifyEvidence_def case_prod_beta Let_def
      split: sum.splits outcome.splits option.splits if_splits)

lemma verifyEvidence_store:
  "snd (verifyEvidence lib vb p Consume e expected trust nonces now) = nonces \<or>
   (\<exists>st. nonces = Some st \<and>
      snd (verifyEvidence lib vb p Consume e expected trust nonces now) = Some (snd (Consume st (ge_Nonce e))))"
  by (auto simp: verifyEvidence_def case_prod_beta Let_def
      split: sum.splits outcome.splits option.splits)

lemma verifyEvidenceSignature_accepts:
  "verifyEvidenceSignature lib s issuer keyID trust payload now issued expires = Returns nil \<longleftrightarrow>
     \<not> time_Before now issued \<and> time_Before now expires \<and> sig_Issuer s = issuer \<and> sig_KeyID s = keyID \<and>
     (\<exists>publicKey key value. trust = Some publicKey \<and> publicKey issuer keyID (sig_Purpose s) = Some key \<and>
        length key = PublicKeySize \<and> b64RawURLDecode (sig_Value s) = Some value \<and> lib_verify lib key payload value)"
  by (auto simp: verifyEvidenceSignature_def split: option.splits if_splits)

context nonce_consumer
begin

lemma accepted_distinct:
  "distinct (acceptedNonces (verifyEvidence lib vb p Consume) st attempts) \<and>
   (\<forall>s. st = Some s \<longrightarrow> set (acceptedNonces (verifyEvidence lib vb p Consume) st attempts) \<inter> consumed s = {})"
proof (induction attempts arbitrary: st)
  case (Cons a attempts)
  obtain e expected trust now where a: "a = (e, expected, trust, now)" by (cases a)
  let ?v = "verifyEvidence lib vb p Consume"
  obtain r st' where r: "?v e expected trust st now = (r, st')" by fastforce
  have IH: "distinct (acceptedNonces ?v st' attempts)"
    "\<And>s. st' = Some s \<Longrightarrow> set (acceptedNonces ?v st' attempts) \<inter> consumed s = {}"
    using Cons.IH by blast+
  show ?case
  proof (cases "r = Returns nil")
    case True
    then obtain s where s: "st = Some s" "fst (Consume s (ge_Nonce e))" "st' = Some (snd (Consume s (ge_Nonce e)))"
      using r verifyEvidence_accepts [of lib vb p Consume e expected trust st now st'] by auto
    then have "set (acceptedNonces ?v st' attempts) \<inter> insert (ge_Nonce e) (consumed s) = {}"
      using IH(2) Consume_adds by blast
    then show ?thesis using a r True IH(1) s Consume_fresh by auto
  next
    case False
    have "consumed s \<subseteq> consumed s'" if "st = Some s" "st' = Some s'" for s s'
      using verifyEvidence_store [of lib vb p Consume e expected trust st now] r that Consume_mono by auto
    moreover have "st = None \<longleftrightarrow> st' = None"
      using verifyEvidence_store [of lib vb p Consume e expected trust st now] r by auto
    ultimately show ?thesis using a r False IH by (cases st; cases st') auto
  qed
qed simp

end

section \<open>Properties\<close>

text \<open>
  C39: A custody signature binds everything it is taken over: two evidence documents with the same
  signing bytes agree on every field, the order of the controls and the signature bytes apart. The
  hypothesis is what \<open>time.Time\<close> documents of its JSON text: plain characters, one text per instant.
\<close>

theorem custody_signing_injective:
  assumes "timeTexts lib" "Custody_SigningBytes lib e = Inr bytes" "Custody_SigningBytes lib e' = Inr bytes"
  shows "canonicalEvidence e = canonicalEvidence e' \<and>
         mset (gb_Controls (ge_Binding e)) = mset (gb_Controls (ge_Binding e')) \<and> ge_Nonce e = ge_Nonce e' \<and>
         equalBinding (ge_Binding e) (ge_Binding e')"
proof -
  have eq: "canonicalEvidence e = canonicalEvidence e'"
    using custody.signingBytes_inject assms unfolding Custody_SigningBytes_def by blast
  define b where "b = ge_Binding e"
  define b' where "b' = ge_Binding e'"
  have "b\<lparr>gb_Controls := sort (gb_Controls b)\<rparr> = b'\<lparr>gb_Controls := sort (gb_Controls b')\<rparr>" "ge_Nonce e = ge_Nonce e'"
    using arg_cong [OF eq, of ge_Binding] arg_cong [OF eq, of ge_Nonce]
    by (simp_all add: canonicalEvidence_def sortedStrings_def b_def b'_def)
  moreover from this(1) have "mset (gb_Controls b) = mset (gb_Controls b')" "equalBinding b b'"
    by (cases b; cases b'; simp add: sort_eq_iff_mset equalBinding_def equalStringSets_iff)+
  ultimately show ?thesis using eq unfolding b_def b'_def by blast
qed

definition sampleLib :: golib where
  "sampleLib =
     \<lparr>lib_fmtTime = (\<lambda>t. if 0 \<le> t_instant t \<and> t_utc t then Some (decimal (nat (t_instant t))) else None),
      lib_verify = (\<lambda>key payload value. value = replicate 64 (CHR ''s'') \<and> hd key = CHR ''k'')\<rparr>"

definition sampleEvidence :: "string list \<Rightarrow> string \<Rightarrow> GatewayEvidence" where
  "sampleEvidence controls purpose =
     \<lparr>ge_ProtocolVersion = ProtocolVersion, ge_EvidenceID = ''ev-1'', ge_Nonce = ''nonce-0123456789-abcdef'',
      ge_Binding = \<lparr>gb_SessionID = ''session-1'', gb_PolicyRevision = 3, gb_GatewayID = ''gw-1'',
        gb_GatewayKeyID = ''key-1'', gb_Provider = \<lparr>ai_ID = ''prov'', ai_Version = ''1'', ai_Digest = sampleDigest\<rparr>,
        gb_NativeEnvironmentID = ''env:1'', gb_ConfigurationDigest = sampleDigest, gb_ImageDigest = sampleDigest,
        gb_Controls = controls, gb_DataMode = ''full''\<rparr>,
      ge_IssuedAt = sampleTime 10, ge_ExpiresAt = sampleTime 20,
      ge_Signature = \<lparr>sig_Algorithm = SignatureEd25519, sig_Purpose = purpose, sig_Issuer = ''gw-1'',
        sig_KeyID = ''key-1'', sig_Value = b64RawURLEncode (replicate 64 (CHR ''s''))\<rparr>\<rparr>"

definition sampleTrust :: "nat \<Rightarrow> trust" where
  "sampleTrust n = Some (\<lambda>issuer keyID purpose. Some (replicate n (CHR ''k'')))"

lemma isDigit_plain: "isDigit c \<Longrightarrow> plainByte c"
  by (auto simp: isDigit_def plainByte_def)

lemma sampleLib_timeTexts: "timeTexts sampleLib"
proof -
  have "plainText (decimal n)" for n using decimal_digits by (auto simp: plainText_def isDigit_plain)
  moreover have "t = u" if "t_utc t" "t_utc u" "0 \<le> t_instant t" "0 \<le> t_instant u"
      "nat (t_instant t) = nat (t_instant u)" for t u :: gotime
    using that by (intro gotime.equality) auto
  ultimately show ?thesis unfolding timeTexts_def sampleLib_def by (auto split: if_splits)
qed

definition samplePreimage :: string where
  "samplePreimage =
     (case Custody_SigningBytes sampleLib (sampleEvidence [''a'', ''b''] PurposeCustodyEvidence) of
        Inr bytes \<Rightarrow> bytes | Inl _ \<Rightarrow> [])"

theorem custody_signing_injective_witness:
  "equalBinding (ge_Binding (sampleEvidence [''a'', ''b''] PurposeCustodyEvidence))
     (ge_Binding (sampleEvidence [''b'', ''a''] PurposeCustodyEvidence))"
proof -
  have "Custody_SigningBytes sampleLib (sampleEvidence [''a'', ''b''] PurposeCustodyEvidence) = Inr samplePreimage"
    "Custody_SigningBytes sampleLib (sampleEvidence [''b'', ''a''] PurposeCustodyEvidence) = Inr samplePreimage"
    by code_simp+
  from custody_signing_injective [OF sampleLib_timeTexts this] show ?thesis by blast
qed

text \<open>
  Purposes separate the signing domains: no custody preimage is an isolation preimage, so a
  signature over one evidence type is never a signature over the other.
\<close>

theorem signing_domains_disjoint:
  assumes "Custody_SigningBytes lib e = Inr a" "Isolation_SigningBytes lib e' = Inr b"
  shows "a \<noteq> b"
proof -
  obtain d d' where "a = signingDomainPrefix @ PurposeCustodyEvidence @ [CHR 0x00] @ jprint d"
    "b = signingDomainPrefix @ PurposeIsolationEvidence @ [CHR 0x00] @ jprint d'"
    using custody.signingBytes_Inr isolation.signingBytes_Inr assms
    unfolding Custody_SigningBytes_def Isolation_SigningBytes_def by metis
  then show ?thesis by simp
qed

theorem signing_domains_disjoint_witness:
  "Custody_SigningBytes sampleLib (sampleEvidence [''a''] PurposeCustodyEvidence) \<noteq>
   Isolation_SigningBytes sampleLib (sampleEvidence [''a''] PurposeIsolationEvidence)"
proof -
  have "\<exists>x. Custody_SigningBytes sampleLib (sampleEvidence [''a''] PurposeCustodyEvidence) = Inr x"
    by (rule exI [of _ "case Custody_SigningBytes sampleLib (sampleEvidence [''a''] PurposeCustodyEvidence) of Inr b \<Rightarrow> b | Inl _ \<Rightarrow> []"])
      code_simp
  moreover have "\<exists>x. Isolation_SigningBytes sampleLib (sampleEvidence [''a''] PurposeIsolationEvidence) = Inr x"
    by (rule exI [of _ "case Isolation_SigningBytes sampleLib (sampleEvidence [''a''] PurposeIsolationEvidence) of Inr b \<Rightarrow> b | Inl _ \<Rightarrow> []"])
      code_simp
  ultimately show ?thesis using signing_domains_disjoint by metis
qed

text \<open>
  C38: When \<open>VerifyCustody\<close> returns nil, the evidence is inside its validity window, it binds what the
  caller expected (controls in any order), its signer is the gateway and key named in the binding,
  the trust source has a 32-byte key for exactly that signer and the custody purpose, the signature
  verifies over the signing bytes, and the nonce was fresh and is now consumed.
\<close>

theorem VerifyCustody_guarantees:
  assumes "VerifyCustody lib nonceSet_Consume e expected trust nonces now = (Returns nil, nonces')"
  shows "\<exists>publicKey key value bytes st.
     trust = Some publicKey \<and> nonces = Some st \<and> ge_Nonce e \<notin> set st \<and> nonces' = Some (ge_Nonce e # st) \<and>
     t_instant (ge_IssuedAt e) \<le> t_instant now \<and> t_instant now < t_instant (ge_ExpiresAt e) \<and>
     equalBinding (ge_Binding e) expected \<and> CustodyBinding_Validate expected = nil \<and>
     sig_Issuer (ge_Signature e) = gb_GatewayID expected \<and> sig_KeyID (ge_Signature e) = gb_GatewayKeyID expected \<and>
     publicKey (gb_GatewayID expected) (gb_GatewayKeyID expected) PurposeCustodyEvidence = Some key \<and>
     length key = PublicKeySize \<and> Custody_SigningBytes lib e = Inr bytes \<and>
     b64RawURLDecode (sig_Value (ge_Signature e)) = Some value \<and> length value = SignatureSize \<and>
     lib_verify lib key bytes value"
proof -
  have ok: "evidenceValidate CustodyBinding_Validate PurposeCustodyEvidence e = nil" "CustodyBinding_Validate expected = nil"
    "equalBinding (ge_Binding e) expected"
    using assms unfolding VerifyCustody_def verifyEvidence_accepts by blast+
  obtain bytes where bytes: "Custody_SigningBytes lib e = Inr bytes"
    "verifyEvidenceSignature lib (ge_Signature e) (gb_GatewayID (ge_Binding e))
       (gb_GatewayKeyID (ge_Binding e)) trust bytes now (ge_IssuedAt e) (ge_ExpiresAt e) = Returns nil"
    using assms unfolding VerifyCustody_def verifyEvidence_accepts Custody_SigningBytes_def by blast
  obtain st where st: "nonces = Some st" "fst (nonceSet_Consume st (ge_Nonce e))"
    "nonces' = Some (snd (nonceSet_Consume st (ge_Nonce e)))"
    using assms unfolding VerifyCustody_def verifyEvidence_accepts by blast
  then have "ge_Nonce e \<notin> set st" "nonces' = Some (ge_Nonce e # st)"
    by (auto simp: nonceSet_Consume_def split: if_splits)
  moreover have "gb_GatewayID (ge_Binding e) = gb_GatewayID expected" "gb_GatewayKeyID (ge_Binding e) = gb_GatewayKeyID expected"
    using ok(3) by (simp_all add: equalBinding_def)
  moreover have "sig_Purpose (ge_Signature e) = PurposeCustodyEvidence"
    "\<And>value. b64RawURLDecode (sig_Value (ge_Signature e)) = Some value \<Longrightarrow> length value = SignatureSize"
    using ok(1) by (auto simp: evidenceValidate_def Signature_validate_def Signature_validateMetadata_def)
  ultimately show ?thesis using bytes st(1) ok(2,3) unfolding verifyEvidenceSignature_accepts
    by (auto simp: time_Before_def)
qed

theorem VerifyCustody_guarantees_witness:
  "t_instant (ge_IssuedAt (sampleEvidence [''a'', ''b''] PurposeCustodyEvidence)) \<le> 15 \<and>
   equalBinding (ge_Binding (sampleEvidence [''a'', ''b''] PurposeCustodyEvidence))
     (ge_Binding (sampleEvidence [''b'', ''a''] PurposeCustodyEvidence))"
proof -
  have "VerifyCustody sampleLib nonceSet_Consume (sampleEvidence [''a'', ''b''] PurposeCustodyEvidence)
      (ge_Binding (sampleEvidence [''b'', ''a''] PurposeCustodyEvidence)) (sampleTrust 32) (Some []) (sampleTime 15)
      = (Returns nil, Some [''nonce-0123456789-abcdef''])"
    by code_simp
  from VerifyCustody_guarantees [OF this] show ?thesis by (auto simp: sampleTime_def)
qed

text \<open>
  Evidence is one-use: in any sequence of custody (and likewise isolation) verifications against
  one nonce store, whatever documents, trust and clocks are presented, the nonces of the accepted
  attempts are pairwise different and were not in the store before.
\<close>

theorem evidence_no_replay:
  "distinct (acceptedNonces (VerifyCustody lib nonceSet_Consume) (Some st) attempts) \<and>
   set (acceptedNonces (VerifyCustody lib nonceSet_Consume) (Some st) attempts) \<inter> set st = {} \<and>
   distinct (acceptedNonces (VerifyIsolation lib nonceSet_Consume) (Some st) attempts) \<and>
   set (acceptedNonces (VerifyIsolation lib nonceSet_Consume) (Some st) attempts) \<inter> set st = {}"
  using nonceSet.accepted_distinct unfolding VerifyCustody_def VerifyIsolation_def by blast

text \<open>
  C38: \<open>verifyEvidenceSignature\<close> does not check the length of the trusted key, and \<open>ed25519.Verify\<close>
  panics on a key that is not 32 bytes long: otherwise valid evidence makes \<open>VerifyCustody\<close> panic when
  the trust source returns a 31-byte key.
\<close>

theorem VerifyCustody_panics_on_short_key:
  "VerifyCustody sampleLib nonceSet_Consume (sampleEvidence [''a''] PurposeCustodyEvidence)
     (ge_Binding (sampleEvidence [''a''] PurposeCustodyEvidence)) (sampleTrust 31) (Some []) (sampleTime 15)
   = (Panics, Some [])"
  by code_simp

text \<open>
  C36: \<open>checkedAllocationSize\<close> never overflows a 64-bit int: it returns the exact sum of its parts
  when all are non-negative and the sum fits, and an error in every other case.
\<close>

theorem checkedAllocationSize_exact:
  "checkedAllocationSize parts =
     (if (\<forall>p \<in> set parts. 0 \<le> p) \<and> sum_list parts \<le> maxInt then Inr (sum_list parts)
      else Inl (Plain ''allocation size exceeds platform limit''))"
proof -
  have err: "checkedAllocationFrom t ps = Inl x \<Longrightarrow> x = Plain ''allocation size exceeds platform limit''" for t ps x
    by (induction ps arbitrary: t) (auto split: if_splits)
  have "0 \<le> maxInt" by (simp add: maxInt_def)
  then have iff: "checkedAllocationSize parts = Inr r \<longleftrightarrow>
      (\<forall>p \<in> set parts. 0 \<le> p) \<and> r = sum_list parts \<and> r \<le> maxInt" for r
    using checkedAllocationFrom_Inr [of 0 parts r] by simp
  show ?thesis
  proof (cases "checkedAllocationSize parts")
    case (Inl x)
    then show ?thesis using iff [of "sum_list parts"] err by auto
  next
    case (Inr r)
    then show ?thesis using iff by auto
  qed
qed

theorem checkedAllocationSize_exact_witness: "checkedAllocationSize [3, 4, 5] = Inr 12"
  by (simp add: checkedAllocationSize_exact maxInt_def del: checkedAllocationFrom.simps)

end
