(* ===== verification/Proto_Approval.thy ===== *)
theory Proto_Approval
  imports Proto_Custody
begin

text \<open>
  \<open>protocol/approval.go\<close>: approval bindings and decisions, the one-use check that a decision
  authorizes a command, and the provider-side approval documents. \<open>ValidateApprovalDecision_nil\<close> gives the
  exact acceptance condition, with the code's set comparisons read as equality of multisets.
\<close>

section \<open>Bindings and decisions\<close>

abbreviation ApprovalOutcomeApproved :: string where "ApprovalOutcomeApproved \<equiv> ''approved''"
abbreviation ApprovalOutcomeRejected :: string where "ApprovalOutcomeRejected \<equiv> ''rejected''"
abbreviation ApprovalOutcomeExpired :: string where "ApprovalOutcomeExpired \<equiv> ''expired''"

record ApprovalProviderSelection =
  ps_Role :: string
  ps_Provider :: ArtifactIdentity

definition Selection_validate :: "ApprovalProviderSelection \<Rightarrow> string \<Rightarrow> verr" where
  "Selection_validate s expected =
     first_err
      [if ps_Role s \<noteq> expected then errorf ''approval provider role does not match selection'' else nil,
       Role_Validate (ps_Role s),
       validateSignedArtifact ''approval provider'' (ps_Provider s)]"

record ApprovalBinding =
  ab_CommandDigest :: string
  ab_SessionID :: string
  ab_SessionRevision :: uint64
  ab_WorkItemRevision :: uint64
  ab_ResourceRevision :: uint64
  ab_ContextVersion :: string
  ab_PolicyRevision :: uint64
  ab_Environment :: ApprovalProviderSelection
  ab_Runtime :: "ApprovalProviderSelection option"
  ab_Harness :: ApprovalProviderSelection
  ab_GatewayID :: string
  ab_Scopes :: "string list"
  ab_ExpiresAt :: gotime
  ab_Nonce :: string

definition ApprovalBinding_Validate :: "ApprovalBinding \<Rightarrow> verr" where
  "ApprovalBinding_Validate b =
     first_err
      [Digest_Validate (ab_CommandDigest b),
       validateIDs [(''session_id'', ab_SessionID b), (''context_version'', ab_ContextVersion b),
         (''gateway_id'', ab_GatewayID b)],
       if ab_SessionRevision b = 0 \<or> ab_WorkItemRevision b = 0 \<or> ab_ResourceRevision b = 0 \<or> ab_PolicyRevision b = 0
         then errorf ''approval revisions must be positive'' else nil,
       Selection_validate (ab_Environment b) RoleExecutionEnvironment,
       optional_err (\<lambda>r. Selection_validate r RoleSessionRuntime) (ab_Runtime b),
       Selection_validate (ab_Harness b) RoleAgentHarness,
       if ab_Scopes b = [] then errorf ''approval scopes are required'' else nil,
       validateUniqueStrings ''scopes'' (ab_Scopes b),
       each_err (\<lambda>s. validateSafeASCII ''approval scope'' s 1 128) (ab_Scopes b),
       validateTime ''expires_at'' (ab_ExpiresAt b),
       validateNonce (ab_Nonce b)]"

record ApprovalDecision =
  ad_ProtocolVersion :: string
  ad_ApprovalID :: string
  ad_Outcome :: string
  ad_Binding :: ApprovalBinding
  ad_DecisionRevision :: uint64
  ad_DecidedAt :: gotime

definition validOutcome :: "string \<Rightarrow> verr" where
  "validOutcome o' =
     (if o' \<in> {ApprovalOutcomeApproved, ApprovalOutcomeRejected, ApprovalOutcomeExpired}
      then nil else errorf ''approval outcome is unsupported'')"

definition ApprovalDecision_Validate :: "ApprovalDecision \<Rightarrow> verr" where
  "ApprovalDecision_Validate d =
     first_err
      [validateProtocol (ad_ProtocolVersion d),
       validateID ''approval_id'' (ad_ApprovalID d),
       validOutcome (ad_Outcome d),
       ApprovalBinding_Validate (ad_Binding d),
       if ad_DecisionRevision d = 0 then errorf ''decision_revision must be positive'' else nil,
       validateTime ''decided_at'' (ad_DecidedAt d)]"

definition equalApprovalProviderSelection :: "ApprovalProviderSelection \<Rightarrow> ApprovalProviderSelection \<Rightarrow> bool" where
  "equalApprovalProviderSelection a b \<longleftrightarrow> ps_Role a = ps_Role b \<and> ps_Provider a = ps_Provider b"

definition equalOptionalApprovalProviderSelection ::
  "ApprovalProviderSelection option \<Rightarrow> ApprovalProviderSelection option \<Rightarrow> bool" where
  "equalOptionalApprovalProviderSelection a b \<longleftrightarrow>
     (case (a, b) of
        (Some x, Some y) \<Rightarrow> equalApprovalProviderSelection x y
      | _ \<Rightarrow> a = None \<and> b = None)"

definition equalApprovalBinding :: "ApprovalBinding \<Rightarrow> ApprovalBinding \<Rightarrow> bool" where
  "equalApprovalBinding a b \<longleftrightarrow>
     ab_CommandDigest a = ab_CommandDigest b \<and> ab_SessionID a = ab_SessionID b \<and>
     ab_SessionRevision a = ab_SessionRevision b \<and> ab_WorkItemRevision a = ab_WorkItemRevision b \<and>
     ab_ResourceRevision a = ab_ResourceRevision b \<and> ab_ContextVersion a = ab_ContextVersion b \<and>
     ab_PolicyRevision a = ab_PolicyRevision b \<and> equalApprovalProviderSelection (ab_Environment a) (ab_Environment b) \<and>
     equalOptionalApprovalProviderSelection (ab_Runtime a) (ab_Runtime b) \<and>
     equalApprovalProviderSelection (ab_Harness a) (ab_Harness b) \<and> ab_GatewayID a = ab_GatewayID b \<and>
     equalStringSets (ab_Scopes a) (ab_Scopes b) \<and> time_Equal (ab_ExpiresAt a) (ab_ExpiresAt b) \<and>
     ab_Nonce a = ab_Nonce b"

definition ValidateApprovalDecision ::
  "('n \<Rightarrow> string \<Rightarrow> bool \<times> 'n) \<Rightarrow> ApprovalDecision \<Rightarrow> ApprovalBinding \<Rightarrow> 'n option \<Rightarrow> gotime \<Rightarrow> verr \<times> 'n option" where
  "ValidateApprovalDecision Consume decision expected nonces now =
     (if ApprovalDecision_Validate decision \<noteq> nil then (Some (protocolError CodeInvalidArgument), nonces)
      else if ApprovalBinding_Validate expected \<noteq> nil then (Some (protocolError CodeInvalidArgument), nonces)
      else if \<not> equalApprovalBinding (ad_Binding decision) expected then (Some (protocolError CodeConflict), nonces)
      else if \<not> time_Before now (ab_ExpiresAt expected) \<or> ad_Outcome decision = ApprovalOutcomeExpired
        then (Some (protocolError CodeExpired), nonces)
      else if time_After (ad_DecidedAt decision) now \<or> time_After (ad_DecidedAt decision) (ab_ExpiresAt expected)
        then (Some (protocolError CodeInvalidArgument), nonces)
      else if ad_Outcome decision \<noteq> ApprovalOutcomeApproved then (Some (protocolError CodePermissionDenied), nonces)
      else case nonces of
        None \<Rightarrow> (Some (protocolError CodeReplay), nonces)
      | Some st \<Rightarrow>
          let (fresh, st') = Consume st (ab_Nonce expected)
          in (if fresh then nil else Some (protocolError CodeReplay), Some st'))"

section \<open>Provider approvals\<close>

record ProviderApproval =
  pa_NativeApprovalID :: string
  pa_NativeSessionID :: string
  pa_Type :: string
  pa_Summary :: string
  pa_Risk :: string
  pa_RequestedScopes :: "string list"
  pa_RequestDigest :: string
  pa_Revision :: uint64
  pa_ExpiresAt :: gotime

definition ProviderApproval_Validate :: "ProviderApproval \<Rightarrow> verr" where
  "ProviderApproval_Validate a =
     first_err
      [NativeID_Validate (pa_NativeApprovalID a),
       NativeID_Validate (pa_NativeSessionID a),
       validateToken ''approval type'' (pa_Type a),
       validateText ''approval summary'' (pa_Summary a) 512,
       if pa_Risk a \<in> {''low'', ''medium'', ''high'', ''critical''} then nil
         else errorf ''approval risk is unsupported'',
       if pa_RequestedScopes a = [] \<or> length (pa_RequestedScopes a) > 64
         then errorf ''approval scopes are invalid'' else nil,
       validateUniqueStrings ''requested_scopes'' (pa_RequestedScopes a),
       each_err (\<lambda>s. validateSafeASCII ''approval scope'' s 1 128) (pa_RequestedScopes a),
       Digest_Validate (pa_RequestDigest a),
       if pa_Revision a = 0 then errorf ''approval revision must be positive'' else nil,
       validateTime ''expires_at'' (pa_ExpiresAt a)]"

definition ApprovalListRequest_Validate :: "string \<Rightarrow> verr" where
  "ApprovalListRequest_Validate nativeSessionID = NativeID_Validate nativeSessionID"

definition ApprovalListResult_Validate :: "ProviderApproval list \<Rightarrow> verr" where
  "ApprovalListResult_Validate approvals =
     first_err
      [if length approvals > 1024 then errorf ''too many pending approvals'' else nil,
       each_unique ProviderApproval_Validate pa_NativeApprovalID ''provider approval is duplicated'' approvals]"

record ApprovalActionRequest =
  aa_NativeSessionID :: string
  aa_NativeApprovalID :: string
  aa_Outcome :: string
  aa_ExpectedRevision :: uint64
  aa_DecisionDigest :: string

definition ApprovalActionRequest_Validate :: "ApprovalActionRequest \<Rightarrow> verr" where
  "ApprovalActionRequest_Validate r =
     first_err
      [NativeID_Validate (aa_NativeSessionID r),
       NativeID_Validate (aa_NativeApprovalID r),
       validOutcome (aa_Outcome r),
       if aa_ExpectedRevision r = 0 then errorf ''expected approval revision must be positive'' else nil,
       Digest_Validate (aa_DecisionDigest r)]"

definition ApprovalActionResult_Validate :: "OperationResult \<Rightarrow> verr" where
  "ApprovalActionResult_Validate operation = OperationResult_Validate operation"

section \<open>Equality of bindings\<close>

definition sameBinding :: "ApprovalBinding \<Rightarrow> ApprovalBinding \<Rightarrow> bool" where
  "sameBinding a b \<longleftrightarrow>
     mset (ab_Scopes a) = mset (ab_Scopes b) \<and> t_instant (ab_ExpiresAt a) = t_instant (ab_ExpiresAt b) \<and>
     a\<lparr>ab_Scopes := ab_Scopes b, ab_ExpiresAt := ab_ExpiresAt b\<rparr> = b"

lemma equalApprovalProviderSelection_iff: "equalApprovalProviderSelection a b \<longleftrightarrow> a = b"
  by (cases a; cases b) (simp add: equalApprovalProviderSelection_def)

lemma equalOptional_iff: "equalOptionalApprovalProviderSelection a b \<longleftrightarrow> a = b"
  by (cases a; cases b) (auto simp: equalOptionalApprovalProviderSelection_def equalApprovalProviderSelection_iff)

lemma equalApprovalBinding_iff: "equalApprovalBinding a b \<longleftrightarrow> sameBinding a b"
  by (cases a; cases b)
    (auto simp: equalApprovalBinding_def sameBinding_def equalApprovalProviderSelection_iff equalOptional_iff
      equalStringSets_iff time_Equal_def)

lemma ValidateApprovalDecision_nil:
  "ValidateApprovalDecision Consume d expected nonces now = (nil, st') \<longleftrightarrow>
     ApprovalDecision_Validate d = nil \<and> ApprovalBinding_Validate expected = nil \<and>
     sameBinding (ad_Binding d) expected \<and> t_instant now < t_instant (ab_ExpiresAt expected) \<and>
     ad_Outcome d = ApprovalOutcomeApproved \<and> t_instant (ad_DecidedAt d) \<le> t_instant now \<and>
     (\<exists>st. nonces = Some st \<and> fst (Consume st (ab_Nonce expected)) \<and>
        st' = Some (snd (Consume st (ab_Nonce expected))))"
  by (auto simp: ValidateApprovalDecision_def equalApprovalBinding_iff time_Before_def time_After_def
      case_prod_beta Let_def split: option.splits if_splits)

lemma ValidateApprovalDecision_store:
  "fst (ValidateApprovalDecision Consume d expected nonces now) = Some e \<Longrightarrow>
     snd (ValidateApprovalDecision Consume d expected nonces now) = nonces \<or>
     (\<exists>st. nonces = Some st \<and> \<not> fst (Consume st (ab_Nonce expected)) \<and>
        snd (ValidateApprovalDecision Consume d expected nonces now) = Some (snd (Consume st (ab_Nonce expected))))"
  by (auto simp: ValidateApprovalDecision_def case_prod_beta Let_def split: option.splits if_splits)

section \<open>Properties\<close>

text \<open>
  C27: \<open>ValidateApprovalDecision\<close> returns nil exactly when the decision is a well-formed approval that
  binds the expected command digest, revisions, providers, gateway, nonce and scopes (in any order,
  with the same multiplicity), was taken no later than now, has not expired, and the nonce store
  admits the nonce; the nonce is then consumed.
\<close>

theorem ValidateApprovalDecision_accepts:
  "ValidateApprovalDecision nonceSet_Consume d expected (Some st) now = (nil, st') \<longleftrightarrow>
     ApprovalDecision_Validate d = nil \<and> ApprovalBinding_Validate expected = nil \<and>
     sameBinding (ad_Binding d) expected \<and> ad_Outcome d = ApprovalOutcomeApproved \<and>
     t_instant (ad_DecidedAt d) \<le> t_instant now \<and> t_instant now < t_instant (ab_ExpiresAt expected) \<and>
     ab_Nonce expected \<notin> set st \<and> st' = Some (ab_Nonce expected # st)"
  by (auto simp: ValidateApprovalDecision_nil nonceSet_Consume_def split: if_splits)

text \<open>
  An approval is one-use and a refused decision does not burn it: after a success every further
  attempt with the same expected binding fails, and an attempt that fails before the nonce check leaves
  the store unchanged, so only a fresh, fully valid approval consumes its nonce.
\<close>

theorem approval_one_use:
  "(fst (ValidateApprovalDecision nonceSet_Consume d expected (Some st) now) = nil \<longrightarrow>
      fst (ValidateApprovalDecision nonceSet_Consume d' expected
            (snd (ValidateApprovalDecision nonceSet_Consume d expected (Some st) now)) now') \<noteq> nil) \<and>
   (fst (ValidateApprovalDecision nonceSet_Consume d expected (Some st) now) \<noteq> nil \<longrightarrow>
      snd (ValidateApprovalDecision nonceSet_Consume d expected (Some st) now) = Some st)"
proof (intro conjI impI)
  assume "fst (ValidateApprovalDecision nonceSet_Consume d expected (Some st) now) = nil"
  then obtain st' where s: "ValidateApprovalDecision nonceSet_Consume d expected (Some st) now = (nil, st')"
    by (metis prod.collapse)
  then have "st' = Some (ab_Nonce expected # st)" by (simp add: ValidateApprovalDecision_nil nonceSet_Consume_def split: if_splits)
  then show "fst (ValidateApprovalDecision nonceSet_Consume d' expected
      (snd (ValidateApprovalDecision nonceSet_Consume d expected (Some st) now)) now') \<noteq> nil"
    using s ValidateApprovalDecision_nil [of nonceSet_Consume d' expected "Some (ab_Nonce expected # st)" now']
    by (metis nonceSet.Consume_fresh list.set_intros(1) option.inject prod.collapse snd_conv)
next
  assume "fst (ValidateApprovalDecision nonceSet_Consume d expected (Some st) now) \<noteq> nil"
  then show "snd (ValidateApprovalDecision nonceSet_Consume d expected (Some st) now) = Some st"
    using ValidateApprovalDecision_store [of nonceSet_Consume d expected "Some st" now]
    by (auto simp: nonceSet_Consume_def split: if_splits)
qed

definition sampleSelection :: "string \<Rightarrow> ApprovalProviderSelection" where
  "sampleSelection role =
     \<lparr>ps_Role = role, ps_Provider = \<lparr>ai_ID = ''prov'', ai_Version = ''1'', ai_Digest = sampleDigest\<rparr>\<rparr>"

definition sampleApproval :: ApprovalBinding where
  "sampleApproval =
     \<lparr>ab_CommandDigest = sampleDigest, ab_SessionID = ''session-1'', ab_SessionRevision = 1, ab_WorkItemRevision = 1,
      ab_ResourceRevision = 1, ab_ContextVersion = ''ctx-1'', ab_PolicyRevision = 1,
      ab_Environment = sampleSelection RoleExecutionEnvironment, ab_Runtime = None,
      ab_Harness = sampleSelection RoleAgentHarness, ab_GatewayID = ''gw-1'', ab_Scopes = [''fs:read''],
      ab_ExpiresAt = sampleTime 20, ab_Nonce = ''nonce-0123456789-abcdef''\<rparr>"

definition sampleDecision :: ApprovalDecision where
  "sampleDecision =
     \<lparr>ad_ProtocolVersion = ProtocolVersion, ad_ApprovalID = ''ap-1'', ad_Outcome = ApprovalOutcomeApproved,
      ad_Binding = sampleApproval, ad_DecisionRevision = 1, ad_DecidedAt = sampleTime 10\<rparr>"

theorem approval_one_use_witness:
  "fst (ValidateApprovalDecision nonceSet_Consume sampleDecision sampleApproval
     (snd (ValidateApprovalDecision nonceSet_Consume sampleDecision sampleApproval (Some []) (sampleTime 12)))
     (sampleTime 13)) \<noteq> nil"
proof -
  have "fst (ValidateApprovalDecision nonceSet_Consume sampleDecision sampleApproval (Some []) (sampleTime 12)) = nil"
    by code_simp
  then show ?thesis using approval_one_use by blast
qed

end
