(* ===== verification/Proto_Verification.thy ===== *)
theory Proto_Verification
  imports Proto_Custody
begin

text \<open>
  \<open>protocol/verification.go\<close>: verification subjects, the Mission-signed authorization and the
  gateway-signed receipt of a live run, the evidence that carries them, and the evaluation that projects
  a list of evidence to a verification tier. The lemmas give what a projected tier guarantees, how the
  evaluation selects among the evidence, and, against the contract of a replay guard, that one run
  backs one evidence document. Ed25519 and the text of a time are the parameters of \<open>Proto_Custody\<close>.
\<close>

section \<open>Subjects\<close>

abbreviation TierUnverified :: string where "TierUnverified \<equiv> ''unverified''"
abbreviation TierNativeContractTested :: string where "TierNativeContractTested \<equiv> ''native_contract_tested''"
abbreviation TierLiveVerified :: string where "TierLiveVerified \<equiv> ''live_verified''"
abbreviation VerificationPassed :: string where "VerificationPassed \<equiv> ''passed''"
abbreviation VerificationFailed :: string where "VerificationFailed \<equiv> ''failed''"
abbreviation PurposeContractVerification :: string where "PurposeContractVerification \<equiv> ''contract-verification''"
abbreviation PurposeLiveRunAuthorization :: string where "PurposeLiveRunAuthorization \<equiv> ''live-run-authorization''"
abbreviation PurposeLiveRunReceipt :: string where "PurposeLiveRunReceipt \<equiv> ''live-run-receipt''"
abbreviation PurposeLiveVerification :: string where "PurposeLiveVerification \<equiv> ''live-verification''"

record VerificationSubject =
  vs_Provider :: ArtifactIdentity
  vs_NativeArtifact :: ArtifactIdentity
  vs_Platform :: Platform
  vs_Capabilities :: "string list"
  vs_Cases :: "string list"
  vs_SuiteVersion :: string
  vs_SuiteDigest :: string
  vs_ConfigurationDigest :: string
  vs_DataModes :: "string list"

definition Subject_Validate :: "VerificationSubject \<Rightarrow> verr" where
  "Subject_Validate s =
     first_err
      [validateSignedArtifact ''verification provider'' (vs_Provider s),
       validateSignedArtifact ''verification native artifact'' (vs_NativeArtifact s),
       Platform_Validate (vs_Platform s),
       if vs_Capabilities s = [] \<or> vs_Cases s = [] \<or> vs_DataModes s = []
         then errorf ''verification subject scope is incomplete'' else nil,
       each_err (\<lambda>c. if \<not> validCapabilityName c then errorf ''verification capability is invalid'' else nil) (vs_Capabilities s),
       validateUniqueStrings ''capabilities'' (vs_Capabilities s),
       validateUniqueStrings ''cases'' (vs_Cases s),
       each_err (\<lambda>c. validateSafeASCII ''verification case'' c 1 128) (vs_Cases s),
       validateVersion ''suite_version'' (vs_SuiteVersion s),
       validateSafeASCII ''suite_version'' (vs_SuiteVersion s) 1 128,
       Digest_Validate (vs_SuiteDigest s),
       Digest_Validate (vs_ConfigurationDigest s),
       each_unique DataMode_Validate id ''data_modes contains a duplicate'' (vs_DataModes s)]"

definition canonicalVerificationSubject :: "VerificationSubject \<Rightarrow> VerificationSubject" where
  "canonicalVerificationSubject s =
     s\<lparr>vs_Capabilities := sort (vs_Capabilities s), vs_Cases := sortedStrings (vs_Cases s),
       vs_DataModes := sort (vs_DataModes s)\<rparr>"

definition equalVerificationSubject :: "VerificationSubject \<Rightarrow> VerificationSubject \<Rightarrow> bool" where
  "equalVerificationSubject a0 b0 =
     (let a = canonicalVerificationSubject a0; b = canonicalVerificationSubject b0 in
      if vs_Provider a \<noteq> vs_Provider b \<or> vs_NativeArtifact a \<noteq> vs_NativeArtifact b \<or> vs_Platform a \<noteq> vs_Platform b \<or>
         vs_SuiteVersion a \<noteq> vs_SuiteVersion b \<or> vs_SuiteDigest a \<noteq> vs_SuiteDigest b \<or>
         vs_ConfigurationDigest a \<noteq> vs_ConfigurationDigest b \<or>
         length (vs_Capabilities a) \<noteq> length (vs_Capabilities b) \<or> length (vs_DataModes a) \<noteq> length (vs_DataModes b)
      then False
      else if \<not> list_all (\<lambda>(x, y). x = y) (zip (vs_Capabilities a) (vs_Capabilities b)) then False
      else if \<not> list_all (\<lambda>(x, y). x = y) (zip (vs_DataModes a) (vs_DataModes b)) then False
      else equalStrings (vs_Cases a) (vs_Cases b))"

section \<open>Authorization, receipt and evidence\<close>

record Usage =
  us_InputTokens :: uint64
  us_OutputTokens :: uint64
  us_CostMicrounits :: uint64

record LiveVerificationAuthorization =
  la_ProtocolVersion :: string
  la_AuthorizationID :: string
  la_Subject :: VerificationSubject
  la_TenantID :: string
  la_GatewayID :: string
  la_GatewayKeyID :: string
  la_CorrelationID :: string
  la_RunNonce :: string
  la_BudgetReference :: string
  la_CredentialReference :: string
  la_IssuedAt :: gotime
  la_ExpiresAt :: gotime
  la_TrustEpoch :: uint64
  la_Signature :: Signature

definition Authorization_validateFields :: "LiveVerificationAuthorization \<Rightarrow> verr" where
  "Authorization_validateFields a =
     first_err
      [validateProtocol (la_ProtocolVersion a),
       validateIDs [(''authorization_id'', la_AuthorizationID a), (''tenant_id'', la_TenantID a),
         (''gateway_id'', la_GatewayID a), (''gateway_key_id'', la_GatewayKeyID a), (''correlation_id'', la_CorrelationID a)],
       Subject_Validate (la_Subject a),
       validateNonce (la_RunNonce a),
       validateSignedReference ''budget_reference'' (la_BudgetReference a),
       validateSignedReference ''credential_reference'' (la_CredentialReference a),
       validateEvidenceTimes (la_IssuedAt a) (la_ExpiresAt a),
       if la_TrustEpoch a = 0 then errorf ''trust_epoch must be positive'' else nil]"

definition Authorization_Validate :: "LiveVerificationAuthorization \<Rightarrow> verr" where
  "Authorization_Validate a =
     first_err [Authorization_validateFields a, Signature_validate (la_Signature a) PurposeLiveRunAuthorization]"

record LiveVerificationReceipt =
  lr_ProtocolVersion :: string
  lr_ReceiptID :: string
  lr_AuthorizationID :: string
  lr_Subject :: VerificationSubject
  lr_TenantID :: string
  lr_GatewayID :: string
  lr_CorrelationID :: string
  lr_RunNonce :: string
  lr_BudgetReference :: string
  lr_CredentialReference :: string
  lr_Result :: string
  lr_Usage :: "Usage option"
  lr_AuditEventID :: string
  lr_IssuedAt :: gotime
  lr_Signature :: Signature

definition Receipt_validateFields :: "LiveVerificationReceipt \<Rightarrow> verr" where
  "Receipt_validateFields r =
     first_err
      [validateProtocol (lr_ProtocolVersion r),
       validateIDs [(''receipt_id'', lr_ReceiptID r), (''authorization_id'', lr_AuthorizationID r),
         (''tenant_id'', lr_TenantID r), (''gateway_id'', lr_GatewayID r), (''correlation_id'', lr_CorrelationID r),
         (''audit_event_id'', lr_AuditEventID r)],
       Subject_Validate (lr_Subject r),
       validateNonce (lr_RunNonce r),
       validateSignedReference ''budget_reference'' (lr_BudgetReference r),
       validateSignedReference ''credential_reference'' (lr_CredentialReference r),
       if lr_Result r \<noteq> VerificationPassed \<and> lr_Result r \<noteq> VerificationFailed
         then errorf ''verification result is unsupported'' else nil,
       if lr_Usage r = None then errorf ''live verification usage is required'' else nil,
       validateTime ''issued_at'' (lr_IssuedAt r)]"

definition Receipt_Validate :: "LiveVerificationReceipt \<Rightarrow> verr" where
  "Receipt_Validate r =
     first_err
      [Receipt_validateFields r,
       Signature_validate (lr_Signature r) PurposeLiveRunReceipt,
       if sig_Issuer (lr_Signature r) \<noteq> lr_GatewayID r
         then errorf ''live verification receipt signer does not match gateway'' else nil]"

record VerificationEvidence =
  ve_ProtocolVersion :: string
  ve_EvidenceID :: string
  ve_Tier :: string
  ve_Subject :: VerificationSubject
  ve_Result :: string
  ve_Reference :: string
  ve_IssuedAt :: gotime
  ve_ExpiresAt :: gotime
  ve_TrustEpoch :: uint64
  ve_LiveAuthorization :: "LiveVerificationAuthorization option"
  ve_LiveReceipt :: "LiveVerificationReceipt option"
  ve_Signature :: Signature

definition liveReceiptMatchesAuthorization :: "LiveVerificationReceipt \<Rightarrow> LiveVerificationAuthorization \<Rightarrow> bool" where
  "liveReceiptMatchesAuthorization receipt auth \<longleftrightarrow>
     lr_AuthorizationID receipt = la_AuthorizationID auth \<and>
     equalVerificationSubject (lr_Subject receipt) (la_Subject auth) \<and>
     lr_TenantID receipt = la_TenantID auth \<and> lr_GatewayID receipt = la_GatewayID auth \<and>
     sig_KeyID (lr_Signature receipt) = la_GatewayKeyID auth \<and>
     lr_CorrelationID receipt = la_CorrelationID auth \<and> lr_RunNonce receipt = la_RunNonce auth \<and>
     lr_BudgetReference receipt = la_BudgetReference auth \<and>
     lr_CredentialReference receipt = la_CredentialReference auth"

definition liveComponentsMatch ::
  "VerificationEvidence \<Rightarrow> LiveVerificationAuthorization \<Rightarrow> LiveVerificationReceipt \<Rightarrow> bool" where
  "liveComponentsMatch e auth receipt \<longleftrightarrow>
     ve_TrustEpoch e = la_TrustEpoch auth \<and> ve_Result e = lr_Result receipt \<and>
     equalVerificationSubject (ve_Subject e) (la_Subject auth) \<and> liveReceiptMatchesAuthorization receipt auth"

definition liveRecordsErr :: "VerificationEvidence \<Rightarrow> verr" where
  "liveRecordsErr e =
     (if ve_Tier e = TierLiveVerified then
        (case (ve_LiveAuthorization e, ve_LiveReceipt e) of
           (Some auth, Some receipt) \<Rightarrow>
             first_err
              [Authorization_Validate auth,
               Receipt_Validate receipt,
               if \<not> liveComponentsMatch e auth receipt
                 then errorf ''live verification components do not match'' else nil,
               if time_Before (lr_IssuedAt receipt) (la_IssuedAt auth) \<or>
                  \<not> time_Before (lr_IssuedAt receipt) (la_ExpiresAt auth) \<or>
                  time_Before (ve_IssuedAt e) (lr_IssuedAt receipt)
                 then errorf ''live verification timestamps are inconsistent'' else nil]
         | _ \<Rightarrow> errorf ''live authorization and receipt are required'')
      else if ve_LiveAuthorization e \<noteq> None \<or> ve_LiveReceipt e \<noteq> None
      then errorf ''native contract evidence cannot contain live records'' else nil)"

definition Verification_validateFields :: "VerificationEvidence \<Rightarrow> go_error + string" where
  "Verification_validateFields e =
     (case first_err
        [validateProtocol (ve_ProtocolVersion e),
         validateID ''evidence_id'' (ve_EvidenceID e),
         if ve_Tier e \<noteq> TierNativeContractTested \<and> ve_Tier e \<noteq> TierLiveVerified
           then errorf ''verification evidence tier is not issuable'' else nil,
         Subject_Validate (ve_Subject e),
         if ve_Result e \<noteq> VerificationPassed \<and> ve_Result e \<noteq> VerificationFailed
           then errorf ''verification result is unsupported'' else nil,
         validateSignedReference ''evidence reference'' (ve_Reference e),
         validateEvidenceTimes (ve_IssuedAt e) (ve_ExpiresAt e),
         if ve_TrustEpoch e = 0 then errorf ''trust_epoch must be positive'' else nil,
         liveRecordsErr e] of
        Some err \<Rightarrow> Inl err
      | None \<Rightarrow> Inr (if ve_Tier e = TierLiveVerified then PurposeLiveVerification else PurposeContractVerification))"

definition Verification_Validate :: "VerificationEvidence \<Rightarrow> verr" where
  "Verification_Validate e =
     (case Verification_validateFields e of Inl err \<Rightarrow> Some err | Inr purpose \<Rightarrow> Signature_validate (ve_Signature e) purpose)"

section \<open>Signing bytes\<close>

definition platformJSON :: "Platform \<Rightarrow> json" where
  "platformJSON p = JObj [(''os'', JStr (pf_OS p)), (''architecture'', JStr (pf_Architecture p))]"

definition subjectJSON :: "VerificationSubject \<Rightarrow> json" where
  "subjectJSON s =
     JObj [(''provider'', artifactJSON (vs_Provider s)), (''native_artifact'', artifactJSON (vs_NativeArtifact s)),
           (''platform'', platformJSON (vs_Platform s)), (''capabilities'', JArr (map JStr (vs_Capabilities s))),
           (''cases'', JArr (map JStr (vs_Cases s))), (''suite_version'', JStr (vs_SuiteVersion s)),
           (''suite_digest'', JStr (vs_SuiteDigest s)), (''configuration_digest'', JStr (vs_ConfigurationDigest s)),
           (''data_modes'', JArr (map JStr (vs_DataModes s)))]"

abbreviation numJSON :: "uint64 \<Rightarrow> json" where
  "numJSON n \<equiv> JNum (decimal (unat n))"

definition usageJSON :: "Usage \<Rightarrow> json" where
  "usageJSON u =
     JObj [(''input_tokens'', numJSON (us_InputTokens u)), (''output_tokens'', numJSON (us_OutputTokens u)),
           (''cost_microunits'', numJSON (us_CostMicrounits u))]"

definition authorizationJSON :: "golib \<Rightarrow> LiveVerificationAuthorization \<Rightarrow> json option" where
  "authorizationJSON lib a =
     (case (lib_fmtTime lib (la_IssuedAt a), lib_fmtTime lib (la_ExpiresAt a)) of
        (Some issued, Some expires) \<Rightarrow>
          Some (JObj [(''protocol_version'', JStr (la_ProtocolVersion a)), (''authorization_id'', JStr (la_AuthorizationID a)),
            (''subject'', subjectJSON (la_Subject a)), (''tenant_id'', JStr (la_TenantID a)),
            (''gateway_id'', JStr (la_GatewayID a)), (''gateway_key_id'', JStr (la_GatewayKeyID a)),
            (''correlation_id'', JStr (la_CorrelationID a)), (''run_nonce'', JStr (la_RunNonce a)),
            (''budget_reference'', JStr (la_BudgetReference a)), (''credential_reference'', JStr (la_CredentialReference a)),
            (''issued_at'', JStr issued), (''expires_at'', JStr expires), (''trust_epoch'', numJSON (la_TrustEpoch a)),
            (''signature'', signatureJSON (la_Signature a))])
      | _ \<Rightarrow> None)"

definition receiptJSON :: "golib \<Rightarrow> LiveVerificationReceipt \<Rightarrow> json option" where
  "receiptJSON lib r =
     map_option (\<lambda>issued.
       JObj [(''protocol_version'', JStr (lr_ProtocolVersion r)), (''receipt_id'', JStr (lr_ReceiptID r)),
         (''authorization_id'', JStr (lr_AuthorizationID r)), (''subject'', subjectJSON (lr_Subject r)),
         (''tenant_id'', JStr (lr_TenantID r)), (''gateway_id'', JStr (lr_GatewayID r)),
         (''correlation_id'', JStr (lr_CorrelationID r)), (''run_nonce'', JStr (lr_RunNonce r)),
         (''budget_reference'', JStr (lr_BudgetReference r)), (''credential_reference'', JStr (lr_CredentialReference r)),
         (''result'', JStr (lr_Result r)), (''usage'', case lr_Usage r of None \<Rightarrow> JNull | Some u \<Rightarrow> usageJSON u),
         (''audit_event_id'', JStr (lr_AuditEventID r)), (''issued_at'', JStr issued),
         (''signature'', signatureJSON (lr_Signature r))]) (lib_fmtTime lib (lr_IssuedAt r))"

text \<open>A pointer field with \<open>omitempty\<close> is left out when nil; a marshalling error of its target is the document's.\<close>

definition omitEmpty :: "string \<Rightarrow> ('a \<Rightarrow> json option) \<Rightarrow> 'a option \<Rightarrow> (string \<times> json) list option" where
  "omitEmpty name toJSON field =
     (case field of None \<Rightarrow> Some [] | Some v \<Rightarrow> map_option (\<lambda>j. [(name, j)]) (toJSON v))"

definition verificationJSON :: "golib \<Rightarrow> VerificationEvidence \<Rightarrow> json option" where
  "verificationJSON lib e =
     (case (lib_fmtTime lib (ve_IssuedAt e), lib_fmtTime lib (ve_ExpiresAt e),
            omitEmpty ''live_authorization'' (authorizationJSON lib) (ve_LiveAuthorization e),
            omitEmpty ''live_receipt'' (receiptJSON lib) (ve_LiveReceipt e)) of
        (Some issued, Some expires, Some auth, Some receipt) \<Rightarrow>
          Some (JObj ([(''protocol_version'', JStr (ve_ProtocolVersion e)), (''evidence_id'', JStr (ve_EvidenceID e)),
            (''tier'', JStr (ve_Tier e)), (''subject'', subjectJSON (ve_Subject e)), (''result'', JStr (ve_Result e)),
            (''reference'', JStr (ve_Reference e)), (''issued_at'', JStr issued), (''expires_at'', JStr expires),
            (''trust_epoch'', numJSON (ve_TrustEpoch e))] @ auth @ receipt @
            [(''signature'', signatureJSON (ve_Signature e))]))
      | _ \<Rightarrow> None)"

definition Authorization_SigningBytes :: "golib \<Rightarrow> LiveVerificationAuthorization \<Rightarrow> go_error + string" where
  "Authorization_SigningBytes lib a =
     (case first_err [Authorization_validateFields a, Signature_validateMetadata (la_Signature a) PurposeLiveRunAuthorization] of
        Some err \<Rightarrow> Inl err
      | None \<Rightarrow> signingPreimage PurposeLiveRunAuthorization
          (authorizationJSON lib (a\<lparr>la_Subject := canonicalVerificationSubject (la_Subject a),
             la_Signature := (la_Signature a)\<lparr>sig_Value := []\<rparr>\<rparr>)))"

definition Receipt_SigningBytes :: "golib \<Rightarrow> LiveVerificationReceipt \<Rightarrow> go_error + string" where
  "Receipt_SigningBytes lib r =
     (case first_err [Receipt_validateFields r, Signature_validateMetadata (lr_Signature r) PurposeLiveRunReceipt] of
        Some err \<Rightarrow> Inl err
      | None \<Rightarrow> signingPreimage PurposeLiveRunReceipt
          (receiptJSON lib (r\<lparr>lr_Subject := canonicalVerificationSubject (lr_Subject r),
             lr_Signature := (lr_Signature r)\<lparr>sig_Value := []\<rparr>\<rparr>)))"

definition canonicalVerificationEvidence :: "VerificationEvidence \<Rightarrow> VerificationEvidence" where
  "canonicalVerificationEvidence e =
     e\<lparr>ve_Subject := canonicalVerificationSubject (ve_Subject e),
       ve_LiveAuthorization := map_option (\<lambda>a. a\<lparr>la_Subject := canonicalVerificationSubject (la_Subject a)\<rparr>) (ve_LiveAuthorization e),
       ve_LiveReceipt := map_option (\<lambda>r. r\<lparr>lr_Subject := canonicalVerificationSubject (lr_Subject r)\<rparr>) (ve_LiveReceipt e)\<rparr>"

definition Verification_SigningBytes :: "golib \<Rightarrow> VerificationEvidence \<Rightarrow> go_error + string" where
  "Verification_SigningBytes lib e =
     (case Verification_validateFields e of
        Inl err \<Rightarrow> Inl err
      | Inr purpose \<Rightarrow>
          (case Signature_validateMetadata (ve_Signature e) purpose of
             Some err \<Rightarrow> Inl err
           | None \<Rightarrow>
               (let c = canonicalVerificationEvidence e
                in signingPreimage purpose (verificationJSON lib (c\<lparr>ve_Signature := (ve_Signature c)\<lparr>sig_Value := []\<rparr>\<rparr>)))))"

section \<open>Evaluation\<close>

record VerificationExpectation =
  vx_Subject :: VerificationSubject
  vx_TenantID :: string
  vx_GatewayID :: string
  vx_GatewayKeyID :: string
  vx_CorrelationID :: string
  vx_AuthorizationID :: string
  vx_RunNonce :: string
  vx_BudgetReference :: string
  vx_CredentialReference :: string

definition hasLiveScope :: "VerificationExpectation \<Rightarrow> bool" where
  "hasLiveScope x \<longleftrightarrow>
     vx_TenantID x \<noteq> [] \<or> vx_GatewayID x \<noteq> [] \<or> vx_GatewayKeyID x \<noteq> [] \<or> vx_CorrelationID x \<noteq> [] \<or>
     vx_AuthorizationID x \<noteq> [] \<or> vx_RunNonce x \<noteq> [] \<or> vx_BudgetReference x \<noteq> [] \<or> vx_CredentialReference x \<noteq> []"

definition Expectation_Validate :: "VerificationExpectation \<Rightarrow> verr" where
  "Expectation_Validate x =
     (case Subject_Validate (vx_Subject x) of
        Some err \<Rightarrow> Some err
      | None \<Rightarrow>
          if \<not> hasLiveScope x then nil
          else first_err
            [validateIDs [(''tenant_id'', vx_TenantID x), (''gateway_id'', vx_GatewayID x), (''gateway_key_id'', vx_GatewayKeyID x),
               (''correlation_id'', vx_CorrelationID x), (''authorization_id'', vx_AuthorizationID x)],
             validateNonce (vx_RunNonce x),
             validateSignedReference ''budget_reference'' (vx_BudgetReference x),
             validateSignedReference ''credential_reference'' (vx_CredentialReference x)])"

record VerificationPolicy =
  vp_Trust :: trust
  vp_CurrentTrustEpoch :: uint64
  vp_RevokedEvidenceIDs :: "string list"
  vp_SupersededEvidenceIDs :: "string list"

record VerificationProjection =
  pj_Tier :: string
  pj_EvidenceID :: string

definition verifyTrustedSignature :: "golib \<Rightarrow> Signature \<Rightarrow> string \<Rightarrow> trust \<Rightarrow> string \<Rightarrow> bool" where
  "verifyTrustedSignature lib s expectedPurpose trust payload =
     (case trust of
        None \<Rightarrow> False
      | Some publicKey \<Rightarrow>
          if Signature_validate s expectedPurpose \<noteq> nil then False
          else (case publicKey (sig_Issuer s) (sig_KeyID s) expectedPurpose of
                  None \<Rightarrow> False
                | Some key \<Rightarrow>
                    (case b64RawURLDecode (sig_Value s) of
                       None \<Rightarrow> False
                     | Some v \<Rightarrow> length key = PublicKeySize \<and> lib_verify lib key payload v)))"

definition signaturePurposeForTier :: "string \<Rightarrow> string" where
  "signaturePurposeForTier tier =
     (if tier = TierLiveVerified then PurposeLiveVerification else PurposeContractVerification)"

definition liveAuthorizationMatchesExpectation ::
  "LiveVerificationAuthorization \<Rightarrow> VerificationExpectation \<Rightarrow> bool" where
  "liveAuthorizationMatchesExpectation a x \<longleftrightarrow>
     equalVerificationSubject (la_Subject a) (vx_Subject x) \<and> la_TenantID a = vx_TenantID x \<and>
     la_GatewayID a = vx_GatewayID x \<and> la_GatewayKeyID a = vx_GatewayKeyID x \<and>
     la_CorrelationID a = vx_CorrelationID x \<and> la_AuthorizationID a = vx_AuthorizationID x \<and>
     la_RunNonce a = vx_RunNonce x \<and> la_BudgetReference a = vx_BudgetReference x \<and>
     la_CredentialReference a = vx_CredentialReference x"

definition containsString :: "string list \<Rightarrow> string \<Rightarrow> bool" where
  "containsString vs wanted = list_ex (\<lambda>v. v = wanted) vs"

definition signedBy :: "golib \<Rightarrow> Signature \<Rightarrow> string \<Rightarrow> trust \<Rightarrow> go_error + string \<Rightarrow> bool" where
  "signedBy lib s purpose trust payload =
     (case payload of Inl _ \<Rightarrow> False | Inr bytes \<Rightarrow> verifyTrustedSignature lib s purpose trust bytes)"

text \<open>
  \<open>verificationApplies\<close> in its two parts: the checks on the document, and the checks on the live run. A
  replay guard is a state with the interface's \<open>Accept\<close>; a nil guard is None.
\<close>

definition documentApplies :: "golib \<Rightarrow> VerificationEvidence \<Rightarrow> VerificationExpectation \<Rightarrow> VerificationPolicy \<Rightarrow> gotime \<Rightarrow> bool" where
  "documentApplies lib e expected policy now =
     (if Verification_Validate e \<noteq> nil \<or> ve_Result e \<noteq> VerificationPassed \<or>
         ve_TrustEpoch e \<noteq> vp_CurrentTrustEpoch policy \<or> time_Before now (ve_IssuedAt e) \<or>
         \<not> time_Before now (ve_ExpiresAt e) \<or> \<not> equalVerificationSubject (ve_Subject e) (vx_Subject expected)
      then False
      else if containsString (vp_RevokedEvidenceIDs policy) (ve_EvidenceID e) \<or>
              containsString (vp_SupersededEvidenceIDs policy) (ve_EvidenceID e)
      then False
      else signedBy lib (ve_Signature e) (signaturePurposeForTier (ve_Tier e)) (vp_Trust policy)
             (Verification_SigningBytes lib e))"

definition runApplies ::
  "golib \<Rightarrow> LiveVerificationAuthorization \<Rightarrow> LiveVerificationReceipt \<Rightarrow> VerificationExpectation \<Rightarrow> VerificationPolicy \<Rightarrow> gotime \<Rightarrow> bool" where
  "runApplies lib auth receipt expected policy now =
     (if \<not> liveAuthorizationMatchesExpectation auth expected \<or> \<not> liveReceiptMatchesAuthorization receipt auth then False
      else if time_Before now (la_IssuedAt auth) \<or> \<not> time_Before now (la_ExpiresAt auth) \<or>
              time_Before now (lr_IssuedAt receipt) then False
      else if \<not> signedBy lib (la_Signature auth) PurposeLiveRunAuthorization (vp_Trust policy)
                (Authorization_SigningBytes lib auth) then False
      else if sig_Issuer (lr_Signature receipt) \<noteq> lr_GatewayID receipt then False
      else signedBy lib (lr_Signature receipt) PurposeLiveRunReceipt (vp_Trust policy) (Receipt_SigningBytes lib receipt))"

definition verificationApplies ::
  "golib \<Rightarrow> ('g \<Rightarrow> string \<Rightarrow> string \<Rightarrow> bool \<times> 'g) \<Rightarrow> VerificationEvidence \<Rightarrow> VerificationExpectation \<Rightarrow> VerificationPolicy \<Rightarrow>
     'g option \<Rightarrow> gotime \<Rightarrow> bool \<times> 'g option" where
  "verificationApplies lib Accept e expected policy replay now =
     (if \<not> documentApplies lib e expected policy now then (False, replay)
      else if ve_Tier e \<noteq> TierLiveVerified then (True, replay)
      else if \<not> hasLiveScope expected then (False, replay)
      else (case (replay, ve_LiveAuthorization e, ve_LiveReceipt e) of
              (Some guard, Some auth, Some receipt) \<Rightarrow>
                if \<not> runApplies lib auth receipt expected policy now then (False, replay)
                else (case Accept guard (lr_RunNonce receipt) (ve_EvidenceID e) of
                        (accepted, guard') \<Rightarrow> (accepted, Some guard'))
            | _ \<Rightarrow> (False, replay)))"

fun evaluateLoop ::
  "golib \<Rightarrow> ('g \<Rightarrow> string \<Rightarrow> string \<Rightarrow> bool \<times> 'g) \<Rightarrow> VerificationExpectation \<Rightarrow> VerificationPolicy \<Rightarrow> gotime \<Rightarrow>
     VerificationProjection \<Rightarrow> 'g option \<Rightarrow> VerificationEvidence list \<Rightarrow> VerificationProjection \<times> 'g option" where
  "evaluateLoop lib Accept expected policy now projection replay [] = (projection, replay)"
| "evaluateLoop lib Accept expected policy now projection replay (candidate # evidence) =
     (case verificationApplies lib Accept candidate expected policy replay now of
        (applies, replay') \<Rightarrow>
          evaluateLoop lib Accept expected policy now
            (if applies \<and> (ve_Tier candidate = TierLiveVerified \<or> pj_Tier projection = TierUnverified)
             then \<lparr>pj_Tier = ve_Tier candidate, pj_EvidenceID = ve_EvidenceID candidate\<rparr> else projection)
            replay' evidence)"

definition EvaluateVerification ::
  "golib \<Rightarrow> ('g \<Rightarrow> string \<Rightarrow> string \<Rightarrow> bool \<times> 'g) \<Rightarrow> VerificationEvidence list \<Rightarrow> VerificationExpectation \<Rightarrow> VerificationPolicy \<Rightarrow>
     'g option \<Rightarrow> gotime \<Rightarrow> VerificationProjection \<times> 'g option" where
  "EvaluateVerification lib Accept evidence expected policy replay now =
     (let unverified = \<lparr>pj_Tier = TierUnverified, pj_EvidenceID = []\<rparr> in
      if Expectation_Validate expected \<noteq> nil \<or> vp_Trust policy = None \<or> vp_CurrentTrustEpoch policy = 0
      then (unverified, replay)
      else evaluateLoop lib Accept expected policy now unverified replay evidence)"

section \<open>Subjects up to order\<close>

lemma zip_all_eq: "length xs = length ys \<Longrightarrow> list_all (\<lambda>(x, y). x = y) (zip xs ys) \<longleftrightarrow> xs = ys"
  by (auto simp: list_eq_iff_zip_eq list_all_iff)

lemma equalVerificationSubject_iff:
  "equalVerificationSubject a b \<longleftrightarrow> canonicalVerificationSubject a = canonicalVerificationSubject b"
proof -
  have "equalVerificationSubject a b \<longleftrightarrow>
      vs_Provider a = vs_Provider b \<and> vs_NativeArtifact a = vs_NativeArtifact b \<and> vs_Platform a = vs_Platform b \<and>
      vs_SuiteVersion a = vs_SuiteVersion b \<and> vs_SuiteDigest a = vs_SuiteDigest b \<and>
      vs_ConfigurationDigest a = vs_ConfigurationDigest b \<and> sort (vs_Capabilities a) = sort (vs_Capabilities b) \<and>
      sort (vs_DataModes a) = sort (vs_DataModes b) \<and> sort (vs_Cases a) = sort (vs_Cases b)"
    using zip_all_eq [of "sort (vs_Capabilities a)" "sort (vs_Capabilities b)"]
      zip_all_eq [of "sort (vs_DataModes a)" "sort (vs_DataModes b)"] length_sort
    by (auto simp: equalVerificationSubject_def canonicalVerificationSubject_def sortedStrings_def equalStrings_iff Let_def)
      (metis length_sort)+
  then show ?thesis
    by (cases a; cases b) (auto simp: canonicalVerificationSubject_def sortedStrings_def)
qed

lemma signedBy_iff:
  "signedBy lib s purpose trust payload \<longleftrightarrow>
     Signature_validate s purpose = nil \<and>
     (\<exists>publicKey key v bytes. trust = Some publicKey \<and> publicKey (sig_Issuer s) (sig_KeyID s) purpose = Some key \<and>
        length key = PublicKeySize \<and> b64RawURLDecode (sig_Value s) = Some v \<and> payload = Inr bytes \<and> lib_verify lib key bytes v)"
  by (auto simp: signedBy_def verifyTrustedSignature_def split: sum.splits option.splits if_splits)

lemma validateFields_Inr:
  "Verification_validateFields e = Inr purpose \<longleftrightarrow>
     validateProtocol (ve_ProtocolVersion e) = nil \<and> validateID ''evidence_id'' (ve_EvidenceID e) = nil \<and>
     (ve_Tier e = TierNativeContractTested \<or> ve_Tier e = TierLiveVerified) \<and> Subject_Validate (ve_Subject e) = nil \<and>
     (ve_Result e = VerificationPassed \<or> ve_Result e = VerificationFailed) \<and>
     validateSignedReference ''evidence reference'' (ve_Reference e) = nil \<and>
     validateEvidenceTimes (ve_IssuedAt e) (ve_ExpiresAt e) = nil \<and> ve_TrustEpoch e \<noteq> 0 \<and> liveRecordsErr e = nil \<and>
     purpose = signaturePurposeForTier (ve_Tier e)"
proof -
  let ?checks = "[validateProtocol (ve_ProtocolVersion e), validateID ''evidence_id'' (ve_EvidenceID e),
         if ve_Tier e \<noteq> TierNativeContractTested \<and> ve_Tier e \<noteq> TierLiveVerified
           then errorf ''verification evidence tier is not issuable'' else nil,
         Subject_Validate (ve_Subject e),
         if ve_Result e \<noteq> VerificationPassed \<and> ve_Result e \<noteq> VerificationFailed
           then errorf ''verification result is unsupported'' else nil,
         validateSignedReference ''evidence reference'' (ve_Reference e),
         validateEvidenceTimes (ve_IssuedAt e) (ve_ExpiresAt e),
         if ve_TrustEpoch e = 0 then errorf ''trust_epoch must be positive'' else nil, liveRecordsErr e]"
  have "Verification_validateFields e = Inr purpose \<longleftrightarrow> first_err ?checks = nil \<and> purpose = signaturePurposeForTier (ve_Tier e)"
    unfolding Verification_validateFields_def signaturePurposeForTier_def by (cases "first_err ?checks") auto
  then show ?thesis by auto
qed

section \<open>What makes evidence apply\<close>

text \<open>Every tier: the document is valid, passed, current, in its window, about the expected subject,
  neither revoked nor superseded, and signed for the purpose of its tier.\<close>

definition sound :: "golib \<Rightarrow> VerificationExpectation \<Rightarrow> VerificationPolicy \<Rightarrow> gotime \<Rightarrow> VerificationEvidence \<Rightarrow> bool" where
  "sound lib x policy now e \<longleftrightarrow>
     Verification_Validate e = nil \<and> ve_Result e = VerificationPassed \<and> ve_TrustEpoch e = vp_CurrentTrustEpoch policy \<and>
     t_instant (ve_IssuedAt e) \<le> t_instant now \<and> t_instant now < t_instant (ve_ExpiresAt e) \<and>
     canonicalVerificationSubject (ve_Subject e) = canonicalVerificationSubject (vx_Subject x) \<and>
     ve_EvidenceID e \<notin> set (vp_RevokedEvidenceIDs policy) \<and> ve_EvidenceID e \<notin> set (vp_SupersededEvidenceIDs policy) \<and>
     signedBy lib (ve_Signature e) (signaturePurposeForTier (ve_Tier e)) (vp_Trust policy) (Verification_SigningBytes lib e)"

text \<open>The live tier also has an authorization and a receipt for exactly the expected run, each valid now and
  signed, the receipt by the gateway and the key that the authorization names.\<close>

definition soundRun ::
  "golib \<Rightarrow> VerificationExpectation \<Rightarrow> VerificationPolicy \<Rightarrow> gotime \<Rightarrow> LiveVerificationAuthorization \<Rightarrow> LiveVerificationReceipt \<Rightarrow> bool" where
  "soundRun lib x policy now a r \<longleftrightarrow>
     liveAuthorizationMatchesExpectation a x \<and> liveReceiptMatchesAuthorization r a \<and>
     t_instant (la_IssuedAt a) \<le> t_instant now \<and> t_instant now < t_instant (la_ExpiresAt a) \<and>
     t_instant (lr_IssuedAt r) \<le> t_instant now \<and>
     signedBy lib (la_Signature a) PurposeLiveRunAuthorization (vp_Trust policy) (Authorization_SigningBytes lib a) \<and>
     sig_Issuer (lr_Signature r) = vx_GatewayID x \<and> sig_KeyID (lr_Signature r) = vx_GatewayKeyID x \<and>
     signedBy lib (lr_Signature r) PurposeLiveRunReceipt (vp_Trust policy) (Receipt_SigningBytes lib r)"

lemma containsString_iff [simp]: "containsString vs w \<longleftrightarrow> w \<in> set vs"
  by (auto simp: containsString_def list_ex_iff)

lemma documentApplies_sound: "documentApplies lib e x policy now \<longleftrightarrow> sound lib x policy now e"
  by (auto simp: documentApplies_def sound_def equalVerificationSubject_iff time_Before_def)

lemma runApplies_sound: "runApplies lib a r x policy now \<longleftrightarrow> soundRun lib x policy now a r"
proof (cases "liveAuthorizationMatchesExpectation a x \<and> liveReceiptMatchesAuthorization r a")
  case True
  then have "lr_GatewayID r = vx_GatewayID x" "sig_KeyID (lr_Signature r) = vx_GatewayKeyID x"
    by (simp_all add: liveAuthorizationMatchesExpectation_def liveReceiptMatchesAuthorization_def)
  then show ?thesis using True by (auto simp: runApplies_def soundRun_def time_Before_def)
next
  case False
  then show ?thesis by (auto simp: runApplies_def soundRun_def)
qed

lemma soundRun_nonce: "soundRun lib x policy now a r \<Longrightarrow> lr_RunNonce r = vx_RunNonce x"
  by (simp add: soundRun_def liveAuthorizationMatchesExpectation_def liveReceiptMatchesAuthorization_def)

lemma applies_sound:
  assumes "verificationApplies lib Accept e x policy replay now = (True, replay')"
  shows "sound lib x policy now e"
  using assms by (simp add: verificationApplies_def documentApplies_sound split: if_splits)

lemma applies_live:
  assumes "ve_Tier e = TierLiveVerified" "verificationApplies lib Accept e x policy replay now = (ok, replay')"
  obtains (refused) "\<not> ok" "replay' = replay"
  | (asked) guard a r where "replay = Some guard" "ve_LiveAuthorization e = Some a" "ve_LiveReceipt e = Some r"
      "hasLiveScope x" "soundRun lib x policy now a r" "ok = fst (Accept guard (vx_RunNonce x) (ve_EvidenceID e))"
      "replay' = Some (snd (Accept guard (vx_RunNonce x) (ve_EvidenceID e)))"
  using assms
  by (auto simp: verificationApplies_def runApplies_sound case_prod_beta soundRun_nonce split: if_splits option.splits)

lemma applies_native:
  assumes "ve_Tier e \<noteq> TierLiveVerified"
  shows "verificationApplies lib Accept e x policy replay now = (sound lib x policy now e, replay)"
  using assms by (simp add: verificationApplies_def documentApplies_sound)

section \<open>Selection\<close>

text \<open>The evidence that applies, in order, and the guard after it.\<close>

fun applied ::
  "golib \<Rightarrow> ('g \<Rightarrow> string \<Rightarrow> string \<Rightarrow> bool \<times> 'g) \<Rightarrow> VerificationExpectation \<Rightarrow> VerificationPolicy \<Rightarrow> gotime \<Rightarrow>
     'g option \<Rightarrow> VerificationEvidence list \<Rightarrow> VerificationEvidence list \<times> 'g option" where
  "applied lib Accept x policy now replay [] = ([], replay)"
| "applied lib Accept x policy now replay (e # es) =
     (case verificationApplies lib Accept e x policy replay now of
        (ok, replay') \<Rightarrow>
          (case applied lib Accept x policy now replay' es of
             (rest, replay'') \<Rightarrow> ((if ok then [e] else []) @ rest, replay'')))"

abbreviation isLive :: "VerificationEvidence \<Rightarrow> bool" where
  "isLive e \<equiv> ve_Tier e = TierLiveVerified"

abbreviation projects :: "VerificationEvidence \<Rightarrow> VerificationProjection" where
  "projects e \<equiv> \<lparr>pj_Tier = ve_Tier e, pj_EvidenceID = ve_EvidenceID e\<rparr>"

definition select :: "VerificationProjection \<Rightarrow> VerificationEvidence list \<Rightarrow> VerificationProjection" where
  "select p es =
     (if \<exists>e \<in> set es. isLive e then projects (last (filter isLive es))
      else if pj_Tier p = TierUnverified \<and> es \<noteq> [] then projects (hd es) else p)"

lemma sound_tier: "sound lib x policy now e \<Longrightarrow> ve_Tier e \<noteq> TierUnverified"
proof
  assume "sound lib x policy now e" "ve_Tier e = TierUnverified"
  then show False
    by (auto simp: sound_def Verification_Validate_def Verification_validateFields_def split: sum.splits option.splits)
qed

lemma evaluateLoop_selects:
  "evaluateLoop lib Accept x policy now p replay es =
     (select p (fst (applied lib Accept x policy now replay es)), snd (applied lib Accept x policy now replay es))"
proof (induction es arbitrary: p replay)
  case Nil
  then show ?case by (simp add: select_def)
next
  case (Cons e es)
  obtain ok replay' where v: "verificationApplies lib Accept e x policy replay now = (ok, replay')" by fastforce
  obtain rest replay'' where r: "applied lib Accept x policy now replay' es = (rest, replay'')" by fastforce
  show ?case
  proof (cases ok)
    case True
    then have "ve_Tier e \<noteq> TierUnverified" using v applies_sound sound_tier by metis
    then show ?thesis using True by (auto simp: v r Cons.IH select_def filter_empty_conv)
  next
    case False
    then show ?thesis by (simp add: v r Cons.IH)
  qed
qed

lemma applied_subset: "set (fst (applied lib Accept x policy now replay es)) \<subseteq> set es"
proof (induction es arbitrary: replay)
  case (Cons e es)
  from Cons.IH [of "snd (verificationApplies lib Accept e x policy replay now)"] show ?case by (auto simp: case_prod_beta)
qed simp

lemma map_le_Some: "m \<subseteq>\<^sub>m m' \<Longrightarrow> m k = Some v \<Longrightarrow> m' k = Some v"
  by (metis domI map_le_def)

lemma applied_sound:
  "e \<in> set (fst (applied lib Accept x policy now replay es)) \<Longrightarrow>
     sound lib x policy now e \<and>
     (isLive e \<longrightarrow> (\<exists>a r. ve_LiveAuthorization e = Some a \<and> ve_LiveReceipt e = Some r \<and> soundRun lib x policy now a r))"
proof (induction es arbitrary: replay)
  case (Cons d es)
  obtain ok replay' where v: "verificationApplies lib Accept d x policy replay now = (ok, replay')" by fastforce
  obtain rest replay'' where r: "applied lib Accept x policy now replay' es = (rest, replay'')" by fastforce
  from Cons.prems consider "ok" "e = d" | "e \<in> set rest" by (auto simp: v r split: if_splits)
  then show ?case
  proof cases
    case 1
    then have "sound lib x policy now e" using v applies_sound by metis
    then show ?thesis using 1 v by (auto elim: applies_live)
  next
    case 2
    then show ?thesis using Cons.IH [of replay'] by (simp add: r)
  qed
qed simp

lemma select_live:
  assumes "pj_Tier (select \<lparr>pj_Tier = TierUnverified, pj_EvidenceID = []\<rparr> es) = TierLiveVerified"
  obtains e where "e \<in> set es" "isLive e" "select \<lparr>pj_Tier = TierUnverified, pj_EvidenceID = []\<rparr> es = projects e"
proof (cases "\<exists>e \<in> set es. isLive e")
  case True
  then have "last (filter isLive es) \<in> set (filter isLive es)" by (intro last_in_set) (auto simp: filter_empty_conv)
  then show thesis using that [of "last (filter isLive es)"] True by (simp add: select_def)
next
  case False
  then show thesis using assms by (auto simp: select_def hd_in_set split: if_splits)
qed

section \<open>The contract of a replay guard\<close>

text \<open>
  \<open>VerificationReplayGuard.Accept\<close> binds a nonce to the first evidence that presents it, accepts that
  evidence again, and refuses any other. The repository's implementation is the \<open>verificationReplaySet\<close>
  of the protocol tests, a map from nonces to evidence identifiers.
\<close>

locale replay_guard =
  fixes Accept :: "'g \<Rightarrow> string \<Rightarrow> string \<Rightarrow> bool \<times> 'g" and bound :: "'g \<Rightarrow> string \<rightharpoonup> string"
  assumes Accept_iff: "fst (Accept g n i) \<longleftrightarrow> bound g n = None \<or> bound g n = Some i"
    and Accept_binds: "bound (snd (Accept g n i)) = (if bound g n = None then (bound g)(n \<mapsto> i) else bound g)"
begin

lemma Accept_mono: "bound g \<subseteq>\<^sub>m bound (snd (Accept g n i))"
  by (auto simp: Accept_binds map_le_def)

lemma Accept_bound: "fst (Accept g n i) \<Longrightarrow> bound (snd (Accept g n i)) n = Some i"
  by (auto simp: Accept_iff Accept_binds)

lemma applies_mono:
  assumes "verificationApplies lib Accept e x policy (Some g) now = (ok, replay')"
  obtains g' where "replay' = Some g'" "bound g \<subseteq>\<^sub>m bound g'" "ok \<Longrightarrow> isLive e \<Longrightarrow> bound g' (vx_RunNonce x) = Some (ve_EvidenceID e)"
proof (cases "isLive e")
  case True
  then show thesis using assms
  proof (cases rule: applies_live)
    case refused
    then show thesis using that [of g] by simp
  next
    case (asked guard a r)
    then show thesis using that [of "snd (Accept g (vx_RunNonce x) (ve_EvidenceID e))"] Accept_mono Accept_bound by auto
  qed
next
  case False
  then show thesis using assms that [of g] by (simp add: applies_native)
qed

text \<open>All live evidence that applies in one evaluation is bound to the run that the caller expects.\<close>

lemma applied_bound:
  assumes "applied lib Accept x policy now (Some g) es = (ds, replay')"
  shows "\<exists>g'. replay' = Some g' \<and> bound g \<subseteq>\<^sub>m bound g' \<and>
    (\<forall>d \<in> set ds. isLive d \<longrightarrow> bound g' (vx_RunNonce x) = Some (ve_EvidenceID d))"
  using assms
proof (induction es arbitrary: g ds)
  case (Cons e es)
  obtain ok replay1 where v: "verificationApplies lib Accept e x policy (Some g) now = (ok, replay1)" by fastforce
  obtain g1 where g1: "replay1 = Some g1" "bound g \<subseteq>\<^sub>m bound g1"
    "ok \<Longrightarrow> isLive e \<Longrightarrow> bound g1 (vx_RunNonce x) = Some (ve_EvidenceID e)" using applies_mono [OF v] by blast
  obtain rest where r: "applied lib Accept x policy now (Some g1) es = (rest, replay')" "ds = (if ok then [e] else []) @ rest"
    using Cons.prems by (auto simp: v g1(1) split: prod.splits)
  obtain g' where g': "replay' = Some g'" "bound g1 \<subseteq>\<^sub>m bound g'"
    "\<forall>d \<in> set rest. isLive d \<longrightarrow> bound g' (vx_RunNonce x) = Some (ve_EvidenceID d)" using Cons.IH [OF r(1)] by blast
  have "bound g' (vx_RunNonce x) = Some (ve_EvidenceID e)" if "ok" "isLive e"
    using g1(3) [OF that] g'(2) by (rule map_le_Some [rotated])
  then show ?case using g' r(2) map_le_trans [OF g1(2) g'(2)] by auto
qed auto

lemma evaluate_bound:
  assumes "EvaluateVerification lib Accept es x policy (Some g) now = (p, replay')"
  shows "\<exists>g'. replay' = Some g' \<and> bound g \<subseteq>\<^sub>m bound g' \<and>
    (pj_Tier p = TierLiveVerified \<longrightarrow> bound g' (vx_RunNonce x) = Some (pj_EvidenceID p))"
proof (cases "Expectation_Validate x \<noteq> nil \<or> vp_Trust policy = None \<or> vp_CurrentTrustEpoch policy = 0")
  case True
  then show ?thesis using assms by (auto simp: EvaluateVerification_def)
next
  case False
  obtain ds where d: "applied lib Accept x policy now (Some g) es = (ds, replay')"
    "p = select \<lparr>pj_Tier = TierUnverified, pj_EvidenceID = []\<rparr> ds"
    using assms False by (auto simp: EvaluateVerification_def evaluateLoop_selects split: if_splits) (metis prod.collapse)
  then show ?thesis using applied_bound [OF d(1)] by (metis select_live VerificationProjection.select_convs(2))
qed

end

definition replaySet_Accept :: "(string \<times> string) list \<Rightarrow> string \<Rightarrow> string \<Rightarrow> bool \<times> (string \<times> string) list" where
  "replaySet_Accept seen runNonce evidenceID =
     (case map_of seen runNonce of
        None \<Rightarrow> (True, (runNonce, evidenceID) # seen)
      | Some prior \<Rightarrow> (prior = evidenceID, seen))"

interpretation replaySet: replay_guard replaySet_Accept map_of
  by unfold_locales (auto simp: replaySet_Accept_def split: option.splits)

text \<open>A sequence of evaluations against one guard, each with its own evidence, expectation, policy and clock.\<close>

fun evaluations ::
  "golib \<Rightarrow> ('g \<Rightarrow> string \<Rightarrow> string \<Rightarrow> bool \<times> 'g) \<Rightarrow> 'g option \<Rightarrow>
     (VerificationEvidence list \<times> VerificationExpectation \<times> VerificationPolicy \<times> gotime) list \<Rightarrow>
     (VerificationExpectation \<times> VerificationProjection) list" where
  "evaluations lib Accept replay [] = []"
| "evaluations lib Accept replay ((es, x, policy, now) # calls) =
     (case EvaluateVerification lib Accept es x policy replay now of
        (p, replay') \<Rightarrow> (x, p) # evaluations lib Accept replay' calls)"

context replay_guard
begin

lemma evaluations_bound:
  "\<exists>b. bound g \<subseteq>\<^sub>m b \<and> (\<forall>(x, p) \<in> set (evaluations lib Accept (Some g) calls).
     pj_Tier p = TierLiveVerified \<longrightarrow> b (vx_RunNonce x) = Some (pj_EvidenceID p))"
proof (induction calls arbitrary: g)
  case Nil
  then show ?case by (intro exI [of _ "bound g"]) simp
next
  case (Cons call calls)
  obtain es x policy now where c: "call = (es, x, policy, now)" by (cases call)
  obtain p replay' where e: "EvaluateVerification lib Accept es x policy (Some g) now = (p, replay')" by fastforce
  obtain g' where g': "replay' = Some g'" "bound g \<subseteq>\<^sub>m bound g'"
    "pj_Tier p = TierLiveVerified \<longrightarrow> bound g' (vx_RunNonce x) = Some (pj_EvidenceID p)" using evaluate_bound [OF e] by blast
  obtain b where b: "bound g' \<subseteq>\<^sub>m b" "\<forall>(y, q) \<in> set (evaluations lib Accept (Some g') calls).
     pj_Tier q = TierLiveVerified \<longrightarrow> b (vx_RunNonce y) = Some (pj_EvidenceID q)" using Cons.IH by blast
  have "pj_Tier p = TierLiveVerified \<longrightarrow> b (vx_RunNonce x) = Some (pj_EvidenceID p)"
    using g'(3) map_le_Some [OF b(1)] by blast
  then show ?case using b g' map_le_trans [OF g'(2) b(1)] by (intro exI [of _ b]) (auto simp: c e)
qed

end

section \<open>Properties\<close>

text \<open>
  C26: The live tier is never projected without a complete chain: when \<open>EvaluateVerification\<close> answers
  \<open>live_verified\<close>, some given evidence with the projected identifier is valid, passed, current, in its
  window, about the expected subject, neither revoked nor superseded, and signed for live verification;
  its authorization is for exactly the expected run, in its window and signed; and its receipt matches
  that authorization and is signed by the expected gateway under the expected key.
\<close>

theorem EvaluateVerification_live_sound:
  assumes "EvaluateVerification lib Accept es x policy replay now = (p, replay')" "pj_Tier p = TierLiveVerified"
  shows "\<exists>e \<in> set es. \<exists>a r. ve_EvidenceID e = pj_EvidenceID p \<and> isLive e \<and> sound lib x policy now e \<and>
    ve_LiveAuthorization e = Some a \<and> ve_LiveReceipt e = Some r \<and> soundRun lib x policy now a r"
proof -
  let ?ds = "fst (applied lib Accept x policy now replay es)"
  have "p = select \<lparr>pj_Tier = TierUnverified, pj_EvidenceID = []\<rparr> ?ds"
    using assms by (auto simp: EvaluateVerification_def evaluateLoop_selects Let_def split: if_splits)
  then obtain e where e: "e \<in> set ?ds" "isLive e" "p = projects e" using assms(2) select_live by metis
  moreover have "e \<in> set es" using e(1) applied_subset by blast
  ultimately show ?thesis using applied_sound [OF e(1)] by auto
qed

text \<open>
  C21: The evaluation selects the strongest evidence: among the evidence that applies, in order, it
  projects the last live document if there is one, otherwise the first, and \<open>unverified\<close> exactly when
  none applies or the expectation or the policy is unusable; native evidence applies exactly when it is
  sound, whatever the guard.
\<close>

theorem EvaluateVerification_selects:
  "fst (EvaluateVerification lib Accept es x policy replay now) =
     (if Expectation_Validate x \<noteq> nil \<or> vp_Trust policy = None \<or> vp_CurrentTrustEpoch policy = 0
      then \<lparr>pj_Tier = TierUnverified, pj_EvidenceID = []\<rparr>
      else (let ds = fst (applied lib Accept x policy now replay es) in
            if ds = [] then \<lparr>pj_Tier = TierUnverified, pj_EvidenceID = []\<rparr>
            else projects (if filter isLive ds = [] then hd ds else last (filter isLive ds)))) \<and>
   filter (\<lambda>e. \<not> isLive e) (fst (applied lib Accept x policy now replay es)) =
     filter (\<lambda>e. \<not> isLive e \<and> sound lib x policy now e) es"
proof
  show "fst (EvaluateVerification lib Accept es x policy replay now) =
     (if Expectation_Validate x \<noteq> nil \<or> vp_Trust policy = None \<or> vp_CurrentTrustEpoch policy = 0
      then \<lparr>pj_Tier = TierUnverified, pj_EvidenceID = []\<rparr>
      else (let ds = fst (applied lib Accept x policy now replay es) in
            if ds = [] then \<lparr>pj_Tier = TierUnverified, pj_EvidenceID = []\<rparr>
            else projects (if filter isLive ds = [] then hd ds else last (filter isLive ds))))"
    by (auto simp: EvaluateVerification_def evaluateLoop_selects select_def Let_def filter_empty_conv)
  show "filter (\<lambda>e. \<not> isLive e) (fst (applied lib Accept x policy now replay es)) =
     filter (\<lambda>e. \<not> isLive e \<and> sound lib x policy now e) es"
  proof (induction es arbitrary: replay)
    case (Cons e es)
    show ?case
    proof (cases "isLive e")
      case True
      then show ?thesis using Cons.IH by (simp add: case_prod_beta)
    next
      case False
      then show ?thesis using Cons.IH by (simp add: case_prod_beta applies_native)
    qed
  qed simp
qed

text \<open>
  One live run backs one evidence document: over any sequence of evaluations against one replay
  guard, with whatever evidence, policies and clocks, two live projections for the same run nonce name
  the same evidence.
\<close>

theorem one_run_one_evidence:
  assumes "(x, p) \<in> set (evaluations lib replaySet_Accept (Some seen) calls)"
    "(y, q) \<in> set (evaluations lib replaySet_Accept (Some seen) calls)"
    "pj_Tier p = TierLiveVerified" "pj_Tier q = TierLiveVerified" "vx_RunNonce x = vx_RunNonce y"
  shows "pj_EvidenceID p = pj_EvidenceID q"
proof -
  obtain b where b: "\<forall>(x, p) \<in> set (evaluations lib replaySet_Accept (Some seen) calls).
      pj_Tier p = TierLiveVerified \<longrightarrow> b (vx_RunNonce x) = Some (pj_EvidenceID p)"
    using replaySet.evaluations_bound by blast
  have "b (vx_RunNonce x) = Some (pj_EvidenceID p)" "b (vx_RunNonce y) = Some (pj_EvidenceID q)"
    using bspec [OF b assms(1)] bspec [OF b assms(2)] assms(3,4) by auto
  then show ?thesis using assms(5) by simp
qed

section \<open>A live run\<close>

definition liveSignature :: "string \<Rightarrow> string \<Rightarrow> Signature" where
  "liveSignature purpose issuer =
     \<lparr>sig_Algorithm = SignatureEd25519, sig_Purpose = purpose, sig_Issuer = issuer, sig_KeyID = ''key-1'',
      sig_Value = b64RawURLEncode (replicate 64 (CHR ''s''))\<rparr>"

definition liveSubject :: VerificationSubject where
  "liveSubject =
     (let artifact = \<lparr>ai_ID = ''prov'', ai_Version = ''1'', ai_Digest = sampleDigest\<rparr> in
      \<lparr>vs_Provider = artifact, vs_NativeArtifact = artifact, vs_Platform = \<lparr>pf_OS = ''linux'', pf_Architecture = ''amd64''\<rparr>,
       vs_Capabilities = [''runtime.create_session''], vs_Cases = [''case-1''], vs_SuiteVersion = ''1'', vs_SuiteDigest = sampleDigest,
       vs_ConfigurationDigest = sampleDigest, vs_DataModes = [''full'']\<rparr>)"

definition liveAuthorization :: LiveVerificationAuthorization where
  "liveAuthorization =
     \<lparr>la_ProtocolVersion = ProtocolVersion, la_AuthorizationID = ''auth-1'', la_Subject = liveSubject, la_TenantID = ''tenant-1'',
      la_GatewayID = ''gw-1'', la_GatewayKeyID = ''key-1'', la_CorrelationID = ''corr-1'', la_RunNonce = ''nonce-0123456789-abcdef'',
      la_BudgetReference = ''budget:1'', la_CredentialReference = ''cred:1'', la_IssuedAt = sampleTime 10,
      la_ExpiresAt = sampleTime 20, la_TrustEpoch = 1, la_Signature = liveSignature PurposeLiveRunAuthorization ''mission''\<rparr>"

definition liveReceipt :: LiveVerificationReceipt where
  "liveReceipt =
     \<lparr>lr_ProtocolVersion = ProtocolVersion, lr_ReceiptID = ''receipt-1'', lr_AuthorizationID = ''auth-1'', lr_Subject = liveSubject,
      lr_TenantID = ''tenant-1'', lr_GatewayID = ''gw-1'', lr_CorrelationID = ''corr-1'', lr_RunNonce = ''nonce-0123456789-abcdef'',
      lr_BudgetReference = ''budget:1'', lr_CredentialReference = ''cred:1'', lr_Result = VerificationPassed,
      lr_Usage = Some \<lparr>us_InputTokens = 1, us_OutputTokens = 2, us_CostMicrounits = 0\<rparr>, lr_AuditEventID = ''audit-1'',
      lr_IssuedAt = sampleTime 12, lr_Signature = liveSignature PurposeLiveRunReceipt ''gw-1''\<rparr>"

definition liveEvidence :: VerificationEvidence where
  "liveEvidence =
     \<lparr>ve_ProtocolVersion = ProtocolVersion, ve_EvidenceID = ''ev-1'', ve_Tier = TierLiveVerified, ve_Subject = liveSubject,
      ve_Result = VerificationPassed, ve_Reference = ''run:1'', ve_IssuedAt = sampleTime 13, ve_ExpiresAt = sampleTime 30,
      ve_TrustEpoch = 1, ve_LiveAuthorization = Some liveAuthorization, ve_LiveReceipt = Some liveReceipt,
      ve_Signature = liveSignature PurposeLiveVerification ''mission''\<rparr>"

definition liveExpectation :: VerificationExpectation where
  "liveExpectation =
     \<lparr>vx_Subject = liveSubject, vx_TenantID = ''tenant-1'', vx_GatewayID = ''gw-1'', vx_GatewayKeyID = ''key-1'',
      vx_CorrelationID = ''corr-1'', vx_AuthorizationID = ''auth-1'', vx_RunNonce = ''nonce-0123456789-abcdef'',
      vx_BudgetReference = ''budget:1'', vx_CredentialReference = ''cred:1''\<rparr>"

definition livePolicy :: VerificationPolicy where
  "livePolicy =
     \<lparr>vp_Trust = sampleTrust 32, vp_CurrentTrustEpoch = 1, vp_RevokedEvidenceIDs = [''ev-0''], vp_SupersededEvidenceIDs = []\<rparr>"

lemma live_subject: "Subject_Validate liveSubject = nil"
  by code_simp

lemma live_subjects:
  "la_Subject liveAuthorization = liveSubject" "lr_Subject liveReceipt = liveSubject" "ve_Subject liveEvidence = liveSubject"
  "vx_Subject liveExpectation = liveSubject"
  by (simp_all add: liveAuthorization_def liveReceipt_def liveEvidence_def liveExpectation_def)

lemma live_signatures:
  "Signature_validate (la_Signature liveAuthorization) PurposeLiveRunAuthorization = nil"
  "Signature_validate (lr_Signature liveReceipt) PurposeLiveRunReceipt = nil"
  "Signature_validate (ve_Signature liveEvidence) PurposeLiveVerification = nil"
  by code_simp+

lemma live_fields:
  "Authorization_validateFields liveAuthorization = nil" "Receipt_validateFields liveReceipt = nil"
proof -
  have "validateProtocol ProtocolVersion = nil" "validateNonce ''nonce-0123456789-abcdef'' = nil"
    "validateSignedReference ''budget_reference'' ''budget:1'' = nil" "validateSignedReference ''credential_reference'' ''cred:1'' = nil"
    "validateEvidenceTimes (sampleTime 10) (sampleTime 20) = nil" "validateTime ''issued_at'' (sampleTime 12) = nil"
    "validateIDs [(''authorization_id'', ''auth-1''), (''tenant_id'', ''tenant-1''), (''gateway_id'', ''gw-1''),
       (''gateway_key_id'', ''key-1''), (''correlation_id'', ''corr-1'')] = nil"
    "validateIDs [(''receipt_id'', ''receipt-1''), (''authorization_id'', ''auth-1''), (''tenant_id'', ''tenant-1''),
       (''gateway_id'', ''gw-1''), (''correlation_id'', ''corr-1''), (''audit_event_id'', ''audit-1'')] = nil"
    by code_simp+
  note checks = this
  show "Authorization_validateFields liveAuthorization = nil"
    unfolding Authorization_validateFields_def liveAuthorization_def LiveVerificationAuthorization.simps checks live_subject by simp
  show "Receipt_validateFields liveReceipt = nil"
    unfolding Receipt_validateFields_def liveReceipt_def LiveVerificationReceipt.simps checks live_subject by simp
qed

lemma live_match:
  "liveAuthorizationMatchesExpectation liveAuthorization liveExpectation"
  "liveReceiptMatchesAuthorization liveReceipt liveAuthorization"
  "liveComponentsMatch liveEvidence liveAuthorization liveReceipt"
  unfolding liveAuthorizationMatchesExpectation_def liveReceiptMatchesAuthorization_def liveComponentsMatch_def
    live_subjects equalVerificationSubject_iff
  by (simp_all add: liveAuthorization_def liveReceipt_def liveEvidence_def liveExpectation_def liveSignature_def)

lemma live_parts:
  "ve_Tier liveEvidence = TierLiveVerified" "ve_LiveAuthorization liveEvidence = Some liveAuthorization"
  "ve_LiveReceipt liveEvidence = Some liveReceipt" "ve_Result liveEvidence = VerificationPassed"
  "ve_EvidenceID liveEvidence = ''ev-1''" "ve_TrustEpoch liveEvidence = vp_CurrentTrustEpoch livePolicy"
  "''ev-1'' \<notin> set (vp_RevokedEvidenceIDs livePolicy)"
  "''ev-1'' \<notin> set (vp_SupersededEvidenceIDs livePolicy)"
  "lr_RunNonce liveReceipt = ''nonce-0123456789-abcdef''" "sig_Issuer (lr_Signature liveReceipt) = lr_GatewayID liveReceipt"
  by (simp_all add: liveEvidence_def liveReceipt_def livePolicy_def liveSignature_def)

lemma live_times:
  "t_instant (ve_IssuedAt liveEvidence) = 13" "t_instant (ve_ExpiresAt liveEvidence) = 30"
  "t_instant (la_IssuedAt liveAuthorization) = 10" "t_instant (la_ExpiresAt liveAuthorization) = 20"
  "t_instant (lr_IssuedAt liveReceipt) = 12" "t_instant (sampleTime 15) = 15"
  by (simp_all add: liveEvidence_def liveReceipt_def liveAuthorization_def sampleTime_def)

lemma live_evidence: "Verification_validateFields liveEvidence = Inr PurposeLiveVerification"
proof -
  have "liveRecordsErr liveEvidence = nil"
    using live_fields live_signatures live_match
    by (simp add: liveRecordsErr_def Authorization_Validate_def Receipt_Validate_def live_parts live_times time_Before_def)
  moreover have "validateProtocol (ve_ProtocolVersion liveEvidence) = nil" "validateID ''evidence_id'' (ve_EvidenceID liveEvidence) = nil"
    "validateSignedReference ''evidence reference'' (ve_Reference liveEvidence) = nil"
    "validateEvidenceTimes (ve_IssuedAt liveEvidence) (ve_ExpiresAt liveEvidence) = nil" "ve_TrustEpoch liveEvidence \<noteq> 0"
    by code_simp+
  ultimately show ?thesis
    by (simp add: validateFields_Inr live_subjects live_subject live_parts(1,4) signaturePurposeForTier_def)
qed

text \<open>The sample library verifies by the signature value alone, so only the existence of the signing bytes matters.\<close>

lemma sample_signedBy:
  assumes "Signature_validate s p = nil" "sig_Value s = b64RawURLEncode (replicate 64 (CHR ''s''))" "\<exists>bytes. payload = Inr bytes"
  shows "signedBy sampleLib s p (sampleTrust 32) payload"
proof -
  have "b64RawURLDecode (sig_Value s) = Some (replicate 64 (CHR ''s''))" using assms(2) by (simp add: b64RawURL_roundtrip)
  then show ?thesis using assms(1,3) by (auto simp: signedBy_iff sampleTrust_def sampleLib_def)
qed

lemma signingPreimage_bytes:
  assumes "validateSafeASCII ''signature purpose'' p 1 128 = nil" "map_option (\<lambda>d. jbound d \<le> 100000) doc = Some True"
  shows "\<exists>bytes. signingPreimage p doc = Inr bytes"
proof -
  obtain d where d: "doc = Some d" "length (jprint d) \<le> 100000" using assms(2) jprint_length order_trans by (cases doc) auto
  have "length p \<le> 128" using assms(1) by (simp add: validateSafeASCII_nil)
  moreover have "length signingDomainPrefix \<le> 100" by code_simp
  ultimately have "checkedAllocationSize [int (length signingDomainPrefix), int (length p), 1, int (length (jprint d))] =
      Inr (int (length signingDomainPrefix) + int (length p) + 1 + int (length (jprint d)))"
    using d(2) by (simp add: maxInt_def)
  then show ?thesis using assms(1) d(1) by (simp add: signingPreimage_def)
qed

text \<open>The canonical documents, without the outer signature value.\<close>

lemma live_bytes:
  "\<exists>bytes. Authorization_SigningBytes sampleLib liveAuthorization = Inr bytes"
  "\<exists>bytes. Receipt_SigningBytes sampleLib liveReceipt = Inr bytes"
  "\<exists>bytes. Verification_SigningBytes sampleLib liveEvidence = Inr bytes"
proof -
  have meta: "Signature_validateMetadata (la_Signature liveAuthorization) PurposeLiveRunAuthorization = nil"
    "Signature_validateMetadata (lr_Signature liveReceipt) PurposeLiveRunReceipt = nil"
    "Signature_validateMetadata (ve_Signature liveEvidence) PurposeLiveVerification = nil"
    using live_signatures by (simp_all add: Signature_validate_def)
  have p: "validateSafeASCII ''signature purpose'' PurposeLiveRunAuthorization 1 128 = nil"
    "validateSafeASCII ''signature purpose'' PurposeLiveRunReceipt 1 128 = nil"
    "validateSafeASCII ''signature purpose'' PurposeLiveVerification 1 128 = nil" by code_simp+
  let ?a = "liveAuthorization\<lparr>la_Subject := canonicalVerificationSubject liveSubject, la_Signature := (la_Signature liveAuthorization)\<lparr>sig_Value := []\<rparr>\<rparr>"
  let ?r = "liveReceipt\<lparr>lr_Subject := canonicalVerificationSubject liveSubject, lr_Signature := (lr_Signature liveReceipt)\<lparr>sig_Value := []\<rparr>\<rparr>"
  let ?c = "canonicalVerificationEvidence liveEvidence"
  let ?e = "?c\<lparr>ve_Signature := (ve_Signature ?c)\<lparr>sig_Value := []\<rparr>\<rparr>"
  have len: "map_option (\<lambda>d. jbound d \<le> 100000) (authorizationJSON sampleLib ?a) = Some True"
    "map_option (\<lambda>d. jbound d \<le> 100000) (receiptJSON sampleLib ?r) = Some True"
    "map_option (\<lambda>d. jbound d \<le> 100000) (verificationJSON sampleLib ?e) = Some True"
    by code_simp+
  show "\<exists>bytes. Authorization_SigningBytes sampleLib liveAuthorization = Inr bytes"
    using signingPreimage_bytes [OF p(1) len(1)] live_fields(1) meta(1)
    by (simp add: Authorization_SigningBytes_def live_subjects)
  show "\<exists>bytes. Receipt_SigningBytes sampleLib liveReceipt = Inr bytes"
    using signingPreimage_bytes [OF p(2) len(2)] live_fields(2) meta(2)
    by (simp add: Receipt_SigningBytes_def live_subjects)
  show "\<exists>bytes. Verification_SigningBytes sampleLib liveEvidence = Inr bytes"
    using signingPreimage_bytes [OF p(3) len(3)] live_evidence meta(3)
    by (simp add: Verification_SigningBytes_def Let_def)
qed

lemma live_evaluates:
  "EvaluateVerification sampleLib replaySet_Accept [liveEvidence] liveExpectation livePolicy (Some []) (sampleTime 15) =
     (\<lparr>pj_Tier = TierLiveVerified, pj_EvidenceID = ''ev-1''\<rparr>, Some [(''nonce-0123456789-abcdef'', ''ev-1'')])"
proof -
  have vals: "sig_Value (la_Signature liveAuthorization) = b64RawURLEncode (replicate 64 (CHR ''s''))"
    "sig_Value (lr_Signature liveReceipt) = b64RawURLEncode (replicate 64 (CHR ''s''))"
    "sig_Value (ve_Signature liveEvidence) = b64RawURLEncode (replicate 64 (CHR ''s''))"
    "vp_Trust livePolicy = sampleTrust 32"
    by (simp_all add: liveAuthorization_def liveReceipt_def liveEvidence_def livePolicy_def liveSignature_def)
  have "sound sampleLib liveExpectation livePolicy (sampleTime 15) liveEvidence"
    using live_evidence live_signatures(3) sample_signedBy [OF live_signatures(3) vals(3) live_bytes(3)]
    by (simp add: sound_def Verification_Validate_def live_parts live_times live_subjects vals(4) signaturePurposeForTier_def)
  moreover have "runApplies sampleLib liveAuthorization liveReceipt liveExpectation livePolicy (sampleTime 15)"
    using live_match sample_signedBy [OF live_signatures(1) vals(1) live_bytes(1)] sample_signedBy [OF live_signatures(2) vals(2) live_bytes(2)]
    by (simp add: runApplies_def live_parts live_times time_Before_def vals(4))
  moreover have "hasLiveScope liveExpectation" by (simp add: hasLiveScope_def liveExpectation_def)
  ultimately have applies: "verificationApplies sampleLib replaySet_Accept liveEvidence liveExpectation livePolicy (Some []) (sampleTime 15) =
      (True, Some [(''nonce-0123456789-abcdef'', ''ev-1'')])"
    by (simp add: verificationApplies_def documentApplies_sound live_parts replaySet_Accept_def)
  have "validateIDs [(''tenant_id'', ''tenant-1''), (''gateway_id'', ''gw-1''), (''gateway_key_id'', ''key-1''),
       (''correlation_id'', ''corr-1''), (''authorization_id'', ''auth-1'')] = nil"
    "validateNonce ''nonce-0123456789-abcdef'' = nil"
    "validateSignedReference ''budget_reference'' ''budget:1'' = nil" "validateSignedReference ''credential_reference'' ''cred:1'' = nil"
    by code_simp+
  note checks = this
  have "Expectation_Validate liveExpectation = nil"
    unfolding Expectation_Validate_def live_subjects live_subject option.case liveExpectation_def VerificationExpectation.simps checks
    by simp
  moreover have "vp_Trust livePolicy \<noteq> None" "vp_CurrentTrustEpoch livePolicy \<noteq> 0" by (simp_all add: livePolicy_def sampleTrust_def)
  ultimately show ?thesis by (auto simp: EvaluateVerification_def Let_def applies live_parts)
qed

theorem EvaluateVerification_live_sound_witness:
  "\<exists>e \<in> set [liveEvidence]. ve_EvidenceID e = ''ev-1'' \<and> sound sampleLib liveExpectation livePolicy (sampleTime 15) e"
  using EvaluateVerification_live_sound [OF live_evaluates] by auto

theorem one_run_one_evidence_witness:
  "\<exists>x p. (x, p) \<in> set (evaluations sampleLib replaySet_Accept (Some [])
       [([liveEvidence], liveExpectation, livePolicy, sampleTime 15)]) \<and>
     pj_Tier p = TierLiveVerified \<and> pj_EvidenceID p = ''ev-1'' \<and>
     (\<forall>q. (x, q) \<in> set (evaluations sampleLib replaySet_Accept (Some [])
         [([liveEvidence], liveExpectation, livePolicy, sampleTime 15)]) \<and> pj_Tier q = TierLiveVerified \<longrightarrow> pj_EvidenceID q = ''ev-1'')"
proof -
  let ?p = "\<lparr>pj_Tier = TierLiveVerified, pj_EvidenceID = ''ev-1''\<rparr>"
  have m: "(liveExpectation, ?p) \<in> set (evaluations sampleLib replaySet_Accept (Some [])
      [([liveEvidence], liveExpectation, livePolicy, sampleTime 15)])"
    by (simp add: live_evaluates)
  show ?thesis
    by (rule exI [of _ liveExpectation], rule exI [of _ ?p])
      (use m one_run_one_evidence [OF _ m] in auto)
qed

end
