(* ===== verification/Proto_Manifest.thy ===== *)
theory Proto_Manifest
  imports Proto_Session
begin

text \<open>
  \<open>protocol/manifest.go\<close> and \<open>protocol/command.go\<close>: provider manifests, the initialization offer and
  its answer, commands and their results. The lemmas show that an accepted manifest agrees with the
  core catalog, that an accepted answer is a selection from the offer, and what an accepted command
  may be dispatched to.
\<close>

section \<open>Manifests\<close>

abbreviation MaxTerminalChunkBytes :: nat where
  "MaxTerminalChunkBytes \<equiv> 262144"

record ProviderManifest =
  m_ProtocolVersion :: string
  m_ID :: string
  m_Roles :: "string list"
  m_Name :: string
  m_Version :: string
  m_Executable :: string
  m_Platforms :: "Platform list"
  m_Capabilities :: "CapabilityDescriptor list"
  m_InteractionModes :: "string list"
  m_Permissions :: "string list"
  m_ConfigurationSchema :: string
  m_Extensions :: extensions

definition validateTokenSet :: "string \<Rightarrow> string list \<Rightarrow> nat \<Rightarrow> verr" where
  "validateTokenSet field values maximum =
     first_err
      [if length values > maximum then errorf (field @ '' contains too many values'') else nil,
       each_unique (validateToken field) id (field @ '' contains a duplicate'') values]"

text \<open>The loops over roles and capabilities, which the manifest and the capability result share.\<close>

definition validateRoles :: "string list \<Rightarrow> verr" where
  "validateRoles roles =
     first_err
      [if length roles = 0 \<or> length roles > 4 then errorf ''provider roles are required'' else nil,
       each_unique Role_validateConcern id ''provider role is duplicated'' roles]"

definition validateAdvertised :: "string list \<Rightarrow> CapabilityDescriptor \<Rightarrow> verr" where
  "validateAdvertised roles c =
     first_err
      [Descriptor_Validate c,
       if cap_Role c \<noteq> RoleProvider \<and> cap_Role c \<notin> set roles
         then errorf ''capability role is not one of the provider roles'' else nil,
       case Capability (cap_Name c) of
         None \<Rightarrow> nil
       | Some known \<Rightarrow> if \<not> equalCapabilityDefinition c known
                      then errorf ''known capability metadata does not match the protocol definition''
                      else nil]"

definition ProviderManifest_Validate :: "ProviderManifest \<Rightarrow> verr" where
  "ProviderManifest_Validate m =
     first_err
      [validateProtocol (m_ProtocolVersion m),
       validateID ''id'' (m_ID m),
       validateRoles (m_Roles m),
       validateText ''name'' (m_Name m) 256,
       validateVersion ''version'' (m_Version m),
       validateExecutable (m_Executable m),
       if length (m_Platforms m) = 0 \<or> length (m_Platforms m) > 32
         then errorf ''platforms are required'' else nil,
       each_unique Platform_Validate id ''platform is duplicated'' (m_Platforms m),
       if length (m_Capabilities m) = 0 \<or> length (m_Capabilities m) > 256
         then errorf ''capabilities are required'' else nil,
       each_unique (validateAdvertised (m_Roles m)) cap_Name ''capability is duplicated'' (m_Capabilities m),
       if length (m_InteractionModes m) = 0 \<or> length (m_InteractionModes m) > 32
         then errorf ''interaction modes are required'' else nil,
       validateTokenSet ''interaction_modes'' (m_InteractionModes m) 32,
       if length (m_Permissions m) > 64 then errorf ''too many permissions'' else nil,
       validateTokenSet ''permissions'' (m_Permissions m) 64,
       validateLocalSchemaRef (m_ConfigurationSchema m),
       rejectReservedExtensions (m_Extensions m),
       validateExtensions (m_Extensions m)]"

definition Manifest_Supports :: "ProviderManifest \<Rightarrow> string \<Rightarrow> bool" where
  "Manifest_Supports m name \<longleftrightarrow> list_ex (\<lambda>c. cap_Name c = name) (m_Capabilities m)"

definition Manifest_Capability :: "ProviderManifest \<Rightarrow> string \<Rightarrow> CapabilityDescriptor option" where
  "Manifest_Capability m name = find (\<lambda>c. cap_Name c = name) (m_Capabilities m)"

section \<open>Initialization\<close>

record ProviderInitializeRequest =
  rq_SupportedProtocolVersions :: "string list"
  rq_GatewayVersion :: string
  rq_Platform :: Platform
  rq_RequiredCapabilities :: "string list"
  rq_MaximumMessageBytes :: uint64
  rq_MaximumChunkBytes :: uint64
  rq_ReplaySupported :: bool
  rq_AuthenticationModes :: "string list"
  rq_ExperimentalFeatures :: "string list"

definition validateSizes :: "uint64 \<Rightarrow> uint64 \<Rightarrow> verr" where
  "validateSizes messageBytes chunkBytes =
     first_err
      [if messageBytes = 0 \<or> messageBytes > of_nat MaxMessageBytes
         then errorf ''maximum message size is invalid'' else nil,
       if chunkBytes = 0 \<or> chunkBytes > of_nat MaxTerminalChunkBytes
         then errorf ''maximum chunk size is invalid'' else nil,
       if chunkBytes > messageBytes then errorf ''maximum chunk size exceeds the message size'' else nil]"

definition InitializeRequest_Validate :: "ProviderInitializeRequest \<Rightarrow> verr" where
  "InitializeRequest_Validate r =
     first_err
      [if length (rq_SupportedProtocolVersions r) = 0 \<or> length (rq_SupportedProtocolVersions r) > 8
         then errorf ''supported protocol versions are invalid'' else nil,
       validateUniqueStrings ''supported_protocol_versions'' (rq_SupportedProtocolVersions r),
       each_err (validateVersion ''supported protocol version'') (rq_SupportedProtocolVersions r),
       validateVersion ''gateway_version'' (rq_GatewayVersion r),
       Platform_Validate (rq_Platform r),
       if length (rq_RequiredCapabilities r) > 256 then errorf ''too many required capabilities'' else nil,
       each_unique (\<lambda>c. if \<not> validCapabilityName c then errorf ''required capability is invalid'' else nil)
         id ''required capability is duplicated'' (rq_RequiredCapabilities r),
       validateSizes (rq_MaximumMessageBytes r) (rq_MaximumChunkBytes r),
       if length (rq_AuthenticationModes r) = 0 then errorf ''authentication modes are required'' else nil,
       validateTokenSet ''authentication_modes'' (rq_AuthenticationModes r) 16,
       validateTokenSet ''experimental_features'' (rq_ExperimentalFeatures r) 64]"

record ProviderInitializeResult =
  rs_ProtocolVersion :: string
  rs_Manifest :: ProviderManifest
  rs_NativeRuntimeVersion :: string
  rs_MaximumMessageBytes :: uint64
  rs_MaximumChunkBytes :: uint64
  rs_ReplaySupported :: bool
  rs_AuthenticationMode :: string
  rs_ExperimentalFeatures :: "string list"

definition InitializeResult_Validate :: "ProviderInitializeResult \<Rightarrow> verr" where
  "InitializeResult_Validate r =
     first_err
      [validateProtocol (rs_ProtocolVersion r),
       ProviderManifest_Validate (rs_Manifest r),
       if rs_NativeRuntimeVersion r \<noteq> []
         then validateVersion ''native_runtime_version'' (rs_NativeRuntimeVersion r) else nil,
       validateSizes (rs_MaximumMessageBytes r) (rs_MaximumChunkBytes r),
       validateToken ''authentication_mode'' (rs_AuthenticationMode r),
       validateTokenSet ''experimental_features'' (rs_ExperimentalFeatures r) 64]"

definition wrapf :: "string \<Rightarrow> verr \<Rightarrow> verr" where
  "wrapf msg err = map_option (Wrapped msg) err"

definition ValidateProviderNegotiation ::
  "ProviderInitializeRequest \<Rightarrow> ProviderInitializeResult \<Rightarrow> verr" where
  "ValidateProviderNegotiation request result =
     first_err
      [wrapf ''provider initialization request is invalid'' (InitializeRequest_Validate request),
       wrapf ''provider initialization result is invalid'' (InitializeResult_Validate result),
       if rs_ProtocolVersion result \<notin> set (rq_SupportedProtocolVersions request)
         then errorf ''provider selected an unsupported protocol version'' else nil,
       if \<not> list_ex (\<lambda>p. p = rq_Platform request) (m_Platforms (rs_Manifest result))
         then errorf ''provider does not support the gateway platform'' else nil,
       each_err (\<lambda>c. if \<not> Manifest_Supports (rs_Manifest result) c
           then errorf ''provider does not support a required capability'' else nil)
         (rq_RequiredCapabilities request),
       if rs_MaximumMessageBytes result > rq_MaximumMessageBytes request
          \<or> rs_MaximumChunkBytes result > rq_MaximumChunkBytes request
         then errorf ''provider selected a limit above the gateway offer'' else nil,
       if rs_ReplaySupported result \<and> \<not> rq_ReplaySupported request
         then errorf ''provider selected unsupported replay behavior'' else nil,
       if rs_AuthenticationMode result \<notin> set (rq_AuthenticationModes request)
         then errorf ''provider selected an unsupported authentication mode'' else nil,
       each_err (\<lambda>f. if f \<notin> set (rq_ExperimentalFeatures request)
           then errorf ''provider selected an unoffered experimental feature'' else nil)
         (rs_ExperimentalFeatures result)]"

section \<open>Health and capability results\<close>

record ProviderHealthResult =
  hr_ProviderID :: string
  hr_Health :: StateReport

definition ProviderHealthResult_Validate :: "ProviderHealthResult \<Rightarrow> verr" where
  "ProviderHealthResult_Validate r =
     first_err [validateID ''provider_id'' (hr_ProviderID r), StateReport_validate (hr_Health r) AxisHealth]"

record ProviderCapabilitiesResult =
  cr_ProviderID :: string
  cr_Roles :: "string list"
  cr_Capabilities :: "CapabilityDescriptor list"

definition ProviderCapabilitiesResult_Validate :: "ProviderCapabilitiesResult \<Rightarrow> verr" where
  "ProviderCapabilitiesResult_Validate r =
     first_err
      [validateID ''provider_id'' (cr_ProviderID r),
       validateRoles (cr_Roles r),
       if length (cr_Capabilities r) = 0 \<or> length (cr_Capabilities r) > 256
         then errorf ''provider capabilities are required'' else nil,
       each_unique (validateAdvertised (cr_Roles r)) cap_Name ''capability is duplicated'' (cr_Capabilities r)]"

section \<open>Commands\<close>

record Command =
  c_ProtocolVersion :: string
  c_CommandID :: string
  c_SessionID :: string
  c_Capability :: string
  c_IdempotencyKey :: string
  c_CancellationToken :: string
  c_Deadline :: gotime
  c_DeliveryClass :: string
  c_Payload :: string

definition commandRequiresSession :: "string \<Rightarrow> bool" where
  "commandRequiresSession capability \<longleftrightarrow>
     list_ex (hasPrefix capability)
       [''runtime.'', ''terminal.'', ''harness.'', ''agent.'', ''context.'', ''approval.'', ''artifact.'']"

definition Command_Validate :: "Command \<Rightarrow> verr" where
  "Command_Validate c =
     first_err
      [validateProtocol (c_ProtocolVersion c),
       validateID ''command_id'' (c_CommandID c),
       if \<not> validCapabilityName (c_Capability c) then errorf ''command capability is invalid'' else nil,
       if commandRequiresSession (c_Capability c) \<and> c_SessionID c = []
         then errorf ''session_id is required for the command capability'' else nil,
       if c_SessionID c \<noteq> [] then validateID ''session_id'' (c_SessionID c) else nil,
       validateTextRange ''idempotency_key'' (c_IdempotencyKey c) 16 256,
       validateTextRange ''cancellation_token'' (c_CancellationToken c) 16 256,
       validateTime ''deadline'' (c_Deadline c),
       if \<not> validDeliveryClass (c_DeliveryClass c)
         then errorf ''command delivery class is unsupported'' else nil,
       case Capability (c_Capability c) of
         None \<Rightarrow> nil
       | Some known \<Rightarrow>
           if \<not> cap_Mutating known
           then errorf ''read-only capability cannot be dispatched as a command''
           else if c_DeliveryClass c \<noteq> cap_DeliveryClass known
           then errorf ''command delivery class does not match the capability'' else nil,
       if c_Payload c = [] \<or> \<not> json_Valid (c_Payload c)
         then errorf ''command payload is invalid'' else nil]"

definition manifestCapabilityNames :: "ProviderManifest \<Rightarrow> string list" where
  "manifestCapabilityNames m = map cap_Name (m_Capabilities m)"

definition ValidateAgainstManifest :: "Command \<Rightarrow> ProviderManifest \<Rightarrow> verr" where
  "ValidateAgainstManifest c m =
     first_err
      [Command_Validate c,
       if ProviderManifest_Validate m \<noteq> nil then errorf ''provider manifest is invalid'' else nil,
       case Manifest_Capability m (c_Capability c) of
         None \<Rightarrow> Some (NotSupported (c_Capability c) (manifestCapabilityNames m))
       | Some d \<Rightarrow>
           if \<not> cap_Mutating d \<or> cap_DeliveryClass d \<noteq> c_DeliveryClass c
           then errorf ''command does not match the advertised capability delivery contract'' else nil]"

definition CommandGetResultRequest_Validate :: "string \<Rightarrow> verr" where
  "CommandGetResultRequest_Validate commandID = validateID ''command_id'' commandID"

abbreviation CommandResultPending :: string where "CommandResultPending \<equiv> ''pending''"
abbreviation CommandResultSucceeded :: string where "CommandResultSucceeded \<equiv> ''succeeded''"
abbreviation CommandResultFailed :: string where "CommandResultFailed \<equiv> ''failed''"
abbreviation CommandResultOutcomeUnknown :: string where "CommandResultOutcomeUnknown \<equiv> ''outcome_unknown''"

record CommandResult =
  cres_CommandID :: string
  cres_Status :: string
  cres_Result :: string
  cres_Error :: "Error option"
  cres_ObservedAt :: gotime

definition CommandResult_Validate :: "CommandResult \<Rightarrow> verr" where
  "CommandResult_Validate r =
     first_err
      [validateID ''command_id'' (cres_CommandID r),
       validateTime ''observed_at'' (cres_ObservedAt r),
       if cres_Status r \<in> {CommandResultPending, CommandResultOutcomeUnknown} then
         (if cres_Result r \<noteq> [] \<or> cres_Error r \<noteq> None
          then errorf ''unresolved command result cannot contain an outcome'' else nil)
       else if cres_Status r = CommandResultSucceeded then
         first_err
          [if cres_Result r = [] \<or> \<not> json_Valid (cres_Result r) \<or> cres_Error r \<noteq> None
             then errorf ''successful command result is invalid'' else nil,
           if rejectDuplicateKeys (cres_Result r) \<noteq> nil
             then errorf ''successful command result is ambiguous'' else nil]
       else if cres_Status r = CommandResultFailed then
         (case cres_Error r of
            None \<Rightarrow> errorf ''failed command result requires an error''
          | Some e \<Rightarrow> if cres_Result r \<noteq> [] then errorf ''failed command result requires an error''
                      else Error_Validate e)
       else errorf ''command result status is unsupported'']"

definition CommandDigest :: "(string \<Rightarrow> string) \<Rightarrow> string \<Rightarrow> go_error + string" where
  "CommandDigest sha256 data =
     (if data = [] \<or> length data > MaxMessageBytes \<or> \<not> json_Valid data then Inl invalidArgument
      else if rejectDuplicateKeys data \<noteq> nil then Inl invalidArgument
      else Inr (''sha256:'' @ hexEncode (sha256 data)))"

section \<open>When they are accepted\<close>

lemma wrapf_nil [simp]: "wrapf msg e = nil \<longleftrightarrow> e = nil"
  by (simp add: wrapf_def)

lemma validateSizes_nil [accepted]:
  "validateSizes a b = nil \<longleftrightarrow>
     0 < unat b \<and> unat b \<le> unat a \<and> unat a \<le> MaxMessageBytes \<and> unat b \<le> MaxTerminalChunkBytes"
proof -
  have "validateSizes a b = nil \<longleftrightarrow>
      a \<noteq> 0 \<and> a \<le> of_nat MaxMessageBytes \<and> b \<noteq> 0 \<and> b \<le> of_nat MaxTerminalChunkBytes \<and> b \<le> a"
    by (auto simp: validateSizes_def not_less)
  also have "\<dots> \<longleftrightarrow> 0 < unat b \<and> unat b \<le> unat a \<and> unat a \<le> MaxMessageBytes \<and> unat b \<le> MaxTerminalChunkBytes"
    by (auto simp: word_pos_iff word_le_nat_alt)
  finally show ?thesis .
qed

lemma Manifest_Capability_Some:
  "distinct (map cap_Name (m_Capabilities m)) \<Longrightarrow>
     Manifest_Capability m name = Some d \<longleftrightarrow> d \<in> set (m_Capabilities m) \<and> cap_Name d = name"
proof
  assume "Manifest_Capability m name = Some d"
  then show "d \<in> set (m_Capabilities m) \<and> cap_Name d = name"
    by (auto simp: Manifest_Capability_def find_Some_iff)
next
  assume dist: "distinct (map cap_Name (m_Capabilities m))" and d: "d \<in> set (m_Capabilities m) \<and> cap_Name d = name"
  then obtain e where e: "Manifest_Capability m name = Some e"
    by (cases "Manifest_Capability m name") (auto simp: Manifest_Capability_def find_None_iff)
  then have "e \<in> set (m_Capabilities m)" "cap_Name e = name"
    by (auto simp: Manifest_Capability_def find_Some_iff)
  with d dist have "e = d" by (auto simp: distinct_map inj_on_def)
  with e show "Manifest_Capability m name = Some d" by simp
qed

lemma Manifest_Supports_iff: "Manifest_Supports m name \<longleftrightarrow> Manifest_Capability m name \<noteq> None"
  by (auto simp: Manifest_Supports_def Manifest_Capability_def find_None_iff list_ex_iff)

lemma validateAdvertised_nil [accepted]:
  "validateAdvertised roles c = nil \<longleftrightarrow>
     Descriptor_Validate c = nil \<and> (cap_Role c = RoleProvider \<or> cap_Role c \<in> set roles) \<and>
     (\<forall>k. Capability (cap_Name c) = Some k \<longrightarrow> equalCapabilityDefinition c k)"
  by (cases "Capability (cap_Name c)") (auto simp: validateAdvertised_def)

lemma manifest_facts:
  assumes "ProviderManifest_Validate m = nil"
  shows "distinct (map cap_Name (m_Capabilities m))" "length (m_Capabilities m) \<le> 256"
    "\<And>c. c \<in> set (m_Capabilities m) \<Longrightarrow> validateAdvertised (m_Roles m) c = nil"
    "rejectReservedExtensions (m_Extensions m) = nil" "validateRoles (m_Roles m) = nil"
  using assms by (auto simp: ProviderManifest_Validate_def each_unique_nil)

section \<open>Properties\<close>

text \<open>
  C39: A manifest that passes \<open>Validate\<close> cannot redefine a core capability: looking up any name
  finds at most one entry, and for a core name that entry is the catalog's descriptor up to the
  \<open>Required\<close> flag; its role is the neutral one or one of the manifest's concerns, and the neutral
  role is never a concern.
\<close>

theorem manifest_respects_catalog:
  assumes "ProviderManifest_Validate m = nil" "Manifest_Capability m name = Some d"
  shows "cap_Name d = name \<and> Descriptor_Validate d = nil \<and>
         (cap_Role d = RoleProvider \<or> cap_Role d \<in> set (m_Roles m)) \<and> RoleProvider \<notin> set (m_Roles m) \<and>
         (\<forall>known. Capability name = Some known \<longrightarrow> d\<lparr>cap_Required := cap_Required known\<rparr> = known)"
proof -
  have d: "d \<in> set (m_Capabilities m)" "cap_Name d = name"
    using assms Manifest_Capability_Some manifest_facts(1) by blast+
  have "RoleProvider \<notin> set (m_Roles m)"
    using manifest_facts(5) [OF assms(1)] by (auto simp: validateRoles_def each_unique_nil Role_validateConcern_def)
  then show ?thesis using manifest_facts(3) [OF assms(1) d(1)] d(2)
    by (auto simp: validateAdvertised_nil equalCapabilityDefinition_iff)
qed

definition sampleManifest :: ProviderManifest where
  "sampleManifest =
     \<lparr>m_ProtocolVersion = ProtocolVersion, m_ID = ''prov-1'', m_Roles = [RoleSessionRuntime], m_Name = ''p'',
      m_Version = ''1'', m_Executable = ''edge'', m_Platforms = [\<lparr>pf_OS = ''linux'', pf_Architecture = ''amd64''\<rparr>],
      m_Capabilities = [readonly_cap ''provider.health'' RoleProvider,
        mutating_cap ''runtime.create_session'' RoleSessionRuntime DeliveryStateReconciled],
      m_InteractionModes = [''stdio''], m_Permissions = [], m_ConfigurationSchema = ''schema.json'', m_Extensions = []\<rparr>"

definition sampleCommand :: Command where
  "sampleCommand =
     \<lparr>c_ProtocolVersion = ProtocolVersion, c_CommandID = ''cmd-1'', c_SessionID = ''session-1'',
      c_Capability = ''runtime.create_session'', c_IdempotencyKey = ''idempotency-key-1'',
      c_CancellationToken = ''cancellation-token'', c_Deadline = sampleTime 99,
      c_DeliveryClass = DeliveryStateReconciled, c_Payload = ''{}''\<rparr>"

lemma sampleManifest_ok: "ProviderManifest_Validate sampleManifest = nil"
  by code_simp

theorem manifest_respects_catalog_witness:
  "cap_DeliveryClass (mutating_cap ''runtime.create_session'' RoleSessionRuntime DeliveryStateReconciled)
     = DeliveryStateReconciled \<and> RoleProvider \<notin> set (m_Roles sampleManifest)"
proof -
  have "Manifest_Capability sampleManifest ''runtime.create_session'' =
      Some (mutating_cap ''runtime.create_session'' RoleSessionRuntime DeliveryStateReconciled)"
    by code_simp
  from manifest_respects_catalog [OF sampleManifest_ok this] show ?thesis
    by (simp add: mutating_cap_def)
qed

text \<open>
  An accepted negotiation is a selection from the offer: the version, authentication mode and
  experimental features were offered, the platform and every required capability are in the
  manifest, replay is only selected when offered, and both limits are positive, within the offer and
  within the protocol's hard limits, with the chunk inside the message.
\<close>

theorem negotiation_selects_from_offer:
  assumes "ValidateProviderNegotiation q r = nil"
  shows "rs_ProtocolVersion r = ProtocolVersion \<and> rs_ProtocolVersion r \<in> set (rq_SupportedProtocolVersions q) \<and>
         rq_Platform q \<in> set (m_Platforms (rs_Manifest r)) \<and>
         set (rq_RequiredCapabilities q) \<subseteq> cap_Name ` set (m_Capabilities (rs_Manifest r)) \<and>
         rs_AuthenticationMode r \<in> set (rq_AuthenticationModes q) \<and>
         set (rs_ExperimentalFeatures r) \<subseteq> set (rq_ExperimentalFeatures q) \<and>
         (rs_ReplaySupported r \<longrightarrow> rq_ReplaySupported q) \<and>
         0 < unat (rs_MaximumChunkBytes r) \<and> unat (rs_MaximumChunkBytes r) \<le> unat (rs_MaximumMessageBytes r) \<and>
         unat (rs_MaximumMessageBytes r) \<le> unat (rq_MaximumMessageBytes q) \<and>
         unat (rq_MaximumMessageBytes q) \<le> MaxMessageBytes \<and>
         unat (rs_MaximumChunkBytes r) \<le> unat (rq_MaximumChunkBytes q) \<and>
         unat (rq_MaximumChunkBytes q) \<le> MaxTerminalChunkBytes"
proof -
  have sizes: "validateSizes (rq_MaximumMessageBytes q) (rq_MaximumChunkBytes q) = nil"
    "validateSizes (rs_MaximumMessageBytes r) (rs_MaximumChunkBytes r) = nil"
    "rs_ProtocolVersion r = ProtocolVersion"
    using assms by (auto simp: ValidateProviderNegotiation_def InitializeRequest_Validate_def
        InitializeResult_Validate_def validateProtocol_nil)
  have limits: "unat (rs_MaximumMessageBytes r) \<le> unat (rq_MaximumMessageBytes q)"
    "unat (rs_MaximumChunkBytes r) \<le> unat (rq_MaximumChunkBytes q)"
    using assms by (auto simp: ValidateProviderNegotiation_def word_le_nat_alt [symmetric] not_less)
  have caps: "set (rq_RequiredCapabilities q) \<subseteq> cap_Name ` set (m_Capabilities (rs_Manifest r))"
    "set (rs_ExperimentalFeatures r) \<subseteq> set (rq_ExperimentalFeatures q)"
    using assms by (auto simp: ValidateProviderNegotiation_def each_err_nil Manifest_Supports_def list_ex_iff)
  have "rs_ProtocolVersion r \<in> set (rq_SupportedProtocolVersions q)"
    "rq_Platform q \<in> set (m_Platforms (rs_Manifest r))" "rs_AuthenticationMode r \<in> set (rq_AuthenticationModes q)"
    "rs_ReplaySupported r \<longrightarrow> rq_ReplaySupported q"
    using assms by (auto simp: ValidateProviderNegotiation_def list_ex_iff)
  then show ?thesis using sizes limits caps by (simp add: validateSizes_nil)
qed

definition sampleOffer :: ProviderInitializeRequest where
  "sampleOffer =
     \<lparr>rq_SupportedProtocolVersions = [ProtocolVersion], rq_GatewayVersion = ''1.2'',
      rq_Platform = \<lparr>pf_OS = ''linux'', pf_Architecture = ''amd64''\<rparr>,
      rq_RequiredCapabilities = [''provider.health''], rq_MaximumMessageBytes = 65536,
      rq_MaximumChunkBytes = 4096, rq_ReplaySupported = True, rq_AuthenticationModes = [''none''],
      rq_ExperimentalFeatures = []\<rparr>"

definition sampleAnswer :: ProviderInitializeResult where
  "sampleAnswer =
     \<lparr>rs_ProtocolVersion = ProtocolVersion, rs_Manifest = sampleManifest, rs_NativeRuntimeVersion = [],
      rs_MaximumMessageBytes = 65536, rs_MaximumChunkBytes = 1024, rs_ReplaySupported = False,
      rs_AuthenticationMode = ''none'', rs_ExperimentalFeatures = []\<rparr>"

theorem negotiation_selects_from_offer_witness:
  "unat (rs_MaximumChunkBytes sampleAnswer) \<le> unat (rq_MaximumChunkBytes sampleOffer) \<and>
   rs_AuthenticationMode sampleAnswer \<in> set (rq_AuthenticationModes sampleOffer)"
proof -
  have "ValidateProviderNegotiation sampleOffer sampleAnswer = nil" by code_simp
  from negotiation_selects_from_offer [OF this] show ?thesis by blast
qed

text \<open>
  C38: A command accepted against a manifest targets an advertised mutating capability with its
  exact delivery class, and for a core capability that class is the catalog's. A valid command whose
  capability is not advertised is answered with a not_supported error that itself passes
  \<open>Error.Validate\<close> and lists exactly the advertised names.
\<close>

theorem ValidateAgainstManifest_contract:
  "(ValidateAgainstManifest c m = nil \<longrightarrow>
      (\<exists>d \<in> set (m_Capabilities m). cap_Name d = c_Capability c \<and> cap_Mutating d \<and>
         cap_DeliveryClass d = c_DeliveryClass c \<and>
         (\<forall>known. Capability (c_Capability c) = Some known \<longrightarrow>
            cap_Mutating known \<and> cap_DeliveryClass known = c_DeliveryClass c))) \<and>
   (Command_Validate c = nil \<and> ProviderManifest_Validate m = nil \<and>
      c_Capability c \<notin> cap_Name ` set (m_Capabilities m) \<longrightarrow>
      (\<exists>e. ValidateAgainstManifest c m = Some (Structured e) \<and> Error_Validate e = nil \<and>
         err_RequiredCapability e = c_Capability c \<and>
         err_AdvertisedCapabilities e = map cap_Name (m_Capabilities m)))"
proof (intro conjI impI)
  assume a: "ValidateAgainstManifest c m = nil"
  then have v: "Command_Validate c = nil" "ProviderManifest_Validate m = nil"
    by (auto simp: ValidateAgainstManifest_def split: if_splits)
  from a obtain d where d: "Manifest_Capability m (c_Capability c) = Some d" "cap_Mutating d"
    "cap_DeliveryClass d = c_DeliveryClass c"
    by (auto simp: ValidateAgainstManifest_def split: option.splits if_splits)
  have "cap_Mutating known \<and> cap_DeliveryClass known = c_DeliveryClass c"
    if "Capability (c_Capability c) = Some known" for known
    using v(1) that by (auto simp: Command_Validate_def)
  moreover have "d \<in> set (m_Capabilities m)" "cap_Name d = c_Capability c"
    using d(1) Manifest_Capability_Some manifest_facts(1) [OF v(2)] by blast+
  ultimately show "\<exists>d \<in> set (m_Capabilities m). cap_Name d = c_Capability c \<and> cap_Mutating d \<and>
         cap_DeliveryClass d = c_DeliveryClass c \<and>
         (\<forall>known. Capability (c_Capability c) = Some known \<longrightarrow>
            cap_Mutating known \<and> cap_DeliveryClass known = c_DeliveryClass c)"
    using d(2,3) by blast
next
  assume a: "Command_Validate c = nil \<and> ProviderManifest_Validate m = nil \<and>
      c_Capability c \<notin> cap_Name ` set (m_Capabilities m)"
  then have "Manifest_Capability m (c_Capability c) = None"
    by (force simp: Manifest_Capability_def find_None_iff)
  with a have r: "ValidateAgainstManifest c m =
      Some (NotSupported (c_Capability c) (map cap_Name (m_Capabilities m)))"
    by (simp add: ValidateAgainstManifest_def manifestCapabilityNames_def)
  have "validCapabilityName (c_Capability c)" using a by (auto simp: Command_Validate_def)
  moreover have "validCapabilityName (cap_Name d)" if "d \<in> set (m_Capabilities m)" for d
    using manifest_facts(3) [OF conjunct1 [OF conjunct2 [OF a]] that]
    by (simp add: validateAdvertised_nil Descriptor_Validate_nil)
  ultimately show "\<exists>e. ValidateAgainstManifest c m = Some (Structured e) \<and> Error_Validate e = nil \<and>
         err_RequiredCapability e = c_Capability c \<and>
         err_AdvertisedCapabilities e = map cap_Name (m_Capabilities m)"
    using r a manifest_facts(1,2) [of m]
    by (auto simp: NotSupported_def Error_Validate_def ErrorCode_Validate_def errorMessage_def
        canonicalErrorMessages_def each_unique_nil)
qed

theorem ValidateAgainstManifest_contract_witness:
  "\<exists>d \<in> set (m_Capabilities sampleManifest). cap_Name d = c_Capability sampleCommand \<and> cap_Mutating d"
proof -
  have "ValidateAgainstManifest sampleCommand sampleManifest = nil" by code_simp
  then show ?thesis using ValidateAgainstManifest_contract [of sampleCommand sampleManifest] by blast
qed

end
