(* ===== verification/Event_Sequence.thy ===== *)
theory Event_Sequence
  imports Proto_Validate
begin

text \<open>
  The \<open>SequenceTracker\<close> of \<open>protocol/event.go\<close>: per stream, the highest sequence and the cursor seen at
  each sequence, and an index by event identifier. Its specification is a log, the set of accepted
  cursors: \<open>observe_spec\<close> decides a cursor against the log, and \<open>Observe_refines\<close> shows that the two
  tables implement the log. The contract the clients rely on is the locale \<open>event_log\<close>.
\<close>

section \<open>State and operation\<close>

record EventCursor =
  ec_ProviderID :: string
  ec_Role :: string
  ec_StreamID :: string
  ec_EventID :: string
  ec_Sequence :: uint64
  ec_Digest :: string

datatype SequenceOutcome = SequenceAccepted | SequenceDuplicate | SequenceGap

type_synonym eventStreamKey = "string \<times> string \<times> string"
type_synonym eventIDKey = "eventStreamKey \<times> string"

record sequenceStream =
  ss_highest :: uint64
  ss_seen :: "uint64 \<rightharpoonup> EventCursor"

record SequenceTracker =
  tr_streams :: "eventStreamKey \<rightharpoonup> sequenceStream"
  tr_eventIDs :: "eventIDKey \<rightharpoonup> EventCursor"

definition NewSequenceTracker :: SequenceTracker where
  "NewSequenceTracker = \<lparr>tr_streams = Map.empty, tr_eventIDs = Map.empty\<rparr>"

definition streamKey :: "EventCursor \<Rightarrow> eventStreamKey" where
  "streamKey c = (ec_ProviderID c, ec_Role c, ec_StreamID c)"

definition cursorValid :: "EventCursor \<Rightarrow> bool" where
  "cursorValid c \<longleftrightarrow>
     validateID ''provider_id'' (ec_ProviderID c) = nil \<and> Role_Validate (ec_Role c) = nil \<and>
     validateID ''stream_id'' (ec_StreamID c) = nil \<and> validateID ''event_id'' (ec_EventID c) = nil \<and>
     ec_Sequence c \<noteq> 0 \<and> Digest_Validate (ec_Digest c) = nil"

text \<open>
  \<open>Observe\<close> runs under the tracker's mutex, so it is one atomic step. Every field of the cursor that
  fails gives the same error. The stream record that Go allocates before the second lookup is only
  reachable by later calls through \<open>t.streams\<close>, where an empty one behaves like an absent one.
\<close>

definition Observe :: "SequenceTracker \<Rightarrow> EventCursor \<Rightarrow> (go_error + SequenceOutcome) \<times> SequenceTracker" where
  "Observe t cursor =
     (if \<not> cursorValid cursor then (Inl (protocolError CodeInvalidArgument), t)
      else
        let key = streamKey cursor; idKey = (key, ec_EventID cursor) in
        case tr_eventIDs t idKey of
          Some prior \<Rightarrow>
            if prior = cursor then (Inr SequenceDuplicate, t) else (Inl (protocolError CodeSequenceConflict), t)
        | None \<Rightarrow>
            let stream = (case tr_streams t key of Some s \<Rightarrow> s | None \<Rightarrow> \<lparr>ss_highest = 0, ss_seen = Map.empty\<rparr>);
                t1 = t\<lparr>tr_streams := (tr_streams t)(key \<mapsto> stream)\<rparr> in
            case ss_seen stream (ec_Sequence cursor) of
              Some prior \<Rightarrow>
                if ec_EventID prior = ec_EventID cursor \<and> ec_Digest prior = ec_Digest cursor
                then (Inr SequenceDuplicate, t1)
                else (Inl (protocolError CodeSequenceConflict), t1)
            | None \<Rightarrow>
                let result = (if ss_highest stream \<noteq> 0 \<and> ec_Sequence cursor > ss_highest stream + 1
                              then SequenceGap else SequenceAccepted);
                    stream' = \<lparr>ss_highest = (if ec_Sequence cursor > ss_highest stream
                                             then ec_Sequence cursor else ss_highest stream),
                               ss_seen = (ss_seen stream)(ec_Sequence cursor \<mapsto> cursor)\<rparr>
                in (Inr result,
                    \<lparr>tr_streams = (tr_streams t)(key \<mapsto> stream'),
                     tr_eventIDs = (tr_eventIDs t)(idKey \<mapsto> cursor)\<rparr>))"

section \<open>The log\<close>

definition logOf :: "SequenceTracker \<Rightarrow> EventCursor set" where
  "logOf t = ran (tr_eventIDs t)"

definition onStream :: "EventCursor set \<Rightarrow> EventCursor \<Rightarrow> EventCursor set" where
  "onStream L c = {d \<in> L. streamKey d = streamKey c}"

text \<open>A cursor leaves a gap when its stream has events and it skips past the successor of the last.\<close>

definition leavesGap :: "EventCursor set \<Rightarrow> EventCursor \<Rightarrow> bool" where
  "leavesGap L c \<longleftrightarrow> onStream L c \<noteq> {} \<and>
     (\<forall>d \<in> onStream L c. unat (ec_Sequence d) + 1 < unat (ec_Sequence c))"

definition conflicts :: "EventCursor set \<Rightarrow> EventCursor \<Rightarrow> bool" where
  "conflicts L c \<longleftrightarrow>
     (\<exists>d \<in> onStream L c. ec_EventID d = ec_EventID c \<or> ec_Sequence d = ec_Sequence c)"

definition observe_spec :: "EventCursor set \<Rightarrow> EventCursor \<Rightarrow> (go_error + SequenceOutcome) \<times> EventCursor set" where
  "observe_spec L c =
     (if \<not> cursorValid c then (Inl (protocolError CodeInvalidArgument), L)
      else if c \<in> L then (Inr SequenceDuplicate, L)
      else if conflicts L c then (Inl (protocolError CodeSequenceConflict), L)
      else (Inr (if leavesGap L c then SequenceGap else SequenceAccepted), insert c L))"

section \<open>Invariant\<close>

definition streamOf :: "SequenceTracker \<Rightarrow> eventStreamKey \<Rightarrow> sequenceStream" where
  "streamOf t k = (case tr_streams t k of Some s \<Rightarrow> s | None \<Rightarrow> \<lparr>ss_highest = 0, ss_seen = Map.empty\<rparr>)"

text \<open>
  Both tables hold the same cursors, each filed under its own stream, sequence and identifier, and
  \<open>highest\<close> is the largest sequence of the stream, zero when it is empty.
\<close>

definition tracker_inv :: "SequenceTracker \<Rightarrow> bool" where
  "tracker_inv t \<longleftrightarrow>
     (\<forall>k i c. tr_eventIDs t (k, i) = Some c \<longrightarrow>
        streamKey c = k \<and> ec_EventID c = i \<and> ss_seen (streamOf t k) (ec_Sequence c) = Some c \<and> cursorValid c) \<and>
     (\<forall>k q c. ss_seen (streamOf t k) q = Some c \<longrightarrow>
        ec_Sequence c = q \<and> streamKey c = k \<and> tr_eventIDs t (k, ec_EventID c) = Some c \<and>
        q \<le> ss_highest (streamOf t k)) \<and>
     (\<forall>k. ss_highest (streamOf t k) \<noteq> 0 \<longrightarrow> ss_seen (streamOf t k) (ss_highest (streamOf t k)) \<noteq> None)"

lemma tracker_inv_new: "tracker_inv NewSequenceTracker"
  by (simp add: tracker_inv_def NewSequenceTracker_def streamOf_def)

lemma log_new [simp]: "logOf NewSequenceTracker = {}"
  by (simp add: logOf_def NewSequenceTracker_def)

lemma log_iff:
  assumes "tracker_inv t"
  shows "c \<in> logOf t \<longleftrightarrow> tr_eventIDs t (streamKey c, ec_EventID c) = Some c"
proof
  assume "c \<in> logOf t"
  then obtain k i where "tr_eventIDs t (k, i) = Some c" by (auto simp: logOf_def ran_def)
  then show "tr_eventIDs t (streamKey c, ec_EventID c) = Some c"
    using assms unfolding tracker_inv_def by blast
qed (auto simp: logOf_def intro: ranI)

lemma log_seen:
  assumes "tracker_inv t"
  shows "c \<in> logOf t \<longleftrightarrow> ss_seen (streamOf t (streamKey c)) (ec_Sequence c) = Some c"
  using assms unfolding log_iff [OF assms] tracker_inv_def by blast

lemma eventIDs_Some:
  assumes "tracker_inv t" "tr_eventIDs t (k, i) = Some c"
  shows "c \<in> logOf t" "streamKey c = k" "ec_EventID c = i"
  using assms unfolding tracker_inv_def logOf_def by (blast intro: ranI)+

lemma seen_Some:
  assumes "tracker_inv t" "ss_seen (streamOf t k) q = Some c"
  shows "c \<in> logOf t" "streamKey c = k" "ec_Sequence c = q"
proof -
  show "streamKey c = k" "ec_Sequence c = q" using assms unfolding tracker_inv_def by blast+
  then show "c \<in> logOf t" using assms by (simp add: log_seen)
qed

lemma log_valid: "tracker_inv t \<Longrightarrow> c \<in> logOf t \<Longrightarrow> cursorValid c"
  using log_iff unfolding tracker_inv_def by blast

text \<open>Sequence and identifier each determine a cursor of the log within its stream.\<close>

lemma log_unique:
  assumes "tracker_inv t" "c \<in> logOf t" "d \<in> logOf t" "streamKey c = streamKey d"
    "ec_EventID c = ec_EventID d \<or> ec_Sequence c = ec_Sequence d"
  shows "c = d"
  using assms log_iff [OF assms(1)] log_seen [OF assms(1)] by (metis option.inject)

section \<open>Gaps\<close>

text \<open>
  The comparison with \<open>highest + 1\<close> is exact as long as the stream has not reached the last 64-bit
  sequence number, where the addition wraps to zero.
\<close>

lemma highest_max:
  assumes "tracker_inv t"
  shows "ss_highest (streamOf t k) \<noteq> 0 \<Longrightarrow> \<exists>d \<in> logOf t. streamKey d = k \<and> ec_Sequence d = ss_highest (streamOf t k)"
    and "d \<in> logOf t \<Longrightarrow> streamKey d = k \<Longrightarrow> ec_Sequence d \<le> ss_highest (streamOf t k) \<and> ec_Sequence d \<noteq> 0"
proof -
  show "\<exists>d \<in> logOf t. streamKey d = k \<and> ec_Sequence d = ss_highest (streamOf t k)"
    if h: "ss_highest (streamOf t k) \<noteq> 0"
  proof -
    obtain c where "ss_seen (streamOf t k) (ss_highest (streamOf t k)) = Some c"
      using assms h unfolding tracker_inv_def by blast
    then show ?thesis using seen_Some [OF assms] by blast
  qed
  show "ec_Sequence d \<le> ss_highest (streamOf t k) \<and> ec_Sequence d \<noteq> 0" if "d \<in> logOf t" "streamKey d = k"
    using that assms log_seen [OF assms, of d] log_valid [OF assms, of d]
    unfolding tracker_inv_def cursorValid_def by blast
qed

lemma gap_iff:
  assumes "tracker_inv t" "ss_highest (streamOf t (streamKey c)) \<noteq> -1"
  shows "ss_highest (streamOf t (streamKey c)) \<noteq> 0 \<and> ec_Sequence c > ss_highest (streamOf t (streamKey c)) + 1
     \<longleftrightarrow> leavesGap (logOf t) c"
proof (cases "ss_highest (streamOf t (streamKey c)) = 0")
  case True
  have "onStream (logOf t) c = {}"
    using highest_max(2) [OF assms(1), of _ "streamKey c"] True by (force simp: onStream_def)
  then show ?thesis using True by (simp add: leavesGap_def)
next
  case False
  let ?h = "ss_highest (streamOf t (streamKey c))"
  obtain d where d: "d \<in> onStream (logOf t) c" "ec_Sequence d = ?h"
    using highest_max(1) [OF assms(1) False] by (auto simp: onStream_def)
  have le: "e \<in> onStream (logOf t) c \<Longrightarrow> unat (ec_Sequence e) \<le> unat ?h" for e
    using highest_max(2) [OF assms(1), of e "streamKey c"] by (auto simp: onStream_def word_le_nat_alt)
  have "?h + 1 \<noteq> 0" using assms(2) by (metis add.commute add_eq_0_iff)
  then have "unat (?h + 1) = unat ?h + 1" by (metis Suc_eq_plus1 add.commute unatSuc)
  then have "ec_Sequence c > ?h + 1 \<longleftrightarrow> unat ?h + 1 < unat (ec_Sequence c)" by (simp add: word_less_nat_alt)
  also have "\<dots> \<longleftrightarrow> leavesGap (logOf t) c" using d le unfolding leavesGap_def by fastforce
  finally show ?thesis using False by simp
qed

section \<open>The four ways an observation ends\<close>

definition accepting :: "SequenceTracker \<Rightarrow> EventCursor \<Rightarrow> SequenceTracker" where
  "accepting t c =
     \<lparr>tr_streams = (tr_streams t)(streamKey c \<mapsto>
        \<lparr>ss_highest = max (ec_Sequence c) (ss_highest (streamOf t (streamKey c))),
         ss_seen = (ss_seen (streamOf t (streamKey c)))(ec_Sequence c \<mapsto> c)\<rparr>),
      tr_eventIDs = (tr_eventIDs t)((streamKey c, ec_EventID c) \<mapsto> c)\<rparr>"

definition touching :: "SequenceTracker \<Rightarrow> EventCursor \<Rightarrow> SequenceTracker" where
  "touching t c = t\<lparr>tr_streams := (tr_streams t)(streamKey c \<mapsto> streamOf t (streamKey c))\<rparr>"

lemma streamOf_touching [simp]: "streamOf (touching t c) = streamOf t"
  by (auto simp: touching_def streamOf_def fun_eq_iff)

lemma touching_inv [simp]: "tracker_inv (touching t c) = tracker_inv t" "logOf (touching t c) = logOf t"
  by (simp_all add: tracker_inv_def logOf_def) (simp_all add: touching_def)

lemma if_less_max: "(if h < s then s else h) = max s (h :: uint64)"
  by (auto simp: max_def)

lemma Observe_cases:
  assumes "tracker_inv t"
  obtains (invalid) "\<not> cursorValid c" "Observe t c = (Inl (protocolError CodeInvalidArgument), t)"
    | (duplicate) "cursorValid c" "c \<in> logOf t" "Observe t c = (Inr SequenceDuplicate, t)"
    | (conflict) t' where "cursorValid c" "c \<notin> logOf t" "conflicts (logOf t) c"
        "Observe t c = (Inl (protocolError CodeSequenceConflict), t')" "t' = t \<or> t' = touching t c"
    | (accept) r where "cursorValid c" "c \<notin> logOf t" "\<not> conflicts (logOf t) c"
        "Observe t c = (Inr r, accepting t c)"
        "r = (if ss_highest (streamOf t (streamKey c)) \<noteq> 0 \<and> ec_Sequence c > ss_highest (streamOf t (streamKey c)) + 1
              then SequenceGap else SequenceAccepted)"
proof (cases "cursorValid c")
  case False
  then show thesis by (intro invalid) (simp_all add: Observe_def)
next
  case valid: True
  show thesis
  proof (cases "tr_eventIDs t (streamKey c, ec_EventID c)")
    case (Some prior)
    note p = eventIDs_Some [OF assms Some]
    show thesis
    proof (cases "prior = c")
      case True
      then show thesis using valid p Some by (intro duplicate) (simp_all add: Observe_def)
    next
      case False
      then have "c \<notin> logOf t" using log_iff [OF assms, of c] Some by simp
      moreover have "conflicts (logOf t) c" using p by (auto simp: conflicts_def onStream_def)
      ultimately show thesis using valid Some False by (intro conflict [of t]) (simp_all add: Observe_def)
    qed
  next
    case None
    then have new: "c \<notin> logOf t" by (simp add: log_iff [OF assms])
    have noid: "ec_EventID d \<noteq> ec_EventID c" if "d \<in> onStream (logOf t) c" for d
      using that None log_iff [OF assms, of d] by (auto simp: onStream_def)
    show thesis
    proof (cases "ss_seen (streamOf t (streamKey c)) (ec_Sequence c)")
      case (Some prior)
      note p = seen_Some [OF assms Some]
      then have "conflicts (logOf t) c" by (auto simp: conflicts_def onStream_def)
      moreover have "ec_EventID prior \<noteq> ec_EventID c" using p noid by (auto simp: onStream_def)
      ultimately show thesis using valid new None Some
        by (intro conflict [of "touching t c"]) (simp_all add: Observe_def streamOf_def touching_def Let_def)
    next
      case nosq: None
      have "\<not> conflicts (logOf t) c"
        using noid nosq log_seen [OF assms] by (auto simp: conflicts_def onStream_def)
      then show thesis using valid new None nosq
        by (intro accept) (simp_all add: Observe_def accepting_def streamOf_def Let_def if_less_max)
    qed
  qed
qed

lemma accepting_inv:
  assumes "tracker_inv t" "cursorValid c" "\<not> conflicts (logOf t) c"
  shows "tracker_inv (accepting t c)" "logOf (accepting t c) = insert c (logOf t)"
proof -
  have noid: "tr_eventIDs t (streamKey c, ec_EventID c) = None"
  proof (cases "tr_eventIDs t (streamKey c, ec_EventID c)")
    case (Some d)
    then show ?thesis using assms(3) eventIDs_Some [OF assms(1) Some] by (auto simp: conflicts_def onStream_def)
  qed simp
  have nosq: "ss_seen (streamOf t (streamKey c)) (ec_Sequence c) = None"
  proof (cases "ss_seen (streamOf t (streamKey c)) (ec_Sequence c)")
    case (Some d)
    then show ?thesis using assms(3) seen_Some [OF assms(1) Some] by (auto simp: conflicts_def onStream_def)
  qed simp
  have seen: "ss_seen (streamOf (accepting t c) k) q =
      (if k = streamKey c \<and> q = ec_Sequence c then Some c else ss_seen (streamOf t k) q)" for k q
    by (auto simp: accepting_def streamOf_def)
  have high: "ss_highest (streamOf (accepting t c) k) =
      (if k = streamKey c then max (ec_Sequence c) (ss_highest (streamOf t k)) else ss_highest (streamOf t k))" for k
    by (auto simp: accepting_def streamOf_def)
  have ids: "tr_eventIDs (accepting t c) = (tr_eventIDs t)((streamKey c, ec_EventID c) \<mapsto> c)"
    by (simp add: accepting_def)
  show "logOf (accepting t c) = insert c (logOf t)" unfolding logOf_def ids using noid by simp
  have i1: "streamKey d = k \<and> ec_EventID d = i \<and> ss_seen (streamOf t k) (ec_Sequence d) = Some d \<and> cursorValid d"
    if "tr_eventIDs t (k, i) = Some d" for k i d using assms(1) that unfolding tracker_inv_def by blast
  have i2: "ec_Sequence d = q \<and> streamKey d = k \<and> tr_eventIDs t (k, ec_EventID d) = Some d \<and> q \<le> ss_highest (streamOf t k)"
    if "ss_seen (streamOf t k) q = Some d" for k q d using assms(1) that unfolding tracker_inv_def by blast
  have i3: "ss_seen (streamOf t k) (ss_highest (streamOf t k)) \<noteq> None" if "ss_highest (streamOf t k) \<noteq> 0" for k
    using assms(1) that unfolding tracker_inv_def by blast
  have sq0: "ec_Sequence c \<noteq> 0" using assms(2) by (simp add: cursorValid_def)
  show "tracker_inv (accepting t c)"
    unfolding tracker_inv_def seen high ids
  proof (intro conjI allI impI)
    fix k i d assume a: "((tr_eventIDs t)((streamKey c, ec_EventID c) \<mapsto> c)) (k, i) = Some d"
    show "streamKey d = k" "ec_EventID d = i" "cursorValid d"
      using a i1 [of k i d] assms(2) by (auto split: if_splits)
    show "(if k = streamKey c \<and> ec_Sequence d = ec_Sequence c then Some c else ss_seen (streamOf t k) (ec_Sequence d)) = Some d"
      using a i1 [of k i d] nosq by (auto split: if_splits)
  next
    fix k q d assume a: "(if k = streamKey c \<and> q = ec_Sequence c then Some c else ss_seen (streamOf t k) q) = Some d"
    show "ec_Sequence d = q" "streamKey d = k" using a i2 [of k q d] by (auto split: if_splits)
    show "((tr_eventIDs t)((streamKey c, ec_EventID c) \<mapsto> c)) (k, ec_EventID d) = Some d"
      using a i2 [of k q d] noid by (auto split: if_splits)
    show "q \<le> (if k = streamKey c then max (ec_Sequence c) (ss_highest (streamOf t k)) else ss_highest (streamOf t k))"
      using a i2 [of k q d] by (auto simp: le_max_iff_disj split: if_splits)
  next
    fix k assume a: "(if k = streamKey c then max (ec_Sequence c) (ss_highest (streamOf t k)) else ss_highest (streamOf t k)) \<noteq> 0"
    show "(if k = streamKey c \<and> (if k = streamKey c then max (ec_Sequence c) (ss_highest (streamOf t k))
              else ss_highest (streamOf t k)) = ec_Sequence c then Some c
           else ss_seen (streamOf t k) (if k = streamKey c then max (ec_Sequence c) (ss_highest (streamOf t k))
              else ss_highest (streamOf t k))) \<noteq> None"
      using a i3 [of k] sq0 by (auto simp: max_def split: if_splits)
  qed
qed

lemma Observe_inv: "tracker_inv t \<Longrightarrow> tracker_inv (snd (Observe t c))"
  by (rule Observe_cases [of t c]) (auto intro: accepting_inv)

lemma Observe_log:
  assumes "tracker_inv t"
  shows "logOf (snd (Observe t c)) = snd (observe_spec (logOf t) c)"
  using assms by (rule Observe_cases [of t c]) (auto simp: observe_spec_def accepting_inv(2) assms)

text \<open>The outcome, gaps apart, and the gap under the bound of \<open>gap_iff\<close>.\<close>

lemma Observe_outcome:
  assumes "tracker_inv t" "\<forall>d \<in> onStream (logOf t) c. ec_Sequence d \<noteq> -1"
  shows "fst (Observe t c) = fst (observe_spec (logOf t) c)"
proof -
  have "ss_highest (streamOf t (streamKey c)) \<noteq> -1"
    using highest_max(1) [OF assms(1), of "streamKey c"] assms(2) by (force simp: onStream_def)
  note g = gap_iff [OF assms(1) this]
  show ?thesis using assms(1) by (rule Observe_cases [of t c]) (auto simp: observe_spec_def g)
qed

section \<open>The contract of an event log\<close>

fun committed :: "('t \<Rightarrow> EventCursor \<Rightarrow> (go_error + SequenceOutcome) \<times> 't) \<Rightarrow> 't \<Rightarrow> EventCursor list \<Rightarrow> EventCursor list" where
  "committed obs t [] = []"
| "committed obs t (c # cs) =
     (let (r, t') = obs t c
      in (case r of Inr q \<Rightarrow> if q \<noteq> SequenceDuplicate then [c] else [] | Inl _ \<Rightarrow> []) @ committed obs t' cs)"

locale event_log =
  fixes obs :: "'t \<Rightarrow> EventCursor \<Rightarrow> (go_error + SequenceOutcome) \<times> 't"
    and inv :: "'t \<Rightarrow> bool" and entries :: "'t \<Rightarrow> EventCursor set"
  assumes keeps: "inv t \<Longrightarrow> inv (snd (obs t c))"
    and logs: "inv t \<Longrightarrow> entries (snd (obs t c)) = snd (observe_spec (entries t) c)"
    and repeats: "inv t \<Longrightarrow> fst (obs t c) = Inr SequenceDuplicate \<longleftrightarrow> cursorValid c \<and> c \<in> entries t"
    and commits: "inv t \<Longrightarrow> (\<exists>q. fst (obs t c) = Inr q \<and> q \<noteq> SequenceDuplicate) \<longleftrightarrow>
      cursorValid c \<and> c \<notin> entries t \<and> \<not> conflicts (entries t) c"
begin

lemma observe_step:
  assumes "inv t"
  shows "committed obs t (c # cs) =
      (if cursorValid c \<and> c \<notin> entries t \<and> \<not> conflicts (entries t) c then [c] else [])
        @ committed obs (snd (obs t c)) cs"
    and "entries (snd (obs t c)) =
      (if cursorValid c \<and> c \<notin> entries t \<and> \<not> conflicts (entries t) c then insert c (entries t) else entries t)"
proof -
  show "committed obs t (c # cs) =
      (if cursorValid c \<and> c \<notin> entries t \<and> \<not> conflicts (entries t) c then [c] else [])
        @ committed obs (snd (obs t c)) cs"
    using commits [OF assms, of c] by (cases "obs t c") (auto split: sum.splits)
  show "entries (snd (obs t c)) =
      (if cursorValid c \<and> c \<notin> entries t \<and> \<not> conflicts (entries t) c then insert c (entries t) else entries t)"
    by (auto simp: logs [OF assms] observe_spec_def)
qed

lemma committed_log:
  "inv t \<Longrightarrow> distinct (committed obs t cs) \<and> set (committed obs t cs) \<inter> entries t = {}"
proof (induction cs arbitrary: t)
  case (Cons c cs)
  let ?t = "snd (obs t c)"
  have "distinct (committed obs ?t cs) \<and> set (committed obs ?t cs) \<inter> entries ?t = {}"
    using Cons.IH [OF keeps [OF Cons.prems]] .
  then show ?case unfolding observe_step(1) [OF Cons.prems] using observe_step(2) [OF Cons.prems, of c]
    by (auto split: if_splits)
qed simp

lemma redelivery: "inv t \<Longrightarrow> set cs \<subseteq> entries t \<Longrightarrow> committed obs t cs = []"
proof (induction cs arbitrary: t)
  case (Cons c cs)
  then have "entries (snd (obs t c)) = entries t" using observe_step(2) [OF Cons.prems(1), of c] by auto
  then show ?case using Cons.IH [OF keeps [OF Cons.prems(1)]] Cons.prems
    by (simp only: observe_step(1) [OF Cons.prems(1)]) auto
qed simp

end

interpretation tracker: event_log Observe tracker_inv logOf
proof unfold_locales
  fix t c assume t: "tracker_inv t"
  show "tracker_inv (snd (Observe t c))" using t by (rule Observe_inv)
  show "logOf (snd (Observe t c)) = snd (observe_spec (logOf t) c)" using t by (rule Observe_log)
  show "fst (Observe t c) = Inr SequenceDuplicate \<longleftrightarrow> cursorValid c \<and> c \<in> logOf t"
    using t by (rule Observe_cases [of t c]) auto
  show "(\<exists>q. fst (Observe t c) = Inr q \<and> q \<noteq> SequenceDuplicate) \<longleftrightarrow>
      cursorValid c \<and> c \<notin> logOf t \<and> \<not> conflicts (logOf t) c"
    using t by (rule Observe_cases [of t c]) auto
qed

text \<open>The trackers a program can reach, starting from \<open>NewSequenceTracker\<close>.\<close>

inductive reachable :: "SequenceTracker \<Rightarrow> bool" where
  new: "reachable NewSequenceTracker"
| step: "reachable t \<Longrightarrow> reachable (snd (Observe t c))"

lemma reachable_inv: "reachable t \<Longrightarrow> tracker_inv t"
  by (induction rule: reachable.induct) (auto intro: tracker_inv_new Observe_inv)

section \<open>Properties\<close>


definition sampleCursor :: "string \<Rightarrow> uint64 \<Rightarrow> EventCursor" where
  "sampleCursor eventID q =
     \<lparr>ec_ProviderID = ''prov'', ec_Role = RoleAgentHarness, ec_StreamID = ''main'', ec_EventID = eventID,
      ec_Sequence = q, ec_Digest = digestOf (replicate 32 (CHR ''d''))\<rparr>"


text \<open>
  C36: On every reachable tracker the accepted cursors of a stream are determined by their
  identifier and by their sequence, whatever a sequence of deliveries commits is committed once
  (no cursor twice, none that was already in the log), and delivering accepted cursors again, in any
  order and any number of times, commits nothing.
\<close>

theorem tracker_exactly_once:
  assumes "reachable t"
  shows "(\<forall>c \<in> logOf t. \<forall>d \<in> logOf t. streamKey c = streamKey d \<and>
            (ec_EventID c = ec_EventID d \<or> ec_Sequence c = ec_Sequence d) \<longrightarrow> c = d) \<and>
         distinct (committed Observe t cs) \<and> set (committed Observe t cs) \<inter> logOf t = {} \<and>
         (set ds \<subseteq> logOf t \<longrightarrow> committed Observe t ds = [])"
  using log_unique [OF reachable_inv [OF assms]] tracker.committed_log [OF reachable_inv [OF assms]]
    tracker.redelivery [OF reachable_inv [OF assms]] by blast

theorem tracker_exactly_once_witness:
  "distinct (committed Observe NewSequenceTracker
     [sampleCursor ''e1'' 1, sampleCursor ''e2'' 2, sampleCursor ''e1'' 1]) \<and>
   committed Observe NewSequenceTracker [] = []"
  using tracker_exactly_once [OF reachable.new,
      of "[sampleCursor ''e1'' 1, sampleCursor ''e2'' 2, sampleCursor ''e1'' 1]" "[]"] by simp

text \<open>
  The successor of the last 64-bit sequence wraps to zero: after a stream has used sequence
  18446744073709551615, an event that arrives late with a lower sequence number is reported as a gap,
  although a late event on any other stream is reported as accepted.
\<close>

theorem Observe_gap_wraps:
  "fst (Observe (snd (Observe NewSequenceTracker (sampleCursor ''last'' 18446744073709551615))) (sampleCursor ''late'' 5)) =
     Inr SequenceGap \<and>
   fst (Observe (snd (Observe NewSequenceTracker (sampleCursor ''last'' 100))) (sampleCursor ''late'' 5)) =
     Inr SequenceAccepted"
  by (intro conjI; code_simp)

end
