(* ===== verification/Provider_Limits.thy ===== *)
theory Provider_Limits
  imports Proto_Validate
begin

text \<open>
  \<open>provider/limits.go\<close>: the resource limits of both ends of the provider SDK, their validation and
  the options that set them. Go's \<open>int\<close> has 64 bits and is an \<^typ>\<open>int\<close> here, as it is only
  compared; \<open>uint64(l.MaxOutboundQueue)\<close> is the conversion to a word. A \<open>time.Duration\<close> is an
  \<^typ>\<open>int\<close> of nanoseconds.
\<close>

section \<open>Limits\<close>

abbreviation maxQueueEntries :: int where "maxQueueEntries \<equiv> 4096"
abbreviation maxOutboundQueueBytes :: uint64 where "maxOutboundQueueBytes \<equiv> 268435456"
abbreviation maxInFlightBytes :: uint64 where "maxInFlightBytes \<equiv> 268435456"
abbreviation maxInFlightRequests :: int where "maxInFlightRequests \<equiv> 65536"
abbreviation maxIdempotencyEntries :: int where "maxIdempotencyEntries \<equiv> 1048576"
abbreviation maxIdempotencyBytes :: uint64 where "maxIdempotencyBytes \<equiv> 1073741824"
abbreviation maxSubscriptions :: int where "maxSubscriptions \<equiv> 65536"
abbreviation time_Millisecond :: int where "time_Millisecond \<equiv> 1000000"
abbreviation time_Second :: int where "time_Second \<equiv> 1000000000"
abbreviation time_Minute :: int where "time_Minute \<equiv> 60000000000"

record Limits =
  MaxEnvelopeBytes :: uint64
  MaxOutboundQueue :: int
  MaxInFlightRequests :: int
  MaxIdempotencyEntries :: int
  MaxIdempotencyBytes :: uint64
  MaxSubscriptions :: int
  HeartbeatInterval :: int
  ShutdownTimeout :: int

definition DefaultLimits :: Limits where
  "DefaultLimits =
     \<lparr>MaxEnvelopeBytes = of_nat MaxMessageBytes, MaxOutboundQueue = 16, MaxInFlightRequests = 64,
      MaxIdempotencyEntries = 4096, MaxIdempotencyBytes = 67108864, MaxSubscriptions = 256,
      HeartbeatInterval = 30 * time_Second, ShutdownTimeout = 5 * time_Second\<rparr>"

definition TestLimits :: Limits where
  "TestLimits =
     \<lparr>MaxEnvelopeBytes = 65536, MaxOutboundQueue = 16, MaxInFlightRequests = 16,
      MaxIdempotencyEntries = 64, MaxIdempotencyBytes = 4194304, MaxSubscriptions = 16,
      HeartbeatInterval = 100 * time_Millisecond, ShutdownTimeout = time_Second\<rparr>"

definition Limits_Validate :: "Limits \<Rightarrow> verr" where
  "Limits_Validate l =
     first_err
      [if MaxEnvelopeBytes l = 0 \<or> MaxEnvelopeBytes l > of_nat MaxMessageBytes
         then errorf ''maximum envelope size is invalid'' else nil,
       if MaxOutboundQueue l \<le> 0 \<or> MaxOutboundQueue l > maxQueueEntries
         then errorf ''maximum outbound queue is invalid'' else nil,
       if of_int (MaxOutboundQueue l) > maxOutboundQueueBytes div MaxEnvelopeBytes l
         then errorf ''maximum outbound queue byte exposure is invalid'' else nil,
       if MaxInFlightRequests l \<le> 0 \<or> MaxInFlightRequests l > maxInFlightRequests
         then errorf ''maximum in-flight requests is invalid'' else nil,
       if of_int (MaxInFlightRequests l) > maxInFlightBytes div MaxEnvelopeBytes l
         then errorf ''maximum in-flight request byte exposure is invalid'' else nil,
       if MaxIdempotencyEntries l \<le> 0 \<or> MaxIdempotencyEntries l > maxIdempotencyEntries
         then errorf ''maximum idempotency entries is invalid'' else nil,
       if MaxIdempotencyBytes l < MaxEnvelopeBytes l \<or> MaxIdempotencyBytes l > maxIdempotencyBytes
         then errorf ''maximum idempotency bytes is invalid'' else nil,
       if MaxSubscriptions l \<le> 0 \<or> MaxSubscriptions l > maxSubscriptions
         then errorf ''maximum subscriptions is invalid'' else nil,
       if HeartbeatInterval l \<le> 0 \<or> HeartbeatInterval l > 5 * time_Minute
         then errorf ''heartbeat interval is invalid'' else nil,
       if ShutdownTimeout l \<le> 0 \<or> ShutdownTimeout l > 5 * time_Minute
         then errorf ''shutdown timeout is invalid'' else nil]"

section \<open>Options\<close>

text \<open>
  The options structure holds the limits only. An \<open>Option\<close> updates it or fails; a nil option is
  \<^term>\<open>None\<close>.
\<close>

type_synonym limits_option = "(Limits \<Rightarrow> go_error + Limits) option"

definition WithLimits :: "Limits \<Rightarrow> limits_option" where
  "WithLimits limits =
     Some (\<lambda>_. case Limits_Validate limits of
                 Some e \<Rightarrow> Inl (Wrapped ''provider limits: '' e)
               | None \<Rightarrow> Inr limits)"

fun runOptions :: "Limits \<Rightarrow> limits_option list \<Rightarrow> go_error + Limits" where
  "runOptions options [] = Inr options"
| "runOptions options (None # rest) = Inl (Plain ''provider option is nil'')"
| "runOptions options (Some f # rest) =
     (case f options of Inl e \<Rightarrow> Inl e | Inr options' \<Rightarrow> runOptions options' rest)"

definition applyOptions :: "limits_option list \<Rightarrow> go_error + Limits" where
  "applyOptions optionValues =
     (case runOptions DefaultLimits optionValues of
        Inl e \<Rightarrow> Inl e
      | Inr options \<Rightarrow>
          (case Limits_Validate options of
             Some e \<Rightarrow> Inl (Wrapped ''provider limits: '' e)
           | None \<Rightarrow> Inr options))"

section \<open>Exposure\<close>

text \<open>The division in the exposure checks is exact enough: it bounds the product.\<close>

lemma exposure_bound:
  fixes e :: uint64
  assumes "\<not> of_int n > (k :: uint64) div e" "0 < n" "n \<le> 65536"
  shows "nat n * unat e \<le> unat k"
proof -
  have "unat (of_int n :: uint64) = nat n"
  proof -
    have "uint (word_of_int n :: uint64) = n"
      using assms(2,3) by (simp add: uint_word_of_int take_bit_int_eq_self)
    then show ?thesis by (simp add: unat_eq_nat_uint)
  qed
  with assms(1) have "nat n \<le> unat k div unat e"
    by (simp add: not_less word_le_nat_alt unat_div)
  then have "nat n * unat e \<le> unat k div unat e * unat e" by (rule mult_le_mono1)
  then show ?thesis using div_times_less_eq_dividend order_trans by blast
qed

lemma Limits_Validate_exposure:
  assumes "Limits_Validate l = nil"
  shows "0 < unat (MaxEnvelopeBytes l)" "unat (MaxEnvelopeBytes l) \<le> MaxMessageBytes"
    "nat (MaxOutboundQueue l) * unat (MaxEnvelopeBytes l) \<le> 268435456"
    "nat (MaxInFlightRequests l) * unat (MaxEnvelopeBytes l) \<le> 268435456"
    "unat (MaxEnvelopeBytes l) \<le> unat (MaxIdempotencyBytes l)"
    "unat (MaxIdempotencyBytes l) \<le> 1073741824"
    "0 < MaxOutboundQueue l" "0 < MaxInFlightRequests l" "0 < MaxIdempotencyEntries l"
    "0 < MaxSubscriptions l"
proof -
  note v = assms [unfolded Limits_Validate_def, simplified]
  from v show "0 < unat (MaxEnvelopeBytes l)" "unat (MaxEnvelopeBytes l) \<le> MaxMessageBytes"
    "unat (MaxEnvelopeBytes l) \<le> unat (MaxIdempotencyBytes l)"
    "unat (MaxIdempotencyBytes l) \<le> 1073741824"
    "0 < MaxOutboundQueue l" "0 < MaxInFlightRequests l" "0 < MaxIdempotencyEntries l"
    "0 < MaxSubscriptions l"
    by (auto simp: word_le_nat_alt unat_gt_0 not_less)
  show "nat (MaxOutboundQueue l) * unat (MaxEnvelopeBytes l) \<le> 268435456"
    using exposure_bound [where n = "MaxOutboundQueue l" and k = maxOutboundQueueBytes and e = "MaxEnvelopeBytes l"] v by simp
  show "nat (MaxInFlightRequests l) * unat (MaxEnvelopeBytes l) \<le> 268435456"
    using exposure_bound [where n = "MaxInFlightRequests l" and k = maxInFlightBytes and e = "MaxEnvelopeBytes l"] v by simp
qed

lemma DefaultLimits_valid: "Limits_Validate DefaultLimits = nil"
  and TestLimits_valid: "Limits_Validate TestLimits = nil"
  by (simp_all add: Limits_Validate_def DefaultLimits_def TestLimits_def)

text \<open>
  Whatever options a client or server is built with, the limits it runs under keep the bytes
  that the outbound queue and the in-flight requests can hold within 256 MiB each and the idempotency
  records within 1 GiB, and leave room for at least one maximal message in each.
\<close>

theorem applyOptions_bounded_memory:
  assumes "applyOptions opts = Inr l"
  shows "nat (MaxOutboundQueue l) * unat (MaxEnvelopeBytes l) \<le> 256 * 1024 * 1024 \<and>
    nat (MaxInFlightRequests l) * unat (MaxEnvelopeBytes l) \<le> 256 * 1024 * 1024 \<and>
    unat (MaxIdempotencyBytes l) \<le> 1024 * 1024 * 1024 \<and>
    0 < MaxOutboundQueue l \<and> 0 < MaxInFlightRequests l \<and>
    0 < unat (MaxEnvelopeBytes l) \<and> unat (MaxEnvelopeBytes l) \<le> unat (MaxIdempotencyBytes l)"
proof -
  from assms have "Limits_Validate l = nil"
    by (auto simp: applyOptions_def split: sum.splits option.splits)
  from Limits_Validate_exposure [OF this] show ?thesis by simp
qed

theorem applyOptions_bounded_memory_witness:
  "applyOptions [] = Inr DefaultLimits \<and> applyOptions [WithLimits TestLimits] = Inr TestLimits \<and>
   nat (MaxOutboundQueue TestLimits) * unat (MaxEnvelopeBytes TestLimits) \<le> 256 * 1024 * 1024"
proof -
  have 1: "applyOptions [] = Inr DefaultLimits"
    by (simp add: applyOptions_def DefaultLimits_valid)
  have 2: "applyOptions [WithLimits TestLimits] = Inr TestLimits"
    by (simp add: applyOptions_def WithLimits_def TestLimits_valid)
  show ?thesis using 1 2 applyOptions_bounded_memory [OF 2] by simp
qed

end
