(* ===== verification/Rpc_Envelope.thy ===== *)
theory Rpc_Envelope
  imports Json_Guard
begin

text \<open>
  The JSON-RPC envelope of \<open>provider/jsonrpc.go\<close>: the closed errors of the SDK
  (\<open>newProtocolError\<close>, \<open>normalizeProtocolError\<close>, \<open>rpcErrorFrom\<close>), the validation of wire tokens,
  parameters, requests and responses, and the size and shape checks on an envelope. A nil
  \<open>*rpcError\<close> or raw message is \<^term>\<open>None\<close> or the empty list.
\<close>

section \<open>Errors\<close>

definition canonicalProtocolMessage :: "string \<Rightarrow> string" where
  "canonicalProtocolMessage code =
     (if code = CodeInvalidArgument then ''protocol value is invalid''
      else if code = CodeMessageTooLarge then ''protocol message exceeds its limit''
      else if code = CodeNotSupported then ''required capability is not supported''
      else if code = CodeSequenceConflict then ''event sequence conflicts with prior content''
      else if code = CodeReplay then ''one-use value was already consumed''
      else if code = CodeExpired then ''authorization or evidence has expired''
      else if code = CodeUnauthenticated then ''protocol identity or signature is not authenticated''
      else if code = CodePermissionDenied then ''operation is not authorized''
      else if code = CodeConflict then ''operation conflicts with current state''
      else if code = CodeDeadlineExceeded then ''operation deadline was exceeded''
      else if code = CodeCancelled then ''operation was cancelled''
      else if code = CodeResourceExhausted then ''protocol resource limit was exhausted''
      else if code = CodeUnavailable then ''provider is unavailable''
      else if code = CodeOutcomeUnknown then ''operation outcome is unknown''
      else [])"

definition newProtocolError :: "string \<Rightarrow> Error" where
  "newProtocolError code0 =
     (let code1 = (if code0 = CodeNotSupported then CodeInvalidArgument else code0);
          code = (if canonicalProtocolMessage code1 = [] then CodeInvalidArgument else code1)
      in \<lparr>err_Code = code, err_Message = canonicalProtocolMessage code,
          err_RequiredCapability = [], err_AdvertisedCapabilities = []\<rparr>)"

abbreviation newError :: "string \<Rightarrow> go_error" where
  "newError code \<equiv> Structured (newProtocolError code)"

abbreviation context_Canceled :: string where "context_Canceled \<equiv> ''context canceled''"
abbreviation context_DeadlineExceeded :: string where
  "context_DeadlineExceeded \<equiv> ''context deadline exceeded''"

definition errorCode :: "go_error \<Rightarrow> string" where
  "errorCode err =
     (case errors_As err of
        Some structured \<Rightarrow>
          if Error_Validate structured = nil then err_Code structured
          else if errors_Is err context_Canceled then CodeCancelled
          else if errors_Is err context_DeadlineExceeded then CodeDeadlineExceeded
          else CodeUnavailable
      | None \<Rightarrow>
          if errors_Is err context_Canceled then CodeCancelled
          else if errors_Is err context_DeadlineExceeded then CodeDeadlineExceeded
          else CodeUnavailable)"

definition normalizeProtocolError :: "go_error \<Rightarrow> Error" where
  "normalizeProtocolError err =
     (case errors_As err of
        Some structured \<Rightarrow>
          if Error_Validate structured = nil then
            (if err_Code structured = CodeNotSupported \<and> err_AdvertisedCapabilities structured = []
             then newProtocolError CodeInvalidArgument else structured)
          else newProtocolError CodeInvalidArgument
      | None \<Rightarrow> newProtocolError (errorCode err))"

abbreviation rpcCodeMethodNotFound :: int where "rpcCodeMethodNotFound \<equiv> -32601"
abbreviation rpcCodeInvalidParams :: int where "rpcCodeInvalidParams \<equiv> -32602"
abbreviation rpcCodeServerError :: int where "rpcCodeServerError \<equiv> -32000"

record rpcError =
  re_Code :: int
  re_Message :: string
  re_Data :: Error

definition rpcErrorFrom :: "go_error \<Rightarrow> rpcError" where
  "rpcErrorFrom err =
     (let val = normalizeProtocolError err in
      \<lparr>re_Code =
         (if err_Code val \<in> {CodeInvalidArgument, CodeMessageTooLarge} then rpcCodeInvalidParams
          else if err_Code val = CodeNotSupported then rpcCodeMethodNotFound
          else rpcCodeServerError),
       re_Message = err_Message val, re_Data = val\<rparr>)"

definition rpcError_validate :: "rpcError \<Rightarrow> verr" where
  "rpcError_validate e =
     (if Error_Validate (re_Data e) \<noteq> nil then errorf ''JSON-RPC error data is invalid''
      else if re_Message e \<noteq> err_Message (re_Data e) then errorf ''JSON-RPC error message is not canonical''
      else if re_Code e \<noteq>
          (if err_Code (re_Data e) \<in> {CodeInvalidArgument, CodeMessageTooLarge} then rpcCodeInvalidParams
           else if err_Code (re_Data e) = CodeNotSupported then rpcCodeMethodNotFound
           else rpcCodeServerError)
        then errorf ''JSON-RPC error code is invalid''
      else nil)"

text \<open>\<open>(*rpcError).protocolError\<close>, the error a client hands to its caller.\<close>

definition rpcError_protocolError :: "rpcError option \<Rightarrow> verr" where
  "rpcError_protocolError p = map_option (\<lambda>e. Structured (re_Data e)) p"

section \<open>Tokens and parameters\<close>

definition wireChar :: "char \<Rightarrow> bool" where
  "wireChar c \<longleftrightarrow> 0x21 \<le> byte c \<and> byte c \<le> 0x7e"

text \<open>
  The loop of \<open>validateWireToken\<close> ranges over runes; a rune outside ASCII has only bytes above 0x7e,
  so checking the bytes is the same.
\<close>

definition validateWireToken :: "string \<Rightarrow> string \<Rightarrow> verr" where
  "validateWireToken name token =
     (if token = [] \<or> length token > 256 \<or> \<not> validString token then errorf (name @ '' is invalid'')
      else if \<not> list_all wireChar token then errorf (name @ '' is invalid'')
      else nil)"

lemma wireChar_ascii: "list_all wireChar s \<Longrightarrow> validString s"
  by (rule validString_ascii) (auto simp: ascii_def wireChar_def list_all_iff)

lemma validateWireToken_nil [accepted]:
  "validateWireToken name s = nil \<longleftrightarrow> s \<noteq> [] \<and> length s \<le> 256 \<and> list_all wireChar s"
  by (auto simp: validateWireToken_def wireChar_ascii not_less)

text \<open>
  \<open>strconv.ParseFloat(text, 64)\<close> on the text of a JSON number, which \<open>json.Unmarshal\<close> calls when the
  destination is an interface: it fails exactly when the number rounds to an infinity, from
  \<open>2^1024 - 2^970\<close> on. The exponent stops growing once it has reached 10000.
\<close>

definition digitsNat :: "string \<Rightarrow> nat" where
  "digitsNat ds = foldl (\<lambda>n d. 10 * n + (byte d - 48)) 0 ds"

definition exponentNat :: "string \<Rightarrow> nat" where
  "exponentNat ds = foldl (\<lambda>n d. if n < 10000 then 10 * n + (byte d - 48) else n) 0 ds"

definition floatInRange :: "string \<Rightarrow> bool" where
  "floatInRange text =
     (let t = dropWhile (\<lambda>c. c = CHR ''-'') text;
          mant = takeWhile (\<lambda>c. c \<noteq> CHR ''e'' \<and> c \<noteq> CHR ''E'') t;
          ex = drop (Suc (length mant)) t;
          whole = takeWhile isDigit mant;
          frac = drop (Suc (length whole)) mant;
          m = digitsNat (whole @ frac);
          negative = (ex \<noteq> [] \<and> hd ex = CHR ''-'');
          e = exponentNat (filter isDigit ex);
          e10 = (if negative then - int e else int e) - int (length frac)
      in if 0 \<le> e10 then m * 10 ^ nat e10 < 2 ^ 1024 - 2 ^ 970
         else m < (2 ^ 1024 - 2 ^ 970) * 10 ^ nat (- e10))"

fun numbersInRange :: "json \<Rightarrow> bool" where
  "numbersInRange (JNum t) = floatInRange t"
| "numbersInRange (JArr vs) = list_all numbersInRange vs"
| "numbersInRange (JObj ms) = list_all (\<lambda>(k, v). numbersInRange v) ms"
| "numbersInRange _ = True"

text \<open>\<open>json.Unmarshal\<close> into an \<open>any\<close>.\<close>

definition unmarshalAny :: "bool \<Rightarrow> string \<Rightarrow> json document option" where
  "unmarshalAny strict text =
     (case json_decode text of
        Some v \<Rightarrow> if numbersInRange v
                  then Some \<lparr>d_kind = DOther, d_raw = [], d_extensions = [], d_rest = v\<rparr> else None
      | None \<Rightarrow> None)"

definition validateJSON :: "string \<Rightarrow> verr" where
  "validateJSON data =
     (if data = [] then errorf ''JSON value is required''
      else case Decode unmarshalAny (\<lambda>_. nil) data DOther of
        Inl e \<Rightarrow> Some e
      | Inr d \<Rightarrow> if d_rest d = JNull then errorf ''JSON value cannot be null'' else nil)"

definition validateObject :: "string \<Rightarrow> verr" where
  "validateObject data =
     (case validateJSON data of
        Some e \<Rightarrow> Some e
      | None \<Rightarrow> if rawObject data = None \<or> json_decode data = Some JNull
                then errorf ''JSON-RPC parameter must be an object'' else nil)"

section \<open>Requests and responses\<close>

abbreviation jsonRPCVersion :: string where "jsonRPCVersion \<equiv> ''2.0''"

record rpcRequest =
  rq_JSONRPC :: string
  rq_ID :: string
  rq_Method :: string
  rq_Params :: "string list"

record rpcResponse =
  rs_JSONRPC :: string
  rs_ID :: string
  rs_Result :: string
  rs_Error :: "rpcError option"

definition isNotification :: "rpcRequest \<Rightarrow> bool" where
  "isNotification r \<longleftrightarrow> rq_ID r = []"

definition rpcRequest_validate :: "rpcRequest \<Rightarrow> verr" where
  "rpcRequest_validate r =
     first_err
      [if rq_JSONRPC r \<noteq> jsonRPCVersion then errorf ''JSON-RPC version is invalid'' else nil,
       if rq_ID r \<noteq> [] then validateWireToken ''request ID'' (rq_ID r) else nil,
       validateWireToken ''method'' (rq_Method r),
       (case rq_Params r of
          [p] \<Rightarrow> validateObject p
        | _ \<Rightarrow> errorf ''JSON-RPC params must contain exactly one value'')]"

definition rpcResponse_validate :: "rpcResponse \<Rightarrow> verr" where
  "rpcResponse_validate r =
     first_err
      [if rs_JSONRPC r \<noteq> jsonRPCVersion then errorf ''JSON-RPC version is invalid'' else nil,
       validateWireToken ''response ID'' (rs_ID r),
       if (rs_Result r = []) = (rs_Error r = None)
         then errorf ''JSON-RPC response must contain exactly one outcome'' else nil,
       (case rs_Error r of Some e \<Rightarrow> rpcError_validate e | None \<Rightarrow> validateJSON (rs_Result r))]"

section \<open>Envelopes\<close>

definition validateMaximumBytes :: "uint64 \<Rightarrow> verr" where
  "validateMaximumBytes maximumBytes =
     (if maximumBytes = 0 \<or> maximumBytes > of_nat MaxMessageBytes
      then Some (newError CodeInvalidArgument) else nil)"

abbreviation newline_ch :: char where "newline_ch \<equiv> CHR 0x0A"
abbreviation return_ch :: char where "return_ch \<equiv> CHR 0x0D"

definition validateEnvelope :: "string \<Rightarrow> uint64 \<Rightarrow> verr" where
  "validateEnvelope data maximumBytes =
     first_err
      [validateMaximumBytes maximumBytes,
       if data = [] then Some (newError CodeInvalidArgument) else nil,
       if length data > unat maximumBytes then Some (newError CodeMessageTooLarge) else nil,
       if newline_ch \<in> set data \<or> return_ch \<in> set data
         then Some (newError CodeInvalidArgument) else nil]"

definition validateEnvelopeFields ::
  "(string \<times> string) list \<Rightarrow> string list \<Rightarrow> string list \<Rightarrow> verr" where
  "validateEnvelopeFields members required allowed =
     first_err
      [each_err (\<lambda>(field, _). if field \<notin> set allowed then Some (newError CodeInvalidArgument) else nil) members,
       each_err (\<lambda>field. if rawLookup members field = None then Some (newError CodeInvalidArgument) else nil)
         required]"

text \<open>
  \<open>marshalEnvelope\<close> after \<open>json.Marshal\<close>, whose text is the argument; a failed marshal is
  \<^term>\<open>None\<close>.
\<close>

definition marshalEnvelope :: "string option \<Rightarrow> uint64 \<Rightarrow> go_error + string" where
  "marshalEnvelope marshalled maximumBytes =
     (case validateMaximumBytes maximumBytes of
        Some e \<Rightarrow> Inl e
      | None \<Rightarrow>
          (case marshalled of
             None \<Rightarrow> Inl (newError CodeInvalidArgument)
           | Some data \<Rightarrow>
               if length data > unat maximumBytes then Inl (newError CodeMessageTooLarge)
               else if newline_ch \<in> set data \<or> return_ch \<in> set data
               then Inl (newError CodeInvalidArgument)
               else Inr data))"

lemma validateMaximumBytes_nil [accepted]:
  "validateMaximumBytes m = nil \<longleftrightarrow> 0 < unat m \<and> unat m \<le> MaxMessageBytes"
  by (auto simp: validateMaximumBytes_def not_less word_le_nat_alt unat_gt_0)

lemma validateEnvelope_nil [accepted]:
  "validateEnvelope data m = nil \<longleftrightarrow>
     0 < unat m \<and> unat m \<le> MaxMessageBytes \<and> data \<noteq> [] \<and> length data \<le> unat m \<and>
     newline_ch \<notin> set data \<and> return_ch \<notin> set data"
  by (auto simp: validateEnvelope_def validateMaximumBytes_nil)

lemma validateJSON_nil [accepted]:
  "validateJSON data = nil \<longleftrightarrow>
     length data \<le> MaxMessageBytes \<and>
     (\<exists>v. json_decode data = Some v \<and> jdistinct v \<and> numbersInRange v \<and> v \<noteq> JNull)"
proof -
  have "data \<noteq> []" if "json_decode data = Some v" for v
    using that by (auto simp: json_decode_def parseJSON_def)
  moreover have "rejectDuplicateKeys data = nil \<longleftrightarrow> jdistinct v" if "json_decode data = Some v" for v
    using that by (auto simp: json_decode_def rejectDuplicateKeys_nil split: option.splits if_splits)
  moreover have "rejectReservedAuthorityFields data DOther = nil"
    by (simp add: rejectReservedAuthorityFields_def)
  ultimately show ?thesis
    by (cases "json_decode data")
      (auto simp: validateJSON_def Decode_def decodeJSON_def isClosedSecurityDocument_def
        unmarshalAny_def json_Valid_def normalizeDecoded_def)
qed

lemma rawObject_None: "rawObject data = None \<longleftrightarrow>
  \<not> (json_decode data = Some JNull \<or> (\<exists>ms. json_decode data = Some (JObj ms)))"
proof -
  have "rawObject data \<noteq> None" if "json_decode data = Some (JObj ms)" for ms
    using rawObject_parse [OF that] by (metis option.distinct(1))
  then show ?thesis by (auto simp: rawObject_def split: option.splits json.splits)
qed

lemma validateObject_nil [accepted]:
  "validateObject data = nil \<longleftrightarrow>
     length data \<le> MaxMessageBytes \<and>
     (\<exists>ms. json_decode data = Some (JObj ms) \<and> jdistinct (JObj ms) \<and> numbersInRange (JObj ms))"
proof -
  have "validateObject data = nil \<longleftrightarrow>
    validateJSON data = nil \<and> rawObject data \<noteq> None \<and> json_decode data \<noteq> Some JNull"
    by (auto simp: validateObject_def split: option.splits)
  then show ?thesis unfolding validateJSON_nil rawObject_None by auto
qed

section \<open>Properties\<close>

text \<open>The table of the SDK and the table of the protocol package agree.\<close>

lemma canonicalProtocolMessage_table:
  "errorMessage c = (if canonicalProtocolMessage c = [] then None else Some (canonicalProtocolMessage c))"
  by (simp add: canonicalProtocolMessage_def errorMessage_def canonicalErrorMessages_def)

lemma newProtocolError_valid: "Error_Validate (newProtocolError c) = nil"
  and newProtocolError_plain: "err_Code (newProtocolError c) \<noteq> CodeNotSupported"
proof -
  have 1: "err_Code (newProtocolError c) \<noteq> CodeNotSupported"
    by (simp add: newProtocolError_def Let_def)
  have "canonicalProtocolMessage CodeInvalidArgument \<noteq> []" by (simp add: canonicalProtocolMessage_def)
  then have "errorMessage (err_Code (newProtocolError c)) = Some (err_Message (newProtocolError c))"
    by (simp add: newProtocolError_def Let_def canonicalProtocolMessage_table)
  then show "Error_Validate (newProtocolError c) = nil"
    using 1 by (simp add: Error_Validate_def ErrorCode_Validate_def) (simp add: newProtocolError_def Let_def)
  show "err_Code (newProtocolError c) \<noteq> CodeNotSupported" by (rule 1)
qed

lemma normalizeProtocolError_valid: "Error_Validate (normalizeProtocolError err) = nil"
  by (simp add: normalizeProtocolError_def newProtocolError_valid split: option.splits)

text \<open>
  Whatever error a provider handler returns, the error object that goes over the wire passes the
  validation of the receiving side, its message is the canonical message of its code, so no native
  error text leaks, and a not_supported error always names advertised capabilities.
\<close>

theorem rpcErrorFrom_valid:
  "rpcError_validate (rpcErrorFrom err) = nil \<and>
   Some (re_Message (rpcErrorFrom err)) = errorMessage (err_Code (re_Data (rpcErrorFrom err))) \<and>
   \<not> (err_Code (re_Data (rpcErrorFrom err)) = CodeNotSupported \<and>
      err_AdvertisedCapabilities (re_Data (rpcErrorFrom err)) = [])"
proof (intro conjI)
  let ?v = "normalizeProtocolError err"
  show "rpcError_validate (rpcErrorFrom err) = nil"
    by (simp add: rpcError_validate_def rpcErrorFrom_def Let_def normalizeProtocolError_valid)
  have "Some (err_Message ?v) = errorMessage (err_Code ?v)"
    using normalizeProtocolError_valid [of err] by (simp add: Error_Validate_def split: if_splits)
  then show "Some (re_Message (rpcErrorFrom err)) = errorMessage (err_Code (re_Data (rpcErrorFrom err)))"
    by (simp add: rpcErrorFrom_def Let_def)
  show "\<not> (err_Code (re_Data (rpcErrorFrom err)) = CodeNotSupported \<and>
      err_AdvertisedCapabilities (re_Data (rpcErrorFrom err)) = [])"
    by (auto simp: rpcErrorFrom_def Let_def normalizeProtocolError_def newProtocolError_plain
        split: option.splits if_splits)
qed

end
