(* ===== verification/Server_Negotiation.thy ===== *)
theory Server_Negotiation
  imports Proto_Manifest Provider_Limits Rpc_Envelope
begin

text \<open>
  The negotiation side of \<open>provider/server.go\<close> and the server configuration of \<open>provider/provider.go\<close>: the
  answer to \<open>provider.initialize\<close>, by the SDK itself or by a handler of the provider, and the limits a
  connection runs under afterwards. For a validated configuration \<open>initialize_exact\<close> gives the answer on
  every branch. The JSON text of a manifest is a parameter.
\<close>

section \<open>Configuration\<close>

record ServerConfig =
  cfg_Manifest :: ProviderManifest
  cfg_NativeRuntimeVersion :: string
  cfg_AuthenticationModes :: "string list"
  cfg_ReplaySupported :: bool
  cfg_ExperimentalFeatures :: "string list"

definition configCandidate :: "ServerConfig \<Rightarrow> string \<Rightarrow> ProviderInitializeResult" where
  "configCandidate c mode =
     \<lparr>rs_ProtocolVersion = ProtocolVersion, rs_Manifest = cfg_Manifest c,
      rs_NativeRuntimeVersion = cfg_NativeRuntimeVersion c, rs_MaximumMessageBytes = of_nat MaxMessageBytes,
      rs_MaximumChunkBytes = of_nat MaxTerminalChunkBytes, rs_ReplaySupported = cfg_ReplaySupported c,
      rs_AuthenticationMode = mode, rs_ExperimentalFeatures = cfg_ExperimentalFeatures c\<rparr>"

definition ServerConfig_validate :: "ServerConfig \<Rightarrow> verr" where
  "ServerConfig_validate c =
     (case cfg_AuthenticationModes c of
        [] \<Rightarrow> errorf ''at least one authentication mode is required''
      | first # _ \<Rightarrow>
          first_err
           [wrapf ''server configuration is invalid'' (InitializeResult_Validate (configCandidate c first)),
            each_unique (\<lambda>mode. wrapf ''server authentication mode is invalid'' (InitializeResult_Validate (configCandidate c mode)))
              id ''server authentication mode is duplicated'' (cfg_AuthenticationModes c)])"

definition manifestCapabilities :: "ProviderManifest \<Rightarrow> string list" where
  "manifestCapabilities m = sort (map cap_Name (m_Capabilities m))"

definition notSupported :: "string \<Rightarrow> string list \<Rightarrow> go_error" where
  "notSupported capability advertised =
     (let err = NotSupported capability advertised in
      case errors_As err of
        None \<Rightarrow> newError CodeInvalidArgument
      | Some structured \<Rightarrow> if Error_Validate structured \<noteq> nil then newError CodeInvalidArgument else err)"

section \<open>The answer to initialize\<close>

definition validateCustomNegotiation ::
  "(ProviderManifest \<Rightarrow> string option) \<Rightarrow> ServerConfig \<Rightarrow> Limits \<Rightarrow> ProviderInitializeResult \<Rightarrow> verr" where
  "validateCustomNegotiation marshal cfg limits result =
     (case (marshal (rs_Manifest result), marshal (cfg_Manifest cfg)) of
        (Some actual, Some expected) \<Rightarrow>
          if actual \<noteq> expected then Some (newError CodeConflict)
          else if rs_MaximumMessageBytes result > MaxEnvelopeBytes limits \<or>
                  rs_MaximumChunkBytes result > of_nat MaxTerminalChunkBytes
          then Some (newError CodeInvalidArgument)
          else if rs_AuthenticationMode result \<notin> set (cfg_AuthenticationModes cfg) then Some (newError CodeUnauthenticated)
          else if rs_ReplaySupported result \<and> \<not> cfg_ReplaySupported cfg then Some (newError CodeInvalidArgument)
          else each_err (\<lambda>f. if f \<notin> set (cfg_ExperimentalFeatures cfg) then Some (newError CodeInvalidArgument) else nil)
                 (rs_ExperimentalFeatures result)
      | _ \<Rightarrow> Some (newError CodeConflict))"

text \<open>
  A provider may own the negotiation: \<open>custom\<close> is then what its handler did, an error, a value of another
  type (None) or a result.
\<close>

type_synonym customInitialize = "(go_error + ProviderInitializeResult option) option"

definition defaultResult :: "ServerConfig \<Rightarrow> Limits \<Rightarrow> ProviderInitializeRequest \<Rightarrow> string \<Rightarrow> ProviderInitializeResult" where
  "defaultResult cfg limits request auth =
     (let maximumMessageBytes = min (rq_MaximumMessageBytes request) (MaxEnvelopeBytes limits) in
      \<lparr>rs_ProtocolVersion = ProtocolVersion, rs_Manifest = cfg_Manifest cfg,
       rs_NativeRuntimeVersion = cfg_NativeRuntimeVersion cfg, rs_MaximumMessageBytes = maximumMessageBytes,
       rs_MaximumChunkBytes = min (min (rq_MaximumChunkBytes request) (of_nat MaxTerminalChunkBytes)) maximumMessageBytes,
       rs_ReplaySupported = (rq_ReplaySupported request \<and> cfg_ReplaySupported cfg),
       rs_AuthenticationMode = auth,
       rs_ExperimentalFeatures = filter (\<lambda>f. f \<in> set (rq_ExperimentalFeatures request)) (cfg_ExperimentalFeatures cfg)\<rparr>)"

definition initialize ::
  "(ProviderManifest \<Rightarrow> string option) \<Rightarrow> ServerConfig \<Rightarrow> Limits \<Rightarrow> customInitialize \<Rightarrow> ProviderInitializeRequest \<Rightarrow>
     go_error + ProviderInitializeResult" where
  "initialize marshal cfg limits custom request =
     (if InitializeRequest_Validate request \<noteq> nil then Inl (newError CodeInvalidArgument)
      else
        (let advertised = manifestCapabilities (cfg_Manifest cfg) in
         if ProtocolVersion \<notin> set (rq_SupportedProtocolVersions request)
         then Inl (notSupported ''provider.initialize'' advertised)
         else (case find (\<lambda>required. \<not> Manifest_Supports (cfg_Manifest cfg) required) (rq_RequiredCapabilities request) of
           Some required \<Rightarrow> Inl (notSupported required advertised)
         | None \<Rightarrow>
             (case custom of
                Some (Inl e) \<Rightarrow> Inl e
              | Some (Inr None) \<Rightarrow> Inl (newError CodeUnavailable)
              | Some (Inr (Some result)) \<Rightarrow>
                  if ValidateProviderNegotiation request result \<noteq> nil then Inl (newError CodeInvalidArgument)
                  else (case validateCustomNegotiation marshal cfg limits result of
                          Some e \<Rightarrow> Inl e | None \<Rightarrow> Inr result)
              | None \<Rightarrow>
                  (case find (\<lambda>supported. supported \<in> set (rq_AuthenticationModes request)) (cfg_AuthenticationModes cfg) of
                     None \<Rightarrow> Inl (newError CodeUnauthenticated)
                   | Some auth \<Rightarrow>
                       if auth = [] then Inl (newError CodeUnauthenticated)
                       else
                         (let result = defaultResult cfg limits request auth in
                          if ValidateProviderNegotiation request result \<noteq> nil then Inl (newError CodeInvalidArgument)
                          else Inr result))))))"

section \<open>What a valid configuration gives\<close>

lemma validateTokenSet_nil:
  "validateTokenSet f xs n = nil \<longleftrightarrow> length xs \<le> n \<and> (\<forall>x \<in> set xs. validateToken f x = nil) \<and> distinct xs"
  by (auto simp: validateTokenSet_def each_unique_nil)

lemma validateTokenSet_filter: "validateTokenSet f xs n = nil \<Longrightarrow> validateTokenSet f (filter P xs) n = nil"
  by (auto simp: validateTokenSet_nil intro: order_trans [OF length_filter_le])

lemma wrapf_iff: "wrapf msg e = nil \<longleftrightarrow> e = nil"
  by (simp add: wrapf_def)

lemma config_facts:
  assumes "ServerConfig_validate c = nil"
  shows "cfg_AuthenticationModes c \<noteq> []" "distinct (cfg_AuthenticationModes c)"
    "mode \<in> set (cfg_AuthenticationModes c) \<Longrightarrow> InitializeResult_Validate (configCandidate c mode) = nil"
proof -
  obtain first rest where m: "cfg_AuthenticationModes c = first # rest"
    using assms by (cases "cfg_AuthenticationModes c") (auto simp: ServerConfig_validate_def)
  then have "each_unique (\<lambda>mode. wrapf ''server authentication mode is invalid'' (InitializeResult_Validate (configCandidate c mode)))
      id ''server authentication mode is duplicated'' (cfg_AuthenticationModes c) = nil"
    using assms by (simp add: ServerConfig_validate_def del: each_unique_from.simps)
  then show "distinct (cfg_AuthenticationModes c)"
    "mode \<in> set (cfg_AuthenticationModes c) \<Longrightarrow> InitializeResult_Validate (configCandidate c mode) = nil"
    unfolding each_unique_nil by (simp_all add: wrapf_iff)
  show "cfg_AuthenticationModes c \<noteq> []" using m by simp
qed

lemma candidate_parts:
  assumes "InitializeResult_Validate (configCandidate c mode) = nil"
  shows "validateProtocol ProtocolVersion = nil" "ProviderManifest_Validate (cfg_Manifest c) = nil"
    "cfg_NativeRuntimeVersion c \<noteq> [] \<Longrightarrow> validateVersion ''native_runtime_version'' (cfg_NativeRuntimeVersion c) = nil"
    "validateToken ''authentication_mode'' mode = nil" "validateTokenSet ''experimental_features'' (cfg_ExperimentalFeatures c) 64 = nil"
  using assms by (simp_all add: InitializeResult_Validate_def configCandidate_def split: if_splits)

lemma sizes_min:
  fixes q1 q2 l :: uint64
  assumes "validateSizes q1 q2 = nil" "0 < unat l" "unat l \<le> MaxMessageBytes"
  shows "validateSizes (min q1 l) (min (min q2 (of_nat MaxTerminalChunkBytes)) (min q1 l)) = nil"
proof -
  have l: "l \<noteq> 0" "l \<le> of_nat MaxMessageBytes" using assms(2,3) by (auto simp: word_le_nat_alt)
  have q: "q1 \<noteq> 0" "q1 \<le> of_nat MaxMessageBytes" "q2 \<noteq> 0" "q2 \<le> of_nat MaxTerminalChunkBytes"
    using assms(1) by (auto simp: validateSizes_def not_less)
  have "min q1 l \<noteq> 0" "min q1 l \<le> of_nat MaxMessageBytes" using l q by (auto simp: min_def)
  moreover have "min (min q2 (of_nat MaxTerminalChunkBytes)) (min q1 l) \<noteq> 0" using l q by (auto simp: min_def)
  moreover have "min (min q2 (of_nat MaxTerminalChunkBytes)) (min q1 l) \<le> of_nat MaxTerminalChunkBytes" by (simp add: min_le_iff_disj)
  moreover have "min (min q2 (of_nat MaxTerminalChunkBytes)) (min q1 l) \<le> min q1 l" by (rule min.cobounded2)
  ultimately show ?thesis using l q unfolding validateSizes_def first_err_Cons_nil if_errorf_nil by (auto simp: not_less min_le_iff_disj)
qed

lemma defaultResult_valid:
  assumes "ServerConfig_validate cfg = nil" "Limits_Validate limits = nil" "InitializeRequest_Validate q = nil"
    "auth \<in> set (cfg_AuthenticationModes cfg)"
  shows "InitializeResult_Validate (defaultResult cfg limits q auth) = nil"
proof -
  note parts = candidate_parts [OF config_facts(3) [OF assms(1,4)]]
  have "validateSizes (rq_MaximumMessageBytes q) (rq_MaximumChunkBytes q) = nil"
    using assms(3) by (simp add: InitializeRequest_Validate_def)
  from sizes_min [OF this Limits_Validate_exposure(1,2) [OF assms(2)]]
  show ?thesis using parts validateTokenSet_filter [OF parts(5)]
    by (simp add: InitializeResult_Validate_def defaultResult_def Let_def)
qed

lemma defaultResult_negotiates:
  assumes "ServerConfig_validate cfg = nil" "Limits_Validate limits = nil" "InitializeRequest_Validate q = nil"
    "auth \<in> set (cfg_AuthenticationModes cfg)" "auth \<in> set (rq_AuthenticationModes q)"
    "ProtocolVersion \<in> set (rq_SupportedProtocolVersions q)"
    "\<forall>c \<in> set (rq_RequiredCapabilities q). Manifest_Supports (cfg_Manifest cfg) c"
  shows "ValidateProviderNegotiation q (defaultResult cfg limits q auth) = nil \<longleftrightarrow>
    rq_Platform q \<in> set (m_Platforms (cfg_Manifest cfg))"
proof -
  let ?r = "defaultResult cfg limits q auth"
  have "rs_MaximumMessageBytes ?r \<le> rq_MaximumMessageBytes q" "rs_MaximumChunkBytes ?r \<le> rq_MaximumChunkBytes q"
    by (simp_all add: defaultResult_def Let_def min_le_iff_disj)
  then show ?thesis using defaultResult_valid [OF assms(1-4)] assms(3,5-7)
    by (auto simp: ValidateProviderNegotiation_def wrapf_iff each_err_nil list_ex_iff not_less defaultResult_def Let_def)
qed

section \<open>Properties\<close>

text \<open>
  C8: The SDK's own negotiation, for a validated configuration, validated limits and a valid request,
  has exactly these outcomes: an unsupported version or a missing capability is answered with the
  advertised names, no common authentication mode with \<open>unauthenticated\<close>, a platform that the manifest
  does not list with \<open>invalid_argument\<close>, and otherwise the result is the meet of the offer and the
  configuration; the final check of the result never fails for another reason.
\<close>

theorem initialize_exact:
  assumes "ServerConfig_validate cfg = nil" "Limits_Validate limits = nil" "InitializeRequest_Validate q = nil"
  shows "initialize marshal cfg limits None q =
    (if ProtocolVersion \<notin> set (rq_SupportedProtocolVersions q)
     then Inl (notSupported ''provider.initialize'' (manifestCapabilities (cfg_Manifest cfg)))
     else case find (\<lambda>c. \<not> Manifest_Supports (cfg_Manifest cfg) c) (rq_RequiredCapabilities q) of
       Some c \<Rightarrow> Inl (notSupported c (manifestCapabilities (cfg_Manifest cfg)))
     | None \<Rightarrow>
         (case find (\<lambda>mode. mode \<in> set (rq_AuthenticationModes q)) (cfg_AuthenticationModes cfg) of
            None \<Rightarrow> Inl (newError CodeUnauthenticated)
          | Some auth \<Rightarrow>
              if rq_Platform q \<in> set (m_Platforms (cfg_Manifest cfg)) then Inr (defaultResult cfg limits q auth)
              else Inl (newError CodeInvalidArgument)))"
proof (cases "ProtocolVersion \<in> set (rq_SupportedProtocolVersions q) \<and>
    find (\<lambda>c. \<not> Manifest_Supports (cfg_Manifest cfg) c) (rq_RequiredCapabilities q) = None")
  case True
  then have req: "\<forall>c \<in> set (rq_RequiredCapabilities q). Manifest_Supports (cfg_Manifest cfg) c" by (auto simp: find_None_iff)
  show ?thesis
  proof (cases "find (\<lambda>mode. mode \<in> set (rq_AuthenticationModes q)) (cfg_AuthenticationModes cfg)")
    case None
    then show ?thesis using True assms by (simp add: initialize_def Let_def)
  next
    case (Some auth)
    then have a: "auth \<in> set (cfg_AuthenticationModes cfg)" "auth \<in> set (rq_AuthenticationModes q)"
      by (auto simp: find_Some_iff)
    have "auth \<noteq> []" using candidate_parts(4) [OF config_facts(3) [OF assms(1) a(1)]] by (auto simp: validateToken_def tokenPattern_def)
    then show ?thesis using True Some assms(3) defaultResult_negotiates [OF assms a] req
      by (auto simp: initialize_def Let_def)
  qed
next
  case False
  then show ?thesis using assms(3) by (auto simp: initialize_def Let_def split: option.splits)
qed

text \<open>What the configuration imposes on a negotiated result.\<close>

lemma initialize_own:
  assumes "initialize marshal cfg limits custom q = Inr r"
  shows "rs_MaximumMessageBytes r \<le> MaxEnvelopeBytes limits \<and> rs_AuthenticationMode r \<in> set (cfg_AuthenticationModes cfg) \<and>
    set (rs_ExperimentalFeatures r) \<subseteq> set (cfg_ExperimentalFeatures cfg) \<and> (rs_ReplaySupported r \<longrightarrow> cfg_ReplaySupported cfg) \<and>
    marshal (rs_Manifest r) = marshal (cfg_Manifest cfg)"
proof (cases custom)
  case None
  then obtain auth where "find (\<lambda>mode. mode \<in> set (rq_AuthenticationModes q)) (cfg_AuthenticationModes cfg) = Some auth"
    "r = defaultResult cfg limits q auth"
    using assms by (auto simp: initialize_def Let_def split: if_splits option.splits)
  then show ?thesis by (auto simp: defaultResult_def Let_def find_Some_iff min_le_iff_disj)
next
  case (Some result)
  then have "validateCustomNegotiation marshal cfg limits r = nil"
    using assms by (auto simp: initialize_def Let_def split: if_splits option.splits sum.splits)
  then show ?thesis
    by (auto simp: validateCustomNegotiation_def each_err_nil not_less split: option.splits if_splits)
qed

text \<open>
  Whoever negotiates, the SDK or a handler of the provider, the answer stays inside both the offer
  and the configuration: both limits, the authentication mode, the features and replay, every required
  capability is in the configured manifest, and the manifest that is sent prints as the configured one.
\<close>

theorem initialize_within_bounds:
  assumes "initialize marshal cfg limits custom q = Inr r"
  shows "rs_MaximumMessageBytes r \<le> rq_MaximumMessageBytes q \<and> rs_MaximumMessageBytes r \<le> MaxEnvelopeBytes limits \<and>
    rs_MaximumChunkBytes r \<le> rq_MaximumChunkBytes q \<and> rs_MaximumChunkBytes r \<le> of_nat MaxTerminalChunkBytes \<and>
    rs_MaximumChunkBytes r \<le> rs_MaximumMessageBytes r \<and> 0 < rs_MaximumChunkBytes r \<and>
    rs_AuthenticationMode r \<in> set (rq_AuthenticationModes q) \<inter> set (cfg_AuthenticationModes cfg) \<and>
    set (rs_ExperimentalFeatures r) \<subseteq> set (rq_ExperimentalFeatures q) \<inter> set (cfg_ExperimentalFeatures cfg) \<and>
    (rs_ReplaySupported r \<longrightarrow> rq_ReplaySupported q \<and> cfg_ReplaySupported cfg) \<and>
    (\<forall>c \<in> set (rq_RequiredCapabilities q). Manifest_Supports (cfg_Manifest cfg) c) \<and>
    marshal (rs_Manifest r) = marshal (cfg_Manifest cfg)"
proof -
  have neg: "ValidateProviderNegotiation q r = nil"
    and req: "find (\<lambda>c. \<not> Manifest_Supports (cfg_Manifest cfg) c) (rq_RequiredCapabilities q) = None"
    using assms by (auto simp: initialize_def Let_def split: if_splits option.splits sum.splits)
  have sizes: "validateSizes (rs_MaximumMessageBytes r) (rs_MaximumChunkBytes r) = nil"
    "rs_MaximumMessageBytes r \<le> rq_MaximumMessageBytes q" "rs_MaximumChunkBytes r \<le> rq_MaximumChunkBytes q"
    "rs_AuthenticationMode r \<in> set (rq_AuthenticationModes q)" "set (rs_ExperimentalFeatures r) \<subseteq> set (rq_ExperimentalFeatures q)"
    "rs_ReplaySupported r \<longrightarrow> rq_ReplaySupported q"
    using neg by (auto simp: ValidateProviderNegotiation_def wrapf_iff each_err_nil InitializeResult_Validate_def)
  have "0 < rs_MaximumChunkBytes r" "rs_MaximumChunkBytes r \<le> rs_MaximumMessageBytes r" "rs_MaximumChunkBytes r \<le> of_nat MaxTerminalChunkBytes"
    using sizes(1) by (auto simp: validateSizes_def word_neq_0_conv)
  then show ?thesis using sizes initialize_own [OF assms] req by (auto simp: find_None_iff)
qed

definition sampleConfig :: ServerConfig where
  "sampleConfig =
     \<lparr>cfg_Manifest = sampleManifest, cfg_NativeRuntimeVersion = [], cfg_AuthenticationModes = [''mtls'', ''none''],
      cfg_ReplaySupported = True, cfg_ExperimentalFeatures = [''x'']\<rparr>"

lemma sampleConfig_valid: "ServerConfig_validate sampleConfig = nil" "InitializeRequest_Validate sampleOffer = nil"
  by code_simp+

lemma sampleConfig_answers:
  "initialize (\<lambda>_. None) sampleConfig TestLimits None sampleOffer = Inr (defaultResult sampleConfig TestLimits sampleOffer ''none'')"
  by code_simp

theorem initialize_exact_witness:
  "initialize (\<lambda>_. None) sampleConfig TestLimits None sampleOffer = Inr (defaultResult sampleConfig TestLimits sampleOffer ''none'')"
  using initialize_exact [OF sampleConfig_valid(1) TestLimits_valid sampleConfig_valid(2), of "\<lambda>_. None"] sampleConfig_answers by simp

theorem initialize_within_bounds_witness:
  "rs_MaximumMessageBytes (defaultResult sampleConfig TestLimits sampleOffer ''none'') \<le> MaxEnvelopeBytes TestLimits"
  using initialize_within_bounds [OF sampleConfig_answers] by simp

end
