(* ===== verification/Rpc_Marshal.thy ===== *)
theory Rpc_Marshal
  imports Rpc_Envelope Json_Print
begin

text \<open>
  Marshalling and decoding of JSON-RPC envelopes (\<open>provider/jsonrpc.go\<close>). What \<open>json.Marshal\<close> makes
  of a parameter or a result is a parse tree, printed by \<open>jprint\<close>, or \<^term>\<open>None\<close> when it fails; its
  output is already compact, so \<open>json.RawMessage\<close> fields are written as they are. An envelope has its
  field names checked before it is decoded into the request or response structure, so every field is
  found by its exact name.
\<close>

section \<open>Arrays of raw messages\<close>

fun rawElems :: "nat \<Rightarrow> bool \<Rightarrow> string \<Rightarrow> (string list \<times> string) option" where
  "rawElems 0 started s = None"
| "rawElems (Suc f) started s =
     (case nextItem (CHR '']'') started s of
        None \<Rightarrow> None
      | Some (False, t) \<Rightarrow> Some ([], t)
      | Some (True, t) \<Rightarrow>
          (case jparse f t of
             None \<Rightarrow> None
           | Some (v, u) \<Rightarrow> map_option (\<lambda>(vs, w). (rawText t u # vs, w)) (rawElems f True u)))"

definition rawArray :: "string \<Rightarrow> string list option" where
  "rawArray s =
     (case json_decode s of
        Some (JArr vs) \<Rightarrow>
          (case skipWS s of
             c # r \<Rightarrow> map_option fst (rawElems (2 * length s) False r)
           | [] \<Rightarrow> None)
      | Some JNull \<Rightarrow> Some []
      | _ \<Rightarrow> None)"

section \<open>Marshalling\<close>

definition member :: "string \<Rightarrow> string \<Rightarrow> string" where
  "member name text = jquote name @ CHR '':'' # text"

definition requestText :: "rpcRequest \<Rightarrow> string" where
  "requestText r =
     CHR ''{'' # joinComma
       ([member ''jsonrpc'' (jquote (rq_JSONRPC r))] @
        (if rq_ID r = [] then [] else [member ''id'' (jquote (rq_ID r))]) @
        [member ''method'' (jquote (rq_Method r)),
         member ''params'' (CHR ''['' # joinComma (rq_Params r) @ '']'')]) @ ''}''"

definition errorJSON :: "Error \<Rightarrow> json" where
  "errorJSON e =
     JObj ([(''code'', JStr (err_Code e)), (''message'', JStr (err_Message e))] @
       (if err_RequiredCapability e = [] then []
        else [(''required_capability'', JStr (err_RequiredCapability e))]) @
       (if err_AdvertisedCapabilities e = [] then []
        else [(''advertised_capabilities'', JArr (map JStr (err_AdvertisedCapabilities e)))]))"

definition intText :: "int \<Rightarrow> string" where
  "intText n = (if n < 0 then CHR ''-'' # decimal (nat (- n)) else decimal (nat n))"

definition rpcErrorJSON :: "rpcError \<Rightarrow> json" where
  "rpcErrorJSON e =
     JObj [(''code'', JNum (intText (re_Code e))), (''message'', JStr (re_Message e)),
           (''data'', errorJSON (re_Data e))]"

definition responseText :: "rpcResponse \<Rightarrow> string" where
  "responseText r =
     CHR ''{'' # joinComma
       ([member ''jsonrpc'' (jquote (rs_JSONRPC r)), member ''id'' (jquote (rs_ID r))] @
        (if rs_Result r = [] then [] else [member ''result'' (rs_Result r)]) @
        (case rs_Error r of None \<Rightarrow> [] | Some e \<Rightarrow> [member ''error'' (jprint (rpcErrorJSON e))])) @ ''}''"

definition mustMarshalParameter :: "json option \<Rightarrow> string" where
  "mustMarshalParameter v = (case v of None \<Rightarrow> [] | Some x \<Rightarrow> jprint x)"

text \<open>The outcome of \<open>validateOutbound\<close> on the parameter or result is the argument \<open>outbound\<close>.\<close>

definition marshalRPCRequest :: "rpcRequest \<Rightarrow> verr \<Rightarrow> uint64 \<Rightarrow> go_error + string" where
  "marshalRPCRequest request outbound maximumBytes =
     (if length (rq_Params request) \<noteq> 1 \<or> hd (rq_Params request) = [] then Inl (newError CodeInvalidArgument)
      else if outbound \<noteq> nil then Inl (newError CodeInvalidArgument)
      else if rpcRequest_validate request \<noteq> nil then Inl (newError CodeInvalidArgument)
      else marshalEnvelope (Some (requestText request)) maximumBytes)"

definition marshalRequest :: "string \<Rightarrow> string \<Rightarrow> json option \<Rightarrow> verr \<Rightarrow> uint64 \<Rightarrow> go_error + string" where
  "marshalRequest rid method parameter outbound maximumBytes =
     (if validateWireToken ''request ID'' rid \<noteq> nil then Inl (newError CodeInvalidArgument)
      else marshalRPCRequest
        \<lparr>rq_JSONRPC = jsonRPCVersion, rq_ID = rid, rq_Method = method,
         rq_Params = [mustMarshalParameter parameter]\<rparr> outbound maximumBytes)"

definition marshalNotification :: "string \<Rightarrow> json option \<Rightarrow> verr \<Rightarrow> uint64 \<Rightarrow> go_error + string" where
  "marshalNotification method parameter outbound maximumBytes =
     marshalRPCRequest
       \<lparr>rq_JSONRPC = jsonRPCVersion, rq_ID = [], rq_Method = method,
        rq_Params = [mustMarshalParameter parameter]\<rparr> outbound maximumBytes"

definition marshalResponse :: "string \<Rightarrow> json option \<Rightarrow> verr \<Rightarrow> uint64 \<Rightarrow> go_error + string" where
  "marshalResponse rid result outbound maximumBytes =
     (if outbound \<noteq> nil then Inl (newError CodeInvalidArgument)
      else case result of
        None \<Rightarrow> Inl (newError CodeInvalidArgument)
      | Some v \<Rightarrow>
          (let response = \<lparr>rs_JSONRPC = jsonRPCVersion, rs_ID = rid, rs_Result = jprint v, rs_Error = None\<rparr> in
           if rpcResponse_validate response \<noteq> nil then Inl (newError CodeInvalidArgument)
           else marshalEnvelope (Some (responseText response)) maximumBytes))"

definition marshalErrorResponse :: "string \<Rightarrow> go_error \<Rightarrow> uint64 \<Rightarrow> go_error + string" where
  "marshalErrorResponse rid err maximumBytes =
     (let response = \<lparr>rs_JSONRPC = jsonRPCVersion, rs_ID = rid, rs_Result = [], rs_Error = Some (rpcErrorFrom err)\<rparr> in
      if rpcResponse_validate response \<noteq> nil then Inl (newError CodeInvalidArgument)
      else marshalEnvelope (Some (responseText response)) maximumBytes)"

section \<open>Decoding\<close>

text \<open>\<open>protocol.Decode\<close> into a \<open>map[string]json.RawMessage\<close>.\<close>

definition unmarshalFields :: "bool \<Rightarrow> string \<Rightarrow> (string \<times> string) list document option" where
  "unmarshalFields strict text =
     map_option (\<lambda>ms. \<lparr>d_kind = DOther, d_raw = [], d_extensions = [], d_rest = ms\<rparr>) (rawObject text)"

definition decodeFields :: "string \<Rightarrow> go_error + (string \<times> string) list" where
  "decodeFields data =
     (case Decode unmarshalFields (\<lambda>_. nil) data DOther of Inl e \<Rightarrow> Inl e | Inr d \<Rightarrow> Inr (d_rest d))"

text \<open>A string field: absent or null leaves it empty, another value is a type error.\<close>

definition stringField :: "(string \<times> string) list \<Rightarrow> string \<Rightarrow> string option" where
  "stringField members name =
     (case rawLookup members name of None \<Rightarrow> Some [] | Some raw \<Rightarrow> json_string raw)"

definition unmarshalRequest :: "(string \<times> string) list \<Rightarrow> rpcRequest option" where
  "unmarshalRequest members =
     (case (stringField members ''jsonrpc'', stringField members ''id'', stringField members ''method'',
            case rawLookup members ''params'' of None \<Rightarrow> Some [] | Some raw \<Rightarrow> rawArray raw) of
        (Some version, Some rid, Some method, Some params) \<Rightarrow>
          Some \<lparr>rq_JSONRPC = version, rq_ID = rid, rq_Method = method, rq_Params = params\<rparr>
      | _ \<Rightarrow> None)"

definition decodeRPCRequest :: "string \<Rightarrow> uint64 \<Rightarrow> go_error + rpcRequest" where
  "decodeRPCRequest data maximumBytes =
     (case validateEnvelope data maximumBytes of
        Some e \<Rightarrow> Inl e
      | None \<Rightarrow>
          (case decodeFields data of
             Inl e \<Rightarrow> Inl e
           | Inr members \<Rightarrow>
               (case validateEnvelopeFields members [''jsonrpc'', ''method'', ''params'']
                       [''jsonrpc'', ''id'', ''method'', ''params''] of
                  Some e \<Rightarrow> Inl e
                | None \<Rightarrow>
                    (case unmarshalRequest members of
                       None \<Rightarrow> Inl (protocolError CodeInvalidArgument)
                     | Some request \<Rightarrow>
                         if rawLookup members ''id'' \<noteq> None \<and> rq_ID request = []
                         then Inl (newError CodeInvalidArgument)
                         else if rpcRequest_validate request \<noteq> nil then Inl (newError CodeInvalidArgument)
                         else Inr request))))"

text \<open>The reflective decoding of the error object is the parameter \<open>unmarshalError\<close>.\<close>

definition unmarshalResponse :: "(string \<Rightarrow> rpcError option option) \<Rightarrow> (string \<times> string) list \<Rightarrow> rpcResponse option" where
  "unmarshalResponse unmarshalError members =
     (case (stringField members ''jsonrpc'', stringField members ''id'',
            case rawLookup members ''error'' of None \<Rightarrow> Some None | Some raw \<Rightarrow> unmarshalError raw) of
        (Some version, Some rid, Some err) \<Rightarrow>
          Some \<lparr>rs_JSONRPC = version, rs_ID = rid,
                rs_Result = (case rawLookup members ''result'' of None \<Rightarrow> [] | Some raw \<Rightarrow> raw), rs_Error = err\<rparr>
      | _ \<Rightarrow> None)"

definition decodeRPCResponse :: "(string \<Rightarrow> rpcError option option) \<Rightarrow> string \<Rightarrow> uint64 \<Rightarrow> go_error + rpcResponse" where
  "decodeRPCResponse unmarshalError data maximumBytes =
     (case validateEnvelope data maximumBytes of
        Some e \<Rightarrow> Inl e
      | None \<Rightarrow>
          (case decodeFields data of
             Inl e \<Rightarrow> Inl e
           | Inr members \<Rightarrow>
               if validateEnvelopeFields members [''jsonrpc'', ''id''] [''jsonrpc'', ''id'', ''result'', ''error''] \<noteq> nil
               then Inl (newError CodeInvalidArgument)
               else (case unmarshalResponse unmarshalError members of
                       None \<Rightarrow> Inl (protocolError CodeInvalidArgument)
                     | Some response \<Rightarrow>
                         if rpcResponse_validate response \<noteq> nil then Inl (newError CodeInvalidArgument)
                         else Inr response)))"

text \<open>
  Decoding a parameter or a result into a destination of kind \<open>dst\<close>, with the reflection of the
  destination as \<open>unmarshal\<close>, as for \<open>Decode\<close>.
\<close>

definition decodeRPCParam ::
  "(bool \<Rightarrow> string \<Rightarrow> 'a document option) \<Rightarrow> ('a document \<Rightarrow> verr) \<Rightarrow> rpcRequest \<Rightarrow> doc_kind \<Rightarrow> go_error + 'a document" where
  "decodeRPCParam unmarshal validate request dst =
     (case rq_Params request of
        [param] \<Rightarrow>
          if decodeJSON unmarshal param True = None then Inl (newError CodeInvalidArgument)
          else Decode unmarshal validate param dst
      | _ \<Rightarrow> Inl (newError CodeInvalidArgument))"

definition decodeRPCResult ::
  "(bool \<Rightarrow> string \<Rightarrow> 'a document option) \<Rightarrow> ('a document \<Rightarrow> verr) \<Rightarrow> rpcResponse \<Rightarrow> doc_kind \<Rightarrow> go_error + 'a document" where
  "decodeRPCResult unmarshal validate response dst =
     (case rs_Error response of
        Some e \<Rightarrow> Inl (Structured (re_Data e))
      | None \<Rightarrow>
          if rs_Result response = [] then Inl (newError CodeInvalidArgument)
          else Decode unmarshal validate (rs_Result response) dst)"

definition decodeRPCValue ::
  "(bool \<Rightarrow> string \<Rightarrow> 'a document option) \<Rightarrow> ('a document \<Rightarrow> verr) \<Rightarrow> string \<Rightarrow> doc_kind \<Rightarrow> go_error + 'a document" where
  "decodeRPCValue unmarshal validate raw dst =
     (case decodeRPCParam unmarshal validate
             \<lparr>rq_JSONRPC = jsonRPCVersion, rq_ID = ''validation-request'', rq_Method = ''validation'', rq_Params = [raw]\<rparr> dst of
        Inl e \<Rightarrow> Inl e
      | Inr _ \<Rightarrow>
          if decodeJSON unmarshal raw True = None then Inl (newError CodeInvalidArgument)
          else Decode unmarshal validate raw dst)"

section \<open>The raw texts inside an envelope\<close>

lemma rawText_length: "length (rawText t u) \<le> length t"
  using length_skipWS [of t] by (simp add: rawText_def)

lemma rawElems_jelems:
  "jelems f st s = Some (vs, r) \<Longrightarrow>
     \<exists>rs. rawElems f st s = Some (rs, r) \<and>
       list_all2 (\<lambda>raw v. parseJSON raw = Some v \<and> length raw \<le> length s) rs vs"
proof (induction f arbitrary: st s vs r)
  case (Suc f)
  consider "nextItem (CHR '']'') st s = Some (False, r)" "vs = []"
    | t v u vs' where "nextItem (CHR '']'') st s = Some (True, t)"
        "jparse f t = Some (v, u)" "jelems f True u = Some (vs', r)" "vs = v # vs'"
    using Suc.prems by (auto split: option.splits bool.splits)
  then show ?case
  proof cases
    case 2
    have t: "length t \<le> length s" using nextItem_le [OF 2(1)] by simp
    moreover have "length u < length t" by (rule jparse_less [OF 2(2)])
    ultimately have u: "length u \<le> length s" by simp
    obtain rs where rs: "rawElems f True u = Some (rs, r)"
      "list_all2 (\<lambda>raw v. parseJSON raw = Some v \<and> length raw \<le> length u) rs vs'"
      using Suc.IH [OF 2(3)] by blast
    have "list_all2 (\<lambda>raw v. parseJSON raw = Some v \<and> length raw \<le> length s) rs vs'"
      by (rule list_all2_mono [OF rs(2)]) (use u in simp)
    with rs(1) show ?thesis using 2 rawText_parse [OF 2(2)] rawText_length [of t u] t by simp
  qed simp
qed simp

lemma rawArray_parse:
  assumes "json_decode s = Some (JArr vs)"
  obtains rs where "rawArray s = Some rs"
    "list_all2 (\<lambda>raw v. parseJSON raw = Some v \<and> length raw \<le> length s) rs vs"
proof -
  from assms obtain r where "jparse (json_fuel s) s = Some (JArr vs, r)"
    by (auto simp: json_decode_def parseJSON_def split: option.splits if_splits)
  then obtain t where t: "skipWS s = CHR ''['' # t" "jelems (2 * length s) False t = Some (vs, r)"
    by (auto simp: scanScalar_def split: list.splits if_splits)
  then obtain rs where rs: "rawElems (2 * length s) False t = Some (rs, r)"
    and all: "list_all2 (\<lambda>raw v. parseJSON raw = Some v \<and> length raw \<le> length t) rs vs"
    using rawElems_jelems by blast
  have "length t \<le> length s" using length_skipWS [of s] t(1) by simp
  then have "list_all2 (\<lambda>raw v. parseJSON raw = Some v \<and> length raw \<le> length s) rs vs"
    using all by (auto elim!: list_all2_mono)
  then show thesis using that t rs assms by (simp add: rawArray_def)
qed

lemma rawMembers_length: "rawMembers f st s = Some (rs, r) \<Longrightarrow> (k, raw) \<in> set rs \<Longrightarrow> length raw \<le> length s"
proof (induction f arbitrary: st s rs r)
  case (Suc f)
  consider "rs = []"
    | t k' q v u rs' where "nextItem (CHR ''}'') st s = Some (True, t)" "scanKey t = Some (k', q)"
        "jparse f q = Some (v, u)" "rawMembers f True u = Some (rs', r)" "rs = (k', rawText q u) # rs'"
    using Suc.prems(1) by (auto split: option.splits bool.splits)
  then show ?case
  proof cases
    case 2
    have "length t \<le> length s" "length q < length t" "length u < length q"
      using nextItem_le [OF 2(1)] scanKey_less [OF 2(2)] jparse_less [OF 2(3)] by simp_all
    then show ?thesis using Suc.IH [OF 2(4)] Suc.prems(2) 2(5) rawText_length [of q u] by fastforce
  qed (use Suc.prems in simp)
qed simp

lemma rawObject_length: "rawObject s = Some rs \<Longrightarrow> (k, raw) \<in> set rs \<Longrightarrow> length raw \<le> length s"
proof -
  assume a: "rawObject s = Some rs" "(k, raw) \<in> set rs"
  then obtain c t r where "skipWS s = c # t" "rawMembers (2 * length s) False t = Some (rs, r)"
    by (auto simp: rawObject_def split: option.splits json.splits list.splits)
  then show "length raw \<le> length s"
    using rawMembers_length [of "2 * length s" False t rs r k raw] a(2) length_skipWS [of s] by simp
qed

section \<open>Round trip of requests\<close>

text \<open>The envelope as a tree.\<close>

definition requestJSON :: "string \<Rightarrow> string \<Rightarrow> json \<Rightarrow> json" where
  "requestJSON rid method v =
     JObj ([(''jsonrpc'', JStr jsonRPCVersion)] @ (if rid = [] then [] else [(''id'', JStr rid)]) @
       [(''method'', JStr method), (''params'', JArr [v])])"

lemma requestText_jprint:
  "requestText \<lparr>rq_JSONRPC = jsonRPCVersion, rq_ID = rid, rq_Method = method, rq_Params = [jprint v]\<rparr> =
   jprint (requestJSON rid method v)"
  by (simp add: requestText_def requestJSON_def member_def joinComma_def)

lemma requestJSON_printable:
  "plainText rid \<Longrightarrow> plainText method \<Longrightarrow> printable v \<Longrightarrow> printable (requestJSON rid method v)"
  by (simp add: requestJSON_def plainByte_def)

lemma requestJSON_distinct: "jdistinct (requestJSON rid method v) = jdistinct v"
  by (simp add: requestJSON_def)

lemma requestJSON_depth: "jdepth (requestJSON rid method v) = Suc (Suc (jdepth v))"
  by (simp add: requestJSON_def)

lemma json_string_parse: "parseJSON raw = Some (JStr t) \<Longrightarrow> json_string raw = Some t"
  by (simp add: json_string_def json_decode_def)

lemma decodeFields_object:
  assumes "json_decode data = Some (JObj ms)" "jdistinct (JObj ms)" "length data \<le> MaxMessageBytes"
  obtains rs where "decodeFields data = Inr rs" "map fst rs = map fst ms"
    "\<And>k v. (k, v) \<in> set ms \<Longrightarrow> \<exists>raw. rawLookup rs k = Some raw \<and> parseJSON raw = Some v \<and> length raw \<le> length data"
proof -
  obtain rs where rs: "rawObject data = Some rs" "map fst rs = map fst ms"
    "\<And>k v. (k, v) \<in> set ms \<Longrightarrow> \<exists>raw. (k, raw) \<in> set rs \<and> parseJSON raw = Some v"
    using rawObject_parse [OF assms(1)] by metis
  have "distinct (map fst rs)" using assms(2) rs(2) by simp
  then have "\<exists>raw. rawLookup rs k = Some raw \<and> parseJSON raw = Some v \<and> length raw \<le> length data"
    if "(k, v) \<in> set ms" for k v
    using rs(3) [OF that] rawObject_length [OF rs(1)] by (auto simp: rawLookup_distinct)
  moreover have "decodeFields data = Inr rs"
    using assms rs(1)
    by (auto simp: decodeFields_def Decode_def rejectReservedAuthorityFields_def decodeJSON_def
        isClosedSecurityDocument_def unmarshalFields_def json_Valid_def normalizeDecoded_def
        rejectDuplicateKeys_nil json_decode_def split: option.splits if_splits)
  ultimately show thesis using that rs(2) by blast
qed

lemma lookup_None_outside: "map fst rs = ks \<Longrightarrow> k \<notin> set ks \<Longrightarrow> rawLookup rs k = None"
  by (force simp: rawLookup_None)

lemma rpcRequest_of_fields:
  assumes "json_decode data = Some (requestJSON rid method v)" "jdistinct v" "v = JObj ms"
    "length data \<le> MaxMessageBytes" "jdepth v \<le> 9998"
  obtains rs p where "decodeFields data = Inr rs"
    "validateEnvelopeFields rs [''jsonrpc'', ''method'', ''params''] [''jsonrpc'', ''id'', ''method'', ''params''] = nil"
    "unmarshalRequest rs = Some \<lparr>rq_JSONRPC = jsonRPCVersion, rq_ID = rid, rq_Method = method, rq_Params = [p]\<rparr>"
    "rawLookup rs ''id'' \<noteq> None \<longrightarrow> rid \<noteq> []" "parseJSON p = Some v" "length p \<le> length data"
proof -
  let ?ms = "[(''jsonrpc'', JStr jsonRPCVersion)] @ (if rid = [] then [] else [(''id'', JStr rid)]) @
       [(''method'', JStr method), (''params'', JArr [v])]"
  have d: "json_decode data = Some (JObj ?ms)" "jdistinct (JObj ?ms)"
    using assms(1,2) requestJSON_distinct [of rid "method" v] by (simp_all only: requestJSON_def)
  obtain rs where rs: "decodeFields data = Inr rs" "map fst rs = map fst ?ms"
    "\<And>k v. (k, v) \<in> set ?ms \<Longrightarrow> \<exists>raw. rawLookup rs k = Some raw \<and> parseJSON raw = Some v \<and> length raw \<le> length data"
    using decodeFields_object [OF d assms(4)] by metis
  obtain r1 where r1: "rawLookup rs ''jsonrpc'' = Some r1" "json_string r1 = Some jsonRPCVersion"
    using rs(3) [of "''jsonrpc''" "JStr jsonRPCVersion"] json_string_parse by auto
  obtain r2 where r2: "rawLookup rs ''method'' = Some r2" "json_string r2 = Some method"
    using rs(3) [of "''method''" "JStr method"] json_string_parse by auto
  obtain r3 where r3: "rawLookup rs ''params'' = Some r3" "parseJSON r3 = Some (JArr [v])" "length r3 \<le> length data"
    using rs(3) [of "''params''" "JArr [v]"] by auto
  from r3(2) assms(5) have "json_decode r3 = Some (JArr [v])" by (simp add: json_decode_def)
  then obtain p where p: "rawArray r3 = Some [p]" "parseJSON p = Some v" "length p \<le> length r3"
    by (rule rawArray_parse) (auto simp: list_all2_Cons2)
  have id: "stringField rs ''id'' = Some rid" "rawLookup rs ''id'' \<noteq> None \<longrightarrow> rid \<noteq> []"
  proof -
    show "rawLookup rs ''id'' \<noteq> None \<longrightarrow> rid \<noteq> []" using lookup_None_outside [OF rs(2), of "''id''"] by auto
    show "stringField rs ''id'' = Some rid"
    proof (cases "rid = []")
      case True
      then show ?thesis using lookup_None_outside [OF rs(2), of "''id''"] by (simp add: stringField_def)
    next
      case False
      then obtain r where "rawLookup rs ''id'' = Some r" "parseJSON r = Some (JStr rid)"
        using rs(3) [of "''id''" "JStr rid"] by auto
      then show ?thesis by (simp add: stringField_def json_string_parse)
    qed
  qed
  have "set (map fst rs) \<subseteq> {''jsonrpc'', ''id'', ''method'', ''params''}" unfolding rs(2) by auto
  then have "validateEnvelopeFields rs [''jsonrpc'', ''method'', ''params''] [''jsonrpc'', ''id'', ''method'', ''params''] = nil"
    using r1(1) r2(1) r3(1) by (auto simp: validateEnvelopeFields_def each_err_nil)
  moreover have "unmarshalRequest rs = Some \<lparr>rq_JSONRPC = jsonRPCVersion, rq_ID = rid, rq_Method = method, rq_Params = [p]\<rparr>"
    using r1 r2 r3(1) id(1) p(1) by (simp add: unmarshalRequest_def stringField_def)
  ultimately show thesis using that [OF rs(1)] id(2) p r3(3) by simp
qed

lemma marshalRPCRequest_decodes:
  assumes "marshalRPCRequest \<lparr>rq_JSONRPC = jsonRPCVersion, rq_ID = rid, rq_Method = method, rq_Params = [jprint v]\<rparr> nil m = Inr data"
    "printable v" "plainText rid" "plainText method" "jdepth v \<le> 9998"
  shows "\<exists>p. decodeRPCRequest data m =
      Inr \<lparr>rq_JSONRPC = jsonRPCVersion, rq_ID = rid, rq_Method = method, rq_Params = [p]\<rparr> \<and> parseJSON p = Some v"
proof -
  let ?r = "\<lambda>p. \<lparr>rq_JSONRPC = jsonRPCVersion, rq_ID = rid, rq_Method = method, rq_Params = [p]\<rparr>"
  from assms(1) have val: "rpcRequest_validate (?r (jprint v)) = nil"
    and env: "marshalEnvelope (Some (requestText (?r (jprint v)))) m = Inr data"
    by (auto simp: marshalRPCRequest_def split: if_splits)
  from env have data: "data = jprint (requestJSON rid method v)" "validateMaximumBytes m = nil"
    "length data \<le> unat m" "newline_ch \<notin> set data" "return_ch \<notin> set data"
    by (auto simp: marshalEnvelope_def requestText_jprint split: option.splits if_splits)
  have ne: "data \<noteq> []" by (simp add: data(1) requestJSON_def)
  then have ve: "validateEnvelope data m = nil"
    using data by (simp add: validateEnvelope_nil validateMaximumBytes_nil)
  then have len: "length data \<le> MaxMessageBytes" by (simp add: validateEnvelope_nil)
  have "parseJSON data = Some (requestJSON rid method v)"
    unfolding data(1) by (intro parse_jprint requestJSON_printable assms)
  then have jd: "json_decode data = Some (requestJSON rid method v)"
    using assms(5) by (simp add: json_decode_def requestJSON_depth)
  from val have "validateObject (jprint v) = nil" by (simp add: rpcRequest_validate_def)
  moreover have "parseJSON (jprint v) = Some v" by (rule parse_jprint [OF assms(2)])
  ultimately obtain ms where ms: "v = JObj ms" "jdistinct v" "numbersInRange v"
    by (auto simp: validateObject_nil json_decode_def split: if_splits)
  obtain rs p where rs: "decodeFields data = Inr rs"
    "validateEnvelopeFields rs [''jsonrpc'', ''method'', ''params''] [''jsonrpc'', ''id'', ''method'', ''params''] = nil"
    "unmarshalRequest rs = Some (?r p)"
    "rawLookup rs ''id'' \<noteq> None \<longrightarrow> rid \<noteq> []" "parseJSON p = Some v" "length p \<le> length data"
    by (rule rpcRequest_of_fields [OF jd ms(2,1) len assms(5)])
  have "validateObject p = nil"
    using rs(5,6) len ms assms(5) by (auto simp: validateObject_nil json_decode_def)
  then have "rpcRequest_validate (?r p) = nil" using val by (auto simp: rpcRequest_validate_def split: if_splits)
  then show ?thesis using ve rs by (auto simp: decodeRPCRequest_def)
qed


definition sampleParam :: json where
  "sampleParam = JObj [(''a'', JStr ''b'')]"


end
