(* ===== verification/Mutation_Ledger.thy ===== *)
theory Mutation_Ledger
  imports Rpc_Marshal Proto_Manifest Provider_Limits
begin

text \<open>
  The idempotency ledger of the provider server (\<open>provider/server.go\<close>): \<open>executeMutation\<close> reserves a
  record under the server's lock, runs the handler without it, and finalizes the record; a retry with
  the same key is answered from the record. The tables hold pointers to records and compare them, so
  records live in a heap and a pointer is an index. What the handler, the contexts and the encoder do
  between the critical sections is the argument \<open>env\<close>.
\<close>

section \<open>State\<close>

record idempotencyRecord =
  ir_digest :: string
  ir_status :: string
  ir_result :: string
  ir_err :: "Error option"
  ir_reservedBytes :: uint64
  ir_finalized :: bool
  ir_idempotencyID :: string
  ir_commandID :: string
  ir_connectionID :: string

text \<open>\<open>done\<close> is closed exactly when the record has been finalized.\<close>

record Server =
  sv_limits :: Limits
  sv_idempotency :: "(string \<times> nat) list"
  sv_commands :: "(string \<times> nat) list"
  sv_records :: "idempotencyRecord list"
  sv_idempotencyBytes :: uint64

definition newServer :: "Limits \<Rightarrow> Server" where
  "newServer limits =
     \<lparr>sv_limits = limits, sv_idempotency = [], sv_commands = [], sv_records = [], sv_idempotencyBytes = 0\<rparr>"

abbreviation dropKey :: "string \<Rightarrow> (string \<times> nat) list \<Rightarrow> (string \<times> nat) list" where
  "dropKey k table \<equiv> filter (\<lambda>(k', _). k' \<noteq> k) table"

text \<open>The part of \<open>MutationMeta\<close> that the ledger reads.\<close>

record MutationMeta =
  mm_Capability :: string
  mm_CommandID :: string
  mm_IdempotencyKey :: string
  mm_CommandDigest :: string

definition mutationRecordIDs :: "string \<Rightarrow> MutationMeta \<Rightarrow> string \<times> string \<times> string" where
  "mutationRecordIDs connectionID meta =
     (if mm_Capability meta = ''terminal.attach''
      then (mm_Capability meta @ CHR 0x00 # connectionID @ CHR 0x00 # mm_IdempotencyKey meta, mm_CommandID meta, connectionID)
      else (mm_Capability meta @ CHR 0x00 # mm_IdempotencyKey meta, mm_CommandID meta, []))"

section \<open>Finalization\<close>

definition finalizeMutation ::
  "Server \<Rightarrow> nat \<Rightarrow> string \<Rightarrow> string \<Rightarrow> Error option \<Rightarrow> bool \<Rightarrow> Server" where
  "finalizeMutation s i status result failure remove =
     (let record0 = sv_records s ! i in
      if ir_finalized record0 then s
      else
        (let retained = (if status = CommandResultSucceeded then of_nat (length result) else 0 :: uint64);
             bytes = (if retained \<le> ir_reservedBytes record0
                      then sv_idempotencyBytes s - (ir_reservedBytes record0 - retained)
                      else sv_idempotencyBytes s);
             record1 = record0\<lparr>ir_status := status, ir_result := result,
                ir_err := (case failure of None \<Rightarrow> ir_err record0 | Some e \<Rightarrow> Some e),
                ir_reservedBytes := retained, ir_finalized := True\<rparr>
         in if remove then
              s\<lparr>sv_records := (sv_records s)[i := record1\<lparr>ir_reservedBytes := 0\<rparr>],
                sv_idempotency :=
                  (if map_of (sv_idempotency s) (ir_idempotencyID record1) = Some i
                   then dropKey (ir_idempotencyID record1) (sv_idempotency s) else sv_idempotency s),
                sv_commands :=
                  (if map_of (sv_commands s) (ir_commandID record1) = Some i
                   then dropKey (ir_commandID record1) (sv_commands s) else sv_commands s),
                sv_idempotencyBytes := (if retained \<le> bytes then bytes - retained else bytes)\<rparr>
            else
              s\<lparr>sv_records := (sv_records s)[i := record1], sv_idempotencyBytes := bytes\<rparr>))"

section \<open>Reservation\<close>

datatype begun = Prior nat | Refused go_error | Reserved nat

definition beginMutation :: "Server \<Rightarrow> string \<Rightarrow> MutationMeta \<Rightarrow> uint64 \<Rightarrow> begun \<times> Server" where
  "beginMutation s connectionID meta maximumBytes =
     (case mutationRecordIDs connectionID meta of
        (idempotencyID, commandID, scopedConnection) \<Rightarrow>
          (case map_of (sv_idempotency s) idempotencyID of
             Some i \<Rightarrow>
               if ir_digest (sv_records s ! i) \<noteq> mm_CommandDigest meta
               then (Refused (newError CodeConflict), s) else (Prior i, s)
           | None \<Rightarrow>
               if map_of (sv_commands s) commandID \<noteq> None then (Refused (newError CodeConflict), s)
               else if int (length (sv_idempotency s)) \<ge> MaxIdempotencyEntries (sv_limits s)
               then (Refused (newError CodeResourceExhausted), s)
               else if maximumBytes > MaxIdempotencyBytes (sv_limits s) - sv_idempotencyBytes s
               then (Refused (newError CodeResourceExhausted), s)
               else
                 (Reserved (length (sv_records s)),
                  s\<lparr>sv_records := sv_records s @
                       [\<lparr>ir_digest = mm_CommandDigest meta, ir_status = CommandResultPending, ir_result = [],
                         ir_err = None, ir_reservedBytes = maximumBytes, ir_finalized = False,
                         ir_idempotencyID = idempotencyID, ir_commandID = commandID,
                         ir_connectionID = scopedConnection\<rparr>],
                    sv_idempotency := (idempotencyID, length (sv_records s)) # sv_idempotency s,
                    sv_commands := (commandID, length (sv_records s)) # sv_commands s,
                    sv_idempotencyBytes := sv_idempotencyBytes s + maximumBytes\<rparr>)))"

text \<open>
  The wait of a retry on the earlier record: the branch the \<open>select\<close> takes is an argument, and
  \<^term>\<open>None\<close> means that it is not ready.
\<close>

datatype awaited = DoneClosed | CallerDone go_error

definition awaitPrior :: "Server \<Rightarrow> nat \<Rightarrow> awaited \<Rightarrow> (go_error + string) option" where
  "awaitPrior s i branch =
     (case branch of
        CallerDone e \<Rightarrow> Some (Inl (newError (errorCode e)))
      | DoneClosed \<Rightarrow>
          (let prior = sv_records s ! i in
           if \<not> ir_finalized prior then None
           else if ir_status prior = CommandResultSucceeded then Some (Inr (ir_result prior))
           else if ir_status prior = CommandResultFailed
           then map_option (\<lambda>e. Inl (Structured e)) (ir_err prior)
           else if ir_status prior = CommandResultOutcomeUnknown then Some (Inl (newError CodeOutcomeUnknown))
           else Some (Inl (newError CodeUnavailable))))"

section \<open>The handler's outcome\<close>

text \<open>
  What happens between the reservation and the response: the admission of a subscription (\<^term>\<open>None\<close>
  when the mutation needs none), the state of the contexts, the handler, the preparation of the
  subscription and the encoding of the result.
\<close>

datatype handlerOutcome = HandlerError go_error | PostResultError | HandlerValue "json option"

record mutationEnv =
  me_admission :: "verr option"
  me_setupErr :: verr
  me_handler :: handlerOutcome
  me_ctxErr :: verr
  me_prepareErr :: verr

datatype mutationPlan =
    Finish string "Error option" bool go_error
  | Answer string

definition probeID :: string where
  "probeID = replicate 256 (CHR ''r'')"

abbreviation unknownOutcome :: mutationPlan where
  "unknownOutcome \<equiv> Finish CommandResultOutcomeUnknown None False (newError CodeOutcomeUnknown)"

abbreviation failWith :: "go_error \<Rightarrow> bool \<Rightarrow> mutationPlan" where
  "failWith e remove \<equiv>
     Finish CommandResultFailed (Some (normalizeProtocolError e)) remove (Structured (normalizeProtocolError e))"

definition decideMutation :: "mutationEnv \<Rightarrow> uint64 \<Rightarrow> mutationPlan" where
  "decideMutation env maximumBytes =
     (case me_admission env of
        Some (Some e) \<Rightarrow> failWith e True
      | admission \<Rightarrow>
          (case me_setupErr env of
             Some e \<Rightarrow> failWith (newError (errorCode e)) False
           | None \<Rightarrow>
               (case me_handler env of
                  HandlerError e \<Rightarrow> failWith e False
                | PostResultError \<Rightarrow> unknownOutcome
                | HandlerValue encoded \<Rightarrow>
                    if me_ctxErr env \<noteq> nil then unknownOutcome
                    else if admission \<noteq> None \<and> me_prepareErr env \<noteq> nil then unknownOutcome
                    else (case encoded of
                            None \<Rightarrow> unknownOutcome
                          | Some v \<Rightarrow>
                              (case marshalResponse probeID (Some v) nil maximumBytes of
                                 Inl _ \<Rightarrow> unknownOutcome
                               | Inr _ \<Rightarrow> Answer (jprint v))))))"

definition finishMutation :: "Server \<Rightarrow> nat \<Rightarrow> mutationPlan \<Rightarrow> (go_error + string) \<times> Server" where
  "finishMutation s i plan =
     (case plan of
        Finish status failure remove e \<Rightarrow> (Inl e, finalizeMutation s i status [] failure remove)
      | Answer raw \<Rightarrow> (Inr raw, s))"

text \<open>The two ends of the response action: the response was flushed, or it was not.\<close>

definition commitMutation :: "Server \<Rightarrow> nat \<Rightarrow> string \<Rightarrow> Server" where
  "commitMutation s i raw = finalizeMutation s i CommandResultSucceeded raw None False"

definition rollbackMutation :: "Server \<Rightarrow> nat \<Rightarrow> Server" where
  "rollbackMutation s i = finalizeMutation s i CommandResultOutcomeUnknown [] None False"

text \<open>\<open>executeMutation\<close> when no other call intervenes; \<open>Some i\<close> is the record of the action to commit.\<close>

definition executeMutation ::
  "Server \<Rightarrow> string \<Rightarrow> MutationMeta \<Rightarrow> uint64 \<Rightarrow> mutationEnv \<Rightarrow> awaited \<Rightarrow>
     (go_error + string) option \<times> nat option \<times> Server" where
  "executeMutation s connectionID meta maximumBytes env branch =
     (case beginMutation s connectionID meta maximumBytes of
        (Prior i, s') \<Rightarrow> (awaitPrior s' i branch, None, s')
      | (Refused e, s') \<Rightarrow> (Some (Inl e), None, s')
      | (Reserved i, s') \<Rightarrow>
          (case finishMutation s' i (decideMutation env maximumBytes) of
             (Inl e, s'') \<Rightarrow> (Some (Inl e), None, s'')
           | (Inr raw, s'') \<Rightarrow> (Some (Inr raw), Some i, s'')))"

section \<open>Release and lookup\<close>

definition removeRecord :: "Server \<Rightarrow> nat \<Rightarrow> Server" where
  "removeRecord s i =
     (let record0 = sv_records s ! i in
      s\<lparr>sv_idempotency :=
          (if map_of (sv_idempotency s) (ir_idempotencyID record0) = Some i
           then dropKey (ir_idempotencyID record0) (sv_idempotency s) else sv_idempotency s),
        sv_commands :=
          (if map_of (sv_commands s) (ir_commandID record0) = Some i
           then dropKey (ir_commandID record0) (sv_commands s) else sv_commands s),
        sv_idempotencyBytes :=
          (if ir_reservedBytes record0 \<le> sv_idempotencyBytes s
           then sv_idempotencyBytes s - ir_reservedBytes record0 else sv_idempotencyBytes s),
        sv_records := (sv_records s)[i := record0\<lparr>ir_reservedBytes := 0\<rparr>]\<rparr>)"

definition releaseConnection :: "Server \<Rightarrow> string \<Rightarrow> Server" where
  "releaseConnection s connectionID =
     (let records = map snd (filter (\<lambda>(_, i). ir_connectionID (sv_records s ! i) = connectionID) (sv_idempotency s));
          s1 = fold (\<lambda>i t. finalizeMutation t i CommandResultOutcomeUnknown [] None False) records s
      in fold (\<lambda>i t. removeRecord t i) records s1)"

text \<open>\<open>commandResult\<close>; the clock is an argument. A failed record without an error would be a nil dereference, \<^term>\<open>None\<close>.\<close>

definition commandResult :: "Server \<Rightarrow> string \<Rightarrow> gotime \<Rightarrow> (go_error + CommandResult) option" where
  "commandResult s commandID now =
     (case map_of (sv_commands s) commandID of
        None \<Rightarrow> Some (Inl (newError CodeUnavailable))
      | Some i \<Rightarrow>
          (let r = sv_records s ! i;
               base = \<lparr>cres_CommandID = commandID, cres_Status = CommandResultPending, cres_Result = [],
                       cres_Error = None, cres_ObservedAt = now\<rparr>
           in if \<not> ir_finalized r then Some (Inr base)
              else if ir_status r = CommandResultFailed
              then map_option (\<lambda>e. Inr (base\<lparr>cres_Status := CommandResultFailed, cres_Error := Some e\<rparr>)) (ir_err r)
              else if ir_status r = CommandResultSucceeded
              then Some (Inr (base\<lparr>cres_Status := CommandResultSucceeded, cres_Result := ir_result r\<rparr>))
              else if ir_status r = CommandResultOutcomeUnknown
              then Some (Inr (base\<lparr>cres_Status := CommandResultOutcomeUnknown\<rparr>))
              else Some (Inr base)))"

section \<open>The ledger invariant\<close>

definition kept :: "Server \<Rightarrow> nat set" where
  "kept s = snd ` set (sv_idempotency s)"

definition reservedSum :: "Server \<Rightarrow> nat" where
  "reservedSum s = (\<Sum>i \<in> kept s. unat (ir_reservedBytes (sv_records s ! i)))"

definition recordOk :: "idempotencyRecord \<Rightarrow> bool" where
  "recordOk r \<longleftrightarrow>
     (ir_finalized r \<longleftrightarrow> ir_status r \<noteq> CommandResultPending) \<and>
     (ir_status r = CommandResultFailed \<longrightarrow> ir_err r \<noteq> None)"

text \<open>
  Both tables hold the same records under their identifiers; the byte counter is the sum of what they
  reserve; a record that is no longer in the tables is finalized, reserves nothing and was bound to a
  connection.
\<close>

definition ledgerInv :: "Server \<Rightarrow> bool" where
  "ledgerInv s \<longleftrightarrow>
     distinct (map fst (sv_idempotency s)) \<and> distinct (map fst (sv_commands s)) \<and>
     (\<forall>k i. (k, i) \<in> set (sv_idempotency s) \<longrightarrow> i < length (sv_records s) \<and> ir_idempotencyID (sv_records s ! i) = k) \<and>
     (\<forall>k i. (k, i) \<in> set (sv_commands s) \<longrightarrow> i < length (sv_records s) \<and> ir_commandID (sv_records s ! i) = k) \<and>
     snd ` set (sv_commands s) = kept s \<and>
     unat (sv_idempotencyBytes s) = reservedSum s \<and>
     unat (sv_idempotencyBytes s) \<le> unat (MaxIdempotencyBytes (sv_limits s)) \<and>
     int (length (sv_idempotency s)) \<le> max 0 (MaxIdempotencyEntries (sv_limits s)) \<and>
     (\<forall>i < length (sv_records s). recordOk (sv_records s ! i)) \<and>
     (\<forall>i < length (sv_records s). i \<notin> kept s \<longrightarrow>
        ir_finalized (sv_records s ! i) \<and> ir_reservedBytes (sv_records s ! i) = 0 \<and> ir_connectionID (sv_records s ! i) \<noteq> [])"

lemma finite_kept [simp]: "finite (kept s)"
  by (simp add: kept_def)

lemma kept_bound: "ledgerInv s \<Longrightarrow> i \<in> kept s \<Longrightarrow> i < length (sv_records s)"
  by (auto simp: ledgerInv_def kept_def)

lemma newServer_inv: "ledgerInv (newServer limits)"
  by (simp add: ledgerInv_def newServer_def kept_def reservedSum_def)

text \<open>The sum after one record has been replaced.\<close>

lemma reserved_split:
  assumes "i \<in> kept s"
  shows "reservedSum s = unat (ir_reservedBytes (sv_records s ! i)) +
    (\<Sum>j \<in> kept s - {i}. unat (ir_reservedBytes (sv_records s ! j)))"
  unfolding reservedSum_def using assms by (simp add: sum.remove)

lemma reserved_le: "ledgerInv s \<Longrightarrow> i \<in> kept s \<Longrightarrow> ir_reservedBytes (sv_records s ! i) \<le> sv_idempotencyBytes s"
  using reserved_split [of i s] by (simp add: ledgerInv_def word_le_nat_alt)

lemma others_same:
  "(\<Sum>j \<in> A - {i}. unat (ir_reservedBytes (xs[i := r] ! j))) = (\<Sum>j \<in> A - {i}. unat (ir_reservedBytes (xs ! j)))"
  by (rule sum.cong) auto

subsection \<open>Finalization without removal\<close>

lemma finalize_noop [simp]: "ir_finalized (sv_records s ! i) \<Longrightarrow> finalizeMutation s i st res f rm = s"
  by (simp add: finalizeMutation_def Let_def)

definition finalRecord :: "idempotencyRecord \<Rightarrow> string \<Rightarrow> string \<Rightarrow> Error option \<Rightarrow> idempotencyRecord" where
  "finalRecord r status result failure =
     r\<lparr>ir_status := status, ir_result := result,
       ir_err := (case failure of None \<Rightarrow> ir_err r | Some e \<Rightarrow> Some e),
       ir_reservedBytes := (if status = CommandResultSucceeded then of_nat (length result) else 0),
       ir_finalized := True\<rparr>"

lemma finalize_records:
  assumes "\<not> ir_finalized (sv_records s ! i)"
  shows "sv_records (finalizeMutation s i status result failure False) =
      (sv_records s)[i := finalRecord (sv_records s ! i) status result failure]"
    "sv_idempotency (finalizeMutation s i status result failure False) = sv_idempotency s"
    "sv_commands (finalizeMutation s i status result failure False) = sv_commands s"
    "sv_limits (finalizeMutation s i status result failure False) = sv_limits s"
  using assms by (simp_all add: finalizeMutation_def Let_def finalRecord_def)

lemma finalize_bytes:
  assumes "\<not> ir_finalized (sv_records s ! i)"
    "ir_reservedBytes (finalRecord (sv_records s ! i) status result failure) \<le> ir_reservedBytes (sv_records s ! i)"
  shows "sv_idempotencyBytes (finalizeMutation s i status result failure False) =
    sv_idempotencyBytes s - (ir_reservedBytes (sv_records s ! i) - ir_reservedBytes (finalRecord (sv_records s ! i) status result failure))"
  using assms by (simp add: finalizeMutation_def Let_def finalRecord_def)

text \<open>A record is finalized with a settled status, with an error when it failed, and within its reservation.\<close>

definition finalOk :: "Server \<Rightarrow> nat \<Rightarrow> string \<Rightarrow> string \<Rightarrow> Error option \<Rightarrow> bool" where
  "finalOk s i status result failure \<longleftrightarrow>
     status \<noteq> CommandResultPending \<and> (status = CommandResultFailed \<longrightarrow> failure \<noteq> None) \<and>
     (status = CommandResultSucceeded \<and> \<not> ir_finalized (sv_records s ! i) \<longrightarrow>
        (of_nat (length result) :: uint64) \<le> ir_reservedBytes (sv_records s ! i))"

lemma finalize_inv:
  assumes "ledgerInv s" "i < length (sv_records s)" "finalOk s i status result failure"
  shows "ledgerInv (finalizeMutation s i status result failure False)"
proof (cases "ir_finalized (sv_records s ! i)")
  case True
  then show ?thesis using assms by simp
next
  case False
  let ?s = "finalizeMutation s i status result failure False"
  let ?r = "finalRecord (sv_records s ! i) status result failure"
  note rec = finalize_records [OF False, of status result failure]
  have ids: "ir_idempotencyID ?r = ir_idempotencyID (sv_records s ! i)" "ir_commandID ?r = ir_commandID (sv_records s ! i)"
    "ir_connectionID ?r = ir_connectionID (sv_records s ! i)" "ir_finalized ?r" by (simp_all add: finalRecord_def)
  have ok: "recordOk ?r" using assms(3) by (auto simp: recordOk_def finalRecord_def finalOk_def split: option.splits)
  have fits: "ir_reservedBytes ?r \<le> ir_reservedBytes (sv_records s ! i)"
    using assms(3) False by (simp add: finalRecord_def finalOk_def)
  have i: "i \<in> kept s" using assms(1,2) False by (auto simp: ledgerInv_def)
  have k: "kept ?s = kept s" by (simp add: kept_def rec)
  let ?rest = "\<Sum>j \<in> kept s - {i}. unat (ir_reservedBytes (sv_records s ! j))"
  have "reservedSum ?s = unat (ir_reservedBytes ?r) + ?rest"
    using reserved_split [of i ?s] i assms(2) by (simp add: k rec others_same)
  moreover have "unat (sv_idempotencyBytes s) = unat (ir_reservedBytes (sv_records s ! i)) + ?rest"
    using assms(1) reserved_split [OF i] by (simp add: ledgerInv_def)
  moreover have "unat (sv_idempotencyBytes ?s) =
      unat (sv_idempotencyBytes s) - (unat (ir_reservedBytes (sv_records s ! i)) - unat (ir_reservedBytes ?r))"
  proof -
    have "ir_reservedBytes (sv_records s ! i) - ir_reservedBytes ?r \<le> sv_idempotencyBytes s"
      using fits reserved_le [OF assms(1) i] by (simp add: word_le_nat_alt unat_sub_le)
    then show ?thesis using fits by (simp add: finalize_bytes [OF False fits] unat_sub_le)
  qed
  moreover have "unat (ir_reservedBytes ?r) \<le> unat (ir_reservedBytes (sv_records s ! i))"
    using fits by (simp add: word_le_nat_alt)
  ultimately have bytes: "unat (sv_idempotencyBytes ?s) = reservedSum ?s" "unat (sv_idempotencyBytes ?s) \<le> unat (sv_idempotencyBytes s)"
    by simp_all
  have nth: "sv_records ?s ! j = (if j = i then ?r else sv_records s ! j)" if "j < length (sv_records s)" for j
    using that by (simp add: rec nth_list_update)
  show ?thesis unfolding ledgerInv_def k
  proof (intro conjI)
    show "unat (sv_idempotencyBytes ?s) \<le> unat (MaxIdempotencyBytes (sv_limits ?s))"
      using bytes(2) assms(1) by (simp add: ledgerInv_def rec)
    show "\<forall>j<length (sv_records ?s). recordOk (sv_records ?s ! j)"
      using assms(1,2) ok by (simp add: ledgerInv_def rec(1) nth_list_update)
    show "\<forall>j<length (sv_records ?s). j \<notin> kept s \<longrightarrow> ir_finalized (sv_records ?s ! j) \<and>
        ir_reservedBytes (sv_records ?s ! j) = 0 \<and> ir_connectionID (sv_records ?s ! j) \<noteq> []"
      using assms(1,2) i by (auto simp: ledgerInv_def rec(1) nth_list_update)
  qed (use assms(1,2) bytes(1) ids(1,2) in \<open>auto simp: ledgerInv_def rec(2,3,4) rec(1) kept_def nth_list_update\<close>)
qed

subsection \<open>Removal\<close>

lemma finalize_remove:
  "\<not> ir_finalized (sv_records s ! i) \<Longrightarrow> i < length (sv_records s) \<Longrightarrow>
   finalizeMutation s i status result failure True = removeRecord (finalizeMutation s i status result failure False) i"
  by (simp add: finalizeMutation_def removeRecord_def Let_def)

lemma dropKey_kept:
  assumes "distinct (map fst t)" "(k, i) \<in> set t" "\<forall>k'. (k', i) \<in> set t \<longrightarrow> k' = k"
  shows "snd ` set (dropKey k t) = snd ` set t - {i}"
proof -
  have "j = i" if "(k, j) \<in> set t" for j by (rule eq_key_imp_eq_value [OF assms(1) that assms(2)])
  then have "(k', j) \<in> set t \<and> k' \<noteq> k \<longleftrightarrow> (k', j) \<in> set t \<and> j \<noteq> i" for k' j
    using assms(2,3) by blast
  then show ?thesis by (force simp: image_iff)
qed

lemma dropKey_distinct: "distinct (map fst t) \<Longrightarrow> distinct (map fst (dropKey k t))"
  by (auto simp: distinct_map inj_on_def)

lemma kept_mem:
  assumes "ledgerInv s" "i \<in> kept s"
  shows "(ir_idempotencyID (sv_records s ! i), i) \<in> set (sv_idempotency s)"
    "(ir_commandID (sv_records s ! i), i) \<in> set (sv_commands s)"
proof -
  obtain k where "(k, i) \<in> set (sv_idempotency s)" using assms(2) by (auto simp: kept_def)
  then show "(ir_idempotencyID (sv_records s ! i), i) \<in> set (sv_idempotency s)"
    using assms(1) by (auto simp: ledgerInv_def)
  have "i \<in> snd ` set (sv_commands s)" using assms by (simp add: ledgerInv_def)
  then obtain k where "(k, i) \<in> set (sv_commands s)" by auto
  then show "(ir_commandID (sv_records s ! i), i) \<in> set (sv_commands s)"
    using assms(1) by (auto simp: ledgerInv_def)
qed

lemma removeRecord_absent:
  assumes "ledgerInv s" "i < length (sv_records s)" "i \<notin> kept s"
  shows "removeRecord s i = s"
proof -
  have "map_of (sv_idempotency s) k \<noteq> Some i" for k
    using assms(3) map_of_SomeD [of "sv_idempotency s" k i] by (force simp: kept_def)
  moreover have "map_of (sv_commands s) k \<noteq> Some i" for k
  proof -
    have "i \<notin> snd ` set (sv_commands s)" using assms(1,3) by (simp add: ledgerInv_def)
    then show ?thesis using map_of_SomeD [of "sv_commands s" k i] by force
  qed
  moreover have "ir_reservedBytes (sv_records s ! i) = 0" using assms by (simp add: ledgerInv_def)
  moreover from this have "(sv_records s)[i := (sv_records s ! i)\<lparr>ir_reservedBytes := 0\<rparr>] = sv_records s"
    by (metis idempotencyRecord.surjective idempotencyRecord.update_convs(5) list_update_id)
  ultimately show ?thesis by (simp add: removeRecord_def Let_def)
qed

lemma removeRecord_inv:
  assumes "ledgerInv s" "i < length (sv_records s)" "ir_finalized (sv_records s ! i)" "ir_connectionID (sv_records s ! i) \<noteq> []"
  shows "ledgerInv (removeRecord s i)"
proof (cases "i \<in> kept s")
  case False
  then show ?thesis using assms removeRecord_absent by simp
next
  case True
  let ?s = "removeRecord s i" and ?old = "sv_records s ! i"
  let ?r = "?old\<lparr>ir_reservedBytes := 0\<rparr>"
  have inv: "distinct (map fst (sv_idempotency s))" "distinct (map fst (sv_commands s))"
    using assms(1) by (simp_all add: ledgerInv_def)
  note mem = kept_mem [OF assms(1) True]
  have maps: "map_of (sv_idempotency s) (ir_idempotencyID ?old) = Some i" "map_of (sv_commands s) (ir_commandID ?old) = Some i"
    using inv mem by (simp_all add: map_of_eq_Some_iff)
  have parts: "sv_idempotency ?s = dropKey (ir_idempotencyID ?old) (sv_idempotency s)"
    "sv_commands ?s = dropKey (ir_commandID ?old) (sv_commands s)" "sv_limits ?s = sv_limits s"
    "sv_idempotencyBytes ?s = sv_idempotencyBytes s - ir_reservedBytes ?old"
    using maps reserved_le [OF assms(1) True] by (simp_all add: removeRecord_def Let_def)
  have recs: "sv_records ?s = (sv_records s)[i := ?r]" by (simp add: removeRecord_def Let_def)
  have k: "kept ?s = kept s - {i}" unfolding kept_def parts(1)
    using assms(1) by (intro dropKey_kept [OF inv(1) mem(1)]) (auto simp: ledgerInv_def)
  moreover have kc: "snd ` set (sv_commands ?s) = snd ` set (sv_commands s) - {i}" unfolding parts(2)
    using assms(1) by (intro dropKey_kept [OF inv(2) mem(2)]) (auto simp: ledgerInv_def)
  have "reservedSum ?s = (\<Sum>j \<in> kept s - {i}. unat (ir_reservedBytes (sv_records s ! j)))"
    unfolding reservedSum_def k recs by (rule others_same)
  moreover have "unat (sv_idempotencyBytes ?s) = unat (sv_idempotencyBytes s) - unat (ir_reservedBytes ?old)"
    using reserved_le [OF assms(1) True] by (simp add: parts(4) unat_sub_le)
  ultimately have bytes: "unat (sv_idempotencyBytes ?s) = reservedSum ?s"
    using assms(1) reserved_split [OF True] by (simp add: ledgerInv_def)
  have le: "unat (sv_idempotencyBytes ?s) \<le> unat (sv_idempotencyBytes s)"
    using reserved_le [OF assms(1) True] by (simp add: parts(4) unat_sub_le)
  have nth: "sv_records ?s ! j = (if j = i then ?r else sv_records s ! j)" if "j < length (sv_records s)" for j
    using that by (simp add: recs nth_list_update)
  have ids: "ir_idempotencyID (sv_records ?s ! j) = ir_idempotencyID (sv_records s ! j)"
    "ir_commandID (sv_records ?s ! j) = ir_commandID (sv_records s ! j)" for j
    using assms(2) by (simp_all add: recs nth_list_update)
  have len: "length (sv_idempotency ?s) \<le> length (sv_idempotency s)" by (simp add: parts(1))
  show ?thesis unfolding ledgerInv_def bytes
  proof (intro conjI)
    show "reservedSum ?s \<le> unat (MaxIdempotencyBytes (sv_limits ?s))"
      using le assms(1) bytes by (simp add: ledgerInv_def parts(3))
    show "int (length (sv_idempotency ?s)) \<le> max 0 (MaxIdempotencyEntries (sv_limits ?s))"
      using len assms(1) by (simp add: ledgerInv_def parts(3))
    show "\<forall>j<length (sv_records ?s). recordOk (sv_records ?s ! j)"
      using assms(1,2) by (auto simp: ledgerInv_def recs nth_list_update recordOk_def)
    show "\<forall>j<length (sv_records ?s). j \<notin> kept ?s \<longrightarrow> ir_finalized (sv_records ?s ! j) \<and>
        ir_reservedBytes (sv_records ?s ! j) = 0 \<and> ir_connectionID (sv_records ?s ! j) \<noteq> []"
      using assms by (auto simp: ledgerInv_def k recs nth_list_update)
    show "snd ` set (sv_commands ?s) = kept ?s" using kc k assms(1) by (simp add: ledgerInv_def)
    show "\<forall>k j. (k, j) \<in> set (sv_idempotency ?s) \<longrightarrow> j < length (sv_records ?s) \<and> ir_idempotencyID (sv_records ?s ! j) = k"
      using assms(1) by (auto simp: ledgerInv_def parts(1) ids) (simp add: recs)
    show "\<forall>k j. (k, j) \<in> set (sv_commands ?s) \<longrightarrow> j < length (sv_records ?s) \<and> ir_commandID (sv_records ?s ! j) = k"
      using assms(1) by (auto simp: ledgerInv_def parts(2) ids) (simp add: recs)
    show "distinct (map fst (sv_idempotency ?s))" "distinct (map fst (sv_commands ?s))"
      unfolding parts(1,2) by (intro dropKey_distinct inv)+
  qed simp
qed

subsection \<open>Reservation\<close>

lemma begin_inv:
  assumes "ledgerInv s"
  shows "ledgerInv (snd (beginMutation s conn meta m))"
proof (cases "\<exists>i s'. beginMutation s conn meta m = (Reserved i, s')")
  case False
  then have "snd (beginMutation s conn meta m) = s"
    by (auto simp: beginMutation_def split: prod.splits option.splits if_splits)
  then show ?thesis using assms by simp
next
  case True
  obtain iid cid scope where ids: "mutationRecordIDs conn meta = (iid, cid, scope)" by (metis surj_pair)
  let ?n = "length (sv_records s)"
  let ?r = "\<lparr>ir_digest = mm_CommandDigest meta, ir_status = CommandResultPending, ir_result = [],
     ir_err = None, ir_reservedBytes = m, ir_finalized = False, ir_idempotencyID = iid, ir_commandID = cid,
     ir_connectionID = scope\<rparr>"
  let ?s = "s\<lparr>sv_records := sv_records s @ [?r], sv_idempotency := (iid, ?n) # sv_idempotency s,
     sv_commands := (cid, ?n) # sv_commands s, sv_idempotencyBytes := sv_idempotencyBytes s + m\<rparr>"
  from True ids have g: "map_of (sv_idempotency s) iid = None" "map_of (sv_commands s) cid = None"
    "int (length (sv_idempotency s)) < MaxIdempotencyEntries (sv_limits s)"
    "\<not> m > MaxIdempotencyBytes (sv_limits s) - sv_idempotencyBytes s"
    "snd (beginMutation s conn meta m) = ?s"
    by (auto simp: beginMutation_def split: option.splits if_splits)
  have old: "j < ?n" if "j \<in> kept s" for j using kept_bound [OF assms that] .
  have entries: "j < ?n \<and> ir_idempotencyID (sv_records s ! j) = key" if "(key, j) \<in> set (sv_idempotency s)" for key j
    using that assms by (simp add: ledgerInv_def)
  have entries': "j < ?n \<and> ir_commandID (sv_records s ! j) = key" if "(key, j) \<in> set (sv_commands s)" for key j
    using that assms by (simp add: ledgerInv_def)
  have nth: "sv_records ?s ! j = (if j = ?n then ?r else sv_records s ! j)" if "j \<le> ?n" for j
    using that by (simp add: nth_append)
  have k: "kept ?s = insert ?n (kept s)" by (auto simp: kept_def)
  have room: "unat (sv_idempotencyBytes s) \<le> unat (MaxIdempotencyBytes (sv_limits s))"
    using assms by (simp add: ledgerInv_def)
  have fits: "unat m + unat (sv_idempotencyBytes s) \<le> unat (MaxIdempotencyBytes (sv_limits s))"
    using g(4) room by (simp add: not_less word_le_nat_alt unat_sub_le)
  moreover have "unat (MaxIdempotencyBytes (sv_limits s)) < 2 ^ 64" by (rule order.strict_trans2 [OF unsigned_less]) simp
  ultimately have plus: "unat (sv_idempotencyBytes s + m) = unat (sv_idempotencyBytes s) + unat m"
    by (simp add: unat_word_ariths)
  have "reservedSum ?s = unat m + reservedSum s"
  proof -
    have "?n \<notin> kept s" using old by auto
    moreover have "(\<Sum>j \<in> kept s. unat (ir_reservedBytes (sv_records ?s ! j))) = reservedSum s"
      unfolding reservedSum_def by (rule sum.cong) (use old in \<open>auto simp: nth_append\<close>)
    ultimately show ?thesis unfolding reservedSum_def k by simp
  qed
  then have bytes: "unat (sv_idempotencyBytes ?s) = reservedSum ?s" using assms plus by (simp add: ledgerInv_def)
  show ?thesis unfolding g(5) ledgerInv_def bytes
  proof (intro conjI)
    show "reservedSum ?s \<le> unat (MaxIdempotencyBytes (sv_limits ?s))"
      using bytes plus fits by simp
    show "\<forall>j<length (sv_records ?s). recordOk (sv_records ?s ! j)"
      using assms by (auto simp: ledgerInv_def nth_append recordOk_def)
    show "\<forall>j<length (sv_records ?s). j \<notin> kept ?s \<longrightarrow> ir_finalized (sv_records ?s ! j) \<and>
        ir_reservedBytes (sv_records ?s ! j) = 0 \<and> ir_connectionID (sv_records ?s ! j) \<noteq> []"
      unfolding k using assms by (auto simp: ledgerInv_def nth_append)
    show "snd ` set (sv_commands ?s) = kept ?s" unfolding k using assms by (simp add: ledgerInv_def)
    show "distinct (map fst (sv_idempotency ?s))" "distinct (map fst (sv_commands ?s))"
      using g(1,2) assms by (auto simp: ledgerInv_def map_of_eq_None_iff)
    show "\<forall>k j. (k, j) \<in> set (sv_idempotency ?s) \<longrightarrow> j < length (sv_records ?s) \<and> ir_idempotencyID (sv_records ?s ! j) = k"
      using entries by (auto simp: nth_append less_SucI)
    show "\<forall>k j. (k, j) \<in> set (sv_commands ?s) \<longrightarrow> j < length (sv_records ?s) \<and> ir_commandID (sv_records ?s ! j) = k"
      using entries' by (auto simp: nth_append less_SucI)
  qed (use g(3) in simp_all)
qed

subsection \<open>Calls in flight\<close>

text \<open>
  A state of the ledger with the calls of \<open>executeMutation\<close> between their reservation and their end: the
  record and the response limit each was given. An admission exists only for an attach, whose records
  are bound to a connection, and connection identifiers are not empty.
\<close>

type_synonym ledger = "Server \<times> (nat \<times> uint64) list"

abbreviation settle :: "nat \<Rightarrow> (nat \<times> uint64) list \<Rightarrow> (nat \<times> uint64) list" where
  "settle i calls \<equiv> filter (\<lambda>(j, _). j \<noteq> i) calls"

inductive ledgerStep :: "ledger \<Rightarrow> ledger \<Rightarrow> bool" where
  step_begin: "beginMutation s conn meta m = (Reserved i, s') \<Longrightarrow> ledgerStep (s, calls) (s', (i, m) # calls)"
| step_finish: "(i, m) \<in> set calls \<Longrightarrow> decideMutation env m = Finish status failure remove e \<Longrightarrow>
    (me_admission env \<noteq> None \<Longrightarrow> ir_connectionID (sv_records s ! i) \<noteq> []) \<Longrightarrow>
    ledgerStep (s, calls) (snd (finishMutation s i (Finish status failure remove e)), settle i calls)"
| step_commit: "(i, m) \<in> set calls \<Longrightarrow> decideMutation env m = Answer raw \<Longrightarrow>
    ledgerStep (s, calls) (commitMutation s i raw, settle i calls)"
| step_rollback: "(i, m) \<in> set calls \<Longrightarrow> ledgerStep (s, calls) (rollbackMutation s i, settle i calls)"
| step_release: "conn \<noteq> [] \<Longrightarrow> ledgerStep (s, calls) (releaseConnection s conn, calls)"

abbreviation ledgerReaches :: "ledger \<Rightarrow> ledger \<Rightarrow> bool" where
  "ledgerReaches \<equiv> ledgerStep\<^sup>*\<^sup>*"

text \<open>How a record may change: never its identity, nothing once it is finalized and unscoped.\<close>

definition evolves :: "idempotencyRecord \<Rightarrow> idempotencyRecord \<Rightarrow> bool" where
  "evolves r r' \<longleftrightarrow>
     ir_digest r' = ir_digest r \<and> ir_idempotencyID r' = ir_idempotencyID r \<and> ir_commandID r' = ir_commandID r \<and>
     ir_connectionID r' = ir_connectionID r \<and> (ir_finalized r \<longrightarrow> ir_finalized r') \<and>
     (ir_finalized r \<and> ir_connectionID r = [] \<longrightarrow> r' = r) \<and> (\<not> ir_finalized r' \<longrightarrow> r' = r)"

definition grows :: "Server \<Rightarrow> Server \<Rightarrow> bool" where
  "grows s s' \<longleftrightarrow> sv_limits s' = sv_limits s \<and> length (sv_records s) \<le> length (sv_records s') \<and>
     (\<forall>i < length (sv_records s). evolves (sv_records s ! i) (sv_records s' ! i))"

lemma nth_update: "j < length xs \<Longrightarrow> xs[i := r] ! j = (if j = i then r else xs ! j)"
  by (simp add: nth_list_update)

lemma evolves_refl [simp]: "evolves r r"
  by (simp add: evolves_def)

lemma evolves_trans: "evolves r r' \<Longrightarrow> evolves r' r'' \<Longrightarrow> evolves r r''"
  unfolding evolves_def by metis

lemma grows_refl [simp]: "grows s s"
  by (simp add: grows_def)

lemma growsD:
  assumes "grows s s'" "i < length (sv_records s)"
  shows "i < length (sv_records s')" "ir_digest (sv_records s' ! i) = ir_digest (sv_records s ! i)"
    "ir_idempotencyID (sv_records s' ! i) = ir_idempotencyID (sv_records s ! i)"
    "ir_commandID (sv_records s' ! i) = ir_commandID (sv_records s ! i)"
    "ir_connectionID (sv_records s' ! i) = ir_connectionID (sv_records s ! i)"
    "ir_finalized (sv_records s ! i) \<Longrightarrow> ir_finalized (sv_records s' ! i)"
    "ir_finalized (sv_records s ! i) \<Longrightarrow> ir_connectionID (sv_records s ! i) = [] \<Longrightarrow> sv_records s' ! i = sv_records s ! i"
    "\<not> ir_finalized (sv_records s' ! i) \<Longrightarrow> sv_records s' ! i = sv_records s ! i"
proof -
  have "evolves (sv_records s ! i) (sv_records s' ! i)" and l: "length (sv_records s) \<le> length (sv_records s')"
    using assms by (auto simp: grows_def)
  note e = this(1) [unfolded evolves_def]
  from e show "ir_digest (sv_records s' ! i) = ir_digest (sv_records s ! i)"
    "ir_idempotencyID (sv_records s' ! i) = ir_idempotencyID (sv_records s ! i)"
    "ir_commandID (sv_records s' ! i) = ir_commandID (sv_records s ! i)"
    "ir_connectionID (sv_records s' ! i) = ir_connectionID (sv_records s ! i)"
    "ir_finalized (sv_records s ! i) \<Longrightarrow> ir_finalized (sv_records s' ! i)"
    "ir_finalized (sv_records s ! i) \<Longrightarrow> ir_connectionID (sv_records s ! i) = [] \<Longrightarrow> sv_records s' ! i = sv_records s ! i"
    "\<not> ir_finalized (sv_records s' ! i) \<Longrightarrow> sv_records s' ! i = sv_records s ! i" by blast+
  show "i < length (sv_records s')" using assms(2) l by simp
qed

lemma grows_trans:
  assumes "grows s s'" "grows s' s''"
  shows "grows s s''"
  unfolding grows_def
proof (intro conjI allI impI)
  fix i assume "i < length (sv_records s)"
  then show "evolves (sv_records s ! i) (sv_records s'' ! i)"
    using assms evolves_trans [of "sv_records s ! i" "sv_records s' ! i"] by (simp add: grows_def)
qed (use assms in \<open>simp_all add: grows_def\<close>)

lemma evolves_final: "\<not> ir_finalized r \<Longrightarrow> evolves r (finalRecord r status result failure)"
  by (simp add: evolves_def finalRecord_def)

lemma finalize_grows: "grows s (finalizeMutation s i status result failure False)"
proof (cases "ir_finalized (sv_records s ! i)")
  case False
  then show ?thesis unfolding grows_def finalize_records [OF False]
    by (auto simp: nth_update evolves_final)
qed simp

lemma removeRecord_grows:
  assumes "ir_finalized (sv_records s ! i)" "ir_connectionID (sv_records s ! i) \<noteq> []"
  shows "grows s (removeRecord s i)"
proof -
  have "sv_records (removeRecord s i) = (sv_records s)[i := (sv_records s ! i)\<lparr>ir_reservedBytes := 0\<rparr>]"
    "sv_limits (removeRecord s i) = sv_limits s" by (simp_all add: removeRecord_def Let_def)
  then show ?thesis using assms by (auto simp: grows_def nth_update evolves_def)
qed

lemma finalize_finalizes:
  "i < length (sv_records s) \<Longrightarrow> ir_finalized (sv_records (finalizeMutation s i status result failure False) ! i)"
  by (cases "ir_finalized (sv_records s ! i)") (simp_all add: finalize_records finalRecord_def)

text \<open>Removal by \<open>finalizeMutation\<close> is finalization followed by removal.\<close>

lemma finish_inv:
  assumes "ledgerInv s" "i < length (sv_records s)" "finalOk s i status result failure"
    "remove \<Longrightarrow> ir_connectionID (sv_records s ! i) \<noteq> []"
  shows "ledgerInv (finalizeMutation s i status result failure remove) \<and> grows s (finalizeMutation s i status result failure remove)"
proof (cases "remove \<and> \<not> ir_finalized (sv_records s ! i)")
  case True
  let ?t = "finalizeMutation s i status result failure False"
  have g: "grows s ?t" by (rule finalize_grows)
  have fin: "ir_finalized (sv_records ?t ! i)" using assms(2) by (rule finalize_finalizes)
  have conn: "ir_connectionID (sv_records ?t ! i) \<noteq> []"
    using growsD(5) [OF g assms(2)] assms(4) True by simp
  have "ledgerInv ?t" using assms(1-3) by (rule finalize_inv)
  moreover have "i < length (sv_records ?t)" using growsD(1) [OF g assms(2)] .
  ultimately show ?thesis using True fin conn assms(2) grows_trans [OF g removeRecord_grows [OF fin conn]]
    by (simp add: finalize_remove removeRecord_inv)
next
  case False
  then show ?thesis using assms(1-3) finalize_inv finalize_grows by (cases remove) auto
qed

subsection \<open>Every step keeps the invariant\<close>

definition callsOk :: "Server \<Rightarrow> (nat \<times> uint64) list \<Rightarrow> bool" where
  "callsOk s calls \<longleftrightarrow> (\<forall>(i, m) \<in> set calls. i < length (sv_records s) \<and>
     (ir_connectionID (sv_records s ! i) = [] \<longrightarrow> \<not> ir_finalized (sv_records s ! i)) \<and>
     (\<not> ir_finalized (sv_records s ! i) \<longrightarrow> ir_reservedBytes (sv_records s ! i) = m))"

definition ledgerOk :: "ledger \<Rightarrow> bool" where
  "ledgerOk l \<longleftrightarrow> ledgerInv (fst l) \<and> callsOk (fst l) (snd l)"

lemma unknown_finalOk [simp]: "finalOk s i CommandResultOutcomeUnknown [] None"
  by (simp add: finalOk_def)

lemma finalize_other [simp]: "j \<noteq> i \<Longrightarrow> sv_records (finalizeMutation s i status result failure remove) ! j = sv_records s ! j"
  by (simp add: finalizeMutation_def Let_def)

lemma removeRecord_other [simp]: "j \<noteq> i \<Longrightarrow> sv_records (removeRecord s i) ! j = sv_records s ! j"
  by (simp add: removeRecord_def Let_def)

lemma finalize_length [simp]: "length (sv_records (finalizeMutation s i status result failure remove)) = length (sv_records s)"
  by (simp add: finalizeMutation_def Let_def)

text \<open>What a sequence of operations on the records of one connection keeps.\<close>

definition keepsOthers :: "nat list \<Rightarrow> Server \<Rightarrow> Server \<Rightarrow> bool" where
  "keepsOthers xs s t \<longleftrightarrow> ledgerInv t \<and> grows s t \<and> (\<forall>j. j \<notin> set xs \<longrightarrow> sv_records t ! j = sv_records s ! j)"

lemma fold_keepsOthers:
  assumes "ledgerInv s" "\<forall>i \<in> set xs. P s i" "\<And>t i. ledgerInv t \<Longrightarrow> P t i \<Longrightarrow> keepsOthers [i] t (f i t)"
    "\<And>t i j. P t j \<Longrightarrow> ledgerInv t \<Longrightarrow> P t i \<Longrightarrow> P (f i t) j"
  shows "keepsOthers xs s (fold f xs s)"
  using assms(1,2)
proof (induction xs arbitrary: s)
  case Nil
  then show ?case by (simp add: keepsOthers_def)
next
  case (Cons i xs)
  then have k: "keepsOthers [i] s (f i s)" using assms(3) by simp
  have "\<forall>j \<in> set xs. P (f i s) j" using Cons.prems assms(4) by simp
  then have "keepsOthers xs (f i s) (fold f xs (f i s))" using Cons.IH k by (simp add: keepsOthers_def)
  then show ?case using k by (auto simp: keepsOthers_def intro: grows_trans)
qed

definition scoped :: "Server \<Rightarrow> nat \<Rightarrow> bool" where
  "scoped s i \<longleftrightarrow> i < length (sv_records s) \<and> ir_connectionID (sv_records s ! i) \<noteq> []"

lemma scoped_grows: "grows s t \<Longrightarrow> scoped s i \<Longrightarrow> scoped t i"
  using growsD(1,5) by (auto simp: scoped_def)

lemma finalizeAll_keeps:
  assumes "ledgerInv s" "\<forall>i \<in> set xs. scoped s i"
  shows "keepsOthers xs s (fold (\<lambda>i t. finalizeMutation t i CommandResultOutcomeUnknown [] None False) xs s)"
  using assms
proof (rule fold_keepsOthers [where P = scoped])
  fix t i assume "ledgerInv t" "scoped t i"
  then show "keepsOthers [i] t (finalizeMutation t i CommandResultOutcomeUnknown [] None False)"
    by (simp add: keepsOthers_def finalize_inv finalize_grows scoped_def)
qed (rule scoped_grows [OF finalize_grows])

lemma finalizeAll_done:
  assumes "\<forall>i \<in> set xs. i < length (sv_records s)" "i \<in> set xs"
  shows "ir_finalized (sv_records (fold (\<lambda>i t. finalizeMutation t i CommandResultOutcomeUnknown [] None False) xs s) ! i)"
  using assms
proof (induction xs arbitrary: s rule: rev_induct)
  case (snoc j xs)
  let ?t = "fold (\<lambda>i t. finalizeMutation t i CommandResultOutcomeUnknown [] None False) xs s"
  have len: "length (sv_records ?t) = length (sv_records s)" by (induction xs arbitrary: s) simp_all
  show ?case
  proof (cases "i = j")
    case True
    then show ?thesis using finalize_finalizes [of j ?t] len snoc.prems by simp
  next
    case False
    then show ?thesis using snoc by simp
  qed
qed simp

lemma removeAll_keeps:
  assumes "ledgerInv s" "\<forall>i \<in> set xs. scoped s i \<and> ir_finalized (sv_records s ! i)"
  shows "keepsOthers xs s (fold (\<lambda>i t. removeRecord t i) xs s)"
  using assms
proof (rule fold_keepsOthers [where P = "\<lambda>t i. scoped t i \<and> ir_finalized (sv_records t ! i)"])
  fix t i assume "ledgerInv t" "scoped t i \<and> ir_finalized (sv_records t ! i)"
  then show "keepsOthers [i] t (removeRecord t i)"
    by (simp add: keepsOthers_def removeRecord_inv removeRecord_grows scoped_def)
next
  fix t i j assume a: "scoped t j \<and> ir_finalized (sv_records t ! j)" "scoped t i \<and> ir_finalized (sv_records t ! i)"
  have g: "grows t (removeRecord t i)" using a(2) by (simp add: removeRecord_grows scoped_def)
  show "scoped (removeRecord t i) j \<and> ir_finalized (sv_records (removeRecord t i) ! j)"
    using a(1) scoped_grows [OF g] growsD(6) [OF g] by (simp add: scoped_def)
qed

abbreviation connectionRecords :: "Server \<Rightarrow> string \<Rightarrow> nat list" where
  "connectionRecords s conn \<equiv> map snd (filter (\<lambda>(_, i). ir_connectionID (sv_records s ! i) = conn) (sv_idempotency s))"

lemma release_keeps:
  assumes "ledgerInv s" "conn \<noteq> []"
  shows "keepsOthers (connectionRecords s conn) s (releaseConnection s conn)"
proof -
  let ?xs = "connectionRecords s conn"
  let ?t = "fold (\<lambda>i t. finalizeMutation t i CommandResultOutcomeUnknown [] None False) ?xs s"
  have xs: "scoped s i" if "i \<in> set ?xs" for i
    using that assms by (auto simp: scoped_def ledgerInv_def)
  then have t: "keepsOthers ?xs s ?t" using assms(1) finalizeAll_keeps by blast
  have "scoped ?t i \<and> ir_finalized (sv_records ?t ! i)" if "i \<in> set ?xs" for i
  proof
    show "scoped ?t i" using t xs [OF that] scoped_grows by (auto simp: keepsOthers_def)
    show "ir_finalized (sv_records ?t ! i)" using xs that by (intro finalizeAll_done) (auto simp: scoped_def)
  qed
  then have "keepsOthers ?xs ?t (fold (\<lambda>i t. removeRecord t i) ?xs ?t)"
    using t removeAll_keeps [of ?t ?xs] by (simp add: keepsOthers_def)
  then show ?thesis using t by (auto simp: keepsOthers_def releaseConnection_def Let_def intro: grows_trans)
qed

lemma decide_Finish:
  assumes "decideMutation env m = Finish status failure remove e"
  shows "finalOk s i status [] failure" "remove \<Longrightarrow> me_admission env \<noteq> None"
  using assms by (auto simp: decideMutation_def finalOk_def
      split: option.splits handlerOutcome.splits if_splits sum.splits)

lemma decide_Answer:
  assumes "decideMutation env m = Answer raw"
  shows "length raw \<le> unat m"
proof -
  obtain v b where "marshalResponse probeID (Some v) nil m = Inr b" and raw: "raw = jprint v"
    using assms by (auto simp: decideMutation_def split: option.splits handlerOutcome.splits if_splits sum.splits)
  then have env: "marshalEnvelope (Some (responseText \<lparr>rs_JSONRPC = jsonRPCVersion, rs_ID = probeID, rs_Result = jprint v, rs_Error = None\<rparr>)) m = Inr b"
    by (simp add: marshalResponse_def Let_def split: if_splits)
  then have "length (responseText \<lparr>rs_JSONRPC = jsonRPCVersion, rs_ID = probeID, rs_Result = jprint v, rs_Error = None\<rparr>) \<le> unat m"
    by (auto simp: marshalEnvelope_def split: option.splits if_splits)
  moreover have "length (jprint v) \<le> length (responseText \<lparr>rs_JSONRPC = jsonRPCVersion, rs_ID = probeID, rs_Result = jprint v, rs_Error = None\<rparr>)"
    by (cases "jprint v") (simp_all add: responseText_def joinComma_def member_def)
  ultimately show ?thesis using raw by simp
qed

lemma step_keeps:
  assumes "ledgerStep l l'" "ledgerOk l"
  shows "ledgerOk l' \<and> grows (fst l) (fst l')"
  using assms
proof (cases rule: ledgerStep.cases)
  case (step_begin s conn meta m i s' calls)
  then have inv: "ledgerInv s" and calls: "callsOk s calls" using assms(2) by (simp_all add: ledgerOk_def)
  have new: "i = length (sv_records s)" "\<exists>r. sv_records s' = sv_records s @ [r] \<and> ir_reservedBytes r = m \<and> \<not> ir_finalized r"
    "sv_limits s' = sv_limits s"
    using step_begin(3) by (auto simp: beginMutation_def split: prod.splits option.splits if_splits)
  then have g: "grows s s'" by (auto simp: grows_def nth_append)
  have "callsOk s' ((i, m) # calls)"
    using new(1,2) calls by (auto simp: callsOk_def nth_append less_SucI)
  moreover have "ledgerInv s'" using begin_inv [OF inv, of conn meta m] step_begin(3) by simp
  ultimately show ?thesis using step_begin(1,2) g by (simp add: ledgerOk_def)
next
  case (step_finish i m calls env status failure remove e s)
  then have inv: "ledgerInv s" and calls: "callsOk s calls" using assms(2) by (simp_all add: ledgerOk_def)
  have "i < length (sv_records s)" using calls step_finish(3) by (auto simp: callsOk_def)
  then have "ledgerInv (finalizeMutation s i status [] failure remove) \<and> grows s (finalizeMutation s i status [] failure remove)"
    using inv decide_Finish [OF step_finish(4)] step_finish(5) by (intro finish_inv) auto
  moreover have "callsOk (finalizeMutation s i status [] failure remove) (settle i calls)"
    using calls by (auto simp: callsOk_def)
  ultimately show ?thesis using step_finish(1,2) by (simp add: ledgerOk_def finishMutation_def)
next
  case (step_commit i m calls env raw s)
  then have inv: "ledgerInv s" and calls: "callsOk s calls" using assms(2) by (simp_all add: ledgerOk_def)
  have i: "i < length (sv_records s)" "\<not> ir_finalized (sv_records s ! i) \<Longrightarrow> ir_reservedBytes (sv_records s ! i) = m"
    using calls step_commit(3) by (auto simp: callsOk_def)
  have "(of_nat (length raw) :: uint64) \<le> m"
    using decide_Answer [OF step_commit(4)] by (simp add: word_le_nat_alt unat_of_nat)
  then have "finalOk s i CommandResultSucceeded raw None" using i(2) by (simp add: finalOk_def)
  then have "ledgerInv (commitMutation s i raw) \<and> grows s (commitMutation s i raw)"
    unfolding commitMutation_def using inv i(1) by (intro finish_inv) auto
  moreover have "callsOk (commitMutation s i raw) (settle i calls)"
    using calls by (auto simp: callsOk_def commitMutation_def)
  ultimately show ?thesis using step_commit(1,2) by (simp add: ledgerOk_def)
next
  case (step_rollback i m calls s)
  then have inv: "ledgerInv s" and calls: "callsOk s calls" using assms(2) by (simp_all add: ledgerOk_def)
  have "i < length (sv_records s)" using calls step_rollback(3) by (auto simp: callsOk_def)
  then have "ledgerInv (rollbackMutation s i) \<and> grows s (rollbackMutation s i)"
    unfolding rollbackMutation_def using inv by (intro finish_inv) auto
  moreover have "callsOk (rollbackMutation s i) (settle i calls)"
    using calls by (auto simp: callsOk_def rollbackMutation_def)
  ultimately show ?thesis using step_rollback(1,2) by (simp add: ledgerOk_def)
next
  case (step_release conn s calls)
  then have inv: "ledgerInv s" and calls: "callsOk s calls" using assms(2) by (simp_all add: ledgerOk_def)
  let ?t = "releaseConnection s conn"
  have k: "keepsOthers (connectionRecords s conn) s ?t" using inv step_release(3) by (rule release_keeps)
  then have g: "grows s ?t" by (simp add: keepsOthers_def)
  have unscoped: "sv_records ?t ! i = sv_records s ! i" if "ir_connectionID (sv_records s ! i) = []" for i
    using k that step_release(3) by (auto simp: keepsOthers_def)
  have "callsOk ?t calls" unfolding callsOk_def
  proof (clarify, intro conjI impI)
    fix i m assume "(i, m) \<in> set calls"
    then have i: "i < length (sv_records s)" "ir_connectionID (sv_records s ! i) = [] \<longrightarrow> \<not> ir_finalized (sv_records s ! i)"
      "\<not> ir_finalized (sv_records s ! i) \<longrightarrow> ir_reservedBytes (sv_records s ! i) = m" using calls by (auto simp: callsOk_def)
    note gd = growsD [OF g i(1)]
    show "i < length (sv_records ?t)" by (rule gd(1))
    show "\<not> ir_finalized (sv_records ?t ! i)" if "ir_connectionID (sv_records ?t ! i) = []"
      using that gd(5) i(2) unscoped by simp
    show "ir_reservedBytes (sv_records ?t ! i) = m" if "\<not> ir_finalized (sv_records ?t ! i)"
      using gd(8) [OF that] i(3) that by simp
  qed
  then show ?thesis using step_release(1,2) k g by (simp add: ledgerOk_def keepsOthers_def)
qed

lemma reaches_keeps:
  assumes "ledgerReaches l l'" "ledgerOk l"
  shows "ledgerOk l' \<and> grows (fst l) (fst l')"
  using assms by (induction rule: rtranclp_induct) (auto dest: step_keeps intro: grows_trans)

lemma newServer_ok: "ledgerOk (newServer limits, [])"
  by (simp add: ledgerOk_def newServer_inv callsOk_def)

subsection \<open>Retries\<close>

lemma unscoped_found:
  assumes "ledgerInv s" "i < length (sv_records s)" "ir_connectionID (sv_records s ! i) = []"
  shows "map_of (sv_idempotency s) (ir_idempotencyID (sv_records s ! i)) = Some i"
    "map_of (sv_commands s) (ir_commandID (sv_records s ! i)) = Some i"
proof -
  have "i \<in> kept s" using assms by (auto simp: ledgerInv_def)
  then show "map_of (sv_idempotency s) (ir_idempotencyID (sv_records s ! i)) = Some i"
    "map_of (sv_commands s) (ir_commandID (sv_records s ! i)) = Some i"
    using kept_mem [OF assms(1)] assms(1) by (simp_all add: map_of_eq_Some_iff ledgerInv_def)
qed

lemma begin_record:
  assumes "beginMutation s conn meta m = (Reserved i, s')" "mutationRecordIDs conn meta = (iid, cid, scope)"
  shows "i = length (sv_records s) \<and> sv_records s' = sv_records s @
    [\<lparr>ir_digest = mm_CommandDigest meta, ir_status = CommandResultPending, ir_result = [], ir_err = None, ir_reservedBytes = m,
      ir_finalized = False, ir_idempotencyID = iid, ir_commandID = cid, ir_connectionID = scope\<rparr>]"
  using assms by (auto simp: beginMutation_def split: option.splits if_splits)

lemma begin_Reserved:
  assumes "beginMutation s conn meta m = (Reserved i, s')" "mm_Capability meta \<noteq> ''terminal.attach''"
  shows "i = length (sv_records s)" "i < length (sv_records s')" "ir_connectionID (sv_records s' ! i) = []"
    "ir_idempotencyID (sv_records s' ! i) = mm_Capability meta @ CHR 0x00 # mm_IdempotencyKey meta"
    "ir_commandID (sv_records s' ! i) = mm_CommandID meta" "ir_digest (sv_records s' ! i) = mm_CommandDigest meta"
proof -
  have "mutationRecordIDs conn meta = (mm_Capability meta @ CHR 0x00 # mm_IdempotencyKey meta, mm_CommandID meta, [])"
    using assms(2) by (simp add: mutationRecordIDs_def)
  note r = begin_record [OF assms(1) this]
  show "i = length (sv_records s)" "i < length (sv_records s')" "ir_connectionID (sv_records s' ! i) = []"
    "ir_idempotencyID (sv_records s' ! i) = mm_Capability meta @ CHR 0x00 # mm_IdempotencyKey meta"
    "ir_commandID (sv_records s' ! i) = mm_CommandID meta" "ir_digest (sv_records s' ! i) = mm_CommandDigest meta"
    using r by simp_all
qed

lemma reserved_later:
  assumes "ledgerReaches (newServer limits, []) (s, calls)" "beginMutation s conn meta m = (Reserved i, s1)"
    "mm_Capability meta \<noteq> ''terminal.attach''" "ledgerReaches (s1, (i, m) # calls) (s2, calls2)"
  shows "ledgerOk (s2, calls2)" "i < length (sv_records s2)" "ir_connectionID (sv_records s2 ! i) = []"
    "map_of (sv_idempotency s2) (mm_Capability meta @ CHR 0x00 # mm_IdempotencyKey meta) = Some i"
    "map_of (sv_commands s2) (mm_CommandID meta) = Some i" "ir_digest (sv_records s2 ! i) = mm_CommandDigest meta"
proof -
  note b = begin_Reserved [OF assms(2,3)]
  have "ledgerOk (s, calls)" using reaches_keeps [OF assms(1) newServer_ok] by simp
  then have "ledgerOk (s1, (i, m) # calls)" using step_keeps [OF ledgerStep.step_begin [OF assms(2)]] by blast
  then have ok: "ledgerOk (s2, calls2)" and g: "grows s1 s2" using reaches_keeps [OF assms(4)] by auto
  note gd = growsD [OF g b(2)]
  show "ledgerOk (s2, calls2)" by (rule ok)
  show i: "i < length (sv_records s2)" and c: "ir_connectionID (sv_records s2 ! i) = []"
    and "ir_digest (sv_records s2 ! i) = mm_CommandDigest meta" using gd(1,2,5) b(3,6) by simp_all
  have "ledgerInv s2" using ok by (simp add: ledgerOk_def)
  from unscoped_found [OF this i c]
  show "map_of (sv_idempotency s2) (mm_Capability meta @ CHR 0x00 # mm_IdempotencyKey meta) = Some i"
    "map_of (sv_commands s2) (mm_CommandID meta) = Some i" using gd(3,4) b(4,5) by simp_all
qed

lemma begin_known:
  assumes "map_of (sv_idempotency s) (mm_Capability meta @ CHR 0x00 # mm_IdempotencyKey meta) = Some i"
    "mm_Capability meta \<noteq> ''terminal.attach''"
  shows "beginMutation s conn meta m =
    (if mm_CommandDigest meta = ir_digest (sv_records s ! i) then Prior i else Refused (newError CodeConflict), s)"
  using assms by (auto simp: beginMutation_def mutationRecordIDs_def)

section \<open>Properties\<close>

text \<open>
  C1: A mutation is never executed twice: once a call that is not an attach has reserved its record,
  every later call with the same capability and idempotency key, on any connection and in any
  interleaving of the calls in flight, is given that same record, or refused as a conflict when its
  command digest differs; and a call that reuses the command identifier under another key is refused.
\<close>

theorem mutation_at_most_once:
  assumes "ledgerReaches (newServer limits, []) (s, calls)" "beginMutation s conn meta m = (Reserved i, s1)"
    "mm_Capability meta \<noteq> ''terminal.attach''" "ledgerReaches (s1, (i, m) # calls) (s2, calls2)"
  shows "(mm_Capability meta' = mm_Capability meta \<and> mm_IdempotencyKey meta' = mm_IdempotencyKey meta \<longrightarrow>
      beginMutation s2 conn' meta' m' =
        (if mm_CommandDigest meta' = mm_CommandDigest meta then Prior i else Refused (newError CodeConflict), s2)) \<and>
    (mm_CommandID meta' = mm_CommandID meta \<longrightarrow> (\<nexists>j s'. beginMutation s2 conn' meta' m' = (Reserved j, s')))"
proof (intro conjI impI)
  note r = reserved_later [OF assms]
  show "beginMutation s2 conn' meta' m' =
        (if mm_CommandDigest meta' = mm_CommandDigest meta then Prior i else Refused (newError CodeConflict), s2)"
    if "mm_Capability meta' = mm_Capability meta \<and> mm_IdempotencyKey meta' = mm_IdempotencyKey meta"
    using begin_known [of s2 meta' i] r(4,6) that assms(3) by simp
  show "\<nexists>j s'. beginMutation s2 conn' meta' m' = (Reserved j, s')" if same: "mm_CommandID meta' = mm_CommandID meta"
  proof -
    obtain iid scope where "mutationRecordIDs conn' meta' = (iid, mm_CommandID meta, scope)"
      using same by (cases "mm_Capability meta' = ''terminal.attach''") (auto simp: mutationRecordIDs_def)
    then show ?thesis using r(5) by (simp add: beginMutation_def split: option.split)
  qed
qed


text \<open>
  C25: The ledger stays within its limits: in every reachable state the byte counter is exactly what the
  recorded calls reserve, it never exceeds \<open>MaxIdempotencyBytes\<close> (so its subtractions never wrap), and
  the number of records never exceeds \<open>MaxIdempotencyEntries\<close>.
\<close>

theorem ledger_bounded:
  assumes "ledgerReaches (newServer limits, []) (s, calls)"
  shows "unat (sv_idempotencyBytes s) = (\<Sum>i \<in> snd ` set (sv_idempotency s). unat (ir_reservedBytes (sv_records s ! i))) \<and>
    sv_idempotencyBytes s \<le> MaxIdempotencyBytes limits \<and>
    int (length (sv_idempotency s)) \<le> max 0 (MaxIdempotencyEntries limits)"
proof -
  have "ledgerInv s" "sv_limits s = limits"
    using reaches_keeps [OF assms newServer_ok] by (auto simp: ledgerOk_def grows_def newServer_def)
  then show ?thesis by (simp add: ledgerInv_def reservedSum_def kept_def word_le_nat_alt)
qed

text \<open>
  C4: Answering from the ledger never dereferences a missing error: in every reachable state a retry
  that sees its record done gets an answer, and \<open>commandResult\<close> answers for every identifier.
\<close>

theorem ledger_answers:
  assumes "ledgerReaches (newServer limits, []) (s, calls)" "i < length (sv_records s)"
  shows "(awaitPrior s i DoneClosed = None \<longleftrightarrow> \<not> ir_finalized (sv_records s ! i)) \<and> commandResult s commandID now \<noteq> None"
proof -
  have inv: "ledgerInv s" using reaches_keeps [OF assms(1) newServer_ok] by (simp add: ledgerOk_def)
  then have ok: "recordOk (sv_records s ! j)" if "j < length (sv_records s)" for j using that by (simp add: ledgerInv_def)
  have "j < length (sv_records s)" if "map_of (sv_commands s) k = Some j" for k j
    using map_of_SomeD [OF that] inv by (auto simp: ledgerInv_def)
  then show ?thesis using ok [OF assms(2)] ok
    by (auto simp: awaitPrior_def commandResult_def Let_def recordOk_def split: option.splits)
qed

section \<open>A run\<close>

definition demoMeta :: MutationMeta where
  "demoMeta = \<lparr>mm_Capability = ''runtime.create_session'', mm_CommandID = ''cmd-1'', mm_IdempotencyKey = ''key-1'', mm_CommandDigest = ''digest-1''\<rparr>"

definition demoRetry :: MutationMeta where
  "demoRetry = demoMeta\<lparr>mm_CommandID := ''cmd-2'', mm_CommandDigest := ''digest-2''\<rparr>"

definition demoEnv :: mutationEnv where
  "demoEnv = \<lparr>me_admission = None, me_setupErr = None, me_handler = HandlerValue (Some (JBool True)), me_ctxErr = None, me_prepareErr = None\<rparr>"

definition demoReserved :: Server where
  "demoReserved = snd (beginMutation (newServer TestLimits) ''connection-1'' demoMeta 4096)"

lemma demo_begin: "beginMutation (newServer TestLimits) ''connection-1'' demoMeta 4096 = (Reserved 0, demoReserved)"
  unfolding demoReserved_def by code_simp

lemma demo_decide: "decideMutation demoEnv 4096 = Answer ''true''"
  by code_simp

lemma demo_step: "ledgerStep (newServer TestLimits, []) (demoReserved, [(0, 4096)])"
  by (rule ledgerStep.step_begin [OF demo_begin])

lemma demo_capability: "mm_Capability demoMeta \<noteq> ''terminal.attach''" "mm_Capability demoRetry = mm_Capability demoMeta"
    "mm_IdempotencyKey demoRetry = mm_IdempotencyKey demoMeta"
    "mm_CommandDigest demoRetry \<noteq> mm_CommandDigest demoMeta"
  by (simp_all add: demoMeta_def demoRetry_def)

theorem mutation_at_most_once_witness:
  "beginMutation demoReserved ''connection-2'' demoMeta 8192 = (Prior 0, demoReserved) \<and>
   beginMutation demoReserved ''connection-2'' demoRetry 8192 = (Refused (newError CodeConflict), demoReserved)"
  using mutation_at_most_once [OF rtranclp.rtrancl_refl demo_begin demo_capability(1) rtranclp.rtrancl_refl, of demoMeta "''connection-2''" 8192]
    mutation_at_most_once [OF rtranclp.rtrancl_refl demo_begin demo_capability(1) rtranclp.rtrancl_refl, of demoRetry "''connection-2''" 8192]
    demo_capability by simp


theorem ledger_bounded_witness:
  "sv_idempotencyBytes demoReserved \<le> MaxIdempotencyBytes TestLimits \<and> unat (sv_idempotencyBytes demoReserved) = 4096"
proof -
  have "sv_idempotencyBytes demoReserved = 4096" unfolding demoReserved_def by code_simp
  then show ?thesis using ledger_bounded [OF r_into_rtranclp [of ledgerStep, OF demo_step]] by simp
qed

theorem ledger_answers_witness:
  "awaitPrior demoReserved 0 DoneClosed = None \<and> \<not> ir_finalized (sv_records demoReserved ! 0)"
proof -
  have "0 < length (sv_records demoReserved)" "\<not> ir_finalized (sv_records demoReserved ! 0)"
    unfolding demoReserved_def by code_simp+
  then show ?thesis using ledger_answers [OF r_into_rtranclp [of ledgerStep, OF demo_step]] by blast
qed

end
