(* ===== verification/Terminal_Flow.thy ===== *)
theory Terminal_Flow
  imports Proto_Runtime Rpc_Envelope
begin

text \<open>
  The credit window of a terminal stream, at both ends: \<open>terminalFlow\<close> of
  \<open>provider/subscription.go\<close> admits the chunks a provider sends, \<open>clientTerminalFlow\<close> of
  \<open>provider/client.go\<close> admits the chunks a gateway receives. A provider that runs out of credit waits
  for a credit notification or for the end of its context: \<open>consume\<close> takes the schedule of what
  happens while it waits. The locale \<open>credit_window\<close> is the contract both ends keep.
\<close>

section \<open>Chunk limits\<close>

definition terminalDataSize :: "string \<Rightarrow> string \<Rightarrow> uint64 option" where
  "terminalDataSize encoding data =
     (if encoding = TerminalEncodingUTF8 then Some (byteCount data)
      else if encoding = TerminalEncodingBase64 then map_option byteCount (b64StdStrictDecode data)
      else None)"

definition terminalChunkSize :: "TerminalChunk \<Rightarrow> uint64 option" where
  "terminalChunkSize chunk = terminalDataSize (tc_Encoding chunk) (tc_Data chunk)"

definition validateTerminalChunkLimit :: "TerminalChunk \<Rightarrow> uint64 \<Rightarrow> verr" where
  "validateTerminalChunkLimit chunk maximum =
     (if TerminalChunk_Validate chunk \<noteq> nil then Some (newError CodeInvalidArgument)
      else case terminalChunkSize chunk of
        None \<Rightarrow> Some (newError CodeInvalidArgument)
      | Some n \<Rightarrow> if n > maximum then Some (newError CodeMessageTooLarge) else nil)"

definition validateTerminalReadChunk ::
  "TerminalReadRequest \<Rightarrow> TerminalChunk \<Rightarrow> uint64 \<Rightarrow> bool \<Rightarrow> verr" where
  "validateTerminalReadChunk request chunk maximum replayAllowed =
     (if TerminalReadRequest_Validate request \<noteq> nil then Some (newError CodeInvalidArgument)
      else case validateTerminalChunkLimit chunk maximum of
        Some e \<Rightarrow> Some e
      | None \<Rightarrow>
          if tc_NativeSessionID chunk \<noteq> tr_NativeSessionID request \<or> tc_StreamID chunk \<noteq> tr_StreamID request
          then Some (newError CodeInvalidArgument)
          else case terminalChunkSize chunk of
            None \<Rightarrow> Some (newError CodeInvalidArgument)
          | Some n \<Rightarrow>
              if n > tr_MaximumBytes request then Some (newError CodeMessageTooLarge)
              else if tc_Offset chunk \<noteq> tr_AfterOffset request \<and>
                  (\<not> tc_Truncated chunk \<or> tc_Offset chunk < tr_AfterOffset request)
              then Some (newError CodeSequenceConflict)
              else if tc_Replayed chunk \<and> \<not> replayAllowed then Some (newError CodeInvalidArgument)
              else nil)"

section \<open>The provider's end\<close>

record terminalFlow =
  tf_nativeSession :: string
  tf_streamID :: string
  tf_window :: uint64
  tf_remaining :: uint64
  tf_throughOffset :: uint64
  tf_sequence :: uint64
  tf_replayAllowed :: bool

text \<open>The flow that \<open>beginTerminalSubscription\<close> installs for a request.\<close>

definition newTerminalFlow :: "TerminalSubscribeRequest \<Rightarrow> bool \<Rightarrow> terminalFlow" where
  "newTerminalFlow request replay =
     \<lparr>tf_nativeSession = tsr_NativeSessionID request, tf_streamID = tsr_StreamID request,
      tf_window = tsr_WindowBytes request, tf_remaining = tsr_WindowBytes request,
      tf_throughOffset = tsr_AfterOffset request, tf_sequence = 0, tf_replayAllowed = replay\<rparr>"

definition addCredit :: "terminalFlow \<Rightarrow> TerminalCredit \<Rightarrow> verr \<times> terminalFlow" where
  "addCredit f credit =
     (if TerminalCredit_Validate credit \<noteq> nil \<or> cd_NativeSessionID credit \<noteq> tf_nativeSession f \<or>
         cd_StreamID credit \<noteq> tf_streamID f
      then (Some (newError CodeInvalidArgument), f)
      else if cd_ThroughOffset credit \<noteq> tf_throughOffset f \<or>
         cd_Bytes credit > tf_window f - tf_remaining f
      then (Some (newError CodeInvalidArgument), f)
      else (nil, f\<lparr>tf_remaining := tf_remaining f + cd_Bytes credit\<rparr>))"

text \<open>One pass of the loop of \<open>consume\<close> under the lock; \<open>Blocked\<close> goes on to wait.\<close>

datatype attempt = Decided verr | Blocked

definition consumeAttempt :: "terminalFlow \<Rightarrow> TerminalChunk \<Rightarrow> uint64 \<Rightarrow> attempt \<times> terminalFlow" where
  "consumeAttempt f chunk chunkSize =
     (if tc_Offset chunk \<noteq> tf_throughOffset f \<and>
         (\<not> tc_Truncated chunk \<or> tc_Offset chunk < tf_throughOffset f)
      then (Decided (Some (newError CodeSequenceConflict)), f)
      else
        (let f1 = f\<lparr>tf_throughOffset := tc_Offset chunk\<rparr> in
         if tf_sequence f1 \<noteq> 0 \<and> tc_Sequence chunk \<noteq> tf_sequence f1 + 1 \<and> \<not> tc_Truncated chunk
         then (Decided (Some (newError CodeSequenceConflict)), f1)
         else if chunkSize \<le> tf_remaining f1 then
           (let f2 = f1\<lparr>tf_remaining := tf_remaining f1 - chunkSize,
                        tf_throughOffset := tf_throughOffset f1 + chunkSize,
                        tf_sequence := tc_Sequence chunk\<rparr>
            in (Decided (if tc_CreditRemaining chunk \<noteq> tf_remaining f2
                         then Some (newError CodeInvalidArgument) else nil), f2))
         else (Blocked, f1)))"

text \<open>
  What may happen while \<open>consume\<close> waits: a credit notification is applied, which wakes it when it is
  accepted, or its context ends with an error. When the schedule ends it is still waiting, which is
  the result \<^term>\<open>None\<close>.
\<close>

datatype wakeup = CreditArrives TerminalCredit | ContextDone go_error

fun consumeLoop ::
  "terminalFlow \<Rightarrow> TerminalChunk \<Rightarrow> uint64 \<Rightarrow> wakeup list \<Rightarrow> verr option \<times> terminalFlow"
  and consumeWait ::
  "terminalFlow \<Rightarrow> TerminalChunk \<Rightarrow> uint64 \<Rightarrow> wakeup list \<Rightarrow> verr option \<times> terminalFlow" where
  "consumeLoop f chunk n schedule =
     (case consumeAttempt f chunk n of
        (Decided err, f') \<Rightarrow> (Some err, f')
      | (Blocked, f') \<Rightarrow> consumeWait f' chunk n schedule)"
| "consumeWait f chunk n [] = (None, f)"
| "consumeWait f chunk n (ContextDone e # schedule) = (Some (Some (newError (errorCode e))), f)"
| "consumeWait f chunk n (CreditArrives credit # schedule) =
     (case addCredit f credit of
        (None, f') \<Rightarrow> consumeLoop f' chunk n schedule
      | (Some _, f') \<Rightarrow> consumeWait f' chunk n schedule)"

definition consumeGuard :: "terminalFlow \<Rightarrow> TerminalChunk \<Rightarrow> uint64 \<Rightarrow> go_error + uint64" where
  "consumeGuard f chunk maximum =
     (if tc_NativeSessionID chunk \<noteq> tf_nativeSession f \<or> tc_StreamID chunk \<noteq> tf_streamID f
      then Inl (newError CodeInvalidArgument)
      else case validateTerminalChunkLimit chunk maximum of
        Some e \<Rightarrow> Inl e
      | None \<Rightarrow>
          if tc_Replayed chunk \<and> \<not> tf_replayAllowed f then Inl (newError CodeInvalidArgument)
          else case terminalChunkSize chunk of
            None \<Rightarrow> Inl (newError CodeInvalidArgument)
          | Some n \<Rightarrow> Inr n)"

definition terminalFlow_consume ::
  "terminalFlow \<Rightarrow> TerminalChunk \<Rightarrow> uint64 \<Rightarrow> wakeup list \<Rightarrow> verr option \<times> terminalFlow" where
  "terminalFlow_consume f chunk maximum schedule =
     (case consumeGuard f chunk maximum of
        Inl e \<Rightarrow> (Some (Some e), f)
      | Inr n \<Rightarrow> consumeLoop f chunk n schedule)"

section \<open>The gateway's end\<close>

record clientTerminalFlow =
  cf_nativeSession :: string
  cf_streamID :: string
  cf_subscriptionID :: string
  cf_attachDigest :: string
  cf_attachPending :: int
  cf_established :: bool
  cf_unknown :: bool
  cf_retiring :: bool
  cf_closed :: bool
  cf_window :: uint64
  cf_remaining :: uint64
  cf_throughOffset :: uint64
  cf_sequence :: uint64

definition newClientTerminalFlow :: "TerminalSubscribeRequest \<Rightarrow> clientTerminalFlow" where
  "newClientTerminalFlow request =
     \<lparr>cf_nativeSession = tsr_NativeSessionID request, cf_streamID = tsr_StreamID request,
      cf_subscriptionID = [], cf_attachDigest = [], cf_attachPending = 0, cf_established = False,
      cf_unknown = False, cf_retiring = False, cf_closed = False,
      cf_window = tsr_WindowBytes request, cf_remaining = tsr_WindowBytes request,
      cf_throughOffset = tsr_AfterOffset request, cf_sequence = 0\<rparr>"

definition clientFlow_consume ::
  "clientTerminalFlow \<Rightarrow> TerminalChunk \<Rightarrow> bool \<Rightarrow> verr \<times> clientTerminalFlow" where
  "clientFlow_consume f chunk active =
     (if tc_NativeSessionID chunk \<noteq> cf_nativeSession f \<or> tc_StreamID chunk \<noteq> cf_streamID f
      then (Some (newError CodeInvalidArgument), f)
      else case terminalChunkSize chunk of
        None \<Rightarrow> (Some (newError CodeInvalidArgument), f)
      | Some n \<Rightarrow>
          if cf_closed f \<or> \<not> active then (Some (newError CodeConflict), f)
          else if tc_Offset chunk \<noteq> cf_throughOffset f \<and>
              (\<not> tc_Truncated chunk \<or> tc_Offset chunk < cf_throughOffset f)
          then (Some (newError CodeSequenceConflict), f)
          else if cf_sequence f \<noteq> 0 \<and> tc_Sequence chunk \<noteq> cf_sequence f + 1 \<and> \<not> tc_Truncated chunk
          then (Some (newError CodeSequenceConflict), f)
          else if n > cf_remaining f then (Some (newError CodeInvalidArgument), f)
          else if tc_CreditRemaining chunk \<noteq> cf_remaining f - n then (Some (newError CodeInvalidArgument), f)
          else (nil, f\<lparr>cf_remaining := cf_remaining f - n, cf_throughOffset := tc_Offset chunk + n,
                       cf_sequence := tc_Sequence chunk\<rparr>))"

text \<open>
  \<open>consumeTerminalChunk\<close> and \<open>sendTerminalCredit\<close> on the flow that the client has found; the marshalled
  notification and the outcome of the write are arguments.
\<close>

definition consumeTerminalChunk ::
  "uint64 \<Rightarrow> bool \<Rightarrow> clientTerminalFlow option \<Rightarrow> TerminalChunk \<Rightarrow> bool \<Rightarrow> verr \<times> clientTerminalFlow option" where
  "consumeTerminalChunk maximum replay flow chunk active =
     (case validateTerminalChunkLimit chunk maximum of
        Some e \<Rightarrow> (Some e, flow)
      | None \<Rightarrow>
          if tc_Replayed chunk \<and> \<not> replay then (Some (newError CodeInvalidArgument), flow)
          else case flow of
            None \<Rightarrow> (Some (newError CodeInvalidArgument), flow)
          | Some f \<Rightarrow> map_prod id Some (clientFlow_consume f chunk active))"

definition sendTerminalCredit ::
  "go_error + string \<Rightarrow> verr \<Rightarrow> clientTerminalFlow \<Rightarrow> bool \<Rightarrow> TerminalCredit \<Rightarrow> verr \<times> clientTerminalFlow" where
  "sendTerminalCredit frame written flow active credit =
     (case frame of
        Inl e \<Rightarrow> (Some (Structured (normalizeProtocolError e)), flow)
      | Inr _ \<Rightarrow>
          if cf_closed flow \<or> \<not> active then (Some (newError CodeConflict), flow)
          else if cd_ThroughOffset credit \<noteq> cf_throughOffset flow \<or>
              cd_Bytes credit > cf_window flow - cf_remaining flow
          then (Some (newError CodeInvalidArgument), flow)
          else case written of
            Some e \<Rightarrow> (Some (Structured (normalizeProtocolError e)), flow)
          | None \<Rightarrow> (nil, flow\<lparr>cf_remaining := cf_remaining flow + cd_Bytes credit\<rparr>))"

definition bindSubscription :: "clientTerminalFlow \<Rightarrow> string \<Rightarrow> verr \<times> clientTerminalFlow" where
  "bindSubscription f subscriptionID =
     (if NativeID_Validate subscriptionID \<noteq> nil then (Some (newError CodeInvalidArgument), f)
      else if cf_closed f then (Some (newError CodeConflict), f)
      else if cf_subscriptionID f \<noteq> [] \<and> cf_subscriptionID f \<noteq> subscriptionID
      then (Some (newError CodeConflict), f)
      else (nil, f\<lparr>cf_subscriptionID := subscriptionID\<rparr>))"

section \<open>The contract of a credit window\<close>

text \<open>The state after a sequence of operations, and the sum of a cost along it.\<close>

fun history :: "('s \<Rightarrow> 'op \<Rightarrow> 's) \<Rightarrow> 's \<Rightarrow> 'op list \<Rightarrow> 's" where
  "history operate s [] = s"
| "history operate s (a # as) = history operate (operate s a) as"

fun tally :: "('s \<Rightarrow> 'op \<Rightarrow> 's) \<Rightarrow> ('s \<Rightarrow> 'op \<Rightarrow> nat) \<Rightarrow> 's \<Rightarrow> 'op list \<Rightarrow> nat" where
  "tally operate cost s [] = 0"
| "tally operate cost s (a # as) = cost s a + tally operate cost (operate s a) as"

text \<open>
  A window admits chunks and takes credits. In an operation, \<open>took\<close> is the number of bytes that were
  charged and \<open>gave\<close> the number that were returned; the balance between them is the contract.
\<close>

locale credit_window =
  fixes operate :: "'s \<Rightarrow> 'op \<Rightarrow> 's"
    and took :: "'s \<Rightarrow> 'op \<Rightarrow> nat"
    and gave :: "'s \<Rightarrow> 'op \<Rightarrow> nat"
    and remaining :: "'s \<Rightarrow> nat"
    and window :: "'s \<Rightarrow> nat"
  assumes window_fixed: "window (operate s a) = window s"
    and balance: "remaining s \<le> window s \<Longrightarrow> remaining (operate s a) + took s a = remaining s + gave s a"
    and within: "remaining s \<le> window s \<Longrightarrow> remaining (operate s a) \<le> window s"
begin

lemma history_balance:
  "remaining s \<le> window s \<Longrightarrow>
     remaining (history operate s as) + tally operate took s as = remaining s + tally operate gave s as \<and>
     remaining (history operate s as) \<le> window s"
proof (induction "as" arbitrary: s)
  case (Cons a "as")
  have "remaining (operate s a) \<le> window (operate s a)"
    using within [OF Cons.prems] by (simp add: window_fixed)
  from Cons.IH [OF this] balance [OF Cons.prems, of a] show ?case by (simp add: window_fixed)
qed simp

lemma no_overrun:
  assumes "remaining s = window s"
  shows "tally operate took s as \<le> window s + tally operate gave s as \<and>
    remaining (history operate s as) \<le> window s"
  using history_balance [of s "as"] assms by auto

end

section \<open>Both ends keep the contract\<close>

definition inOrder :: "uint64 \<Rightarrow> uint64 \<Rightarrow> TerminalChunk \<Rightarrow> bool" where
  "inOrder through sequence chunk \<longleftrightarrow>
     (tc_Offset chunk = through \<or> tc_Truncated chunk \<and> through \<le> tc_Offset chunk) \<and>
     (sequence = 0 \<or> tc_Sequence chunk = sequence + 1 \<or> tc_Truncated chunk)"

lemma consumeAttempt_conflict:
  assumes "\<not> inOrder (tf_throughOffset f) (tf_sequence f) chunk"
  shows "\<exists>through. consumeAttempt f chunk n =
    (Decided (Some (newError CodeSequenceConflict)), f\<lparr>tf_throughOffset := through\<rparr>)"
proof (cases "tc_Offset chunk \<noteq> tf_throughOffset f \<and> (\<not> tc_Truncated chunk \<or> tc_Offset chunk < tf_throughOffset f)")
  case True
  then have "consumeAttempt f chunk n =
      (Decided (Some (newError CodeSequenceConflict)), f\<lparr>tf_throughOffset := tf_throughOffset f\<rparr>)"
    by (simp add: consumeAttempt_def)
  then show ?thesis by blast
next
  case False
  then have "tf_sequence f \<noteq> 0 \<and> tc_Sequence chunk \<noteq> tf_sequence f + 1 \<and> \<not> tc_Truncated chunk"
    using assms by (auto simp: inOrder_def not_less)
  with False have "consumeAttempt f chunk n =
      (Decided (Some (newError CodeSequenceConflict)), f\<lparr>tf_throughOffset := tc_Offset chunk\<rparr>)"
    by (auto simp: consumeAttempt_def)
  then show ?thesis by blast
qed

lemma consumeAttempt_inOrder:
  assumes "inOrder (tf_throughOffset f) (tf_sequence f) chunk"
  shows "consumeAttempt f chunk n =
    (if n \<le> tf_remaining f
     then (Decided (if tc_CreditRemaining chunk \<noteq> tf_remaining f - n then Some (newError CodeInvalidArgument) else nil),
       f\<lparr>tf_remaining := tf_remaining f - n, tf_throughOffset := tc_Offset chunk + n, tf_sequence := tc_Sequence chunk\<rparr>)
     else (Blocked, f\<lparr>tf_throughOffset := tc_Offset chunk\<rparr>))"
proof -
  have "\<not> (tc_Offset chunk \<noteq> tf_throughOffset f \<and> (\<not> tc_Truncated chunk \<or> tc_Offset chunk < tf_throughOffset f))"
    "\<not> (tf_sequence f \<noteq> 0 \<and> tc_Sequence chunk \<noteq> tf_sequence f + 1 \<and> \<not> tc_Truncated chunk)"
    using assms by (auto simp: inOrder_def)
  then show ?thesis unfolding consumeAttempt_def by (auto simp: Let_def)
qed

lemma consumeAttempt_cases:
  obtains (conflict) through where "consumeAttempt f chunk n =
        (Decided (Some (newError CodeSequenceConflict)), f\<lparr>tf_throughOffset := through\<rparr>)"
      "\<not> inOrder (tf_throughOffset f) (tf_sequence f) chunk"
  | (admit) "inOrder (tf_throughOffset f) (tf_sequence f) chunk" "n \<le> tf_remaining f"
      "consumeAttempt f chunk n =
        (Decided (if tc_CreditRemaining chunk \<noteq> tf_remaining f - n then Some (newError CodeInvalidArgument) else nil),
         f\<lparr>tf_remaining := tf_remaining f - n, tf_throughOffset := tc_Offset chunk + n, tf_sequence := tc_Sequence chunk\<rparr>)"
  | (blocked) "inOrder (tf_throughOffset f) (tf_sequence f) chunk" "tf_remaining f < n"
      "consumeAttempt f chunk n = (Blocked, f\<lparr>tf_throughOffset := tc_Offset chunk\<rparr>)"
  using consumeAttempt_conflict [of f chunk n] consumeAttempt_inOrder [of f chunk n]
  by (metis not_le)

datatype flow_op = ChunkOp TerminalChunk | CreditOp TerminalCredit

definition serverOperate :: "uint64 \<Rightarrow> terminalFlow \<Rightarrow> flow_op \<Rightarrow> terminalFlow" where
  "serverOperate maximum f a =
     (case a of
        ChunkOp c \<Rightarrow> snd (terminalFlow_consume f c maximum [])
      | CreditOp c \<Rightarrow> snd (addCredit f c))"

text \<open>A chunk that is in order and fits is charged, also when its announced credit is then refused.\<close>

definition serverTook :: "uint64 \<Rightarrow> terminalFlow \<Rightarrow> flow_op \<Rightarrow> nat" where
  "serverTook maximum f a =
     (case a of
        ChunkOp c \<Rightarrow>
          (case consumeGuard f c maximum of
             Inl _ \<Rightarrow> 0
           | Inr n \<Rightarrow> if inOrder (tf_throughOffset f) (tf_sequence f) c \<and> n \<le> tf_remaining f
                      then unat n else 0)
      | CreditOp _ \<Rightarrow> 0)"

definition serverGave :: "terminalFlow \<Rightarrow> flow_op \<Rightarrow> nat" where
  "serverGave f a =
     (case a of ChunkOp _ \<Rightarrow> 0 | CreditOp c \<Rightarrow> if fst (addCredit f c) = nil then unat (cd_Bytes c) else 0)"

lemma credit_fits:
  assumes "\<not> b > w - (r :: uint64)" "unat r \<le> unat w"
  shows "unat (r + b) = unat r + unat b" "unat r + unat b \<le> unat w"
proof -
  have "unat (w - r) = unat w - unat r" using assms(2) by (intro unat_sub_le) (simp add: word_le_nat_alt)
  with assms show *: "unat r + unat b \<le> unat w" by (simp add: not_less word_le_nat_alt)
  moreover have "unat w < 2 ^ 64" by (rule order.strict_trans2 [OF unsigned_less]) simp
  ultimately have "unat r + unat b < 2 ^ 64" by simp
  then show "unat (r + b) = unat r + unat b" by (simp add: unat_word_ariths)
qed

lemma addCredit_cases:
  obtains (refuse) e where "addCredit f c = (Some e, f)"
  | (accept) "addCredit f c = (nil, f\<lparr>tf_remaining := tf_remaining f + cd_Bytes c\<rparr>)"
      "cd_ThroughOffset c = tf_throughOffset f" "\<not> cd_Bytes c > tf_window f - tf_remaining f"
proof (cases "TerminalCredit_Validate c \<noteq> nil \<or> cd_NativeSessionID c \<noteq> tf_nativeSession f \<or> cd_StreamID c \<noteq> tf_streamID f")
  case True
  then have "addCredit f c = (Some (newError CodeInvalidArgument), f)" by (auto simp: addCredit_def)
  then show ?thesis by (rule refuse)
next
  case valid: False
  show ?thesis
  proof (cases "cd_ThroughOffset c \<noteq> tf_throughOffset f \<or> cd_Bytes c > tf_window f - tf_remaining f")
    case True
    with valid have "addCredit f c = (Some (newError CodeInvalidArgument), f)" by (auto simp: addCredit_def)
    then show ?thesis by (rule refuse)
  next
    case False
    then show ?thesis using accept valid by (simp add: addCredit_def)
  qed
qed

interpretation server_window: credit_window "serverOperate maximum" "serverTook maximum" serverGave
  "\<lambda>f. unat (tf_remaining f)" "\<lambda>f. unat (tf_window f)" for maximum
proof
  fix f :: terminalFlow and a :: flow_op
  show "unat (tf_window (serverOperate maximum f a)) = unat (tf_window f)"
  proof (cases a)
    case (ChunkOp c)
    show ?thesis
    proof (cases "consumeGuard f c maximum")
      case (Inr n)
      show ?thesis by (cases rule: consumeAttempt_cases [where f = f and chunk = c and n = n])
        (simp_all add: ChunkOp serverOperate_def terminalFlow_consume_def Inr)
    qed (simp add: ChunkOp serverOperate_def terminalFlow_consume_def)
  next
    case (CreditOp c)
    show ?thesis by (cases rule: addCredit_cases [where f = f and c = c]) (simp_all add: CreditOp serverOperate_def)
  qed
next
  fix f :: terminalFlow and a :: flow_op
  assume r: "unat (tf_remaining f) \<le> unat (tf_window f)"
  have "unat (tf_remaining (serverOperate maximum f a)) + serverTook maximum f a =
      unat (tf_remaining f) + serverGave f a \<and>
      unat (tf_remaining (serverOperate maximum f a)) \<le> unat (tf_window f)"
  proof (cases a)
    case (ChunkOp c)
    show ?thesis
    proof (cases "consumeGuard f c maximum")
      case (Inr n)
      show ?thesis using r by (cases rule: consumeAttempt_cases [where f = f and chunk = c and n = n])
        (auto simp: ChunkOp serverOperate_def serverTook_def serverGave_def terminalFlow_consume_def Inr
          unat_sub_le word_le_nat_alt word_less_nat_alt)
    qed (use r in \<open>simp add: ChunkOp serverOperate_def serverTook_def serverGave_def terminalFlow_consume_def\<close>)
  next
    case (CreditOp c)
    show ?thesis
    proof (cases rule: addCredit_cases [where f = f and c = c])
      case accept
      with credit_fits [OF accept(3) r] show ?thesis
        by (simp add: CreditOp serverOperate_def serverTook_def serverGave_def)
    qed (use r in \<open>simp add: CreditOp serverOperate_def serverTook_def serverGave_def\<close>)
  qed
  then show "unat (tf_remaining (serverOperate maximum f a)) + serverTook maximum f a =
      unat (tf_remaining f) + serverGave f a"
    "unat (tf_remaining (serverOperate maximum f a)) \<le> unat (tf_window f)" by simp_all
qed

definition clientOperate :: "uint64 \<Rightarrow> bool \<Rightarrow> clientTerminalFlow \<Rightarrow> flow_op \<Rightarrow> clientTerminalFlow" where
  "clientOperate maximum replay f a =
     (case a of
        ChunkOp c \<Rightarrow>
          (case snd (consumeTerminalChunk maximum replay (Some f) c True) of Some f' \<Rightarrow> f' | None \<Rightarrow> f)
      | CreditOp c \<Rightarrow> snd (sendTerminalCredit (Inr []) nil f True c))"

definition clientTook :: "uint64 \<Rightarrow> bool \<Rightarrow> clientTerminalFlow \<Rightarrow> flow_op \<Rightarrow> nat" where
  "clientTook maximum replay f a =
     (case a of
        ChunkOp c \<Rightarrow>
          if fst (consumeTerminalChunk maximum replay (Some f) c True) = nil
          then (case terminalChunkSize c of Some n \<Rightarrow> unat n | None \<Rightarrow> 0) else 0
      | CreditOp _ \<Rightarrow> 0)"

definition clientGave :: "clientTerminalFlow \<Rightarrow> flow_op \<Rightarrow> nat" where
  "clientGave f a =
     (case a of
        ChunkOp _ \<Rightarrow> 0
      | CreditOp c \<Rightarrow> if fst (sendTerminalCredit (Inr []) nil f True c) = nil then unat (cd_Bytes c) else 0)"

lemma clientFlow_consume_cases:
  obtains (refuse) e where "clientFlow_consume f c active = (Some e, f)"
  | (accept) n where "terminalChunkSize c = Some n" "n \<le> cf_remaining f" "\<not> cf_closed f" "active"
      "tc_NativeSessionID c = cf_nativeSession f" "tc_StreamID c = cf_streamID f"
      "inOrder (cf_throughOffset f) (cf_sequence f) c" "tc_CreditRemaining c = cf_remaining f - n"
      "clientFlow_consume f c active =
        (nil, f\<lparr>cf_remaining := cf_remaining f - n, cf_throughOffset := tc_Offset c + n, cf_sequence := tc_Sequence c\<rparr>)"
proof (cases "fst (clientFlow_consume f c active)")
  case None
  then obtain n where n: "terminalChunkSize c = Some n"
    by (auto simp: clientFlow_consume_def split: if_splits option.splits)
  with None show ?thesis
    by (intro accept [of n]) (auto simp: clientFlow_consume_def inOrder_def not_less split: if_splits)
next
  case (Some e)
  then have "clientFlow_consume f c active = (Some e, f)"
    by (auto simp: clientFlow_consume_def split: if_splits option.splits)
  then show ?thesis by (rule refuse)
qed

lemma consumeTerminalChunk_cases:
  obtains (refuse) e where "consumeTerminalChunk maximum replay (Some f) c active = (Some e, Some f)"
  | (accept) "validateTerminalChunkLimit c maximum = nil" "tc_Replayed c \<longrightarrow> replay"
      "consumeTerminalChunk maximum replay (Some f) c active = map_prod id Some (clientFlow_consume f c active)"
  by (cases "validateTerminalChunkLimit c maximum"; cases "tc_Replayed c \<and> \<not> replay")
    (auto simp: consumeTerminalChunk_def intro: that)

lemma sendTerminalCredit_cases:
  obtains (refuse) e where "sendTerminalCredit frame written f active c = (Some e, f)"
  | (accept) "sendTerminalCredit frame written f active c = (nil, f\<lparr>cf_remaining := cf_remaining f + cd_Bytes c\<rparr>)"
      "cd_ThroughOffset c = cf_throughOffset f" "\<not> cd_Bytes c > cf_window f - cf_remaining f" "\<not> cf_closed f"
proof (cases "fst (sendTerminalCredit frame written f active c)")
  case None
  then show ?thesis
    by (intro accept) (auto simp: sendTerminalCredit_def split: if_splits option.splits sum.splits)
next
  case (Some e)
  then have "sendTerminalCredit frame written f active c = (Some e, f)"
    by (auto simp: sendTerminalCredit_def split: if_splits option.splits sum.splits)
  then show ?thesis by (rule refuse)
qed

interpretation client_window: credit_window "clientOperate maximum replay" "clientTook maximum replay" clientGave
  "\<lambda>f. unat (cf_remaining f)" "\<lambda>f. unat (cf_window f)" for maximum replay
proof
  fix f :: clientTerminalFlow and a :: flow_op
  show "unat (cf_window (clientOperate maximum replay f a)) = unat (cf_window f)"
  proof (cases a)
    case (ChunkOp c)
    show ?thesis
      by (cases rule: consumeTerminalChunk_cases [where f = f and c = c and active = True and maximum = maximum and replay = replay];
          cases rule: clientFlow_consume_cases [where f = f and c = c and active = True])
        (simp_all add: ChunkOp clientOperate_def)
  next
    case (CreditOp c)
    show ?thesis
      by (cases rule: sendTerminalCredit_cases [where frame = "Inr []" and written = nil and f = f and c = c and active = True])
        (simp_all add: CreditOp clientOperate_def)
  qed
next
  fix f :: clientTerminalFlow and a :: flow_op
  assume r: "unat (cf_remaining f) \<le> unat (cf_window f)"
  have "unat (cf_remaining (clientOperate maximum replay f a)) + clientTook maximum replay f a =
      unat (cf_remaining f) + clientGave f a \<and>
      unat (cf_remaining (clientOperate maximum replay f a)) \<le> unat (cf_window f)"
  proof (cases a)
    case (ChunkOp c)
    show ?thesis using r
      by (cases rule: consumeTerminalChunk_cases [where f = f and c = c and active = True and maximum = maximum and replay = replay];
          cases rule: clientFlow_consume_cases [where f = f and c = c and active = True])
        (simp_all add: ChunkOp clientOperate_def clientTook_def clientGave_def unat_sub_le word_le_nat_alt)
  next
    case (CreditOp c)
    show ?thesis
    proof (cases rule: sendTerminalCredit_cases [where frame = "Inr []" and written = nil and f = f and c = c and active = True])
      case accept
      with credit_fits [OF accept(3) r] show ?thesis
        by (simp add: CreditOp clientOperate_def clientTook_def clientGave_def)
    qed (use r in \<open>simp add: CreditOp clientOperate_def clientTook_def clientGave_def\<close>)
  qed
  then show "unat (cf_remaining (clientOperate maximum replay f a)) + clientTook maximum replay f a =
      unat (cf_remaining f) + clientGave f a"
    "unat (cf_remaining (clientOperate maximum replay f a)) \<le> unat (cf_window f)" by simp_all
qed

section \<open>The two ends in step\<close>

definition inStep :: "bool \<Rightarrow> terminalFlow \<Rightarrow> clientTerminalFlow \<Rightarrow> bool" where
  "inStep replay s c \<longleftrightarrow>
     tf_nativeSession s = cf_nativeSession c \<and> tf_streamID s = cf_streamID c \<and>
     tf_window s = cf_window c \<and> tf_remaining s = cf_remaining c \<and>
     tf_throughOffset s = cf_throughOffset c \<and> tf_sequence s = cf_sequence c \<and>
     tf_replayAllowed s = replay \<and> \<not> cf_closed c"

lemma terminalFlow_consume_accepts:
  assumes "terminalFlow_consume s chunk m [] = (Some nil, s')"
  obtains n where "terminalChunkSize chunk = Some n" "n \<le> tf_remaining s"
    "validateTerminalChunkLimit chunk m = nil" "tc_Replayed chunk \<longrightarrow> tf_replayAllowed s"
    "tc_NativeSessionID chunk = tf_nativeSession s" "tc_StreamID chunk = tf_streamID s"
    "inOrder (tf_throughOffset s) (tf_sequence s) chunk" "tc_CreditRemaining chunk = tf_remaining s - n"
    "s' = s\<lparr>tf_remaining := tf_remaining s - n, tf_throughOffset := tc_Offset chunk + n, tf_sequence := tc_Sequence chunk\<rparr>"
proof (cases "consumeGuard s chunk m")
  case (Inr n)
  then have g: "terminalChunkSize chunk = Some n" "validateTerminalChunkLimit chunk m = nil"
    "tc_Replayed chunk \<longrightarrow> tf_replayAllowed s"
    "tc_NativeSessionID chunk = tf_nativeSession s" "tc_StreamID chunk = tf_streamID s"
    by (auto simp: consumeGuard_def split: if_splits option.splits)
  show ?thesis using assms g
    by (cases rule: consumeAttempt_cases [where f = s and chunk = chunk and n = n])
      (auto simp: terminalFlow_consume_def Inr intro!: that split: if_splits)
qed (use assms in \<open>simp add: terminalFlow_consume_def\<close>)

lemma inStep_chunk:
  assumes "inStep replay s c" "terminalFlow_consume s chunk m [] = (Some nil, s')"
  shows "\<exists>c'. consumeTerminalChunk m replay (Some c) chunk True = (nil, Some c') \<and> inStep replay s' c'"
proof -
  from assms(1) have st: "tf_nativeSession s = cf_nativeSession c" "tf_streamID s = cf_streamID c"
    "tf_window s = cf_window c" "tf_remaining s = cf_remaining c" "tf_throughOffset s = cf_throughOffset c"
    "tf_sequence s = cf_sequence c" "tf_replayAllowed s = replay" "\<not> cf_closed c"
    by (simp_all add: inStep_def)
  from assms(2) obtain n where n: "terminalChunkSize chunk = Some n" "n \<le> cf_remaining c"
    "validateTerminalChunkLimit chunk m = nil" "tc_Replayed chunk \<longrightarrow> replay"
    "tc_NativeSessionID chunk = cf_nativeSession c" "tc_StreamID chunk = cf_streamID c"
    "inOrder (cf_throughOffset c) (cf_sequence c) chunk" "tc_CreditRemaining chunk = cf_remaining c - n"
    "s' = s\<lparr>tf_remaining := cf_remaining c - n, tf_throughOffset := tc_Offset chunk + n, tf_sequence := tc_Sequence chunk\<rparr>"
    by (rule terminalFlow_consume_accepts) (use st in simp_all)
  then have "clientFlow_consume c chunk True =
      (nil, c\<lparr>cf_remaining := cf_remaining c - n, cf_throughOffset := tc_Offset chunk + n, cf_sequence := tc_Sequence chunk\<rparr>)"
    using st(8) unfolding clientFlow_consume_def inOrder_def by auto
  then show ?thesis using n(3,4,9) assms(1) by (simp add: consumeTerminalChunk_def inStep_def)
qed

lemma inStep_credit:
  assumes "inStep replay s c" "sendTerminalCredit (Inr frame) nil c True credit = (nil, c')"
    "TerminalCredit_Validate credit = nil" "cd_NativeSessionID credit = cf_nativeSession c"
    "cd_StreamID credit = cf_streamID c"
  shows "\<exists>s'. addCredit s credit = (nil, s') \<and> inStep replay s' c'"
  using assms(2)
  by (cases rule: sendTerminalCredit_cases [where frame = "Inr frame" and written = nil and f = c and c = credit and active = True])
    (use assms in \<open>auto simp: inStep_def addCredit_def\<close>)

section \<open>A stream with both directions in flight\<close>

text \<open>
  The provider's flow, the chunks on their way to the gateway, the gateway's flow and the credits on
  their way back. In a disciplined run the gateway grants credit only when no chunk is in flight and
  the provider sends only when no credit is. A refusal on delivery is recorded in the last component.
\<close>

record channel =
  ch_server :: terminalFlow
  ch_chunks :: "TerminalChunk list"
  ch_client :: clientTerminalFlow
  ch_credits :: "TerminalCredit list"
  ch_refused :: bool

definition newChannel :: "TerminalSubscribeRequest \<Rightarrow> bool \<Rightarrow> channel" where
  "newChannel request replay =
     \<lparr>ch_server = newTerminalFlow request replay, ch_chunks = [],
      ch_client = newClientTerminalFlow request, ch_credits = [], ch_refused = False\<rparr>"

inductive channelStep :: "uint64 \<Rightarrow> bool \<Rightarrow> channel \<Rightarrow> channel \<Rightarrow> bool" for m replay where
  send: "terminalFlow_consume (ch_server h) chunk m [] = (Some nil, s') \<Longrightarrow> ch_credits h = [] \<Longrightarrow>
    channelStep m replay h (h\<lparr>ch_server := s', ch_chunks := ch_chunks h @ [chunk]\<rparr>)"
| deliver: "ch_chunks h = chunk # rest \<Longrightarrow>
    consumeTerminalChunk m replay (Some (ch_client h)) chunk True = (err, Some c') \<Longrightarrow>
    channelStep m replay h
      (h\<lparr>ch_chunks := rest, ch_client := c', ch_refused := (ch_refused h \<or> err \<noteq> nil)\<rparr>)"
| grant: "sendTerminalCredit (Inr frame) nil (ch_client h) True credit = (nil, c') \<Longrightarrow>
    TerminalCredit_Validate credit = nil \<Longrightarrow>
    cd_NativeSessionID credit = cf_nativeSession (ch_client h) \<Longrightarrow>
    cd_StreamID credit = cf_streamID (ch_client h) \<Longrightarrow> ch_chunks h = [] \<Longrightarrow>
    channelStep m replay h (h\<lparr>ch_client := c', ch_credits := ch_credits h @ [credit]\<rparr>)"
| receive: "ch_credits h = credit # rest \<Longrightarrow> addCredit (ch_server h) credit = (err, s') \<Longrightarrow>
    channelStep m replay h
      (h\<lparr>ch_credits := rest, ch_server := s', ch_refused := (ch_refused h \<or> err \<noteq> nil)\<rparr>)"

inductive channelReach :: "uint64 \<Rightarrow> bool \<Rightarrow> TerminalSubscribeRequest \<Rightarrow> channel \<Rightarrow> bool"
  for m replay request where
  start: "channelReach m replay request (newChannel request replay)"
| step: "channelReach m replay request h \<Longrightarrow> channelStep m replay h h' \<Longrightarrow> channelReach m replay request h'"

fun deliverAll :: "uint64 \<Rightarrow> bool \<Rightarrow> clientTerminalFlow \<Rightarrow> TerminalChunk list \<Rightarrow> clientTerminalFlow option" where
  "deliverAll m replay c [] = Some c"
| "deliverAll m replay c (chunk # chunks) =
     (case consumeTerminalChunk m replay (Some c) chunk True of
        (None, Some c') \<Rightarrow> deliverAll m replay c' chunks
      | _ \<Rightarrow> None)"

fun absorbAll :: "terminalFlow \<Rightarrow> TerminalCredit list \<Rightarrow> terminalFlow option" where
  "absorbAll s [] = Some s"
| "absorbAll s (credit # credits) =
     (case addCredit s credit of (None, s') \<Rightarrow> absorbAll s' credits | _ \<Rightarrow> None)"

lemma deliverAll_snoc:
  "deliverAll m replay c chunks = Some c' \<Longrightarrow>
   deliverAll m replay c (chunks @ [chunk]) = deliverAll m replay c' [chunk]"
  by (induction chunks arbitrary: c) (auto split: prod.splits option.splits)

lemma absorbAll_snoc:
  "absorbAll s credits = Some s' \<Longrightarrow> absorbAll s (credits @ [credit]) = absorbAll s' [credit]"
  by (induction credits arbitrary: s) (auto split: prod.splits option.splits)

text \<open>Once everything in flight has arrived, the two ends agree.\<close>

definition channelInv :: "uint64 \<Rightarrow> bool \<Rightarrow> channel \<Rightarrow> bool" where
  "channelInv m replay h \<longleftrightarrow>
     \<not> ch_refused h \<and>
     (ch_credits h = [] \<and> (\<exists>c. deliverAll m replay (ch_client h) (ch_chunks h) = Some c \<and> inStep replay (ch_server h) c) \<or>
      ch_chunks h = [] \<and> (\<exists>s. absorbAll (ch_server h) (ch_credits h) = Some s \<and> inStep replay s (ch_client h)))"

lemma channelStep_inv:
  assumes "channelStep m replay h h'" "channelInv m replay h"
  shows "channelInv m replay h'"
  using assms(1)
proof cases
  case (send chunk s')
  from assms(2) send(3) obtain c where c: "deliverAll m replay (ch_client h) (ch_chunks h) = Some c"
    "inStep replay (ch_server h) c" "\<not> ch_refused h" by (auto simp: channelInv_def)
  from inStep_chunk [OF c(2) send(2)] obtain c' where
    "consumeTerminalChunk m replay (Some c) chunk True = (nil, Some c')" "inStep replay s' c'" by blast
  then show ?thesis using deliverAll_snoc [OF c(1), of chunk] c(3) send(1,3) by (simp add: channelInv_def)
next
  case (deliver chunk rest err c')
  then show ?thesis using assms(2)
    by (auto simp: channelInv_def split: option.splits)
next
  case (grant frame credit c')
  from assms(2) grant(6) obtain s where s: "absorbAll (ch_server h) (ch_credits h) = Some s"
    "inStep replay s (ch_client h)" "\<not> ch_refused h" by (auto simp: channelInv_def)
  from inStep_credit [OF s(2) grant(2-5)] obtain s' where
    "addCredit s credit = (nil, s')" "inStep replay s' c'" by blast
  then show ?thesis using absorbAll_snoc [OF s(1), of credit] s(3) grant(1,6) by (simp add: channelInv_def)
next
  case (receive credit rest err s')
  then show ?thesis using assms(2)
    by (auto simp: channelInv_def split: option.splits)
qed

lemma newChannel_inv: "channelInv m replay (newChannel request replay)"
  by (simp add: channelInv_def newChannel_def inStep_def newTerminalFlow_def newClientTerminalFlow_def)

lemma channelReach_inv: "channelReach m replay request h \<Longrightarrow> channelInv m replay h"
  by (induction rule: channelReach.induct) (auto intro: newChannel_inv channelStep_inv)

section \<open>Properties\<close>

text \<open>
  C27: In a disciplined run of one terminal stream, no chunk and no credit is ever refused, and
  whenever nothing is in flight the two ends agree on the credit left, the offset and the sequence.
\<close>

theorem terminal_channel_in_step:
  assumes "channelReach m replay request h"
  shows "\<not> ch_refused h \<and>
    (ch_chunks h = [] \<and> ch_credits h = [] \<longrightarrow> inStep replay (ch_server h) (ch_client h))"
  using channelReach_inv [OF assms] by (auto simp: channelInv_def)

definition sampleRequest :: TerminalSubscribeRequest where
  "sampleRequest = \<lparr>tsr_NativeSessionID = ''native-1'', tsr_StreamID = ''main'', tsr_AfterOffset = 0, tsr_WindowBytes = 8\<rparr>"

definition sampleFlow :: "uint64 \<Rightarrow> uint64 \<Rightarrow> uint64 \<Rightarrow> terminalFlow" where
  "sampleFlow r off q = (newTerminalFlow sampleRequest False)\<lparr>tf_remaining := r, tf_throughOffset := off, tf_sequence := q\<rparr>"

definition sampleCredit :: "uint64 \<Rightarrow> uint64 \<Rightarrow> TerminalCredit" where
  "sampleCredit n off =
     \<lparr>cd_NativeSessionID = ''native-1'', cd_StreamID = ''main'', cd_Bytes = n, cd_ThroughOffset = off\<rparr>"

lemma sampleChunk_limit:
  "validateTerminalChunkLimit (sampleChunk 1 0 False 4 ''abcd'') 64 = nil"
  "validateTerminalChunkLimit (sampleChunk 2 4 False 0 ''abcdefgh'') 64 = nil"
  "validateTerminalChunkLimit (sampleChunk 2 6 True 0 ''abcdefgh'') 64 = nil"
  by code_simp+

lemma sampleChunk_size [simp]:
  "terminalChunkSize (sampleChunk q off t credit data) = Some (of_nat (length data))"
  by (simp add: terminalChunkSize_def terminalDataSize_def sampleChunk_def byteCount_def)

lemma sampleCredit_valid: "TerminalCredit_Validate (sampleCredit 4 4) = nil" "TerminalCredit_Validate (sampleCredit 4 0) = nil"
  by code_simp+

lemma sampleFlow_guard:
  "validateTerminalChunkLimit (sampleChunk q off t credit data) 64 = nil \<Longrightarrow>
   consumeGuard (sampleFlow r off' q') (sampleChunk q off t credit data) 64 = Inr (of_nat (length data))"
  by (simp add: consumeGuard_def)
    (simp add: sampleFlow_def sampleChunk_def newTerminalFlow_def sampleRequest_def)

lemma newTerminalFlow_sample: "newTerminalFlow sampleRequest False = sampleFlow 8 0 0"
  by (simp add: sampleFlow_def newTerminalFlow_def sampleRequest_def)

lemma sampleFlow_first:
  "terminalFlow_consume (sampleFlow 8 0 0) (sampleChunk 1 0 False 4 ''abcd'') 64 [] = (Some nil, sampleFlow 4 4 1)"
  by (simp add: terminalFlow_consume_def sampleFlow_guard [OF sampleChunk_limit(1)])
    (simp add: consumeAttempt_def Let_def sampleFlow_def sampleChunk_def newTerminalFlow_def sampleRequest_def)

theorem terminal_channel_in_step_witness:
  "channelReach 64 False sampleRequest
     ((newChannel sampleRequest False)\<lparr>ch_server := sampleFlow 4 4 1, ch_chunks := [sampleChunk 1 0 False 4 ''abcd'']\<rparr>) \<and>
   inStep False (sampleFlow 8 0 0) (newClientTerminalFlow sampleRequest)"
proof
  have 0: "channelReach 64 False sampleRequest (newChannel sampleRequest False)" by (rule start)
  show "channelReach 64 False sampleRequest
     ((newChannel sampleRequest False)\<lparr>ch_server := sampleFlow 4 4 1, ch_chunks := [sampleChunk 1 0 False 4 ''abcd'']\<rparr>)"
    using step [OF 0 send] sampleFlow_first by (simp add: newChannel_def newTerminalFlow_sample)
  show "inStep False (sampleFlow 8 0 0) (newClientTerminalFlow sampleRequest)"
    using terminal_channel_in_step [OF 0] by (simp add: newChannel_def newTerminalFlow_sample)
qed

text \<open>
  Whatever chunks and credits a stream sees, in whatever order, the bytes that either end has let
  through never exceed the window plus the credit returned, and the credit left never exceeds the
  window.
\<close>

theorem terminal_window_no_overrun:
  "tally (serverOperate m) (serverTook m) (newTerminalFlow request replay) ops \<le>
     unat (tsr_WindowBytes request) + tally (serverOperate m) serverGave (newTerminalFlow request replay) ops \<and>
   unat (tf_remaining (history (serverOperate m) (newTerminalFlow request replay) ops)) \<le> unat (tsr_WindowBytes request) \<and>
   tally (clientOperate m replay) (clientTook m replay) (newClientTerminalFlow request) ops \<le>
     unat (tsr_WindowBytes request) + tally (clientOperate m replay) clientGave (newClientTerminalFlow request) ops \<and>
   unat (cf_remaining (history (clientOperate m replay) (newClientTerminalFlow request) ops)) \<le> unat (tsr_WindowBytes request)"
  using server_window.no_overrun [of "newTerminalFlow request replay" m ops]
    client_window.no_overrun [of "newClientTerminalFlow request" m replay ops]
  by (simp add: newTerminalFlow_def newClientTerminalFlow_def)



lemma stuck_wait:
  assumes "tf_throughOffset f \<noteq> off" "\<forall>c. CreditArrives c \<in> set schedule \<longrightarrow> cd_ThroughOffset c = off"
  shows "fst (consumeWait f chunk n schedule) \<noteq> Some nil"
  using assms(2)
proof (induction schedule)
  case (Cons w schedule)
  show ?case
  proof (cases w)
    case (CreditArrives credit)
    with Cons.prems assms(1) have "\<exists>e. addCredit f credit = (Some e, f)"
      by (cases rule: addCredit_cases [where f = f and c = credit]) auto
    then show ?thesis using Cons CreditArrives by auto
  qed simp
qed simp

text \<open>
  A truncated chunk that skips ahead and does not fit the credit left moves the provider's offset
  before it is admitted. The gateway, which has not seen it, can only grant credit at the old offset,
  and every such credit is refused: the chunk is never admitted.
\<close>

theorem truncated_chunk_starves:
  assumes "consumeGuard f chunk m = Inr n" "inOrder (tf_throughOffset f) (tf_sequence f) chunk"
    "tc_Offset chunk \<noteq> tf_throughOffset f" "tf_remaining f < n"
    "\<forall>c. CreditArrives c \<in> set schedule \<longrightarrow> cd_ThroughOffset c = tf_throughOffset f"
  shows "fst (terminalFlow_consume f chunk m schedule) \<noteq> Some nil"
proof -
  have "consumeAttempt f chunk n = (Blocked, f\<lparr>tf_throughOffset := tc_Offset chunk\<rparr>)"
    using consumeAttempt_inOrder [OF assms(2), of n] assms(4) by (simp add: not_le)
  then have "terminalFlow_consume f chunk m schedule =
      consumeWait (f\<lparr>tf_throughOffset := tc_Offset chunk\<rparr>) chunk n schedule"
    using assms(1) by (simp add: terminalFlow_consume_def)
  then show ?thesis using stuck_wait [of "f\<lparr>tf_throughOffset := tc_Offset chunk\<rparr>" "tf_throughOffset f" schedule chunk n]
    assms(3,5) by simp
qed

theorem truncated_chunk_starves_witness:
  "fst (terminalFlow_consume (sampleFlow 4 4 1) (sampleChunk 2 6 True 0 ''abcdefgh'') 64
     [CreditArrives (sampleCredit 4 4)]) \<noteq> Some nil"
  by (rule truncated_chunk_starves [where n = 8],
      simp_all add: sampleFlow_guard [OF sampleChunk_limit(3)])
    (simp_all add: inOrder_def sampleFlow_def sampleChunk_def sampleCredit_def)

text \<open>
  While a chunk is in flight, every credit the gateway can grant is refused by the provider: it
  names the offset before the chunk.
\<close>

theorem credit_races_with_chunk:
  assumes "inStep replay s c" "terminalFlow_consume s chunk m [] = (Some nil, s')"
    "sendTerminalCredit (Inr frame) nil c True credit = (nil, c')"
  shows "fst (addCredit s' credit) \<noteq> nil"
proof -
  from assms(2) obtain n where n: "terminalChunkSize chunk = Some n" "validateTerminalChunkLimit chunk m = nil"
    "inOrder (tf_throughOffset s) (tf_sequence s) chunk" "tf_throughOffset s' = tc_Offset chunk + n"
    by (rule terminalFlow_consume_accepts) auto
  from n(2) have "TerminalChunk_Validate chunk = nil" by (auto simp: validateTerminalChunkLimit_def split: if_splits)
  then obtain len where len: "terminalDataLength (tc_Encoding chunk) (tc_Data chunk) = Some len" "len \<noteq> 0"
    "\<not> tc_Offset chunk + len < tc_Offset chunk" by (rule TerminalChunk_length)
  with n(1) have "len = n"
    by (auto simp: terminalChunkSize_def terminalDataSize_def terminalDataLength_def split: if_splits)
  with len have "tc_Offset chunk < tf_throughOffset s'"
    using n(4) by (metis add_cancel_right_right not_less_iff_gr_or_eq)
  moreover have "tf_throughOffset s \<le> tc_Offset chunk" using n(3) by (auto simp: inOrder_def)
  ultimately have "cf_throughOffset c \<noteq> tf_throughOffset s'" using assms(1) by (auto simp: inStep_def)
  moreover have "cd_ThroughOffset credit = cf_throughOffset c"
    using assms(3) by (cases rule: sendTerminalCredit_cases [where frame = "Inr frame" and written = nil and f = c and c = credit and active = True]) auto
  ultimately show ?thesis by (cases rule: addCredit_cases [where f = s' and c = credit]) auto
qed

definition sampleClient :: "uint64 \<Rightarrow> uint64 \<Rightarrow> uint64 \<Rightarrow> clientTerminalFlow" where
  "sampleClient r off q =
     (newClientTerminalFlow sampleRequest)\<lparr>cf_remaining := r, cf_throughOffset := off, cf_sequence := q\<rparr>"

theorem credit_races_with_chunk_witness:
  "terminalFlow_consume (sampleFlow 4 4 1) (sampleChunk 2 4 False 0 ''abcd'') 64 [] = (Some nil, sampleFlow 0 8 2) \<and>
   fst (addCredit (sampleFlow 0 8 2) (sampleCredit 4 4)) \<noteq> nil"
proof -
  have l: "validateTerminalChunkLimit (sampleChunk 2 4 False 0 ''abcd'') 64 = nil" by code_simp
  have st: "inStep False (sampleFlow 4 4 1) (sampleClient 4 4 1)"
    by (simp add: inStep_def sampleFlow_def sampleClient_def newTerminalFlow_def newClientTerminalFlow_def)
  have sent: "terminalFlow_consume (sampleFlow 4 4 1) (sampleChunk 2 4 False 0 ''abcd'') 64 [] = (Some nil, sampleFlow 0 8 2)"
    by (simp add: terminalFlow_consume_def sampleFlow_guard [OF l])
      (simp add: consumeAttempt_def Let_def sampleFlow_def sampleChunk_def newTerminalFlow_def sampleRequest_def)
  have "sendTerminalCredit (Inr []) nil (sampleClient 4 4 1) True (sampleCredit 4 4) = (nil, sampleClient 8 4 1)"
    by (simp add: sendTerminalCredit_def sampleClient_def sampleCredit_def newClientTerminalFlow_def sampleRequest_def)
  from credit_races_with_chunk [OF st sent this] sent show ?thesis by simp
qed

end
