(* ===== verification/Server_Requests.thy ===== *)
theory Server_Requests
  imports Server_Negotiation Mutation_Ledger Terminal_Flow
begin

text \<open>
  One connection of \<open>provider/server.go\<close>: admitting requests (\<open>readLoop\<close>, \<open>reserveRequest\<close>), deciding what a
  request may do (\<open>execute\<close>), negotiating once (\<open>beginInitialization\<close> and its action), and settling the
  action of a request with its response (\<open>processRequest\<close>). What the transport, the contexts and the
  handlers do is an argument. The subscriptions of a connection are in \<open>Server_Subscriptions\<close>.
\<close>

section \<open>State\<close>

text \<open>
  \<open>cn_active\<close> are the keys of the map \<open>active\<close>; \<open>cn_running\<close> are the goroutines that hold a slot of the
  semaphore, each with its request identifier and whether it has released that identifier.
\<close>

record connection =
  cn_initialized :: bool
  cn_initializing :: bool
  cn_maximum :: uint64
  cn_maximumChunk :: uint64
  cn_replaySupported :: bool
  cn_writerMaximum :: uint64
  cn_active :: "string list"
  cn_running :: "(string \<times> bool) list"
  cn_closing :: bool
  cn_cancelled :: bool

definition openConnection :: "Limits \<Rightarrow> connection" where
  "openConnection limits =
     \<lparr>cn_initialized = False, cn_initializing = False, cn_maximum = MaxEnvelopeBytes limits,
      cn_maximumChunk = of_nat MaxTerminalChunkBytes, cn_replaySupported = False,
      cn_writerMaximum = MaxEnvelopeBytes limits, cn_active = [], cn_running = [], cn_closing = False, cn_cancelled = False\<rparr>"

section \<open>Admission of requests\<close>

definition reserveRequest :: "connection \<Rightarrow> string \<Rightarrow> verr \<times> connection" where
  "reserveRequest c rid =
     (if cn_closing c then (Some (newError CodeUnavailable), c)
      else if rid \<in> set (cn_active c) then (Some (newError CodeConflict), c)
      else (nil, c\<lparr>cn_active := rid # cn_active c\<rparr>))"

definition releaseRequest :: "connection \<Rightarrow> string \<Rightarrow> connection" where
  "releaseRequest c rid = c\<lparr>cn_active := filter (\<lambda>x. x \<noteq> rid) (cn_active c)\<rparr>"

datatype admitted = Spawned | Answered go_error | Stopped

text \<open>
  One request in \<open>readLoop\<close>. When the connection is cancelled and the semaphore has room, the \<open>select\<close>
  may take either branch: \<open>preferDone\<close> says which.
\<close>

definition admitRequest :: "Limits \<Rightarrow> connection \<Rightarrow> string \<Rightarrow> bool \<Rightarrow> admitted \<times> connection" where
  "admitRequest limits c rid preferDone =
     (case reserveRequest c rid of
        (Some e, c') \<Rightarrow> (Answered e, c')
      | (None, c') \<Rightarrow>
          (let room = int (length (cn_running c')) < MaxInFlightRequests limits in
           if room \<and> \<not> (cn_cancelled c' \<and> preferDone) then (Spawned, c'\<lparr>cn_running := (rid, False) # cn_running c'\<rparr>)
           else if cn_cancelled c' then (Stopped, releaseRequest c' rid)
           else (Answered (newError CodeResourceExhausted), releaseRequest c' rid)))"

text \<open>The two ends of a goroutine: \<open>processRequest\<close> releases the identifier, then the slot is given back.\<close>

definition finishRequest :: "connection \<Rightarrow> nat \<Rightarrow> connection" where
  "finishRequest c i =
     (releaseRequest c (fst (cn_running c ! i)))\<lparr>cn_running := (cn_running c)[i := (fst (cn_running c ! i), True)]\<rparr>"

definition freeSlot :: "connection \<Rightarrow> nat \<Rightarrow> connection" where
  "freeSlot c i = c\<lparr>cn_running := take i (cn_running c) @ drop (Suc i) (cn_running c)\<rparr>"

section \<open>Initialization\<close>

definition beginInitialization :: "connection \<Rightarrow> bool \<times> connection" where
  "beginInitialization c =
     (if cn_initialized c \<or> cn_initializing c then (False, c) else (True, c\<lparr>cn_initializing := True\<rparr>))"

definition abortInitialization :: "connection \<Rightarrow> connection" where
  "abortInitialization c = c\<lparr>cn_initializing := False\<rparr>"

text \<open>The two functions of the action that \<open>execute\<close> returns for \<open>provider.initialize\<close>.\<close>

definition prepareInitialized :: "Limits \<Rightarrow> ProviderInitializeResult \<Rightarrow> connection \<Rightarrow> connection" where
  "prepareInitialized limits result c =
     (let negotiatedMaximum = min (MaxEnvelopeBytes limits) (rs_MaximumMessageBytes result) in
      c\<lparr>cn_maximum := negotiatedMaximum, cn_maximumChunk := rs_MaximumChunkBytes result,
        cn_replaySupported := rs_ReplaySupported result, cn_writerMaximum := negotiatedMaximum,
        cn_initialized := True, cn_initializing := False\<rparr>)"

definition rollbackInitialized :: "Limits \<Rightarrow> connection \<Rightarrow> connection" where
  "rollbackInitialized limits c =
     c\<lparr>cn_maximum := MaxEnvelopeBytes limits, cn_maximumChunk := of_nat MaxTerminalChunkBytes,
       cn_replaySupported := False, cn_writerMaximum := MaxEnvelopeBytes limits,
       cn_initialized := False, cn_initializing := False\<rparr>"

definition executeInitialize ::
  "(ProviderManifest \<Rightarrow> string option) \<Rightarrow> ServerConfig \<Rightarrow> Limits \<Rightarrow> customInitialize \<Rightarrow> connection \<Rightarrow>
     go_error + ProviderInitializeRequest \<Rightarrow> (go_error + ProviderInitializeResult) \<times> connection" where
  "executeInitialize marshal cfg limits custom c decoded =
     (case beginInitialization c of
        (False, c') \<Rightarrow> (Inl (newError CodeConflict), c')
      | (True, c') \<Rightarrow>
          (case decoded of
             Inl e \<Rightarrow> (Inl e, abortInitialization c')
           | Inr request \<Rightarrow>
               (case initialize marshal cfg limits custom request of
                  Inl e \<Rightarrow> (Inl e, abortInitialization c')
                | Inr result \<Rightarrow> (Inr result, c'))))"

section \<open>What a request may do\<close>

definition isSubscriptionCapability :: "string \<Rightarrow> bool" where
  "isSubscriptionCapability capability \<longleftrightarrow>
     capability \<in> {''events.subscribe'', ''terminal.subscribe'', ''terminal.attach'', ''topology.subscribe''}"

text \<open>
  The payload is decoded according to the capability: the offset a terminal request starts after, or the
  sequences of the cursors of an event subscription.
\<close>

definition validateReplayRequest ::
  "string \<Rightarrow> (go_error + uint64) \<Rightarrow> (go_error + uint64) \<Rightarrow> (go_error + uint64 list) \<Rightarrow> bool \<Rightarrow> verr" where
  "validateReplayRequest capability readOffset subscribeOffset cursors replaySupported =
     (if replaySupported then nil
      else if capability = ''terminal.read''
      then (case readOffset of Inl e \<Rightarrow> Some e | Inr n \<Rightarrow> if n > 0 then Some (newError CodeInvalidArgument) else nil)
      else if capability = ''terminal.subscribe'' \<or> capability = ''terminal.attach''
      then (case subscribeOffset of Inl e \<Rightarrow> Some e | Inr n \<Rightarrow> if n > 0 then Some (newError CodeInvalidArgument) else nil)
      else if capability = ''events.subscribe''
      then (case cursors of
              Inl e \<Rightarrow> Some e
            | Inr ns \<Rightarrow> each_err (\<lambda>n. if n > 0 then Some (newError CodeInvalidArgument) else nil) ns)
      else nil)"

datatype route =
    RouteError go_error
  | RouteInitialize
  | RouteCapabilities
  | RouteCommandResult
  | RouteMutation CapabilityDescriptor
  | RouteQuery CapabilityDescriptor

text \<open>
  The order of the decisions of \<open>execute\<close>. \<open>replayErr\<close> is the result of \<open>validateReplayRequest\<close> on the
  parameter, \<open>admission\<close> what opening a subscription gave when the capability needs one, \<open>dispatchErr\<close> the
  error of the context a handler would get, and \<open>ownResult\<close> whether the provider has its own
  \<open>command.get_result\<close>.
\<close>

definition executeRoute ::
  "ServerConfig \<Rightarrow> connection \<Rightarrow> string \<Rightarrow> verr \<Rightarrow> verr \<Rightarrow> verr \<Rightarrow> verr \<Rightarrow> bool \<Rightarrow> route" where
  "executeRoute cfg c capability ctxErr replayErr admission dispatchErr ownResult =
     (if ctxErr \<noteq> nil then RouteError (newError (errorCode (the ctxErr)))
      else if capability = ''provider.initialize'' then RouteInitialize
      else if \<not> cn_initialized c then RouteError (newError CodeUnauthenticated)
      else (case Manifest_Capability (cfg_Manifest cfg) capability of
              None \<Rightarrow> RouteError (notSupported capability (manifestCapabilities (cfg_Manifest cfg)))
            | Some descriptor \<Rightarrow>
                if \<not> cap_Mutating descriptor \<and> replayErr \<noteq> nil then RouteError (the replayErr)
                else if isSubscriptionCapability capability \<and> \<not> cap_Mutating descriptor \<and> admission \<noteq> nil
                then RouteError (the admission)
                else if dispatchErr \<noteq> nil then RouteError (newError (errorCode (the dispatchErr)))
                else if capability = ''provider.capabilities'' then RouteCapabilities
                else if capability = ''command.get_result'' \<and> \<not> ownResult then RouteCommandResult
                else if cap_Mutating descriptor then RouteMutation descriptor
                else RouteQuery descriptor))"

text \<open>The checks on a command before it reaches the ledger; \<open>input\<close> is the decoded encoding and data of a terminal input.\<close>

definition mutationGuard ::
  "ServerConfig \<Rightarrow> connection \<Rightarrow> string \<Rightarrow> go_error + Command \<Rightarrow> gotime \<Rightarrow> verr \<Rightarrow> verr \<Rightarrow> (go_error + string \<times> string) \<Rightarrow> verr" where
  "mutationGuard cfg c capability decoded now metaErr replayErr input =
     (case decoded of
        Inl e \<Rightarrow> Some e
      | Inr command \<Rightarrow>
          first_err
           [if c_Capability command \<noteq> capability then Some (newError CodeInvalidArgument) else nil,
            ValidateAgainstManifest command (cfg_Manifest cfg),
            if \<not> time_After (c_Deadline command) now then Some (newError CodeDeadlineExceeded) else nil,
            metaErr,
            replayErr,
            if capability = ''terminal.send_input''
              then (case input of
                      Inl e \<Rightarrow> Some e
                    | Inr (encoding, data) \<Rightarrow>
                        (case terminalDataSize encoding data of
                           None \<Rightarrow> Some (newError CodeInvalidArgument)
                         | Some n \<Rightarrow> if n > cn_maximumChunk c then Some (newError CodeMessageTooLarge) else nil))
              else nil])"

section \<open>Settling the action of a request\<close>

text \<open>
  What \<open>execute\<close> returned, a result that cannot be encoded being None. An action says which of its functions are set and whether it carries the context
  of a command; the functions themselves run in the order of the effects below.
\<close>

record responseAction =
  ra_prepare :: bool
  ra_commit :: bool
  ra_rollback :: bool
  ra_ctx :: bool

datatype executed = ExecFailed go_error | ExecDone "json option" "responseAction option" bool

datatype flushOutcome = FlushResult verr | FrameContextDone "verr option" | ConnectionDone

record requestEnv =
  en_outbound :: verr
  en_ctxErr :: verr
  en_actionCtxErr :: verr
  en_enqueue :: verr
  en_flush :: flushOutcome

datatype effect = Prepared | Enqueued string | Flushed | Committed | RolledBack | ConnectionCancelled | Closing | Released

definition contextError :: "go_error \<Rightarrow> bool" where
  "contextError e \<longleftrightarrow> errors_Is e context_Canceled \<or> errors_Is e context_DeadlineExceeded"

definition rollbackEffect :: "responseAction option \<Rightarrow> effect list" where
  "rollbackEffect action = (case action of None \<Rightarrow> [] | Some a \<Rightarrow> if ra_rollback a then [RolledBack] else [])"

definition cancelUnlessContext :: "go_error \<Rightarrow> effect list" where
  "cancelUnlessContext e = (if contextError e then [] else [ConnectionCancelled])"

text \<open>After the frame is queued: wait for it to be written, then commit and shut down when asked to.\<close>

definition awaitFlush :: "flushOutcome \<Rightarrow> responseAction option \<Rightarrow> bool \<Rightarrow> bool \<Rightarrow> effect list" where
  "awaitFlush flush action commitAction shutdown =
     (let success =
        [Flushed] @ (if commitAction then (case action of None \<Rightarrow> [] | Some a \<Rightarrow> if ra_commit a then [Committed] else [])
                     else rollbackEffect action) @
        (if shutdown \<and> commitAction then [Closing, ConnectionCancelled] else []);
        failed = (\<lambda>e. cancelUnlessContext e @ rollbackEffect action)
      in case flush of
           FlushResult None \<Rightarrow> success
         | FlushResult (Some e) \<Rightarrow> failed e
         | FrameContextDone (Some None) \<Rightarrow> success
         | FrameContextDone (Some (Some e)) \<Rightarrow> failed e
         | FrameContextDone None \<Rightarrow> (if action \<noteq> None then [ConnectionCancelled] else []) @ rollbackEffect action
         | ConnectionDone \<Rightarrow> rollbackEffect action)"

definition processRequest :: "string \<Rightarrow> uint64 \<Rightarrow> executed \<Rightarrow> requestEnv \<Rightarrow> effect list" where
  "processRequest rid maximum executed env =
     (let (outcome, action, shutdown) =
            (case executed of
               ExecFailed e \<Rightarrow> (Inl e, None, False)
             | ExecDone result action shutdown \<Rightarrow>
                 (case (if (case action of None \<Rightarrow> False | Some a \<Rightarrow> ra_ctx a) then en_actionCtxErr env else en_ctxErr env) of
                    Some e \<Rightarrow> (Inl (newError (errorCode e)), action, shutdown)
                  | None \<Rightarrow> (Inr result, action, shutdown)));
          answer = (case outcome of Inl e \<Rightarrow> Inl e | Inr result \<Rightarrow> marshalResponse rid result (en_outbound env) maximum);
          commitAction = (case answer of Inl _ \<Rightarrow> False | Inr _ \<Rightarrow> True);
          frame = (case answer of Inl e \<Rightarrow> marshalErrorResponse rid e maximum | Inr data \<Rightarrow> Inr data)
      in (case frame of
            Inl _ \<Rightarrow> [ConnectionCancelled] @ rollbackEffect action
          | Inr data \<Rightarrow>
              (let early = (if \<not> commitAction then rollbackEffect action else []);
                   action' = (if \<not> commitAction then None else action);
                   prepared = (case action' of None \<Rightarrow> [] | Some a \<Rightarrow> if ra_prepare a then [Prepared] else [])
               in early @ prepared @
                  (case en_enqueue env of
                     Some e \<Rightarrow> cancelUnlessContext e @ rollbackEffect action'
                   | None \<Rightarrow> Enqueued data # awaitFlush (en_flush env) action' commitAction shutdown))) @ [Released])"

subsection \<open>The effects of a request\<close>

text \<open>The response that \<open>processRequest\<close> tries to send: a result, or the error that replaces it.\<close>

definition responseFrame :: "string \<Rightarrow> uint64 \<Rightarrow> json option \<Rightarrow> bool \<Rightarrow> requestEnv \<Rightarrow> go_error + string" where
  "responseFrame rid maximum result ownCtx env =
     (case (if ownCtx then en_actionCtxErr env else en_ctxErr env) of
        Some e \<Rightarrow> Inl (newError (errorCode e))
      | None \<Rightarrow> marshalResponse rid result (en_outbound env) maximum)"

abbreviation flushedOk :: "flushOutcome \<Rightarrow> bool" where
  "flushedOk flush \<equiv> flush = FlushResult nil \<or> flush = FrameContextDone (Some nil)"

definition acknowledged :: "string \<Rightarrow> uint64 \<Rightarrow> json option \<Rightarrow> bool \<Rightarrow> requestEnv \<Rightarrow> bool" where
  "acknowledged rid maximum result ownCtx env \<longleftrightarrow>
     (\<exists>data. responseFrame rid maximum result ownCtx env = Inr data) \<and> en_enqueue env = nil \<and> flushedOk (en_flush env)"

lemma effects_error:
  assumes "responseFrame rid m result (ra_ctx a) env = Inl e"
  obtains xs where "processRequest rid m (ExecDone result (Some a) shutdown) env = xs @ [Released]"
    "filter (\<lambda>x. x \<in> {Prepared, Committed, RolledBack}) xs = rollbackEffect (Some a)" "Released \<notin> set xs"
proof -
  have c: "filter (\<lambda>x. x \<in> {Prepared, Committed, RolledBack}) (cancelUnlessContext f) = []"
    "Released \<notin> set (cancelUnlessContext f)" for f by (simp_all add: cancelUnlessContext_def)
  have f: "filter (\<lambda>x. x \<in> {Prepared, Committed, RolledBack}) (awaitFlush fl None False sh) = []"
    "Released \<notin> set (awaitFlush fl None False sh)" for fl sh
    using c by (simp_all add: awaitFlush_def Let_def rollbackEffect_def split: flushOutcome.split option.split)
  have r: "filter (\<lambda>x. x \<in> {Prepared, Committed, RolledBack}) (rollbackEffect (Some a)) = rollbackEffect (Some a)"
    "Released \<notin> set (rollbackEffect (Some a))" by (simp_all add: rollbackEffect_def)
  show thesis
  proof (cases "marshalErrorResponse rid e m")
    case (Inl x)
    then show thesis using assms r that [of "ConnectionCancelled # rollbackEffect (Some a)"]
      by (simp add: processRequest_def responseFrame_def Let_def split: option.splits if_splits)
  next
    case (Inr data)
    then show thesis using assms r c f
        that [of "rollbackEffect (Some a) @ (case en_enqueue env of Some e \<Rightarrow> cancelUnlessContext e
          | None \<Rightarrow> Enqueued data # awaitFlush (en_flush env) None False shutdown)"]
      by (simp add: processRequest_def responseFrame_def Let_def rollbackEffect_def [of None] split: option.splits if_splits)
  qed
qed

lemma effects_answer:
  assumes "responseFrame rid m result (ra_ctx a) env = Inr data"
  shows "processRequest rid m (ExecDone result (Some a) shutdown) env =
    (if ra_prepare a then [Prepared] else []) @
      (case en_enqueue env of
         Some e \<Rightarrow> cancelUnlessContext e @ rollbackEffect (Some a)
       | None \<Rightarrow> Enqueued data # awaitFlush (en_flush env) (Some a) True shutdown) @ [Released]"
  using assms by (auto simp: processRequest_def responseFrame_def Let_def split: option.splits if_splits)

lemma awaitFlush_ok:
  "flushedOk flush \<Longrightarrow> awaitFlush flush (Some a) True shutdown =
     Flushed # (if ra_commit a then [Committed] else []) @ (if shutdown then [Closing, ConnectionCancelled] else [])"
  by (auto simp: awaitFlush_def Let_def)

lemma awaitFlush_failed:
  "\<not> flushedOk flush \<Longrightarrow> \<exists>xs. awaitFlush flush (Some a) True shutdown = xs @ rollbackEffect (Some a) \<and> set xs \<subseteq> {ConnectionCancelled}"
  by (auto simp: awaitFlush_def Let_def cancelUnlessContext_def split: flushOutcome.splits option.splits)

text \<open>The effects that change provider state, in order, on each outcome.\<close>

lemma processRequest_core:
  "\<exists>xs. processRequest rid m (ExecDone result (Some a) shutdown) env = xs @ [Released] \<and> Released \<notin> set xs \<and>
    filter (\<lambda>x. x \<in> {Prepared, Committed, RolledBack}) xs =
      (if acknowledged rid m result (ra_ctx a) env
       then (if ra_prepare a then [Prepared] else []) @ (if ra_commit a then [Committed] else [])
       else (if ra_prepare a \<and> (\<exists>data. responseFrame rid m result (ra_ctx a) env = Inr data) then [Prepared] else []) @
            (if ra_rollback a then [RolledBack] else []))"
proof (cases "responseFrame rid m result (ra_ctx a) env")
  case (Inl e)
  then show ?thesis using effects_error [OF Inl, of shutdown] by (simp add: acknowledged_def rollbackEffect_def) metis
next
  case (Inr data)
  let ?xs = "(if ra_prepare a then [Prepared] else []) @
      (case en_enqueue env of
         Some e \<Rightarrow> cancelUnlessContext e @ rollbackEffect (Some a)
       | None \<Rightarrow> Enqueued data # awaitFlush (en_flush env) (Some a) True shutdown)"
  have eff: "processRequest rid m (ExecDone result (Some a) shutdown) env = ?xs @ [Released]"
    using effects_answer [OF Inr] by simp
  show ?thesis
  proof (cases "en_enqueue env = nil \<and> flushedOk (en_flush env)")
    case True
    then show ?thesis using Inr eff by (intro exI [of _ ?xs]) (auto simp: acknowledged_def awaitFlush_ok)
  next
    case False
    show ?thesis
    proof (cases "en_enqueue env")
      case None
      then obtain ys where "awaitFlush (en_flush env) (Some a) True shutdown = ys @ rollbackEffect (Some a)" "set ys \<subseteq> {ConnectionCancelled}"
        using False awaitFlush_failed by blast
      moreover from this(2) have "filter (\<lambda>x. x = Prepared \<or> x = Committed \<or> x = RolledBack) ys = []" "Released \<notin> set ys"
        by (auto simp: filter_empty_conv)
      ultimately show ?thesis using Inr False None eff
        by (intro exI [of _ ?xs]) (auto simp: acknowledged_def rollbackEffect_def)
    next
      case (Some e)
      then show ?thesis using Inr eff
        by (intro exI [of _ ?xs]) (auto simp: acknowledged_def rollbackEffect_def cancelUnlessContext_def)
    qed
  qed
qed

text \<open>
  C3: The action of a request is settled exactly once: it is committed when its response was encoded,
  queued and flushed while its contexts were alive, and rolled back on every other path; the commit
  directly follows the flush of the response, and the request identifier is released once, last.
\<close>

theorem action_settled_once:
  assumes "ra_commit a" "ra_rollback a"
  shows "let es = processRequest rid m (ExecDone result (Some a) shutdown) env;
      ok = acknowledged rid m result (ra_ctx a) env
    in count_list es Committed = (if ok then 1 else 0) \<and> count_list es RolledBack = (if ok then 0 else 1) \<and>
      count_list es Released = 1 \<and> last es = Released \<and>
      (ok \<longrightarrow> (\<exists>data rest. es = (if ra_prepare a then [Prepared] else []) @ [Enqueued data, Flushed, Committed] @ rest))"
proof -
  let ?es = "processRequest rid m (ExecDone result (Some a) shutdown) env"
  let ?ok = "acknowledged rid m result (ra_ctx a) env"
  have count: "count_list xs x = count_list (filter P xs) x" if "P x" for xs P and x :: effect
    using that by (induction xs) auto
  obtain xs where xs: "?es = xs @ [Released]" "Released \<notin> set xs"
    "filter (\<lambda>x. x \<in> {Prepared, Committed, RolledBack}) xs =
      (if ?ok then (if ra_prepare a then [Prepared] else []) @ [Committed]
       else (if ra_prepare a \<and> (\<exists>data. responseFrame rid m result (ra_ctx a) env = Inr data) then [Prepared] else []) @ [RolledBack])"
    using processRequest_core [of rid m result a shutdown env] assms by auto
  have "count_list xs Committed = (if ?ok then 1 else 0)" "count_list xs RolledBack = (if ?ok then 0 else 1)"
    using count [of "\<lambda>x. x \<in> {Prepared, Committed, RolledBack}" Committed xs]
      count [of "\<lambda>x. x \<in> {Prepared, Committed, RolledBack}" RolledBack xs] xs(3) by simp_all
  moreover have "\<exists>data rest. ?es = (if ra_prepare a then [Prepared] else []) @ [Enqueued data, Flushed, Committed] @ rest" if ?ok
  proof -
    from that obtain data where d: "responseFrame rid m result (ra_ctx a) env = Inr data" "en_enqueue env = nil" "flushedOk (en_flush env)"
      by (auto simp: acknowledged_def)
    show ?thesis using effects_answer [OF d(1), of shutdown] d(2) awaitFlush_ok [OF d(3), of a shutdown] assms(1) by auto
  qed
  ultimately show ?thesis using xs(1,2) by (simp add: Let_def count_notin)
qed

subsection \<open>Actions as state transformers\<close>

text \<open>The functions of an action on the state \<open>'s\<close> they share, run in the order of the effects of a request.\<close>

definition runEffect :: "('s \<Rightarrow> 's) \<Rightarrow> ('s \<Rightarrow> 's) \<Rightarrow> ('s \<Rightarrow> 's) \<Rightarrow> effect \<Rightarrow> 's \<Rightarrow> 's" where
  "runEffect prepare commit rollback e s =
     (case e of Prepared \<Rightarrow> prepare s | Committed \<Rightarrow> commit s | RolledBack \<Rightarrow> rollback s | _ \<Rightarrow> s)"

lemma runEffect_core:
  "fold (runEffect p c r) xs s = fold (runEffect p c r) (filter (\<lambda>x. x \<in> {Prepared, Committed, RolledBack}) xs) s"
  by (induction xs arbitrary: s) (auto simp: runEffect_def split: effect.split)

text \<open>What an action owes the request that runs it: it can be rolled back, also after it was prepared.\<close>

locale response_action =
  fixes prepare commit rollback :: "'s \<Rightarrow> 's" and action :: responseAction
  assumes rollbacks: "ra_rollback action"
    and rollback_prepare: "rollback (prepare s) = rollback s"
    and no_prepare: "\<not> ra_prepare action \<Longrightarrow> prepare s = s"
    and no_commit: "\<not> ra_commit action \<Longrightarrow> commit s = s"
begin

lemma settles:
  "fold (runEffect prepare commit rollback) (processRequest rid m (ExecDone result (Some action) shutdown) env) s =
     (if acknowledged rid m result (ra_ctx action) env then commit (prepare s) else rollback s)"
proof -
  obtain xs where xs: "processRequest rid m (ExecDone result (Some action) shutdown) env = xs @ [Released]"
    "filter (\<lambda>x. x \<in> {Prepared, Committed, RolledBack}) xs =
      (if acknowledged rid m result (ra_ctx action) env
       then (if ra_prepare action then [Prepared] else []) @ (if ra_commit action then [Committed] else [])
       else (if ra_prepare action \<and> (\<exists>data. responseFrame rid m result (ra_ctx action) env = Inr data) then [Prepared] else []) @ [RolledBack])"
    using processRequest_core [of rid m result action shutdown env] rollbacks by auto
  have "fold (runEffect prepare commit rollback) (xs @ [Released]) s = fold (runEffect prepare commit rollback) xs s"
    by (simp add: runEffect_def)
  then show ?thesis unfolding xs(1) runEffect_core [of _ _ _ xs] xs(2)
    using rollback_prepare no_prepare no_commit by (simp add: runEffect_def)
qed

end

definition initializeAction :: responseAction where
  "initializeAction = \<lparr>ra_prepare = True, ra_commit = False, ra_rollback = True, ra_ctx = False\<rparr>"

definition mutationAction :: responseAction where
  "mutationAction = \<lparr>ra_prepare = True, ra_commit = True, ra_rollback = True, ra_ctx = True\<rparr>"

lemma action_ctx [simp]: "ra_ctx initializeAction = False" "ra_ctx mutationAction = True"
  by (simp_all add: initializeAction_def mutationAction_def)

interpretation negotiation: response_action "prepareInitialized limits r" "\<lambda>c. c" "rollbackInitialized limits" initializeAction
  for limits r
  by unfold_locales (simp_all add: initializeAction_def prepareInitialized_def rollbackInitialized_def Let_def)

interpretation mutation: response_action "\<lambda>s. s" "\<lambda>s. commitMutation s i raw" "\<lambda>s. rollbackMutation s i" mutationAction
  for i raw
  by unfold_locales (simp_all add: mutationAction_def)

text \<open>
  C4: A negotiation takes effect exactly when its answer was delivered: running \<open>provider.initialize\<close> and
  then the effects of its response leaves the connection initialized with the negotiated limits when the
  response was flushed, and otherwise uninitialized with the limits it started with, ready to negotiate
  again.
\<close>

theorem negotiation_settles:
  assumes "executeInitialize marshal cfg limits custom c decoded = (Inr r, c')"
    "c'' = fold (runEffect (prepareInitialized limits r) (\<lambda>c. c) (rollbackInitialized limits))
      (processRequest rid (cn_maximum c') (ExecDone result (Some initializeAction) False) env) c'"
  shows "if acknowledged rid (cn_maximum c) result False env
    then cn_initialized c'' \<and> \<not> cn_initializing c'' \<and> cn_maximum c'' = rs_MaximumMessageBytes r \<and>
      cn_writerMaximum c'' = rs_MaximumMessageBytes r \<and> cn_maximumChunk c'' = rs_MaximumChunkBytes r \<and>
      cn_replaySupported c'' = rs_ReplaySupported r \<and>
      executeInitialize marshal cfg limits custom' c'' decoded' = (Inl (newError CodeConflict), c'')
    else c'' = (openConnection limits)\<lparr>cn_active := cn_active c, cn_running := cn_running c,
        cn_closing := cn_closing c, cn_cancelled := cn_cancelled c\<rparr>"
proof -
  have c': "c' = c\<lparr>cn_initializing := True\<rparr>" and "\<exists>q. initialize marshal cfg limits custom q = Inr r"
    using assms(1) by (auto simp: executeInitialize_def beginInitialization_def split: if_splits sum.splits)
  then have le: "rs_MaximumMessageBytes r \<le> MaxEnvelopeBytes limits" using initialize_own by blast
  have "c'' = (if acknowledged rid (cn_maximum c) result False env then prepareInitialized limits r c' else rollbackInitialized limits c')"
    unfolding assms(2) by (simp add: negotiation.settles c')
  then show ?thesis using le
    by (simp add: c' prepareInitialized_def rollbackInitialized_def openConnection_def executeInitialize_def beginInitialization_def Let_def min_absorb2)
qed


section \<open>The connection over time\<close>

text \<open>
  A connection as a step relation: requests are admitted, negotiations start and fail or answer, the
  effects of an answered negotiation happen one at a time, and goroutines release their identifier and
  give their slot back, in any order. The second component holds the negotiated result and the effects
  of its response that have not happened yet. The other actions do not touch this state, except that a
  shutdown or a failure closes or cancels the connection.
\<close>

type_synonym connectionRun = "connection \<times> (ProviderInitializeResult \<times> effect list) option"

inductive connectionStep ::
  "(ProviderManifest \<Rightarrow> string option) \<Rightarrow> ServerConfig \<Rightarrow> Limits \<Rightarrow> connectionRun \<Rightarrow> connectionRun \<Rightarrow> bool"
  for marshal :: "ProviderManifest \<Rightarrow> string option" and cfg :: ServerConfig and limits :: Limits where
  admit: "connectionStep marshal cfg limits (c, p) (snd (admitRequest limits c rid preferDone), p)"
| refuse: "executeInitialize marshal cfg limits custom c decoded = (Inl e, c') \<Longrightarrow> connectionStep marshal cfg limits (c, p) (c', p)"
| answer: "executeInitialize marshal cfg limits custom c decoded = (Inr r, c') \<Longrightarrow>
    connectionStep marshal cfg limits (c, p)
      (c', Some (r, processRequest rid (cn_maximum c') (ExecDone result (Some initializeAction) False) env))"
| happen: "connectionStep marshal cfg limits (c, Some (r, e # es))
    (runEffect (prepareInitialized limits r) (\<lambda>c. c) (rollbackInitialized limits) e c, Some (r, es))"
| finish: "i < length (cn_running c) \<Longrightarrow> \<not> snd (cn_running c ! i) \<Longrightarrow> connectionStep marshal cfg limits (c, p) (finishRequest c i, p)"
| free: "i < length (cn_running c) \<Longrightarrow> snd (cn_running c ! i) \<Longrightarrow> connectionStep marshal cfg limits (c, p) (freeSlot c i, p)"
| cancel: "connectionStep marshal cfg limits (c, p) (c\<lparr>cn_cancelled := True\<rparr>, p)"
| close: "connectionStep marshal cfg limits (c, p) (c\<lparr>cn_closing := True\<rparr>, p)"

abbreviation connectionReaches ::
  "(ProviderManifest \<Rightarrow> string option) \<Rightarrow> ServerConfig \<Rightarrow> Limits \<Rightarrow> connectionRun \<Rightarrow> connectionRun \<Rightarrow> bool" where
  "connectionReaches marshal cfg limits \<equiv> (connectionStep marshal cfg limits)\<^sup>*\<^sup>*"

text \<open>The identifiers in use are those of the goroutines that have not released theirs.\<close>

definition heldIDs :: "(string \<times> bool) list \<Rightarrow> string list" where
  "heldIDs ts = map fst (filter (\<lambda>t. \<not> snd t) ts)"

definition requestsOk :: "Limits \<Rightarrow> connection \<Rightarrow> bool" where
  "requestsOk limits c \<longleftrightarrow>
     cn_active c = heldIDs (cn_running c) \<and> distinct (heldIDs (cn_running c)) \<and>
     int (length (cn_running c)) \<le> max 0 (MaxInFlightRequests limits)"

text \<open>The effects that matter to a negotiation, and what each stage of them says of the connection.\<close>

abbreviation pendingEffects :: "effect list \<Rightarrow> effect list" where
  "pendingEffects es \<equiv> filter (\<lambda>x. x \<in> {Prepared, Committed, RolledBack}) es"

definition stageOk :: "bool \<Rightarrow> bool \<Rightarrow> effect list \<Rightarrow> bool" where
  "stageOk initialized initializing es \<longleftrightarrow>
     es = [] \<and> \<not> initializing \<or> (es = [Prepared] \<or> es = [Prepared, RolledBack]) \<and> initializing \<or>
     es = [RolledBack] \<and> initializing \<noteq> initialized"

text \<open>The fields that a negotiation sets, and what holds of them.\<close>

definition settings :: "connection \<Rightarrow> bool \<times> bool \<times> uint64 \<times> uint64 \<times> bool \<times> uint64" where
  "settings c = (cn_initialized c, cn_initializing c, cn_maximum c, cn_maximumChunk c, cn_replaySupported c, cn_writerMaximum c)"

definition settingsOk ::
  "ServerConfig \<Rightarrow> Limits \<Rightarrow> bool \<times> bool \<times> uint64 \<times> uint64 \<times> bool \<times> uint64 \<Rightarrow>
     (ProviderInitializeResult \<times> effect list) option \<Rightarrow> bool" where
  "settingsOk cfg limits st p \<longleftrightarrow>
     (case st of (initialized, initializing, maximum, chunk, replay, writer) \<Rightarrow>
        writer = maximum \<and> \<not> (initialized \<and> initializing) \<and>
        (\<not> initialized \<longrightarrow> maximum = MaxEnvelopeBytes limits \<and> chunk = of_nat MaxTerminalChunkBytes \<and> \<not> replay) \<and>
        (case p of
           None \<Rightarrow> \<not> initialized \<and> \<not> initializing
         | Some (r, es) \<Rightarrow>
             rs_MaximumMessageBytes r \<le> MaxEnvelopeBytes limits \<and> (rs_ReplaySupported r \<longrightarrow> cfg_ReplaySupported cfg) \<and>
             (initialized \<longrightarrow> maximum = rs_MaximumMessageBytes r \<and> chunk = rs_MaximumChunkBytes r \<and> replay = rs_ReplaySupported r) \<and>
             stageOk initialized initializing (pendingEffects es)))"

definition connectionInv :: "ServerConfig \<Rightarrow> Limits \<Rightarrow> connectionRun \<Rightarrow> bool" where
  "connectionInv cfg limits run \<longleftrightarrow> requestsOk limits (fst run) \<and> settingsOk cfg limits (settings (fst run)) (snd run)"

subsection \<open>Requests\<close>

lemma heldIDs_simps [simp]:
  "heldIDs [] = []" "heldIDs (t # ts) = (if snd t then heldIDs ts else fst t # heldIDs ts)" "heldIDs (ts @ us) = heldIDs ts @ heldIDs us"
  by (simp_all add: heldIDs_def)

lemma filter_absent: "a \<notin> set xs \<Longrightarrow> filter (\<lambda>x. x \<noteq> a) xs = xs"
  by (auto intro: filter_True)

lemma admit_requestsOk:
  assumes "requestsOk limits c"
  shows "requestsOk limits (snd (admitRequest limits c rid d))"
proof -
  have undo: "releaseRequest (c\<lparr>cn_active := rid # cn_active c\<rparr>) rid = c" if "rid \<notin> set (cn_active c)"
    using that by (simp add: releaseRequest_def filter_absent)
  show ?thesis using assms undo by (auto simp: admitRequest_def reserveRequest_def requestsOk_def Let_def)
qed

lemma running_split:
  assumes "i < length ts"
  obtains us vs where "ts = us @ ts ! i # vs" "take i ts = us" "drop (Suc i) ts = vs" "\<And>t. ts[i := t] = us @ t # vs"
  using that [of "take i ts" "drop (Suc i) ts"] assms by (simp add: id_take_nth_drop [symmetric] upd_conv_take_nth_drop)

lemma finish_requestsOk:
  assumes "requestsOk limits c" "i < length (cn_running c)" "\<not> snd (cn_running c ! i)"
  shows "requestsOk limits (finishRequest c i)"
proof -
  let ?t = "cn_running c ! i"
  obtain us vs where u: "cn_running c = us @ ?t # vs" "\<And>t. (cn_running c)[i := t] = us @ t # vs"
    using running_split [OF assms(2)] by metis
  have held: "heldIDs (cn_running c) = heldIDs us @ fst ?t # heldIDs vs" using assms(3) by (subst u(1)) simp
  then have "distinct (heldIDs us @ fst ?t # heldIDs vs)" using assms(1) by (simp add: requestsOk_def)
  moreover have "length (cn_running c) = Suc (length us + length vs)" using arg_cong [OF u(1), of length] by simp
  ultimately show ?thesis using assms(1) held
    by (simp add: requestsOk_def finishRequest_def releaseRequest_def u(2) filter_absent)
qed

lemma free_requestsOk:
  assumes "requestsOk limits c" "i < length (cn_running c)" "snd (cn_running c ! i)"
  shows "requestsOk limits (freeSlot c i)"
proof -
  have "heldIDs (cn_running c) = heldIDs (take i (cn_running c) @ drop (Suc i) (cn_running c))"
    using assms(3) by (subst id_take_nth_drop [OF assms(2)]) simp
  then show ?thesis using assms(1,2) by (simp add: requestsOk_def freeSlot_def del: heldIDs_simps(3))
qed

subsection \<open>The negotiation\<close>

lemma execute_init_cases:
  assumes "executeInitialize marshal cfg limits custom c decoded = (out, c')"
  shows "(\<exists>e. out = Inl e) \<and> c' = c \<or>
    (\<exists>e. out = Inl e) \<and> \<not> cn_initialized c \<and> \<not> cn_initializing c \<and> c' = c\<lparr>cn_initializing := False\<rparr> \<or>
    (\<exists>q r. out = Inr r \<and> initialize marshal cfg limits custom q = Inr r \<and> \<not> cn_initialized c \<and> \<not> cn_initializing c \<and>
       c' = c\<lparr>cn_initializing := True\<rparr>)"
proof (cases "cn_initialized c \<or> cn_initializing c")
  case True
  then show ?thesis using assms by (auto simp: executeInitialize_def beginInitialization_def)
next
  case False
  show ?thesis
  proof (cases decoded)
    case (Inl e)
    then show ?thesis using assms False by (auto simp: executeInitialize_def beginInitialization_def abortInitialization_def)
  next
    case (Inr q)
    have run: "executeInitialize marshal cfg limits custom c decoded =
        (case initialize marshal cfg limits custom q of
           Inl e \<Rightarrow> (Inl e, c\<lparr>cn_initializing := False\<rparr>) | Inr r \<Rightarrow> (Inr r, c\<lparr>cn_initializing := True\<rparr>))"
      using Inr False by (simp add: executeInitialize_def beginInitialization_def abortInitialization_def cong: sum.case_cong)
    show ?thesis
    proof (cases "initialize marshal cfg limits custom q")
      case (Inl e)
      then have "out = Inl e" "c' = c\<lparr>cn_initializing := False\<rparr>" using run assms by simp_all
      then show ?thesis using False by blast
    next
      case (Inr r)
      then have "out = Inr r" "c' = c\<lparr>cn_initializing := True\<rparr>" using run assms by simp_all
      then show ?thesis using False Inr by blast
    qed
  qed
qed

lemma settings_kept [simp]:
  "settings (snd (admitRequest limits c rid d)) = settings c"
  "settings (finishRequest c i) = settings c" "settings (freeSlot c i) = settings c"
  "settings (c\<lparr>cn_cancelled := b\<rparr>) = settings c" "settings (c\<lparr>cn_closing := b\<rparr>) = settings c"
  by (auto simp: settings_def admitRequest_def reserveRequest_def releaseRequest_def finishRequest_def freeSlot_def Let_def)

lemma initialize_effects:
  "pendingEffects (processRequest rid m (ExecDone result (Some initializeAction) sh) env)
     \<in> {[Prepared], [Prepared, RolledBack], [RolledBack]}"
proof -
  obtain xs where "processRequest rid m (ExecDone result (Some initializeAction) sh) env = xs @ [Released]"
    "pendingEffects xs =
      (if acknowledged rid m result (ra_ctx initializeAction) env
       then (if ra_prepare initializeAction then [Prepared] else []) @ (if ra_commit initializeAction then [Committed] else [])
       else (if ra_prepare initializeAction \<and> (\<exists>data. responseFrame rid m result (ra_ctx initializeAction) env = Inr data) then [Prepared] else []) @
            (if ra_rollback initializeAction then [RolledBack] else []))"
    using processRequest_core [of rid m result initializeAction sh env] by blast
  then show ?thesis by (auto simp: initializeAction_def)
qed

lemma effect_requestsOk [simp]:
  "requestsOk limits (runEffect (prepareInitialized l r) (\<lambda>c. c) (rollbackInitialized l) e c) \<longleftrightarrow> requestsOk limits c"
  by (cases e) (simp_all add: requestsOk_def runEffect_def prepareInitialized_def rollbackInitialized_def Let_def)

lemma happen_keeps:
  assumes "settingsOk cfg limits (settings c) (Some (r, e # es))"
  shows "settingsOk cfg limits (settings (runEffect (prepareInitialized limits r) (\<lambda>c. c) (rollbackInitialized limits) e c)) (Some (r, es))"
proof (cases e)
  case Prepared
  then show ?thesis using assms
    by (auto simp: settingsOk_def settings_def stageOk_def runEffect_def prepareInitialized_def Let_def min_absorb2)
next
  case RolledBack
  then show ?thesis using assms
    by (auto simp: settingsOk_def settings_def stageOk_def runEffect_def rollbackInitialized_def)
qed (use assms in \<open>simp_all add: settingsOk_def settings_def stageOk_def runEffect_def\<close>)

lemma refuse_keeps:
  assumes "executeInitialize marshal cfg limits custom c decoded = (Inl e, c')"
  shows "settings c' = settings c" "requestsOk limits c' \<longleftrightarrow> requestsOk limits c"
  using execute_init_cases [OF assms] by (auto simp: settings_def requestsOk_def)

lemma answer_keeps:
  assumes "executeInitialize marshal cfg limits custom c decoded = (Inr r, c')" "connectionInv cfg limits (c, p)"
  shows "connectionInv cfg limits (c', Some (r, processRequest rid m (ExecDone result (Some initializeAction) False) env))"
proof -
  from execute_init_cases [OF assms(1)] obtain q where
    q: "initialize marshal cfg limits custom q = Inr r" "\<not> cn_initialized c" "\<not> cn_initializing c" "c' = c\<lparr>cn_initializing := True\<rparr>" by auto
  have "stageOk False True (pendingEffects (processRequest rid m (ExecDone result (Some initializeAction) False) env))"
    using initialize_effects [of rid m result False env] unfolding stageOk_def by blast
  then show ?thesis using q(2-) assms(2) initialize_own [OF q(1)]
    by (simp add: connectionInv_def settingsOk_def settings_def requestsOk_def)
qed

lemma connectionInv_step:
  assumes "connectionStep marshal cfg limits run run'" "connectionInv cfg limits run"
  shows "connectionInv cfg limits run'"
  using assms
proof (induction rule: connectionStep.induct)
  case (admit c p rid d)
  then show ?case by (simp add: connectionInv_def admit_requestsOk)
next
  case (refuse custom c decoded e c' p)
  then show ?case using refuse_keeps [OF refuse(1)] by (simp add: connectionInv_def)
next
  case (answer custom c decoded r c' p rid result env)
  then show ?case by (rule answer_keeps)
next
  case (happen c r e es)
  then show ?case by (simp add: connectionInv_def happen_keeps)
next
  case (finish i c p)
  then show ?case by (simp add: connectionInv_def finish_requestsOk)
next
  case (free i c p)
  then show ?case by (simp add: connectionInv_def free_requestsOk)
next
  case (cancel c p)
  then show ?case by (simp add: connectionInv_def requestsOk_def)
next
  case (close c p)
  then show ?case by (simp add: connectionInv_def requestsOk_def)
qed

lemma connectionInv_reaches:
  assumes "connectionReaches marshal cfg limits (openConnection limits, None) run"
  shows "connectionInv cfg limits run"
  using assms
proof induction
  case base
  show ?case by (simp add: connectionInv_def requestsOk_def settingsOk_def settings_def openConnection_def)
next
  case (step run run')
  then show ?case by (blast intro: connectionInv_step)
qed

text \<open>
  C4: In every reachable state of a connection: the identifiers in use are distinct and are exactly those
  of the requests that run and have not released theirs, at most \<open>MaxInFlightRequests\<close> requests hold a
  slot, reader and writer use the same envelope limit, which never exceeds the configured one, and the
  limits are the defaults until a negotiation is prepared and that negotiation's afterwards.
\<close>

theorem connection_consistent:
  assumes "connectionReaches marshal cfg limits (openConnection limits, None) (c, p)"
  shows "distinct (cn_active c) \<and> set (cn_active c) = {rid. (rid, False) \<in> set (cn_running c)} \<and>
    int (length (cn_running c)) \<le> max 0 (MaxInFlightRequests limits) \<and>
    cn_writerMaximum c = cn_maximum c \<and> cn_maximum c \<le> MaxEnvelopeBytes limits \<and>
    (if cn_initialized c
     then \<not> cn_initializing c \<and> (\<exists>r es. p = Some (r, es) \<and> cn_maximum c = rs_MaximumMessageBytes r \<and>
       cn_maximumChunk c = rs_MaximumChunkBytes r \<and> cn_replaySupported c = rs_ReplaySupported r \<and>
       (cn_replaySupported c \<longrightarrow> cfg_ReplaySupported cfg))
     else cn_maximum c = MaxEnvelopeBytes limits \<and> cn_maximumChunk c = of_nat MaxTerminalChunkBytes \<and> \<not> cn_replaySupported c)"
proof -
  note inv = connectionInv_reaches [OF assms]
  have "set (heldIDs ts) = {rid. (rid, False) \<in> set ts}" for ts by (force simp: heldIDs_def)
  then have "distinct (cn_active c) \<and> set (cn_active c) = {rid. (rid, False) \<in> set (cn_running c)} \<and>
      int (length (cn_running c)) \<le> max 0 (MaxInFlightRequests limits)"
    using inv by (simp add: connectionInv_def requestsOk_def)
  moreover have ok: "settingsOk cfg limits (settings c) p" using inv by (simp add: connectionInv_def)
  have "cn_maximum c \<le> MaxEnvelopeBytes limits \<and> (cn_initialized c \<longrightarrow> (\<exists>r es. p = Some (r, es) \<and> cn_maximum c = rs_MaximumMessageBytes r \<and>
       cn_maximumChunk c = rs_MaximumChunkBytes r \<and> cn_replaySupported c = rs_ReplaySupported r \<and>
       (cn_replaySupported c \<longrightarrow> cfg_ReplaySupported cfg)))"
    using ok by (cases p; cases "cn_initialized c") (auto simp: settingsOk_def settings_def)
  moreover have "cn_writerMaximum c = cn_maximum c \<and> \<not> (cn_initialized c \<and> cn_initializing c) \<and>
      (\<not> cn_initialized c \<longrightarrow> cn_maximum c = MaxEnvelopeBytes limits \<and> cn_maximumChunk c = of_nat MaxTerminalChunkBytes \<and> \<not> cn_replaySupported c)"
    using ok by (simp add: settingsOk_def settings_def)
  ultimately show ?thesis by simp
qed

text \<open>
  C6: A connection negotiates once: when the response of a negotiation has been delivered, so that none
  of its effects is pending, the negotiated settings never change again and every further
  \<open>provider.initialize\<close> is refused as a conflict, in every interleaving.
\<close>

theorem negotiation_final:
  assumes "cn_initialized c" "set es \<inter> {Prepared, Committed, RolledBack} = {}"
    "connectionReaches marshal cfg limits (c, Some (r, es)) (c', p')"
  shows "cn_initialized c' \<and> cn_maximum c' = cn_maximum c \<and> cn_writerMaximum c' = cn_writerMaximum c \<and>
    cn_maximumChunk c' = cn_maximumChunk c \<and> cn_replaySupported c' = cn_replaySupported c \<and>
    executeInitialize marshal cfg limits custom c' decoded = (Inl (newError CodeConflict), c')"
proof -
  let ?done = "\<lambda>(d, p). settings d = settings c \<and> (\<exists>fs. p = Some (r, fs) \<and> pendingEffects fs = [])"
  have init: "cn_initialized d" if "settings d = settings c" for d using that assms(1) by (simp add: settings_def)
  have refused: "executeInitialize marshal cfg limits custom d decoded = (Inl (newError CodeConflict), d)"
    if "cn_initialized d" for d custom decoded
    using that by (simp add: executeInitialize_def beginInitialization_def)
  have step: "?done run'" if s: "connectionStep marshal cfg limits run run'" and d: "?done run" for run run'
    using s d
  proof (induction rule: connectionStep.induct)
    case (refuse custom d decoded e d' p)
    then show ?case using refuse_keeps(1) [OF refuse(1)] by simp
  next
    case (answer custom d decoded q d' p rid result env)
    then show ?case using refused [OF init] by fastforce
  next
    case (happen d q e fs)
    then show ?case by (auto simp: runEffect_def split: effect.splits if_splits)
  qed simp_all
  have "pendingEffects es = []" using assms(2) by (auto simp: filter_empty_conv)
  with assms(3) have "?done (c', p')"
  proof (induction rule: rtranclp_induct)
    case base
    then show ?case by simp
  next
    case (step run run')
    then show ?case using \<open>\<And>run run'. connectionStep marshal cfg limits run run' \<Longrightarrow> ?done run \<Longrightarrow> ?done run'\<close> by blast
  qed
  then show ?thesis using assms(1) refused [of c'] by (simp add: settings_def)
qed

text \<open>
  A command reaches the ledger only on a negotiated connection, for a mutating capability that the
  configured manifest advertises and that the command names, when the command is valid against the
  manifest and its deadline lies ahead; a terminal input also fits the negotiated chunk limit.
\<close>

theorem mutation_admitted:
  assumes "connectionReaches marshal cfg limits (openConnection limits, None) (c, p)"
    "executeRoute cfg c capability ctxErr replayErr admission dispatchErr ownResult = RouteMutation d"
    "mutationGuard cfg c capability decoded now metaErr replayErr' input = nil"
  shows "\<exists>r es command. p = Some (r, es) \<and> cn_maximumChunk c = rs_MaximumChunkBytes r \<and> decoded = Inr command \<and>
    d \<in> set (m_Capabilities (cfg_Manifest cfg)) \<and> cap_Name d = capability \<and> cap_Mutating d \<and>
    c_Capability command = capability \<and> ValidateAgainstManifest command (cfg_Manifest cfg) = nil \<and>
    time_After (c_Deadline command) now \<and>
    (capability = ''terminal.send_input'' \<longrightarrow>
       (\<exists>encoding data n. input = Inr (encoding, data) \<and> terminalDataSize encoding data = Some n \<and> n \<le> rs_MaximumChunkBytes r))"
proof -
  have d: "cn_initialized c" "Manifest_Capability (cfg_Manifest cfg) capability = Some d" "cap_Mutating d"
    using assms(2) by (auto simp: executeRoute_def split: if_splits option.splits)
  then have "d \<in> set (m_Capabilities (cfg_Manifest cfg)) \<and> cap_Name d = capability"
    by (auto simp: Manifest_Capability_def find_Some_iff)
  moreover obtain command where "decoded = Inr command" "c_Capability command = capability"
    "ValidateAgainstManifest command (cfg_Manifest cfg) = nil" "time_After (c_Deadline command) now"
    "capability = ''terminal.send_input'' \<longrightarrow>
       (\<exists>encoding data n. input = Inr (encoding, data) \<and> terminalDataSize encoding data = Some n \<and> n \<le> cn_maximumChunk c)"
    using assms(3) by (auto simp: mutationGuard_def not_less split: sum.splits if_splits option.splits prod.splits)
  moreover obtain r es where "p = Some (r, es)" "cn_maximumChunk c = rs_MaximumChunkBytes r"
    using connectionInv_reaches [OF assms(1)] d(1)
    by (cases p) (auto simp: connectionInv_def settingsOk_def settings_def)
  ultimately show ?thesis using d(3) by auto
qed

section \<open>A sample connection\<close>

definition sampleEnv :: requestEnv where
  "sampleEnv = \<lparr>en_outbound = nil, en_ctxErr = nil, en_actionCtxErr = nil, en_enqueue = nil, en_flush = FlushResult nil\<rparr>"

definition brokenEnv :: requestEnv where
  "brokenEnv = sampleEnv\<lparr>en_flush := ConnectionDone\<rparr>"

abbreviation sampleNegotiated :: ProviderInitializeResult where
  "sampleNegotiated \<equiv> defaultResult sampleConfig TestLimits sampleOffer ''none''"

definition sampleFrame :: string where
  "sampleFrame = ''{\"jsonrpc\":\"2.0\",\"id\":\"r-1\",\"result\":true}''"

lemma sample_response: "marshalResponse ''r-1'' (Some (JBool True)) nil (MaxEnvelopeBytes TestLimits) = Inr sampleFrame"
  by code_simp

lemma sample_frame:
  "responseFrame ''r-1'' (MaxEnvelopeBytes TestLimits) (Some (JBool True)) b sampleEnv = Inr sampleFrame"
  "responseFrame ''r-1'' (MaxEnvelopeBytes TestLimits) (Some (JBool True)) b brokenEnv = Inr sampleFrame"
  using sample_response by (simp_all add: responseFrame_def sampleEnv_def brokenEnv_def)

lemma sample_acknowledged:
  "acknowledged ''r-1'' (MaxEnvelopeBytes TestLimits) (Some (JBool True)) b sampleEnv"
  "\<not> acknowledged ''r-1'' (MaxEnvelopeBytes TestLimits) (Some (JBool True)) b brokenEnv"
  using sample_frame by (simp_all add: acknowledged_def sampleEnv_def brokenEnv_def)

lemma sample_effects:
  "processRequest ''r-1'' (MaxEnvelopeBytes TestLimits) (ExecDone (Some (JBool True)) (Some initializeAction) False) sampleEnv =
     [Prepared, Enqueued sampleFrame, Flushed, Released]"
  using effects_answer [of "''r-1''" "MaxEnvelopeBytes TestLimits" "Some (JBool True)" initializeAction sampleEnv, OF sample_frame(1)]
  by (simp add: initializeAction_def sampleEnv_def awaitFlush_def Let_def)

theorem action_settled_once_witness:
  "count_list (processRequest ''r-1'' (MaxEnvelopeBytes TestLimits) (ExecDone (Some (JBool True)) (Some mutationAction) False) sampleEnv) Committed = 1 \<and>
   count_list (processRequest ''r-1'' (MaxEnvelopeBytes TestLimits) (ExecDone (Some (JBool True)) (Some mutationAction) False) brokenEnv) RolledBack = 1"
proof -
  have "ra_commit mutationAction" "ra_rollback mutationAction" by (simp_all add: mutationAction_def)
  note t = action_settled_once [OF this, where rid = "''r-1''" and m = "MaxEnvelopeBytes TestLimits" and result = "Some (JBool True)" and shutdown = False]
  show ?thesis using t [of sampleEnv] t [of brokenEnv] sample_acknowledged [of True] by (simp add: Let_def)
qed

definition sampleOpened :: connection where
  "sampleOpened = (openConnection TestLimits)\<lparr>cn_initializing := True\<rparr>"

lemma sample_execute:
  "executeInitialize (\<lambda>_. None) sampleConfig TestLimits None (openConnection TestLimits) (Inr sampleOffer) = (Inr sampleNegotiated, sampleOpened)"
  using sampleConfig_answers by (simp add: executeInitialize_def beginInitialization_def openConnection_def sampleOpened_def)

theorem negotiation_settles_witness:
  "let after = \<lambda>env. fold (runEffect (prepareInitialized TestLimits sampleNegotiated) (\<lambda>c. c) (rollbackInitialized TestLimits))
        (processRequest ''r-1'' (cn_maximum sampleOpened) (ExecDone (Some (JBool True)) (Some initializeAction) False) env) sampleOpened
   in cn_initialized (after sampleEnv) \<and> cn_maximumChunk (after sampleEnv) = rs_MaximumChunkBytes sampleNegotiated \<and>
      after brokenEnv = openConnection TestLimits"
proof -
  have m: "cn_maximum (openConnection TestLimits) = MaxEnvelopeBytes TestLimits" by (simp add: openConnection_def)
  note t = negotiation_settles [OF sample_execute refl, where rid = "''r-1''" and result = "Some (JBool True)"]
  show ?thesis using t [of sampleEnv] t [of brokenEnv] sample_acknowledged [of False] unfolding m
    by (simp add: openConnection_def)
qed


definition sampleInitialized :: connection where
  "sampleInitialized = prepareInitialized TestLimits sampleNegotiated sampleOpened"

lemma sample_run:
  "connectionReaches (\<lambda>_. None) sampleConfig TestLimits (openConnection TestLimits, None)
     (sampleInitialized, Some (sampleNegotiated, [Enqueued sampleFrame, Flushed, Released]))"
proof -
  have "connectionStep (\<lambda>_. None) sampleConfig TestLimits (openConnection TestLimits, None)
      (sampleOpened, Some (sampleNegotiated, [Prepared, Enqueued sampleFrame, Flushed, Released]))"
    using connectionStep.answer [OF sample_execute, of None "''r-1''" "Some (JBool True)" sampleEnv] sample_effects
    by (simp add: sampleOpened_def openConnection_def)
  moreover have "connectionStep (\<lambda>_. None) sampleConfig TestLimits
      (sampleOpened, Some (sampleNegotiated, [Prepared, Enqueued sampleFrame, Flushed, Released]))
      (sampleInitialized, Some (sampleNegotiated, [Enqueued sampleFrame, Flushed, Released]))"
    using connectionStep.happen [of "\<lambda>_. None" sampleConfig TestLimits sampleOpened sampleNegotiated Prepared]
    by (simp add: runEffect_def sampleInitialized_def)
  ultimately show ?thesis by (meson converse_rtranclp_into_rtranclp rtranclp.rtrancl_refl)
qed

lemma sampleInitialized_initialized [simp]: "cn_initialized sampleInitialized"
  by (simp add: sampleInitialized_def prepareInitialized_def Let_def)

theorem connection_consistent_witness:
  "cn_maximum sampleInitialized \<le> MaxEnvelopeBytes TestLimits \<and> cn_maximumChunk sampleInitialized = rs_MaximumChunkBytes sampleNegotiated"
  using connection_consistent [OF sample_run] by simp metis

theorem negotiation_final_witness:
  "executeInitialize (\<lambda>_. None) sampleConfig TestLimits None sampleInitialized (Inr sampleOffer) = (Inl (newError CodeConflict), sampleInitialized)"
  using negotiation_final [where c = sampleInitialized and es = "[Enqueued sampleFrame, Flushed, Released]" and c' = sampleInitialized
      and marshal = "\<lambda>_. None" and cfg = sampleConfig and limits = TestLimits and r = sampleNegotiated
      and p' = "Some (sampleNegotiated, [Enqueued sampleFrame, Flushed, Released])" and custom = None and decoded = "Inr sampleOffer"]
  by simp

theorem mutation_admitted_witness:
  "\<exists>d \<in> set (m_Capabilities sampleManifest). cap_Name d = c_Capability sampleCommand \<and> cap_Mutating d"
proof -
  have m: "cfg_Manifest sampleConfig = sampleManifest" by (simp add: sampleConfig_def)
  have cap: "Manifest_Capability sampleManifest ''runtime.create_session'' =
      Some (mutating_cap ''runtime.create_session'' RoleSessionRuntime DeliveryStateReconciled)" by code_simp
  have route: "executeRoute sampleConfig sampleInitialized ''runtime.create_session'' nil nil nil nil False =
      RouteMutation (mutating_cap ''runtime.create_session'' RoleSessionRuntime DeliveryStateReconciled)"
    using cap by (simp add: executeRoute_def m isSubscriptionCapability_def mutating_cap_def)
  have "ValidateAgainstManifest sampleCommand sampleManifest = nil" by code_simp
  moreover have "c_Capability sampleCommand = ''runtime.create_session''" "time_After (c_Deadline sampleCommand) (sampleTime 1)" by code_simp+
  ultimately have guard: "mutationGuard sampleConfig sampleInitialized ''runtime.create_session'' (Inr sampleCommand) (sampleTime 1) nil nil (Inl (newError CodeInvalidArgument)) = nil"
    by (simp add: mutationGuard_def m)
  show ?thesis using mutation_admitted [OF sample_run route guard] by (auto simp: m)
qed

end
