(* ===== verification/Server_Subscriptions.thy ===== *)
theory Server_Subscriptions
  imports Terminal_Flow
begin

text \<open>
  The subscriptions of a server connection (\<open>provider/subscription.go\<close>): admission against the limit,
  the tables of terminal streams and of subscription identifiers, cleanup, and the routing of a credit
  to its stream. The tables hold pointers to admissions and compare them, so admissions live in a heap
  and a pointer is an index into it. Each operation is one critical section of the connection's lock;
  \<open>cleanup\<close> runs two in a row. Starting the goroutines that publish is not part of the state.
\<close>

section \<open>State\<close>

record admission =
  ad_subscriptionID :: string
  ad_cleaned :: bool
  ad_cancelled :: bool
  ad_terminal :: "terminalFlow option"
  ad_terminalKey :: string

record serverConnection =
  sc_closing :: bool
  sc_subscriptions :: int
  sc_MaxSubscriptions :: int
  sc_terminalStreams :: "(string \<times> nat) list"
  sc_subscriptionCancels :: "(string \<times> nat) list"
  sc_admissions :: "admission list"
  sc_replaySupported :: bool
  sc_maximumChunk :: uint64

definition newConnection :: "int \<Rightarrow> bool \<Rightarrow> uint64 \<Rightarrow> serverConnection" where
  "newConnection limit replay maximumChunk =
     \<lparr>sc_closing = False, sc_subscriptions = 0, sc_MaxSubscriptions = limit, sc_terminalStreams = [],
      sc_subscriptionCancels = [], sc_admissions = [], sc_replaySupported = replay,
      sc_maximumChunk = maximumChunk\<rparr>"

abbreviation NUL :: char where "NUL \<equiv> CHR 0x00"

definition terminalKeyOf :: "string \<Rightarrow> string \<Rightarrow> string" where
  "terminalKeyOf session stream = session @ NUL # stream"

definition removeKey :: "string \<Rightarrow> (string \<times> nat) list \<Rightarrow> (string \<times> nat) list" where
  "removeKey k table = filter (\<lambda>(k', _). k' \<noteq> k) table"

section \<open>Operations\<close>

definition reserveSubscription :: "serverConnection \<Rightarrow> bool \<times> serverConnection" where
  "reserveSubscription c =
     (if sc_subscriptions c \<ge> sc_MaxSubscriptions c \<or> sc_closing c then (False, c)
      else (True, c\<lparr>sc_subscriptions := sc_subscriptions c + 1\<rparr>))"

definition releaseSubscription :: "serverConnection \<Rightarrow> serverConnection" where
  "releaseSubscription c =
     (if sc_subscriptions c > 0 then c\<lparr>sc_subscriptions := sc_subscriptions c - 1\<rparr> else c)"

definition newAdmission :: "terminalFlow option \<Rightarrow> string \<Rightarrow> admission" where
  "newAdmission terminal key =
     \<lparr>ad_subscriptionID = [], ad_cleaned = False, ad_cancelled = False, ad_terminal = terminal,
      ad_terminalKey = key\<rparr>"

definition beginSubscription :: "serverConnection \<Rightarrow> (go_error + nat) \<times> serverConnection" where
  "beginSubscription c =
     (case reserveSubscription c of
        (False, c') \<Rightarrow> (Inl (newError CodeResourceExhausted), c')
      | (True, c') \<Rightarrow>
          (Inr (length (sc_admissions c')),
           c'\<lparr>sc_admissions := sc_admissions c' @ [newAdmission None []]\<rparr>))"

definition beginTerminalSubscription ::
  "serverConnection \<Rightarrow> TerminalSubscribeRequest \<Rightarrow> (go_error + nat) \<times> serverConnection" where
  "beginTerminalSubscription c request =
     (if TerminalSubscribeRequest_Validate request \<noteq> nil then (Inl (newError CodeInvalidArgument), c)
      else
        (let key = terminalKeyOf (tsr_NativeSessionID request) (tsr_StreamID request);
             flow = newTerminalFlow request (sc_replaySupported c)
         in if sc_closing c \<or> sc_subscriptions c \<ge> sc_MaxSubscriptions c
            then (Inl (newError CodeResourceExhausted), c)
            else if map_of (sc_terminalStreams c) key \<noteq> None then (Inl (newError CodeConflict), c)
            else (Inr (length (sc_admissions c)),
                  c\<lparr>sc_subscriptions := sc_subscriptions c + 1,
                    sc_terminalStreams := (key, length (sc_admissions c)) # sc_terminalStreams c,
                    sc_admissions := sc_admissions c @ [newAdmission (Some flow) key]\<rparr>)))"

definition cleanup :: "serverConnection \<Rightarrow> nat \<Rightarrow> serverConnection" where
  "cleanup c i =
     (let a = sc_admissions c ! i in
      if ad_cleaned a then c
      else releaseSubscription
        (c\<lparr>sc_admissions := (sc_admissions c)[i := a\<lparr>ad_cleaned := True, ad_cancelled := True\<rparr>],
           sc_terminalStreams :=
             (if ad_terminalKey a \<noteq> [] \<and> map_of (sc_terminalStreams c) (ad_terminalKey a) = Some i
              then removeKey (ad_terminalKey a) (sc_terminalStreams c) else sc_terminalStreams c),
           sc_subscriptionCancels :=
             (if ad_subscriptionID a \<noteq> [] \<and> map_of (sc_subscriptionCancels c) (ad_subscriptionID a) = Some i
              then removeKey (ad_subscriptionID a) (sc_subscriptionCancels c)
              else sc_subscriptionCancels c)\<rparr>))"

text \<open>
  What a handler returned: one of the three subscription results, with its identifier and its replay,
  or another value. Of an event or topology replay only its length is read here.
\<close>

datatype subscriptionValue =
    EventSubscription string nat
  | TerminalSubscription string "TerminalChunk list"
  | TopologySubscription string nat
  | OtherValue

definition prepareGuard :: "serverConnection \<Rightarrow> admission \<Rightarrow> subscriptionValue \<Rightarrow> go_error + string" where
  "prepareGuard c a v =
     (case v of
        EventSubscription sid replay \<Rightarrow>
          if replay > 0 \<and> \<not> sc_replaySupported c then Inl (newError CodeInvalidArgument) else Inr sid
      | TerminalSubscription sid replay \<Rightarrow>
          if ad_terminal a = None then Inl (newError CodeInvalidArgument)
          else if replay \<noteq> [] \<and> \<not> sc_replaySupported c then Inl (newError CodeInvalidArgument)
          else (case each_err (\<lambda>chunk. validateTerminalChunkLimit chunk (sc_maximumChunk c)) replay of
                  Some e \<Rightarrow> Inl e
                | None \<Rightarrow> Inr sid)
      | TopologySubscription sid replay \<Rightarrow>
          if replay > 0 \<and> \<not> sc_replaySupported c then Inl (newError CodeInvalidArgument) else Inr sid
      | OtherValue \<Rightarrow> Inl (newError CodeInvalidArgument))"

definition prepare :: "serverConnection \<Rightarrow> nat \<Rightarrow> subscriptionValue \<Rightarrow> verr \<times> serverConnection" where
  "prepare c i v =
     (case prepareGuard c (sc_admissions c ! i) v of
        Inl e \<Rightarrow> (Some e, cleanup c i)
      | Inr sid \<Rightarrow>
          if NativeID_Validate sid \<noteq> nil then (Some (newError CodeInvalidArgument), cleanup c i)
          else if map_of (sc_subscriptionCancels c) sid \<noteq> None
          then (Some (newError CodeConflict), cleanup c i)
          else (nil, c\<lparr>sc_admissions := (sc_admissions c)[i := (sc_admissions c ! i)\<lparr>ad_subscriptionID := sid\<rparr>],
                       sc_subscriptionCancels := (sid, i) # sc_subscriptionCancels c\<rparr>))"

definition cancelSubscription :: "serverConnection \<Rightarrow> string \<Rightarrow> serverConnection" where
  "cancelSubscription c sid =
     (case map_of (sc_subscriptionCancels c) sid of
        None \<Rightarrow> c
      | Some i \<Rightarrow> c\<lparr>sc_admissions := (sc_admissions c)[i := (sc_admissions c ! i)\<lparr>ad_cancelled := True\<rparr>]\<rparr>)"

definition creditTargets :: "serverConnection \<Rightarrow> TerminalCredit \<Rightarrow> nat list" where
  "creditTargets c credit =
     map snd (filter (\<lambda>(sid, i). case ad_terminal (sc_admissions c ! i) of
                None \<Rightarrow> False
              | Some f \<Rightarrow> tf_nativeSession f = cd_NativeSessionID credit \<and> tf_streamID f = cd_StreamID credit)
       (sc_subscriptionCancels c))"

definition applyTerminalCredit :: "serverConnection \<Rightarrow> TerminalCredit \<Rightarrow> verr \<times> serverConnection" where
  "applyTerminalCredit c credit =
     (case creditTargets c credit of
        [i] \<Rightarrow>
          (case ad_terminal (sc_admissions c ! i) of
             None \<Rightarrow> (Some (newError CodeInvalidArgument), c)
           | Some f \<Rightarrow>
               (case addCredit f credit of
                  (err, f') \<Rightarrow>
                    (err, c\<lparr>sc_admissions := (sc_admissions c)[i := (sc_admissions c ! i)\<lparr>ad_terminal := Some f'\<rparr>]\<rparr>)))
      | _ \<Rightarrow> (Some (newError CodeInvalidArgument), c))"

text \<open>The flow of a live terminal subscription admits a chunk.\<close>

definition publishChunk :: "serverConnection \<Rightarrow> nat \<Rightarrow> TerminalChunk \<Rightarrow> wakeup list \<Rightarrow> verr option \<times> serverConnection" where
  "publishChunk c i chunk schedule =
     (case ad_terminal (sc_admissions c ! i) of
        None \<Rightarrow> (Some (Some (newError CodeInvalidArgument)), c)
      | Some f \<Rightarrow>
          (case terminalFlow_consume f chunk (sc_maximumChunk c) schedule of
             (result, f') \<Rightarrow>
               (result, c\<lparr>sc_admissions := (sc_admissions c)[i := (sc_admissions c ! i)\<lparr>ad_terminal := Some f'\<rparr>]\<rparr>)))"

section \<open>The accounting invariant\<close>

definition live :: "serverConnection \<Rightarrow> nat \<Rightarrow> bool" where
  "live c i \<longleftrightarrow> i < length (sc_admissions c) \<and> \<not> ad_cleaned (sc_admissions c ! i)"

definition liveCount :: "serverConnection \<Rightarrow> nat" where
  "liveCount c = length (filter Not (map ad_cleaned (sc_admissions c)))"

definition admissionOk :: "admission \<Rightarrow> bool" where
  "admissionOk a \<longleftrightarrow>
     (case ad_terminal a of
        None \<Rightarrow> ad_terminalKey a = []
      | Some f \<Rightarrow> ad_terminalKey a = terminalKeyOf (tf_nativeSession f) (tf_streamID f) \<and>
          NUL \<notin> set (tf_nativeSession f) \<and> unat (tf_remaining f) \<le> unat (tf_window f))"

lemma admissionOk_sid [simp]: "admissionOk (a\<lparr>ad_subscriptionID := sid\<rparr>) = admissionOk a"
  and admissionOk_cancelled [simp]: "admissionOk (a\<lparr>ad_cancelled := b\<rparr>) = admissionOk a"
  and admissionOk_cleaned [simp]: "admissionOk (a\<lparr>ad_cleaned := b\<rparr>) = admissionOk a"
  by (simp_all add: admissionOk_def split: option.split)

text \<open>
  The counter is the number of live admissions; the two tables hold exactly the live admissions that
  have a terminal stream and those that have been given an identifier.
\<close>

definition connInv :: "serverConnection \<Rightarrow> bool" where
  "connInv c \<longleftrightarrow>
     sc_subscriptions c = int (liveCount c) \<and>
     sc_subscriptions c \<le> max 0 (sc_MaxSubscriptions c) \<and>
     distinct (map fst (sc_terminalStreams c)) \<and> distinct (map fst (sc_subscriptionCancels c)) \<and>
     (\<forall>k i. (k, i) \<in> set (sc_terminalStreams c) \<longleftrightarrow>
        live c i \<and> ad_terminalKey (sc_admissions c ! i) = k \<and> k \<noteq> []) \<and>
     (\<forall>sid i. (sid, i) \<in> set (sc_subscriptionCancels c) \<longleftrightarrow>
        live c i \<and> ad_subscriptionID (sc_admissions c ! i) = sid \<and> sid \<noteq> []) \<and>
     (\<forall>a \<in> set (sc_admissions c). admissionOk a)"

lemma count_clean:
  "i < length bs \<Longrightarrow> \<not> bs ! i \<Longrightarrow> Suc (length (filter Not (bs[i := True]))) = length (filter Not bs)"
proof (induction bs arbitrary: i)
  case (Cons b bs)
  then show ?case by (cases i) auto
qed simp

lemma map_update_same: "i < length xs \<Longrightarrow> f a = f (xs ! i) \<Longrightarrow> map f (xs[i := a]) = map f xs"
  by (simp add: map_update list_update_same_conv)

lemma map_of_None: "map_of t k = None \<longleftrightarrow> k \<notin> fst ` set t"
  by (simp add: map_of_eq_None_iff)

lemma removeKey_mem: "(k', i) \<in> set (removeKey k t) \<longleftrightarrow> (k', i) \<in> set t \<and> k' \<noteq> k"
  by (auto simp: removeKey_def)

lemma removeKey_distinct: "distinct (map fst t) \<Longrightarrow> distinct (map fst (removeKey k t))"
  by (auto simp: removeKey_def distinct_map inj_on_def)

lemma all_update: "\<forall>b \<in> set xs. P b \<Longrightarrow> P a \<Longrightarrow> \<forall>b \<in> set (xs[i := a]). P b"
  using set_update_subset_insert [of xs i a] by blast

text \<open>An update of an admission that leaves its identity alone keeps the invariant.\<close>

lemma connInv_touch:
  assumes "connInv c" "i < length (sc_admissions c)" "ad_cleaned a = ad_cleaned (sc_admissions c ! i)"
    "ad_terminalKey a = ad_terminalKey (sc_admissions c ! i)"
    "ad_subscriptionID a = ad_subscriptionID (sc_admissions c ! i)" "admissionOk a"
  shows "connInv (c\<lparr>sc_admissions := (sc_admissions c)[i := a]\<rparr>)"
proof -
  let ?c = "c\<lparr>sc_admissions := (sc_admissions c)[i := a]\<rparr>"
  have "live ?c j = live c j" for j using assms(2,3) by (auto simp: live_def nth_list_update)
  moreover have "ad_terminalKey (sc_admissions ?c ! j) = ad_terminalKey (sc_admissions c ! j)"
    "ad_subscriptionID (sc_admissions ?c ! j) = ad_subscriptionID (sc_admissions c ! j)" for j
    using assms(2,4,5) by (simp_all add: nth_list_update)
  moreover have "liveCount ?c = liveCount c"
    using map_update_same [OF assms(2,3)] by (simp add: liveCount_def)
  moreover have "\<forall>b \<in> set (sc_admissions ?c). admissionOk b"
    using assms(1,6) set_update_subset_insert [of "sc_admissions c" i a] by (auto simp: connInv_def)
  ultimately show ?thesis using assms(1) unfolding connInv_def by simp
qed

lemma connInv_admission: "connInv c \<Longrightarrow> i < length (sc_admissions c) \<Longrightarrow> admissionOk (sc_admissions c ! i)"
  by (simp add: connInv_def)

lemma connInv_new:
  assumes "connInv c" "sc_subscriptions c < sc_MaxSubscriptions c" "admissionOk (newAdmission t key)"
    "key \<noteq> [] \<Longrightarrow> map_of (sc_terminalStreams c) key = None"
    "streams = (if key = [] then sc_terminalStreams c else (key, length (sc_admissions c)) # sc_terminalStreams c)"
  shows "connInv (c\<lparr>sc_subscriptions := sc_subscriptions c + 1, sc_terminalStreams := streams,
    sc_admissions := sc_admissions c @ [newAdmission t key]\<rparr>)"
proof -
  let ?c = "c\<lparr>sc_subscriptions := sc_subscriptions c + 1, sc_terminalStreams := streams,
    sc_admissions := sc_admissions c @ [newAdmission t key]\<rparr>"
  let ?n = "length (sc_admissions c)"
  have l: "live ?c j \<longleftrightarrow> live c j \<or> j = ?n" for j
    by (auto simp: live_def nth_append newAdmission_def)
  have old: "sc_admissions ?c ! j = sc_admissions c ! j" if "live c j" for j
    using that by (simp add: live_def nth_append)
  have new: "sc_admissions ?c ! ?n = newAdmission t key" by simp
  have dead: "\<not> live c ?n" by (simp add: live_def)
  have "liveCount ?c = Suc (liveCount c)" by (simp add: liveCount_def newAdmission_def)
  moreover have "distinct (map fst streams)"
    using assms(1,4,5) by (auto simp: connInv_def map_of_None)
  moreover have "(k, i) \<in> set streams \<longleftrightarrow> live ?c i \<and> ad_terminalKey (sc_admissions ?c ! i) = k \<and> k \<noteq> []" for k i
  proof (cases "i = ?n")
    case True
    have "(k, ?n) \<notin> set (sc_terminalStreams c)" using assms(1) dead by (auto simp: connInv_def)
    then show ?thesis using True l new assms(5) by (auto simp: newAdmission_def)
  next
    case False
    then show ?thesis using l old assms(1,5) by (auto simp: connInv_def)
  qed
  moreover have "(sid, i) \<in> set (sc_subscriptionCancels c) \<longleftrightarrow>
      live ?c i \<and> ad_subscriptionID (sc_admissions ?c ! i) = sid \<and> sid \<noteq> []" for sid i
  proof (cases "i = ?n")
    case True
    have "(sid, ?n) \<notin> set (sc_subscriptionCancels c)" using assms(1) dead by (auto simp: connInv_def)
    then show ?thesis using True l new by (auto simp: newAdmission_def)
  next
    case False
    then show ?thesis using l old assms(1) by (auto simp: connInv_def)
  qed
  ultimately show ?thesis using assms(1,2,3) unfolding connInv_def by auto
qed

lemma connInv_cleanup:
  assumes "connInv c" "i < length (sc_admissions c)"
  shows "connInv (cleanup c i)"
proof (cases "ad_cleaned (sc_admissions c ! i)")
  case True
  then show ?thesis using assms by (simp add: cleanup_def Let_def)
next
  case False
  let ?a = "sc_admissions c ! i"
  let ?c = "cleanup c i"
  have alive: "live c i" using False assms(2) by (simp add: live_def)
  have inv: "distinct (map fst (sc_terminalStreams c))" "distinct (map fst (sc_subscriptionCancels c))"
    "\<And>k j. (k, j) \<in> set (sc_terminalStreams c) \<longleftrightarrow>
        live c j \<and> ad_terminalKey (sc_admissions c ! j) = k \<and> k \<noteq> []"
    "\<And>sid j. (sid, j) \<in> set (sc_subscriptionCancels c) \<longleftrightarrow>
        live c j \<and> ad_subscriptionID (sc_admissions c ! j) = sid \<and> sid \<noteq> []"
    using assms(1) by (simp_all add: connInv_def)
  have pos: "0 < liveCount c"
    using count_clean [of i "map ad_cleaned (sc_admissions c)"] assms(2) False
    by (auto simp: liveCount_def simp del: filter_map)
  have adms: "sc_admissions ?c = (sc_admissions c)[i := ?a\<lparr>ad_cleaned := True, ad_cancelled := True\<rparr>]"
    using False by (simp add: cleanup_def Let_def releaseSubscription_def)
  have cnt: "Suc (liveCount ?c) = liveCount c"
    using count_clean [of i "map ad_cleaned (sc_admissions c)"] assms(2) False
    by (simp add: liveCount_def adms map_update)
  have sub: "sc_subscriptions ?c = sc_subscriptions c - 1"
    using assms(1) pos False by (simp add: cleanup_def Let_def releaseSubscription_def connInv_def)
  have lim: "sc_MaxSubscriptions ?c = sc_MaxSubscriptions c"
    using False by (simp add: cleanup_def Let_def releaseSubscription_def)
  have l: "live ?c j \<longleftrightarrow> live c j \<and> j \<noteq> i" for j
    using assms(2) by (auto simp: live_def adms nth_list_update)
  have same: "sc_admissions ?c ! j = sc_admissions c ! j" if "j \<noteq> i" for j
    using that by (simp add: adms)
  have streams: "sc_terminalStreams ?c =
      (if ad_terminalKey ?a = [] then sc_terminalStreams c else removeKey (ad_terminalKey ?a) (sc_terminalStreams c))"
    using False alive inv(1,3) by (auto simp: cleanup_def Let_def releaseSubscription_def map_of_eq_Some_iff)
  have cancels: "sc_subscriptionCancels ?c =
      (if ad_subscriptionID ?a = [] then sc_subscriptionCancels c
       else removeKey (ad_subscriptionID ?a) (sc_subscriptionCancels c))"
    using False alive inv(2,4) by (auto simp: cleanup_def Let_def releaseSubscription_def map_of_eq_Some_iff)
  have u1: "ad_terminalKey (sc_admissions c ! j) \<noteq> ad_terminalKey ?a \<or> ad_terminalKey ?a = []"
    if "live c j" "j \<noteq> i" for j
    using inv(1) inv(3) [of "ad_terminalKey ?a" j] inv(3) [of "ad_terminalKey ?a" i] that alive
    by (metis eq_key_imp_eq_value)
  have u2: "ad_subscriptionID (sc_admissions c ! j) \<noteq> ad_subscriptionID ?a \<or> ad_subscriptionID ?a = []"
    if "live c j" "j \<noteq> i" for j
    using inv(2) inv(4) [of "ad_subscriptionID ?a" j] inv(4) [of "ad_subscriptionID ?a" i] that alive
    by (metis eq_key_imp_eq_value)
  have "\<forall>b \<in> set (sc_admissions ?c). admissionOk b"
    unfolding adms using assms connInv_admission [OF assms] by (intro all_update) (simp_all add: connInv_def)
  moreover have "(k, j) \<in> set (sc_terminalStreams ?c) \<longleftrightarrow>
      live ?c j \<and> ad_terminalKey (sc_admissions ?c ! j) = k \<and> k \<noteq> []" for k j
    unfolding streams l using inv(3) [of k j] u1 [of j] same [of j] by (cases "j = i") (auto simp: removeKey_mem)
  moreover have "(sid, j) \<in> set (sc_subscriptionCancels ?c) \<longleftrightarrow>
      live ?c j \<and> ad_subscriptionID (sc_admissions ?c ! j) = sid \<and> sid \<noteq> []" for sid j
    unfolding cancels l using inv(4) [of sid j] u2 [of j] same [of j] by (cases "j = i") (auto simp: removeKey_mem)
  moreover have "distinct (map fst (sc_terminalStreams ?c))" "distinct (map fst (sc_subscriptionCancels ?c))"
    unfolding streams cancels using inv(1,2) by (simp_all add: removeKey_distinct)
  ultimately show ?thesis using assms(1) cnt sub lim unfolding connInv_def by auto
qed

lemma connInv_prepare:
  assumes "connInv c" "live c i" "ad_subscriptionID (sc_admissions c ! i) = []"
  shows "connInv (snd (prepare c i v))"
proof -
  have i: "i < length (sc_admissions c)" using assms(2) by (simp add: live_def)
  have clean: "connInv (cleanup c i)" by (rule connInv_cleanup [OF assms(1) i])
  show ?thesis
  proof (cases "prepareGuard c (sc_admissions c ! i) v")
    case (Inr sid)
    show ?thesis
    proof (cases "NativeID_Validate sid \<noteq> nil \<or> map_of (sc_subscriptionCancels c) sid \<noteq> None")
      case True
      then show ?thesis using Inr clean by (auto simp: prepare_def)
    next
      case False
      then have sid: "sid \<noteq> []" "sid \<notin> fst ` set (sc_subscriptionCancels c)"
        by (auto simp: NativeID_Validate_nil map_of_None)
      let ?a = "(sc_admissions c ! i)\<lparr>ad_subscriptionID := sid\<rparr>"
      let ?c = "c\<lparr>sc_admissions := (sc_admissions c)[i := ?a],
        sc_subscriptionCancels := (sid, i) # sc_subscriptionCancels c\<rparr>"
      have "live ?c j = live c j" for j using i by (auto simp: live_def nth_list_update)
      moreover have "ad_terminalKey (sc_admissions ?c ! j) = ad_terminalKey (sc_admissions c ! j)"
        "ad_subscriptionID (sc_admissions ?c ! j) = (if j = i then sid else ad_subscriptionID (sc_admissions c ! j))" for j
        using i by (simp_all add: nth_list_update)
      moreover have "liveCount ?c = liveCount c"
        using map_update_same [OF i, of ad_cleaned ?a] by (simp add: liveCount_def)
      moreover have "\<forall>b \<in> set (sc_admissions ?c). admissionOk b"
      proof -
        have "admissionOk ?a" using connInv_admission [OF assms(1) i] by simp
        moreover have "\<forall>b \<in> set (sc_admissions c). admissionOk b" using assms(1) by (simp add: connInv_def)
        ultimately show ?thesis using all_update [of "sc_admissions c" admissionOk ?a i] by simp
      qed
      ultimately have "connInv ?c"
        using assms sid unfolding connInv_def by auto
      then show ?thesis using Inr False by (simp add: prepare_def)
    qed
  qed (use clean in \<open>simp add: prepare_def\<close>)
qed

lemma connInv_beginSubscription: "connInv c \<Longrightarrow> connInv (snd (beginSubscription c))"
  using connInv_new [of c None "[]" "sc_terminalStreams c"]
  by (simp add: beginSubscription_def reserveSubscription_def admissionOk_def newAdmission_def)

lemma connInv_beginTerminalSubscription:
  assumes "connInv c"
  shows "connInv (snd (beginTerminalSubscription c request))"
proof -
  let ?key = "terminalKeyOf (tsr_NativeSessionID request) (tsr_StreamID request)"
  let ?flow = "newTerminalFlow request (sc_replaySupported c)"
  show ?thesis
  proof (cases "TerminalSubscribeRequest_Validate request = nil \<and> \<not> sc_closing c \<and>
      sc_subscriptions c < sc_MaxSubscriptions c \<and> map_of (sc_terminalStreams c) ?key = None")
    case True
    then have "NUL \<notin> set (tsr_NativeSessionID request)"
      by (auto simp: TerminalSubscribeRequest_Validate_def NativeID_Validate_nil containsAny_iff)
    then have "admissionOk (newAdmission (Some ?flow) ?key)"
      by (simp add: admissionOk_def newAdmission_def newTerminalFlow_def)
    moreover have "?key \<noteq> []" by (simp add: terminalKeyOf_def)
    ultimately show ?thesis using True connInv_new [OF assms, of "Some ?flow" ?key]
      by (simp add: beginTerminalSubscription_def Let_def)
  next
    case False
    then have "snd (beginTerminalSubscription c request) = c"
      by (auto simp: beginTerminalSubscription_def Let_def)
    then show ?thesis using assms by simp
  qed
qed

text \<open>The operations on a flow keep its stream and its window.\<close>

definition keepsStream :: "terminalFlow \<Rightarrow> terminalFlow \<Rightarrow> bool" where
  "keepsStream f f' \<longleftrightarrow>
     (unat (tf_remaining f) \<le> unat (tf_window f) \<longrightarrow>
      tf_nativeSession f' = tf_nativeSession f \<and> tf_streamID f' = tf_streamID f \<and>
      unat (tf_remaining f') \<le> unat (tf_window f'))"

lemma keepsStream_refl [simp]: "keepsStream f f"
  by (simp add: keepsStream_def)

lemma keepsStream_trans: "keepsStream f g \<Longrightarrow> keepsStream g h \<Longrightarrow> keepsStream f h"
  by (simp add: keepsStream_def)

lemma addCredit_keeps: "keepsStream f (snd (addCredit f credit))"
  by (cases rule: addCredit_cases [where f = f and c = credit]) (simp_all add: keepsStream_def credit_fits)

lemma consumeAttempt_keeps: "keepsStream f (snd (consumeAttempt f chunk n))"
  by (cases rule: consumeAttempt_cases [where f = f and chunk = chunk and n = n])
    (auto simp: keepsStream_def unat_sub_le)

lemma consumeLoop_keeps:
  "keepsStream f (snd (consumeLoop f chunk n schedule))"
  "keepsStream g (snd (consumeWait g chunk' m schedule'))"
proof (induction f chunk n schedule and g chunk' m schedule' rule: consumeLoop_consumeWait.induct)
  case (1 f chunk n schedule)
  obtain a f1 where a: "consumeAttempt f chunk n = (a, f1)" by (metis surj_pair)
  have k: "keepsStream f f1" using consumeAttempt_keeps [of f chunk n] a by simp
  show ?case
  proof (cases a)
    case Blocked
    with 1 [OF a [symmetric]] keepsStream_trans [OF k] a show ?thesis by simp
  qed (use a k in simp)
next
  case (4 f chunk n credit schedule)
  obtain e f1 where a: "addCredit f credit = (e, f1)" by (metis surj_pair)
  have k: "keepsStream f f1" using addCredit_keeps [of f credit] a by simp
  show ?case
  proof (cases e)
    case None
    with 4(1) [OF a [symmetric]] keepsStream_trans [OF k] a show ?thesis by simp
  next
    case (Some x)
    with 4(2) [OF a [symmetric]] keepsStream_trans [OF k] a show ?thesis by simp
  qed
qed simp_all

lemma terminalFlow_consume_keeps: "keepsStream f (snd (terminalFlow_consume f chunk m schedule))"
  by (cases "consumeGuard f chunk m") (simp_all add: terminalFlow_consume_def consumeLoop_keeps del: consumeLoop.simps)

lemma connInv_flow:
  assumes "connInv c" "i < length (sc_admissions c)" "ad_terminal (sc_admissions c ! i) = Some f"
    "keepsStream f f'"
  shows "connInv (c\<lparr>sc_admissions := (sc_admissions c)[i := (sc_admissions c ! i)\<lparr>ad_terminal := Some f'\<rparr>]\<rparr>)"
  using connInv_admission [OF assms(1,2)] assms(3,4)
  by (intro connInv_touch [OF assms(1,2)]) (auto simp: admissionOk_def keepsStream_def)

lemma creditTargets_live: "connInv c \<Longrightarrow> i \<in> set (creditTargets c credit) \<Longrightarrow> live c i"
  by (auto simp: creditTargets_def connInv_def)

lemma connInv_credit:
  assumes "connInv c"
  shows "connInv (snd (applyTerminalCredit c credit))"
proof (cases "\<exists>i f. creditTargets c credit = [i] \<and> ad_terminal (sc_admissions c ! i) = Some f")
  case True
  then obtain i f where i: "creditTargets c credit = [i]" "ad_terminal (sc_admissions c ! i) = Some f" by blast
  obtain e f' where a: "addCredit f credit = (e, f')" by (metis surj_pair)
  have "i < length (sc_admissions c)" using creditTargets_live [OF assms, of i credit] i(1) by (simp add: live_def)
  from connInv_flow [OF assms this i(2), of f'] addCredit_keeps [of f credit] a show ?thesis
    by (simp add: applyTerminalCredit_def i a)
next
  case False
  then have "snd (applyTerminalCredit c credit) = c"
    by (auto simp: applyTerminalCredit_def split: list.splits option.splits)
  then show ?thesis using assms by simp
qed

lemma connInv_publish:
  assumes "connInv c" "i < length (sc_admissions c)"
  shows "connInv (snd (publishChunk c i chunk schedule))"
proof (cases "ad_terminal (sc_admissions c ! i)")
  case (Some f)
  obtain r f' where a: "terminalFlow_consume f chunk (sc_maximumChunk c) schedule = (r, f')" by (metis surj_pair)
  from connInv_flow [OF assms Some, of f'] terminalFlow_consume_keeps [of f chunk "sc_maximumChunk c" schedule] a show ?thesis
    by (simp add: publishChunk_def Some a)
qed (use assms in \<open>simp add: publishChunk_def\<close>)

lemma connInv_cancel:
  assumes "connInv c"
  shows "connInv (cancelSubscription c sid)"
proof (cases "map_of (sc_subscriptionCancels c) sid")
  case (Some i)
  then have "i < length (sc_admissions c)"
    using assms by (auto simp: connInv_def live_def dest!: map_of_SomeD)
  then have "connInv (c\<lparr>sc_admissions := (sc_admissions c)[i := (sc_admissions c ! i)\<lparr>ad_cancelled := True\<rparr>]\<rparr>)"
    using connInv_admission [OF assms] by (intro connInv_touch [OF assms]) simp_all
  with Some show ?thesis by (simp add: cancelSubscription_def)
qed (use assms in \<open>simp add: cancelSubscription_def\<close>)

section \<open>Reachable connections\<close>

text \<open>
  The operations of a connection in any order. A handler's result is prepared once, for an admission
  that has not been cleaned up.
\<close>

inductive connStep :: "serverConnection \<Rightarrow> serverConnection \<Rightarrow> bool" where
  admit: "connStep c (snd (beginSubscription c))"
| admit_terminal: "connStep c (snd (beginTerminalSubscription c request))"
| bind: "live c i \<Longrightarrow> ad_subscriptionID (sc_admissions c ! i) = [] \<Longrightarrow> connStep c (snd (prepare c i v))"
| finish: "i < length (sc_admissions c) \<Longrightarrow> connStep c (cleanup c i)"
| cancel: "connStep c (cancelSubscription c sid)"
| credit: "connStep c (snd (applyTerminalCredit c cr))"
| publish: "i < length (sc_admissions c) \<Longrightarrow> connStep c (snd (publishChunk c i chunk schedule))"
| closing: "connStep c (c\<lparr>sc_closing := True\<rparr>)"

inductive connReach :: "int \<Rightarrow> bool \<Rightarrow> uint64 \<Rightarrow> serverConnection \<Rightarrow> bool" for limit replay chunkMax where
  open_conn: "connReach limit replay chunkMax (newConnection limit replay chunkMax)"
| conn_step: "connReach limit replay chunkMax c \<Longrightarrow> connStep c c' \<Longrightarrow> connReach limit replay chunkMax c'"

lemma connStep_inv:
  assumes "connStep c c'" "connInv c"
  shows "connInv c'"
  using assms
proof (induction rule: connStep.induct)
  case (closing c)
  then show ?case by (simp add: connInv_def live_def liveCount_def)
qed (auto intro: connInv_beginSubscription connInv_beginTerminalSubscription connInv_prepare
      connInv_cleanup connInv_cancel connInv_credit connInv_publish)

lemma newConnection_inv: "connInv (newConnection limit replay chunkMax)"
  by (simp add: connInv_def newConnection_def live_def liveCount_def)

lemma connReach_inv: "connReach limit replay chunkMax c \<Longrightarrow> connInv c"
  by (induction rule: connReach.induct) (auto intro: newConnection_inv connStep_inv)

lemma limit_fixed: "connStep c c' \<Longrightarrow> sc_MaxSubscriptions c' = sc_MaxSubscriptions c"
  by (induction rule: connStep.induct)
    (auto simp: beginSubscription_def reserveSubscription_def beginTerminalSubscription_def prepare_def
      cleanup_def releaseSubscription_def Let_def cancelSubscription_def applyTerminalCredit_def
      publishChunk_def split: option.splits sum.splits list.splits prod.splits)

lemma connReach_limit: "connReach limit replay chunkMax c \<Longrightarrow> sc_MaxSubscriptions c = limit"
  by (induction rule: connReach.induct) (auto simp: newConnection_def limit_fixed)

lemma terminalKeyOf_inject:
  "NUL \<notin> set s \<Longrightarrow> NUL \<notin> set s' \<Longrightarrow> terminalKeyOf s t = terminalKeyOf s' t' \<longleftrightarrow> s = s' \<and> t = t'"
proof (induction s arbitrary: s')
  case Nil
  then show ?case by (cases s') (auto simp: terminalKeyOf_def)
next
  case (Cons a s)
  then show ?case by (cases s') (auto simp: terminalKeyOf_def)
qed

text \<open>Two live admissions of one stream are the same.\<close>

lemma live_stream_unique:
  assumes "connInv c" "live c i" "live c j" "ad_terminal (sc_admissions c ! i) = Some f"
    "ad_terminal (sc_admissions c ! j) = Some g" "tf_nativeSession f = tf_nativeSession g"
    "tf_streamID f = tf_streamID g"
  shows "i = j"
proof -
  have "admissionOk (sc_admissions c ! i)" "admissionOk (sc_admissions c ! j)"
    using assms(1-3) connInv_admission by (auto simp: live_def)
  then have "ad_terminalKey (sc_admissions c ! i) = ad_terminalKey (sc_admissions c ! j)"
    "ad_terminalKey (sc_admissions c ! i) \<noteq> []"
    using assms(4-7) by (auto simp: admissionOk_def terminalKeyOf_def)
  with assms(1-3) show ?thesis unfolding connInv_def by (metis eq_key_imp_eq_value)
qed

text \<open>
  C29: At every moment the counter of a connection is the number of subscriptions that have not been
  cleaned up, it never exceeds the configured limit, and no two of them serve the same terminal stream.
\<close>

theorem subscriptions_accounted:
  assumes "connReach limit replay chunkMax c" "0 \<le> limit"
  shows "sc_subscriptions c = int (liveCount c) \<and> sc_subscriptions c \<le> limit \<and>
    (\<forall>i j f g. live c i \<and> live c j \<and> ad_terminal (sc_admissions c ! i) = Some f \<and>
       ad_terminal (sc_admissions c ! j) = Some g \<and> tf_nativeSession f = tf_nativeSession g \<and>
       tf_streamID f = tf_streamID g \<longrightarrow> i = j)"
proof -
  have inv: "connInv c" using connReach_inv [OF assms(1)] .
  then show ?thesis using connReach_limit [OF assms(1)] assms(2) live_stream_unique [OF inv]
    unfolding connInv_def by auto
qed

theorem subscriptions_accounted_witness:
  "connReach 1 True 64 (snd (beginSubscription (newConnection 1 True 64))) \<and>
   sc_subscriptions (snd (beginSubscription (newConnection 1 True 64))) = 1 \<and>
   int (liveCount (snd (beginSubscription (newConnection 1 True 64)))) \<le> 1"
proof -
  have r: "connReach 1 True 64 (snd (beginSubscription (newConnection 1 True 64)))"
    by (rule conn_step [OF open_conn admit])
  have "sc_subscriptions (snd (beginSubscription (newConnection 1 True 64))) = 1" by code_simp
  then show ?thesis using subscriptions_accounted [OF r] r by simp
qed

text \<open>
  A subscription that has been cleaned up is gone: no table mentions it, its slot is free again,
  a second cleanup changes nothing, and a new subscription to its stream is not refused as a conflict.
\<close>

theorem cleanup_releases:
  assumes "connReach limit replay chunkMax c" "live c i"
  shows "i \<notin> snd ` set (sc_terminalStreams (cleanup c i)) \<and>
    i \<notin> snd ` set (sc_subscriptionCancels (cleanup c i)) \<and>
    sc_subscriptions (cleanup c i) = sc_subscriptions c - 1 \<and>
    cleanup (cleanup c i) i = cleanup c i \<and>
    map_of (sc_terminalStreams (cleanup c i)) (ad_terminalKey (sc_admissions c ! i)) = None"
proof -
  have inv: "connInv c" and i: "i < length (sc_admissions c)" "\<not> ad_cleaned (sc_admissions c ! i)"
    using connReach_inv [OF assms(1)] assms(2) by (auto simp: live_def)
  have inv': "connInv (cleanup c i)" by (rule connInv_cleanup [OF inv i(1)])
  have adms: "sc_admissions (cleanup c i) =
      (sc_admissions c)[i := (sc_admissions c ! i)\<lparr>ad_cleaned := True, ad_cancelled := True\<rparr>]"
    using i by (simp add: cleanup_def Let_def releaseSubscription_def)
  then have dead: "\<not> live (cleanup c i) i" using i(1) by (simp add: live_def)
  have again: "cleanup (cleanup c i) i = cleanup c i"
    by (subst cleanup_def) (simp add: Let_def adms i(1))
  have "liveCount c = Suc (liveCount (cleanup c i))"
    using count_clean [of i "map ad_cleaned (sc_admissions c)"] i by (simp add: liveCount_def adms map_update)
  moreover have "map_of (sc_terminalStreams (cleanup c i)) (ad_terminalKey (sc_admissions c ! i)) = None"
  proof (rule ccontr)
    assume "map_of (sc_terminalStreams (cleanup c i)) (ad_terminalKey (sc_admissions c ! i)) \<noteq> None"
    then obtain j where j: "(ad_terminalKey (sc_admissions c ! i), j) \<in> set (sc_terminalStreams (cleanup c i))"
      by (auto dest: map_of_SomeD)
    then have "live (cleanup c i) j" "ad_terminalKey (sc_admissions (cleanup c i) ! j) = ad_terminalKey (sc_admissions c ! i)"
      "ad_terminalKey (sc_admissions c ! i) \<noteq> []" using inv' by (auto simp: connInv_def)
    moreover from this dead have "j \<noteq> i" by auto
    ultimately have "live c j" "ad_terminalKey (sc_admissions c ! j) = ad_terminalKey (sc_admissions c ! i)"
      by (simp_all add: live_def adms)
    with \<open>j \<noteq> i\<close> assms(2) inv \<open>ad_terminalKey (sc_admissions c ! i) \<noteq> []\<close> show False
      unfolding connInv_def by (metis eq_key_imp_eq_value)
  qed
  ultimately show ?thesis using inv inv' dead again unfolding connInv_def by auto
qed

theorem cleanup_releases_witness:
  "sc_subscriptions (cleanup (snd (beginTerminalSubscription (newConnection 1 True 64) sampleRequest)) 0) = 0 \<and>
   0 \<notin> snd ` set (sc_terminalStreams (cleanup (snd (beginTerminalSubscription (newConnection 1 True 64) sampleRequest)) 0))"
proof -
  let ?c = "snd (beginTerminalSubscription (newConnection 1 True 64) sampleRequest)"
  have r: "connReach 1 True 64 ?c" by (rule conn_step [OF open_conn admit_terminal])
  have "TerminalSubscribeRequest_Validate sampleRequest = nil" by code_simp
  then have "live ?c 0" "sc_subscriptions ?c = 1"
    by (simp_all add: beginTerminalSubscription_def newConnection_def live_def newAdmission_def Let_def)
  with cleanup_releases [OF r, of 0] show ?thesis by simp
qed

text \<open>
  A credit reaches at most one stream: when it is accepted, exactly one live subscription serves
  its session and stream, and only that subscription's flow changes.
\<close>

theorem credit_reaches_one_stream:
  assumes "connReach limit replay chunkMax c" "applyTerminalCredit c credit = (nil, c')"
  shows "\<exists>i f. live c i \<and> ad_terminal (sc_admissions c ! i) = Some f \<and>
    tf_nativeSession f = cd_NativeSessionID credit \<and> tf_streamID f = cd_StreamID credit \<and>
    ad_terminal (sc_admissions c' ! i) = Some (f\<lparr>tf_remaining := tf_remaining f + cd_Bytes credit\<rparr>) \<and>
    (\<forall>j. j \<noteq> i \<longrightarrow> sc_admissions c' ! j = sc_admissions c ! j)"
proof -
  have inv: "connInv c" using connReach_inv [OF assms(1)] .
  from assms(2) obtain i f f' where i: "creditTargets c credit = [i]" "ad_terminal (sc_admissions c ! i) = Some f"
    "addCredit f credit = (nil, f')"
    "c' = c\<lparr>sc_admissions := (sc_admissions c)[i := (sc_admissions c ! i)\<lparr>ad_terminal := Some f'\<rparr>]\<rparr>"
    by (auto simp: applyTerminalCredit_def split: list.splits option.splits prod.splits)
  have l: "live c i" using creditTargets_live [OF inv, of i credit] i(1) by simp
  have "i \<in> set (creditTargets c credit)" using i(1) by simp
  then have "tf_nativeSession f = cd_NativeSessionID credit \<and> tf_streamID f = cd_StreamID credit"
    using i(2) by (auto simp: creditTargets_def)
  moreover have "f' = f\<lparr>tf_remaining := tf_remaining f + cd_Bytes credit\<rparr>"
    using i(3) by (cases rule: addCredit_cases [where f = f and c = credit]) auto
  ultimately show ?thesis using i l by (auto simp: live_def)
qed

definition sampleConn :: serverConnection where
  "sampleConn =
     snd (publishChunk
       (snd (prepare (snd (beginTerminalSubscription (newConnection 1 True 64) sampleRequest)) 0
          (TerminalSubscription ''sub-1'' []))) 0 (sampleChunk 1 0 False 4 ''abcd'') [])"

theorem credit_reaches_one_stream_witness:
  "fst (applyTerminalCredit sampleConn (sampleCredit 4 4)) = nil \<and>
   (\<exists>i f. live sampleConn i \<and> ad_terminal (sc_admissions sampleConn ! i) = Some f \<and> tf_streamID f = ''main'')"
proof -
  let ?c1 = "snd (beginTerminalSubscription (newConnection 1 True 64) sampleRequest)"
  let ?c2 = "snd (prepare ?c1 0 (TerminalSubscription ''sub-1'' []))"
  have c1: "live ?c1 0" "ad_subscriptionID (sc_admissions ?c1 ! 0) = []" by (code_simp, code_simp)
  have c2: "0 < length (sc_admissions ?c2)" by code_simp
  have r: "connReach 1 True 64 sampleConn" unfolding sampleConn_def
    by (rule conn_step [OF conn_step [OF conn_step [OF open_conn admit_terminal] bind [OF c1]] publish [OF c2]])
  have a: "fst (applyTerminalCredit sampleConn (sampleCredit 4 4)) = nil" by code_simp
  then obtain c' where "applyTerminalCredit sampleConn (sampleCredit 4 4) = (nil, c')" by (metis prod.collapse)
  from credit_reaches_one_stream [OF r this] a show ?thesis by (auto simp: sampleCredit_def)
qed

end
