(* ===== verification/Rpc_Frame.thy ===== *)
theory Rpc_Frame
  imports Rpc_Envelope
begin

text \<open>
  The newline-delimited framing of \<open>provider/jsonrpc.go\<close>: \<open>readFrame\<close> over a \<open>bufio.Reader\<close> and
  \<open>writeFrame\<close> over an \<open>io.Writer\<close>. The reader holds its buffer, its pending error and the source it
  fills from, which delivers its bytes in arbitrary pieces and ends with an error; the writer answers
  each call as its list of replies says. The reference definition \<open>frameOf\<close> reads a frame off the
  whole byte stream, without buffers.
\<close>

section \<open>Reading\<close>

text \<open>
  A \<open>bufio.Reader\<close>: \<open>rd_buf\<close> is the unread part of its buffer, of at least 16 bytes. Each piece of
  \<open>rd_src\<close> is what one \<open>Read\<close> of the source delivers, cut to the free room; after the last piece the
  source fails with \<open>rd_end\<close>.
\<close>

record bufReader =
  rd_buf :: string
  rd_size :: nat
  rd_err :: verr
  rd_src :: "string list"
  rd_end :: go_error

abbreviation io_EOF :: string where "io_EOF \<equiv> ''EOF''"

definition bufSize :: "bufReader \<Rightarrow> nat" where
  "bufSize b = max 16 (rd_size b)"

text \<open>\<open>(*bufio.Reader).fill\<close>: one read, repeated while it delivers nothing, at most \<open>n\<close> times.\<close>

fun readFill :: "nat \<Rightarrow> bufReader \<Rightarrow> bufReader" where
  "readFill 0 b = b\<lparr>rd_err := Some (Sentinel ''io.ErrNoProgress'')\<rparr>"
| "readFill (Suc n) b =
     (case rd_src b of
        [] \<Rightarrow> b\<lparr>rd_err := Some (rd_end b)\<rparr>
      | c # cs \<Rightarrow>
          (let k = min (length c) (bufSize b - length (rd_buf b));
               b' = b\<lparr>rd_buf := rd_buf b @ take k c,
                      rd_src := (if k < length c then drop k c # cs else cs)\<rparr>
           in if 0 < k then b' else readFill n b'))"

datatype slice_end = Terminated | BufferFull | Failed go_error

fun readerMeasure :: "bufReader \<Rightarrow> nat" where
  "readerMeasure b = (if rd_err b = nil then 1 else 0) + sum_list (map (\<lambda>c. Suc (length c)) (rd_src b))"

lemma bufSize_src [simp]: "bufSize (b\<lparr>rd_src := x\<rparr>) = bufSize b"
  and bufSize_buf [simp]: "bufSize (b\<lparr>rd_buf := y\<rparr>) = bufSize b"
  and bufSize_err [simp]: "bufSize (b\<lparr>rd_err := e\<rparr>) = bufSize b"
  by (simp_all add: bufSize_def)

lemma readFill_measure:
  "rd_err b = nil \<Longrightarrow> length (rd_buf b) < bufSize b \<Longrightarrow> readerMeasure (readFill n b) < readerMeasure b"
proof (induction n b rule: readFill.induct)
  case (2 n b)
  show ?case
  proof (cases "rd_src b")
    case (Cons c cs)
    show ?thesis
    proof (cases "c = []")
      case True
      then show ?thesis
        using 2(1) [OF Cons refl refl] 2(2,3) Cons by (simp add: Let_def)
    next
      case False
      then show ?thesis using 2(2,3) Cons by (auto simp: Let_def)
    qed
  qed (use 2 in simp)
qed simp

text \<open>\<open>(*bufio.Reader).ReadSlice('\n')\<close>.\<close>

function readSlice :: "bufReader \<Rightarrow> (string \<times> slice_end) \<times> bufReader" where
  "readSlice b =
     (if newline_ch \<in> set (rd_buf b) then
        (let line = takeWhile (\<lambda>c. c \<noteq> newline_ch) (rd_buf b)
         in ((line @ [newline_ch], Terminated), b\<lparr>rd_buf := drop (Suc (length line)) (rd_buf b)\<rparr>))
      else case rd_err b of
        Some e \<Rightarrow> ((rd_buf b, Failed e), b\<lparr>rd_buf := [], rd_err := nil\<rparr>)
      | None \<Rightarrow>
          if bufSize b \<le> length (rd_buf b) then ((rd_buf b, BufferFull), b\<lparr>rd_buf := []\<rparr>)
          else readSlice (readFill 100 b))"
  by auto
termination
  by (relation "measure readerMeasure") (auto simp del: readFill.simps readerMeasure.simps intro: readFill_measure)

declare readSlice.simps [simp del]

lemma readSlice_full: "readSlice b = ((fragment, BufferFull), b') \<Longrightarrow> 16 \<le> length fragment"
proof (induction b rule: readSlice.induct)
  case (1 b)
  from 1(2) show ?case
    by (subst (asm) readSlice.simps)
      (auto simp: Let_def bufSize_def split: if_splits option.splits intro: 1(1) [unfolded bufSize_def])
qed

function readFrameLoop :: "uint64 \<Rightarrow> string \<Rightarrow> bufReader \<Rightarrow> (go_error + string) \<times> bufReader" where
  "readFrameLoop maximumBytes frame b =
     (case readSlice b of
        ((fragment, ending), b') \<Rightarrow>
          (let payload = (if ending = Terminated then butlast fragment else fragment);
               frame' = frame @ payload
           in if length frame + length payload > unat maximumBytes
              then (Inl (newError CodeMessageTooLarge), b')
              else case ending of
                Terminated \<Rightarrow>
                  (if frame' = [] \<or> return_ch \<in> set frame'
                   then (Inl (newError CodeInvalidArgument), b') else (Inr frame', b'))
              | BufferFull \<Rightarrow> readFrameLoop maximumBytes frame' b'
              | Failed e \<Rightarrow>
                  (if errors_Is e io_EOF \<and> frame' = [] then (Inl (Sentinel io_EOF), b')
                   else if errors_Is e io_EOF then (Inl (newError CodeInvalidArgument), b')
                   else (Inl e, b'))))"
  by auto
termination
proof (relation "measure (\<lambda>(m, frame, b). Suc (unat m) - length frame)", goal_cases)
  case 2
  then show ?case by (auto dest!: readSlice_full [OF sym])
qed simp

declare readFrameLoop.simps [simp del]

definition readFrame :: "bufReader option \<Rightarrow> uint64 \<Rightarrow> (go_error + string) \<times> bufReader option" where
  "readFrame reader maximumBytes =
     (case reader of
        None \<Rightarrow> (Inl (newError CodeInvalidArgument), None)
      | Some b \<Rightarrow>
          (case validateMaximumBytes maximumBytes of
             Some e \<Rightarrow> (Inl e, Some b)
           | None \<Rightarrow> map_prod id Some (readFrameLoop maximumBytes [] b)))"

section \<open>Writing\<close>

text \<open>
  An \<open>io.Writer\<close>: the bytes it has taken, and its answers \<open>(n, err)\<close> to the calls to come. A writer
  that has no answer left takes everything it is given.
\<close>

record ioWriter =
  w_out :: string
  w_replies :: "(int \<times> verr) list"

definition writer_Write :: "ioWriter \<Rightarrow> string \<Rightarrow> (int \<times> verr) \<times> ioWriter" where
  "writer_Write w p =
     (case w_replies w of
        [] \<Rightarrow> ((int (length p), nil), w\<lparr>w_out := w_out w @ p\<rparr>)
      | (n, err) # rest \<Rightarrow> ((n, err), w\<lparr>w_out := w_out w @ take (nat n) p, w_replies := rest\<rparr>))"

function writeAll :: "ioWriter \<Rightarrow> string \<Rightarrow> verr \<times> ioWriter" where
  "writeAll w frame =
     (if frame = [] then (nil, w)
      else case writer_Write w frame of
        ((written, err), w') \<Rightarrow>
          if err \<noteq> nil then (err, w')
          else if written \<le> 0 \<or> written > int (length frame)
          then (Some (Sentinel ''io.ErrShortWrite''), w')
          else writeAll w' (drop (nat written) frame))"
  by auto
termination
  by (relation "measure (\<lambda>(w, frame). length frame)") auto

declare writeAll.simps [simp del]

definition writeFrame :: "ioWriter option \<Rightarrow> string \<Rightarrow> uint64 \<Rightarrow> verr \<times> ioWriter option" where
  "writeFrame writer data maximumBytes =
     (case writer of
        None \<Rightarrow> (Some (newError CodeInvalidArgument), None)
      | Some w \<Rightarrow>
          (case validateEnvelope data maximumBytes of
             Some e \<Rightarrow> (Some e, Some w)
           | None \<Rightarrow>
               if validateObject data \<noteq> nil then (Some (newError CodeInvalidArgument), Some w)
               else map_prod id Some (writeAll w (data @ [newline_ch]))))"

text \<open>\<open>frameWriter\<close>: its lock makes \<open>write\<close> one step; \<open>writeWithMaximum\<close> is \<open>writeFrame\<close> itself.\<close>

record frameWriter =
  fw_writer :: "ioWriter option"
  fw_maximumBytes :: uint64

definition newFrameWriter :: "ioWriter option \<Rightarrow> uint64 \<Rightarrow> frameWriter" where
  "newFrameWriter writer maximumBytes = \<lparr>fw_writer = writer, fw_maximumBytes = maximumBytes\<rparr>"

definition frameWriter_write :: "frameWriter \<Rightarrow> string \<Rightarrow> verr \<times> frameWriter" where
  "frameWriter_write fw data =
     (case writeFrame (fw_writer fw) data (fw_maximumBytes fw) of
        (err, w) \<Rightarrow> (err, fw\<lparr>fw_writer := w\<rparr>))"

section \<open>The byte stream behind a reader\<close>

definition readerText :: "bufReader \<Rightarrow> string" where
  "readerText b = rd_buf b @ concat (rd_src b)"

text \<open>
  A reader in use: its source never delivers an empty piece, and a pending error is the one that ends
  the source.
\<close>

definition readerOk :: "bufReader \<Rightarrow> bool" where
  "readerOk b \<longleftrightarrow> (\<forall>c \<in> set (rd_src b). c \<noteq> []) \<and>
     (rd_err b = nil \<or> rd_err b = Some (rd_end b) \<and> rd_src b = [])"

definition frameOf :: "uint64 \<Rightarrow> string \<Rightarrow> go_error \<Rightarrow> go_error + string" where
  "frameOf maximumBytes text e =
     (let line = takeWhile (\<lambda>c. c \<noteq> newline_ch) text in
      if length line > unat maximumBytes then Inl (newError CodeMessageTooLarge)
      else if newline_ch \<in> set text then
        (if line = [] \<or> return_ch \<in> set line then Inl (newError CodeInvalidArgument) else Inr line)
      else if \<not> errors_Is e io_EOF then Inl e
      else if line = [] then Inl (Sentinel io_EOF) else Inl (newError CodeInvalidArgument))"

lemma readFill_ok:
  assumes "readerOk b" "rd_err b = nil" "length (rd_buf b) < bufSize b"
    "0 < n"
  shows "readerOk (readFill n b)" "readerText (readFill n b) = readerText b"
    "rd_end (readFill n b) = rd_end b"
  using assms by (cases n; auto simp: readerOk_def readerText_def Let_def split: list.splits)+

text \<open>What a slice takes off the stream, by the way it ends.\<close>

definition sliceTakes :: "bufReader \<Rightarrow> string \<Rightarrow> slice_end \<Rightarrow> bufReader \<Rightarrow> bool" where
  "sliceTakes b fragment ending b' \<longleftrightarrow>
     readerOk b' \<and> rd_end b' = rd_end b \<and> readerText b = fragment @ readerText b' \<and>
     (case ending of
        Terminated \<Rightarrow> \<exists>p. fragment = p @ [newline_ch] \<and> newline_ch \<notin> set p
      | BufferFull \<Rightarrow> newline_ch \<notin> set fragment
      | Failed e \<Rightarrow> e = rd_end b \<and> readerText b' = [] \<and> newline_ch \<notin> set fragment)"

lemma split_at_newline:
  "newline_ch \<in> set s \<Longrightarrow>
     s = takeWhile (\<lambda>c. c \<noteq> newline_ch) s @ newline_ch # drop (Suc (length (takeWhile (\<lambda>c. c \<noteq> newline_ch) s))) s"
  by (induction s) auto

lemma readSlice_takes:
  "readerOk b \<Longrightarrow> readSlice b = ((fragment, ending), b') \<Longrightarrow> sliceTakes b fragment ending b'"
proof (induction b rule: readSlice.induct)
  case (1 b)
  consider (line) "newline_ch \<in> set (rd_buf b)"
    | (err) e where "newline_ch \<notin> set (rd_buf b)" "rd_err b = Some e"
    | (full) "newline_ch \<notin> set (rd_buf b)" "rd_err b = nil" "bufSize b \<le> length (rd_buf b)"
    | (more) "newline_ch \<notin> set (rd_buf b)" "rd_err b = nil" "\<not> bufSize b \<le> length (rd_buf b)"
    by (cases "rd_err b") auto
  then show ?case
  proof cases
    case line
    with 1(3) have eq: "fragment = takeWhile (\<lambda>c. c \<noteq> newline_ch) (rd_buf b) @ [newline_ch]"
      "ending = Terminated"
      "b' = b\<lparr>rd_buf := drop (Suc (length (takeWhile (\<lambda>c. c \<noteq> newline_ch) (rd_buf b)))) (rd_buf b)\<rparr>"
      by (auto simp: readSlice.simps [of b] Let_def)
    have "newline_ch \<notin> set (takeWhile (\<lambda>c. c \<noteq> newline_ch) (rd_buf b))"
      using set_takeWhileD by fastforce
    then show ?thesis using 1(2) split_at_newline [OF line]
      by (simp add: eq sliceTakes_def readerOk_def readerText_def)
  next
    case err
    with 1(3) have eq: "fragment = rd_buf b" "ending = Failed e" "b' = b\<lparr>rd_buf := [], rd_err := nil\<rparr>"
      by (simp_all add: readSlice.simps [of b])
    then show ?thesis using err 1(2) by (simp add: sliceTakes_def readerOk_def readerText_def)
  next
    case full
    with 1(3) have eq: "fragment = rd_buf b" "ending = BufferFull" "b' = b\<lparr>rd_buf := []\<rparr>"
      by (simp_all add: readSlice.simps [of b])
    then show ?thesis using full 1(2) by (simp add: sliceTakes_def readerOk_def readerText_def)
  next
    case more
    let ?b = "readFill 100 b"
    have ok: "readerOk ?b" "readerText ?b = readerText b" "rd_end ?b = rd_end b"
      using readFill_ok [OF 1(2) more(2), of 100] more(3) by simp_all
    have "readSlice b = readSlice ?b" using more by (simp add: readSlice.simps [of b] del: readFill.simps)
    with 1(3) have "readSlice ?b = ((fragment, ending), b')" by simp
    with ok(1) have "sliceTakes ?b fragment ending b'" by (rule 1(1) [OF more])
    then show ?thesis using ok by (cases ending) (simp_all add: sliceTakes_def del: readFill.simps)
  qed
qed

lemma frameOf_line:
  "newline_ch \<notin> set p \<Longrightarrow>
   frameOf m (p @ newline_ch # rest) e =
     (if length p > unat m then Inl (newError CodeMessageTooLarge)
      else if p = [] \<or> return_ch \<in> set p then Inl (newError CodeInvalidArgument) else Inr p)"
proof -
  assume "newline_ch \<notin> set p"
  then have "takeWhile (\<lambda>c. c \<noteq> newline_ch) (p @ newline_ch # rest) = p"
    by (simp add: takeWhile_append)
  then show ?thesis by (simp add: frameOf_def)
qed

lemma frameOf_end:
  "newline_ch \<notin> set p \<Longrightarrow>
   frameOf m p e =
     (if length p > unat m then Inl (newError CodeMessageTooLarge)
      else if \<not> errors_Is e io_EOF then Inl e
      else if p = [] then Inl (Sentinel io_EOF) else Inl (newError CodeInvalidArgument))"
proof -
  assume "newline_ch \<notin> set p"
  moreover from this have "takeWhile (\<lambda>c. c \<noteq> newline_ch) p = p" by (auto simp: takeWhile_eq_all_conv)
  ultimately show ?thesis by (simp add: frameOf_def del: takeWhile_eq_all_conv)
qed

lemma frameOf_long:
  assumes "newline_ch \<notin> set p" "length p > unat m"
  shows "frameOf m (p @ rest) e = Inl (newError CodeMessageTooLarge)"
proof -
  have "takeWhile (\<lambda>c. c \<noteq> newline_ch) (p @ rest) = p @ takeWhile (\<lambda>c. c \<noteq> newline_ch) rest"
    using assms(1) by (subst takeWhile_append2) auto
  with assms show ?thesis by (simp add: frameOf_def)
qed

text \<open>
  The loop with a partial frame reads what is left of the frame: its result is that of the reference
  on the stream with the partial frame in front, and a frame it returns leaves exactly what follows
  its newline.
\<close>

lemma readFrameLoop_correct:
  assumes "readerOk b" "newline_ch \<notin> set frame"
  shows "fst (readFrameLoop m frame b) = frameOf m (frame @ readerText b) (rd_end b) \<and>
    (\<forall>data. fst (readFrameLoop m frame b) = Inr data \<longrightarrow>
       frame @ readerText b = data @ newline_ch # readerText (snd (readFrameLoop m frame b)) \<and>
       readerOk (snd (readFrameLoop m frame b)) \<and>
       rd_end (snd (readFrameLoop m frame b)) = rd_end b)"
  using assms
proof (induction m frame b rule: readFrameLoop.induct)
  case (1 m frame b)
  obtain fragment ending b' where rs: "readSlice b = ((fragment, ending), b')" by (metis surj_pair)
  have t: "sliceTakes b fragment ending b'" using readSlice_takes [OF 1(2) rs] .
  show ?case
  proof (cases ending)
    case Terminated
    with t obtain p where p: "fragment = p @ [newline_ch]" "newline_ch \<notin> set p"
      and b': "readerText b = p @ newline_ch # readerText b'" "readerOk b'" "rd_end b' = rd_end b"
      by (auto simp: sliceTakes_def)
    have "frameOf m (frame @ readerText b) (rd_end b) =
      (if length (frame @ p) > unat m then Inl (newError CodeMessageTooLarge)
       else if frame @ p = [] \<or> return_ch \<in> set (frame @ p) then Inl (newError CodeInvalidArgument)
       else Inr (frame @ p))"
      using frameOf_line [of "frame @ p" m "readerText b'" "rd_end b"] p(2) b'(1) 1(3) by simp
    then show ?thesis using b' p Terminated
      by (simp add: readFrameLoop.simps [of m frame b] rs Let_def)
  next
    case (Failed e)
    with t have e: "e = rd_end b" "readerText b = fragment" "newline_ch \<notin> set fragment"
      by (auto simp: sliceTakes_def)
    have "frameOf m (frame @ readerText b) (rd_end b) =
      (if length (frame @ fragment) > unat m then Inl (newError CodeMessageTooLarge)
       else if \<not> errors_Is e io_EOF then Inl e
       else if frame @ fragment = [] then Inl (Sentinel io_EOF) else Inl (newError CodeInvalidArgument))"
      using frameOf_end [of "frame @ fragment" m e] e 1(3) by simp
    then show ?thesis using Failed
      by (auto simp: readFrameLoop.simps [of m frame b] rs Let_def)
  next
    case BufferFull
    with t have f: "readerText b = fragment @ readerText b'" "newline_ch \<notin> set fragment"
      "readerOk b'" "rd_end b' = rd_end b"
      by (auto simp: sliceTakes_def)
    show ?thesis
    proof (cases "length frame + length fragment > unat m")
      case True
      then show ?thesis using frameOf_long [of "frame @ fragment" m "readerText b'" "rd_end b"] f 1(3) BufferFull
        by (simp add: readFrameLoop.simps [of m frame b] rs Let_def)
    next
      case False
      have step: "readFrameLoop m frame b = readFrameLoop m (frame @ fragment) b'"
        using False BufferFull by (simp add: readFrameLoop.simps [of m frame b] rs Let_def)
      have "newline_ch \<notin> set (frame @ fragment)" using f(2) 1(3) by simp
      from 1(1) [OF rs [symmetric] refl refl refl _ BufferFull f(3)] this False BufferFull
      show ?thesis using f(1,4) step by simp
    qed
  qed
qed

lemma readFrame_some:
  assumes "readerOk b" "validateMaximumBytes m = nil"
  shows "fst (readFrame (Some b) m) = frameOf m (readerText b) (rd_end b)"
    "fst (readFrame (Some b) m) = Inr data \<Longrightarrow>
       \<exists>b'. snd (readFrame (Some b) m) = Some b' \<and> readerOk b' \<and> rd_end b' = rd_end b \<and>
         readerText b = data @ newline_ch # readerText b'"
  using readFrameLoop_correct [OF assms(1), of "[]" m] assms(2) by (auto simp: readFrame_def)

section \<open>The bytes a writer takes\<close>

lemma writeAll_nil: "fst (writeAll w frame) = nil \<Longrightarrow> w_out (snd (writeAll w frame)) = w_out w @ frame"
proof (induction w frame rule: writeAll.induct)
  case (1 w frame)
  show ?case
  proof (cases "frame = []")
    case True
    then show ?thesis by (simp add: writeAll.simps)
  next
    case False
    obtain written err w' where w: "writer_Write w frame = ((written, err), w')" by (metis surj_pair)
    from 1(2) False w have ok: "err = nil" "0 < written" "written \<le> int (length frame)"
      by (auto simp: writeAll.simps [of w frame] split: if_splits)
    then have step: "writeAll w frame = writeAll w' (drop (nat written) frame)"
      using False w by (simp add: writeAll.simps [of w frame])
    have out: "w_out w' = w_out w @ take (nat written) frame"
      using w ok by (auto simp: writer_Write_def split: list.splits)
    have "fst (writeAll w' (drop (nat written) frame)) = nil" using 1(2) step by simp
    from 1(1) [OF False w [symmetric] refl] this ok show ?thesis by (simp add: step out)
  qed
qed

lemma writeFrame_nil:
  assumes "writeFrame (Some w) data m = (nil, w')"
  shows "validateEnvelope data m = nil" "\<exists>v. w' = Some v \<and> w_out v = w_out w @ data @ [newline_ch]"
  using assms writeAll_nil [of w "data @ [newline_ch]"]
  by (auto simp: writeFrame_def map_prod_def split: option.splits if_splits prod.splits)

section \<open>Properties\<close>

text \<open>
  C30: However the source cuts its bytes into pieces and whatever the size of the buffer,
  \<open>readFrame\<close> returns what the byte stream alone determines: the first line if it fits the limit, is
  not empty and has no carriage return, and otherwise the error of its case. A frame that is returned
  leaves exactly what follows its newline.
\<close>

theorem readFrame_correct:
  assumes "readerOk b" "validateMaximumBytes m = nil"
  shows "fst (readFrame (Some b) m) = frameOf m (readerText b) (rd_end b) \<and>
    (\<forall>data. fst (readFrame (Some b) m) = Inr data \<longrightarrow>
       (\<exists>b'. snd (readFrame (Some b) m) = Some b' \<and> readerText b = data @ newline_ch # readerText b'))"
  using readFrame_some [OF assms] by blast

definition sampleReader :: "nat \<Rightarrow> string list \<Rightarrow> bufReader" where
  "sampleReader n pieces =
     \<lparr>rd_buf = [], rd_size = n, rd_err = nil, rd_src = pieces, rd_end = Sentinel io_EOF\<rparr>"

theorem readFrame_correct_witness:
  "readerOk (sampleReader 16 [''{'', ''}'', [newline_ch, CHR ''x'']]) \<and>
   fst (readFrame (Some (sampleReader 16 [''{'', ''}'', [newline_ch, CHR ''x'']])) 64) = Inr ''{}'' "
proof -
  let ?b = "sampleReader 16 [''{'', ''}'', [newline_ch, CHR ''x'']]"
  have ok: "readerOk ?b" by (simp add: readerOk_def sampleReader_def)
  have "frameOf 64 (readerText ?b) (rd_end ?b) = Inr ''{}''"
    by (simp add: frameOf_def readerText_def sampleReader_def)
  then show ?thesis using readFrame_correct [OF ok, of 64] ok by (simp add: validateMaximumBytes_nil)
qed

text \<open>The reading and writing loops of the two peers, over several frames.\<close>

fun writeFrames :: "frameWriter \<Rightarrow> string list \<Rightarrow> verr \<times> frameWriter" where
  "writeFrames fw [] = (nil, fw)"
| "writeFrames fw (d # ds) =
     (case frameWriter_write fw d of (Some e, fw') \<Rightarrow> (Some e, fw') | (None, fw') \<Rightarrow> writeFrames fw' ds)"

fun readFrames :: "nat \<Rightarrow> uint64 \<Rightarrow> bufReader option \<Rightarrow> (go_error + string) list \<times> bufReader option" where
  "readFrames 0 m b = ([], b)"
| "readFrames (Suc n) m b =
     (case readFrame b m of (r, b') \<Rightarrow> map_prod (Cons r) id (readFrames n m b'))"

lemma writeFrames_out:
  assumes "writeFrames fw ds = (nil, fw')" "fw_writer fw = Some w"
  shows "\<exists>w'. fw_writer fw' = Some w' \<and> fw_maximumBytes fw' = fw_maximumBytes fw \<and>
    w_out w' = w_out w @ concat (map (\<lambda>d. d @ [newline_ch]) ds) \<and>
    (\<forall>d \<in> set ds. validateEnvelope d (fw_maximumBytes fw) = nil)"
  using assms
proof (induction ds arbitrary: fw w)
  case (Cons d ds)
  obtain err w1 where wf: "writeFrame (Some w) d (fw_maximumBytes fw) = (err, w1)" by (metis surj_pair)
  from Cons.prems wf have "err = nil" "writeFrames (fw\<lparr>fw_writer := w1\<rparr>) ds = (nil, fw')"
    by (auto simp: frameWriter_write_def split: option.splits)
  with wf writeFrame_nil [of w d "fw_maximumBytes fw" w1] obtain v where v: "w1 = Some v"
    "w_out v = w_out w @ d @ [newline_ch]" "validateEnvelope d (fw_maximumBytes fw) = nil" by auto
  from Cons.IH [of "fw\<lparr>fw_writer := w1\<rparr>" v] v \<open>writeFrames _ ds = _\<close> show ?case by auto
qed simp

lemma readFrames_lines:
  assumes "readerOk b" "readerText b = concat (map (\<lambda>d. d @ [newline_ch]) ds) @ rest"
    "\<forall>d \<in> set ds. validateEnvelope d m = nil" "validateMaximumBytes m = nil"
  shows "fst (readFrames (length ds) m (Some b)) = map Inr ds \<and>
    (\<exists>b'. snd (readFrames (length ds) m (Some b)) = Some b' \<and> readerText b' = rest)"
  using assms
proof (induction ds arbitrary: b)
  case (Cons d ds)
  have "newline_ch \<notin> set d \<and> d \<noteq> [] \<and> return_ch \<notin> set d \<and> length d \<le> unat m"
    using Cons.prems(3) by (simp add: validateEnvelope_nil)
  then have r: "fst (readFrame (Some b) m) = Inr d"
    using readFrame_some(1) [OF Cons.prems(1,4)] Cons.prems(2) by (simp add: frameOf_line)
  from readFrame_some(2) [OF Cons.prems(1,4) r] obtain b' where
    b': "snd (readFrame (Some b) m) = Some b'" "readerOk b'"
      "readerText b = d @ newline_ch # readerText b'" by blast
  have rf: "readFrame (Some b) m = (Inr d, Some b')" using r b'(1) by (metis prod.collapse)
  have "readerText b' = concat (map (\<lambda>d. d @ [newline_ch]) ds) @ rest"
    using b'(3) Cons.prems(2) by simp
  from Cons.IH [OF b'(2) this] Cons.prems(3,4) show ?case by (simp add: rf)
qed simp

text \<open>
  C31: A sequence of envelopes that one side writes without an error is read back by the other side,
  in order and byte for byte, whatever short writes the transport makes and however it cuts the
  stream into pieces; what follows them stays in the stream.
\<close>

theorem frames_roundtrip:
  assumes "writeFrames (newFrameWriter (Some \<lparr>w_out = [], w_replies = replies\<rparr>) m) ds = (nil, fw)"
    "fw_writer fw = Some w" "readerOk b" "readerText b = w_out w @ rest" "ds \<noteq> []"
  shows "fst (readFrames (length ds) m (Some b)) = map Inr ds \<and>
    (\<exists>b'. snd (readFrames (length ds) m (Some b)) = Some b' \<and> readerText b' = rest)"
proof -
  from writeFrames_out [OF assms(1)] assms(2) have out: "w_out w = concat (map (\<lambda>d. d @ [newline_ch]) ds)"
    and env: "\<forall>d \<in> set ds. validateEnvelope d m = nil"
    by (auto simp: newFrameWriter_def)
  from env assms(5) have "validateMaximumBytes m = nil"
    by (cases ds) (auto simp: validateEnvelope_nil validateMaximumBytes_nil)
  with readFrames_lines [OF assms(3) _ env] assms(4) out show ?thesis by auto
qed

theorem frames_roundtrip_witness:
  "fst (writeFrames (newFrameWriter (Some \<lparr>w_out = [], w_replies = [(1, nil)]\<rparr>) 64) [''{}'', ''{}'']) = nil \<and>
   fst (readFrames 2 64 (Some (sampleReader 16 [''{}'', [newline_ch, CHR ''{''], [CHR ''}'', newline_ch]]))) =
     [Inr ''{}'', Inr ''{}'']"
proof -
  let ?d = "[''{}'', ''{}'']"
  let ?b = "sampleReader 16 [''{}'', [newline_ch, CHR ''{''], [CHR ''}'', newline_ch]]"
  let ?w = "\<lparr>w_out = ''{}'' @ newline_ch # ''{}'' @ [newline_ch], w_replies = []\<rparr>"
  have "json_decode ''{}'' = Some (JObj [])" by code_simp
  then have v: "validateObject ''{}'' = nil" by (simp add: validateObject_nil)
  have e: "validateEnvelope ''{}'' 64 = nil" by (simp add: validateEnvelope_nil)
  have run: "writeFrames (newFrameWriter (Some \<lparr>w_out = [], w_replies = [(1, nil)]\<rparr>) 64) ?d =
     (nil, newFrameWriter (Some ?w) 64)"
    by (simp add: newFrameWriter_def frameWriter_write_def writeFrame_def v e writeAll.simps writer_Write_def)
  have "fst (readFrames (length ?d) 64 (Some ?b)) = map Inr ?d"
    using frames_roundtrip [OF run, of ?w ?b "[]"]
    by (simp add: newFrameWriter_def readerOk_def readerText_def sampleReader_def)
  then show ?thesis using run by (simp add: numeral_2_eq_2)
qed

end
