(* ===== verification/Server_Loops.thy ===== *)
theory Server_Loops
  imports Server_Requests Server_Subscriptions Rpc_Frame
begin

text \<open>
  The goroutines of a connection of \<open>provider/server.go\<close>: the reading loop with its notifications, the
  two outbound queues with the writing loop that drains them, and what \<open>serve\<close> returns. Which ready
  case a \<open>select\<close> takes, and what the other goroutines do between two steps, are arguments.
\<close>

section \<open>The outbound queues\<close>

text \<open>\<open>of_flushed\<close> and \<open>of_ctx\<close> say whether the frame carries a channel and a context.\<close>

record outboundFrame =
  of_data :: string
  of_maximum :: uint64
  of_flushed :: bool
  of_ctx :: bool

text \<open>
  \<open>ob_polling\<close> tells the two \<open>select\<close> statements of the writing loop apart, \<open>ob_exit\<close> is what the loop
  returned. The last three fields record the history: the frames each queue has accepted, and every
  frame the writer took, with its queue (True for control) and what its channel is told.
\<close>

record outbound =
  ob_control :: "outboundFrame list"
  ob_data :: "outboundFrame list"
  ob_polling :: bool
  ob_wire :: "ioWriter option"
  ob_exit :: verr
  ob_cancelled :: bool
  ob_acceptedControl :: "outboundFrame list"
  ob_acceptedData :: "outboundFrame list"
  ob_taken :: "(bool \<times> outboundFrame \<times> verr) list"

definition newOutbound :: "ioWriter \<Rightarrow> outbound" where
  "newOutbound w =
     \<lparr>ob_control = [], ob_data = [], ob_polling = True, ob_wire = Some w, ob_exit = nil, ob_cancelled = False,
      ob_acceptedControl = [], ob_acceptedData = [], ob_taken = []\<rparr>"

text \<open>The case that \<open>enqueueControl\<close> takes; None when that case is not ready.\<close>

datatype selected = Send | FrameDone go_error | ConnDone go_error

definition enqueueControl :: "Limits \<Rightarrow> selected \<Rightarrow> outboundFrame \<Rightarrow> outbound \<Rightarrow> (verr \<times> outbound) option" where
  "enqueueControl limits taken frame ob =
     (case taken of
        Send \<Rightarrow>
          if int (length (ob_control ob)) < MaxOutboundQueue limits
          then Some (nil, ob\<lparr>ob_control := ob_control ob @ [frame], ob_acceptedControl := ob_acceptedControl ob @ [frame]\<rparr>)
          else None
      | FrameDone e \<Rightarrow> if of_ctx frame then Some (Some e, ob) else None
      | ConnDone e \<Rightarrow> if ob_cancelled ob then Some (Some e, ob) else None)"

definition enqueueData :: "Limits \<Rightarrow> outboundFrame \<Rightarrow> outbound \<Rightarrow> verr \<times> outbound" where
  "enqueueData limits frame ob =
     (if int (length (ob_data ob)) < MaxOutboundQueue limits
      then (nil, ob\<lparr>ob_data := ob_data ob @ [frame], ob_acceptedData := ob_acceptedData ob @ [frame]\<rparr>)
      else (Some (newError CodeResourceExhausted), ob))"

definition plainFrame :: "string \<Rightarrow> outboundFrame" where
  "plainFrame data = \<lparr>of_data = data, of_maximum = 0, of_flushed = False, of_ctx = False\<rparr>"

definition sendError :: "Limits \<Rightarrow> uint64 \<Rightarrow> selected \<Rightarrow> string \<Rightarrow> go_error \<Rightarrow> outbound \<Rightarrow> (verr \<times> outbound) option" where
  "sendError limits maximum taken rid err ob =
     (case marshalErrorResponse rid err maximum of
        Inl e \<Rightarrow> Some (Some e, ob)
      | Inr frame \<Rightarrow> enqueueControl limits taken (plainFrame frame) ob)"

text \<open>The encoded heartbeat is an argument; a full queue drops it.\<close>

definition sendHeartbeat :: "Limits \<Rightarrow> go_error + string \<Rightarrow> outbound \<Rightarrow> verr \<times> outbound" where
  "sendHeartbeat limits encoded ob =
     (case encoded of
        Inl e \<Rightarrow> (Some e, ob)
      | Inr frame \<Rightarrow>
          (case enqueueData limits (plainFrame frame) ob of
             (Some e, ob') \<Rightarrow> (if IsCode (Some e) CodeResourceExhausted then nil else Some e, ob')
           | (None, ob') \<Rightarrow> (nil, ob')))"

section \<open>The writing loop\<close>

text \<open>\<open>ctxErr\<close> is the state of the frame's context, \<open>current\<close> the limit of the connection.\<close>

definition writeOutbound :: "uint64 \<Rightarrow> verr \<Rightarrow> bool \<Rightarrow> outboundFrame \<Rightarrow> outbound \<Rightarrow> outbound" where
  "writeOutbound current ctxErr isControl frame ob =
     (if of_ctx frame \<and> ctxErr \<noteq> nil then ob\<lparr>ob_taken := ob_taken ob @ [(isControl, frame, ctxErr)]\<rparr>
      else
        (case writeFrame (ob_wire ob) (of_data frame) (if of_maximum frame = 0 then current else of_maximum frame) of
           (err, wire) \<Rightarrow> ob\<lparr>ob_wire := wire, ob_exit := err, ob_taken := ob_taken ob @ [(isControl, frame, err)]\<rparr>))"

datatype pick = PickControl | PickData | PickDone go_error

text \<open>One \<open>select\<close> of \<open>writeLoop\<close>; None when the loop has returned or the case is not ready.\<close>

definition writeStep :: "uint64 \<Rightarrow> verr \<Rightarrow> pick \<Rightarrow> outbound \<Rightarrow> outbound option" where
  "writeStep current ctxErr pick ob =
     (if ob_exit ob \<noteq> nil then None
      else if ob_polling ob then
        (case ob_control ob of
           [] \<Rightarrow> Some (ob\<lparr>ob_polling := False\<rparr>)
         | frame # rest \<Rightarrow> Some (writeOutbound current ctxErr True frame (ob\<lparr>ob_control := rest\<rparr>)))
      else
        (case pick of
           PickControl \<Rightarrow>
             (case ob_control ob of
                [] \<Rightarrow> None
              | frame # rest \<Rightarrow> Some (writeOutbound current ctxErr True frame (ob\<lparr>ob_control := rest, ob_polling := True\<rparr>)))
         | PickData \<Rightarrow>
             (case ob_data ob of
                [] \<Rightarrow> None
              | frame # rest \<Rightarrow> Some (writeOutbound current ctxErr False frame (ob\<lparr>ob_data := rest, ob_polling := True\<rparr>)))
         | PickDone e \<Rightarrow> if ob_cancelled ob then Some (ob\<lparr>ob_exit := Some e\<rparr>) else None))"

inductive outboundStep :: "Limits \<Rightarrow> outbound \<Rightarrow> outbound \<Rightarrow> bool" for limits :: Limits where
  control: "enqueueControl limits taken frame ob = Some (err, ob') \<Longrightarrow> outboundStep limits ob ob'"
| data: "enqueueData limits frame ob = (err, ob') \<Longrightarrow> outboundStep limits ob ob'"
| writes: "writeStep current ctxErr pick ob = Some ob' \<Longrightarrow> outboundStep limits ob ob'"
| cancel: "outboundStep limits ob (ob\<lparr>ob_cancelled := True\<rparr>)"

abbreviation outboundReaches :: "Limits \<Rightarrow> outbound \<Rightarrow> outbound \<Rightarrow> bool" where
  "outboundReaches limits \<equiv> (outboundStep limits)\<^sup>*\<^sup>*"

subsection \<open>What a step does\<close>

definition takenFrom :: "bool \<Rightarrow> outbound \<Rightarrow> outboundFrame list" where
  "takenFrom b ob = map (\<lambda>(_, f, _). f) (filter (\<lambda>(k, _). k = b) (ob_taken ob))"

definition delivered :: "outbound \<Rightarrow> string list" where
  "delivered ob = map (\<lambda>(_, f, _). of_data f) (filter (\<lambda>(_, _, r). r = nil) (ob_taken ob))"

lemma writeOutbound_kept [simp]:
  "ob_control (writeOutbound m e k f ob) = ob_control ob" "ob_data (writeOutbound m e k f ob) = ob_data ob"
  "ob_polling (writeOutbound m e k f ob) = ob_polling ob" "ob_cancelled (writeOutbound m e k f ob) = ob_cancelled ob"
  "ob_acceptedControl (writeOutbound m e k f ob) = ob_acceptedControl ob"
  "ob_acceptedData (writeOutbound m e k f ob) = ob_acceptedData ob"
  by (simp_all add: writeOutbound_def split: prod.split)

lemma writeOutbound_taken:
  "\<exists>r. ob_taken (writeOutbound m e k f ob) = ob_taken ob @ [(k, f, r)]"
  by (simp add: writeOutbound_def split: prod.split)

lemma writeOutbound_from [simp]:
  "takenFrom b (writeOutbound m e k f ob) = (if b = k then takenFrom b ob @ [f] else takenFrom b ob)"
  using writeOutbound_taken [of m e k f ob] by (auto simp: takenFrom_def)

lemma takenFrom_kept [simp]:
  "takenFrom b (ob\<lparr>ob_control := xs\<rparr>) = takenFrom b ob" "takenFrom b (ob\<lparr>ob_data := xs\<rparr>) = takenFrom b ob"
  "takenFrom b (ob\<lparr>ob_polling := p\<rparr>) = takenFrom b ob" "takenFrom b (ob\<lparr>ob_cancelled := p\<rparr>) = takenFrom b ob"
  "takenFrom b (ob\<lparr>ob_exit := v\<rparr>) = takenFrom b ob" "takenFrom b (ob\<lparr>ob_acceptedControl := xs\<rparr>) = takenFrom b ob"
  "takenFrom b (ob\<lparr>ob_acceptedData := xs\<rparr>) = takenFrom b ob"
  by (simp_all add: takenFrom_def)

lemma writeStep_cases:
  assumes "writeStep m e pick ob = Some ob'"
  obtains (idle) "ob_polling ob" "ob_control ob = []" "ob' = ob\<lparr>ob_polling := False\<rparr>" "ob_exit ob = nil"
  | (control) f rest where "ob_control ob = f # rest" "ob' = writeOutbound m e True f (ob\<lparr>ob_control := rest, ob_polling := True\<rparr>)" "ob_exit ob = nil"
  | (data) f rest where "\<not> ob_polling ob" "ob_data ob = f # rest"
      "ob' = writeOutbound m e False f (ob\<lparr>ob_data := rest, ob_polling := True\<rparr>)" "ob_exit ob = nil"
  | (exit) x where "ob_cancelled ob" "ob' = ob\<lparr>ob_exit := Some x\<rparr>" "ob_exit ob = nil"
  using assms that
  by (cases ob) (auto simp: writeStep_def split: if_splits list.splits pick.splits)

subsection \<open>Order, bounds and delivery\<close>

lemma writeAll_grows: "\<exists>part. w_out (snd (writeAll w frame)) = w_out w @ part"
proof (induction w frame rule: writeAll.induct)
  case (1 w frame)
  obtain n err w' where w': "writer_Write w frame = ((n, err), w')" by (metis surj_pair)
  then have "\<exists>part. w_out w' = w_out w @ part" by (auto simp: writer_Write_def split: list.splits)
  then show ?case using 1 [OF _ w' [symmetric] refl] w' by (subst writeAll.simps) (auto simp: Let_def)
qed

lemma writeFrame_grows:
  assumes "writeFrame (Some w) d m = (err, wire)"
  shows "\<exists>v part. wire = Some v \<and> w_out v = w_out w @ part"
  using assms writeAll_grows [of w "d @ [newline_ch]"]
  by (auto simp: writeFrame_def map_prod_def split: option.splits if_splits prod.splits)

text \<open>The bytes on the wire: the delivered frames, and after a failure what was written of the last one.\<close>

definition wireOk :: "outbound \<Rightarrow> bool" where
  "wireOk ob \<longleftrightarrow>
     (\<exists>w part. ob_wire ob = Some w \<and> w_out w = concat (map (\<lambda>d. d @ [newline_ch]) (delivered ob)) @ part \<and>
        (ob_exit ob = nil \<longrightarrow> part = [])) \<and>
     (\<forall>d \<in> set (delivered ob). d \<noteq> [] \<and> newline_ch \<notin> set d \<and> return_ch \<notin> set d)"

definition outboundInv :: "Limits \<Rightarrow> outbound \<Rightarrow> bool" where
  "outboundInv limits ob \<longleftrightarrow>
     ob_acceptedControl ob = takenFrom True ob @ ob_control ob \<and> ob_acceptedData ob = takenFrom False ob @ ob_data ob \<and>
     int (length (ob_control ob)) \<le> max 0 (MaxOutboundQueue limits) \<and>
     int (length (ob_data ob)) \<le> max 0 (MaxOutboundQueue limits) \<and> wireOk ob"

lemma delivered_kept [simp]:
  "delivered (ob\<lparr>ob_control := xs\<rparr>) = delivered ob" "delivered (ob\<lparr>ob_data := xs\<rparr>) = delivered ob"
  "delivered (ob\<lparr>ob_polling := p\<rparr>) = delivered ob" "delivered (ob\<lparr>ob_cancelled := p\<rparr>) = delivered ob"
  "delivered (ob\<lparr>ob_exit := v\<rparr>) = delivered ob" "delivered (ob\<lparr>ob_acceptedControl := xs\<rparr>) = delivered ob"
  "delivered (ob\<lparr>ob_acceptedData := xs\<rparr>) = delivered ob" "delivered (ob\<lparr>ob_wire := w\<rparr>) = delivered ob"
  by (simp_all add: delivered_def)

lemma wireOk_kept [simp]:
  "wireOk (ob\<lparr>ob_control := xs\<rparr>) = wireOk ob" "wireOk (ob\<lparr>ob_data := xs\<rparr>) = wireOk ob"
  "wireOk (ob\<lparr>ob_polling := p\<rparr>) = wireOk ob" "wireOk (ob\<lparr>ob_cancelled := p\<rparr>) = wireOk ob"
  "wireOk (ob\<lparr>ob_acceptedControl := xs\<rparr>) = wireOk ob" "wireOk (ob\<lparr>ob_acceptedData := xs\<rparr>) = wireOk ob"
  by (simp_all add: wireOk_def)

lemma wireOk_exit: "wireOk ob \<Longrightarrow> wireOk (ob\<lparr>ob_exit := Some e\<rparr>)"
  by (auto simp: wireOk_def)

lemma writeOutbound_wire:
  assumes "wireOk ob" "ob_exit ob = nil"
  shows "wireOk (writeOutbound m e k f ob)"
proof (cases "of_ctx f \<and> e \<noteq> nil")
  case True
  then show ?thesis using assms by (auto simp: writeOutbound_def wireOk_def delivered_def)
next
  case False
  let ?m = "if of_maximum f = 0 then m else of_maximum f"
  obtain w where w: "ob_wire ob = Some w" "w_out w = concat (map (\<lambda>d. d @ [newline_ch]) (delivered ob))"
    using assms by (auto simp: wireOk_def)
  obtain err wire where wf: "writeFrame (Some w) (of_data f) ?m = (err, wire)" by (metis surj_pair)
  have eff: "writeOutbound m e k f ob = ob\<lparr>ob_wire := wire, ob_exit := err, ob_taken := ob_taken ob @ [(k, f, err)]\<rparr>"
    using False w(1) wf by (auto simp: writeOutbound_def)
  have old: "\<forall>d \<in> set (delivered ob). d \<noteq> [] \<and> newline_ch \<notin> set d \<and> return_ch \<notin> set d" using assms by (simp add: wireOk_def)
  show ?thesis
  proof (cases err)
    case None
    have "delivered (writeOutbound m e k f ob) = delivered ob @ [of_data f]" using eff None by (simp add: delivered_def)
    moreover have "validateEnvelope (of_data f) ?m = nil" "\<exists>v. wire = Some v \<and> w_out v = w_out w @ of_data f @ [newline_ch]"
      using writeFrame_nil [of w "of_data f" ?m wire] wf None by simp_all
    ultimately show ?thesis using w old eff None by (auto simp: wireOk_def validateEnvelope_def)
  next
    case (Some x)
    have "delivered (writeOutbound m e k f ob) = delivered ob" using eff Some by (simp add: delivered_def)
    then show ?thesis using w old eff Some writeFrame_grows [OF wf] by (auto simp: wireOk_def)
  qed
qed

lemma outboundInv_step:
  assumes "outboundStep limits ob ob'" "outboundInv limits ob"
  shows "outboundInv limits ob'"
  using assms
proof (induction rule: outboundStep.induct)
  case (control taken frame ob err ob')
  then show ?case by (auto simp: enqueueControl_def outboundInv_def split: selected.splits if_splits)
next
  case (data frame ob err ob')
  then show ?case by (auto simp: enqueueData_def outboundInv_def split: if_splits)
next
  case (writes current ctxErr pick ob ob')
  note inv = writes(2)
  from writes(1) show ?case
  proof (cases rule: writeStep_cases)
    case (control f rest)
    then show ?thesis using inv by (auto simp: outboundInv_def intro!: writeOutbound_wire)
  next
    case (data f rest)
    then show ?thesis using inv by (auto simp: outboundInv_def intro!: writeOutbound_wire)
  qed (use inv in \<open>auto simp: outboundInv_def intro: wireOk_exit\<close>)
next
  case (cancel ob)
  then show ?case by (simp add: outboundInv_def)
qed

lemma outboundInv_reaches:
  assumes "outboundReaches limits (newOutbound \<lparr>w_out = [], w_replies = replies\<rparr>) ob"
  shows "outboundInv limits ob"
  using assms
proof induction
  case base
  show ?case by (simp add: outboundInv_def newOutbound_def wireOk_def takenFrom_def delivered_def)
qed (rule outboundInv_step)

text \<open>
  C5: Each outbound queue is first in, first out and loses nothing: what it accepted is what the writer
  took from it followed by what it still holds, and it never holds more than \<open>MaxOutboundQueue\<close> frames.
  Whatever pieces the connection delivers, a peer that reads the bytes on the wire reads exactly the
  frames whose writing succeeded, in the order they were taken.
\<close>

theorem outbound_delivery:
  assumes "outboundReaches limits (newOutbound \<lparr>w_out = [], w_replies = replies\<rparr>) ob"
  shows "ob_acceptedControl ob = takenFrom True ob @ ob_control ob \<and> ob_acceptedData ob = takenFrom False ob @ ob_data ob \<and>
    int (length (ob_control ob)) \<le> max 0 (MaxOutboundQueue limits) \<and> int (length (ob_data ob)) \<le> max 0 (MaxOutboundQueue limits) \<and>
    (\<exists>w. ob_wire ob = Some w \<and>
      (\<forall>b m. readerOk b \<and> readerText b = w_out w \<and> validateMaximumBytes m = nil \<and> (\<forall>d \<in> set (delivered ob). length d \<le> unat m) \<longrightarrow>
         fst (readFrames (length (delivered ob)) m (Some b)) = map Inr (delivered ob)))"
proof -
  have inv: "outboundInv limits ob" using outboundInv_reaches [OF assms] .
  then obtain w part where w: "ob_wire ob = Some w" "w_out w = concat (map (\<lambda>d. d @ [newline_ch]) (delivered ob)) @ part"
    and ok: "\<forall>d \<in> set (delivered ob). d \<noteq> [] \<and> newline_ch \<notin> set d \<and> return_ch \<notin> set d"
    by (auto simp: outboundInv_def wireOk_def)
  have "fst (readFrames (length (delivered ob)) m (Some b)) = map Inr (delivered ob)"
    if b: "readerOk b" "readerText b = w_out w" "validateMaximumBytes m = nil" "\<forall>d \<in> set (delivered ob). length d \<le> unat m" for b m
  proof -
    have "\<forall>d \<in> set (delivered ob). validateEnvelope d m = nil" using ok b(3,4) by (auto simp: validateEnvelope_def)
    then show ?thesis using readFrames_lines [OF b(1) _ _ b(3), of "delivered ob" part] b(2) w(2) by simp
  qed
  then show ?thesis using inv w(1) by (auto simp: outboundInv_def)
qed

lemma busy_step:
  assumes "outboundStep limits s t" "ob_control s \<noteq> []"
  shows "length (takenFrom False t) + (if ob_polling t then 0 else 1) \<le> length (takenFrom False s) + (if ob_polling s then 0 else 1)"
  using assms
proof (induction rule: outboundStep.induct)
  case (control taken frame ob err ob')
  then show ?case by (auto simp: enqueueControl_def split: selected.splits if_splits)
next
  case (data frame ob err ob')
  then show ?case by (auto simp: enqueueData_def split: if_splits)
next
  case (writes current ctxErr pick ob ob')
  from writes(1) show ?case by (cases rule: writeStep_cases) (use writes(2) in auto)
qed simp

text \<open>
  C6: Control frames overtake data: while the control queue is not empty, the writer takes at most one
  data frame, and none when it starts from its first \<open>select\<close>.
\<close>

theorem control_bypassed_once:
  assumes "(\<lambda>s t. outboundStep limits s t \<and> ob_control s \<noteq> [])\<^sup>*\<^sup>* ob ob'"
  shows "length (takenFrom False ob') \<le> length (takenFrom False ob) + (if ob_polling ob then 0 else 1)"
proof -
  have "length (takenFrom False ob') + (if ob_polling ob' then 0 else 1) \<le> length (takenFrom False ob) + (if ob_polling ob then 0 else 1)"
    using assms
  proof induction
    case (step s t)
    then show ?case using busy_step [of limits s t] by simp
  qed simp
  then show ?thesis by simp
qed

lemma exited_step:
  assumes "outboundStep limits s t" "ob_exit s = Some e"
  shows "ob_exit t = Some e \<and> ob_taken t = ob_taken s"
  using assms
  by (induction rule: outboundStep.induct)
    (auto simp: enqueueControl_def enqueueData_def writeStep_def split: selected.splits if_splits)


subsection \<open>A failing heartbeat\<close>

definition heartbeatFails :: outbound where
  "heartbeatFails =
     (snd (enqueueData TestLimits (plainFrame ''{}'') (newOutbound \<lparr>w_out = [], w_replies = [(0, Some (Sentinel ''EPIPE''))]\<rparr>)))
       \<lparr>ob_polling := False\<rparr>"

lemma object_validates: "validateObject ''{}'' = nil"
proof -
  have "json_decode ''{}'' = Some (JObj [])" "rawObject ''{}'' = Some []" "validateJSON ''{}'' = nil" by code_simp+
  then show ?thesis by (simp add: validateObject_def)
qed

lemma heartbeat_write:
  "writeStep 64 nil PickData heartbeatFails =
     Some (heartbeatFails\<lparr>ob_data := [], ob_polling := True, ob_wire := Some \<lparr>w_out = [], w_replies = []\<rparr>,
       ob_exit := Some (Sentinel ''EPIPE''), ob_taken := [(False, plainFrame ''{}'', Some (Sentinel ''EPIPE''))]\<rparr>)"
  using object_validates
  by (simp add: heartbeatFails_def newOutbound_def enqueueData_def writeStep_def writeOutbound_def plainFrame_def writeFrame_def
      validateEnvelope_def validateMaximumBytes_def writeAll.simps writer_Write_def TestLimits_def)


definition oneResponse :: outbound where
  "oneResponse =
     (newOutbound \<lparr>w_out = [], w_replies = []\<rparr>)\<lparr>ob_control := [plainFrame ''{}''], ob_acceptedControl := [plainFrame ''{}'']\<rparr>"

definition oneWritten :: outbound where
  "oneWritten = the (writeStep 64 nil PickControl oneResponse)"

lemma one_write: "writeStep 64 nil PickControl oneResponse = Some oneWritten" "delivered oneWritten = [''{}'']"
  "ob_wire oneWritten = Some \<lparr>w_out = ''{}'' @ [newline_ch], w_replies = []\<rparr>"
  using object_validates
  by (simp_all add: oneWritten_def oneResponse_def newOutbound_def writeStep_def writeOutbound_def plainFrame_def writeFrame_def
      validateEnvelope_def validateMaximumBytes_def writeAll.simps writer_Write_def delivered_def)

lemma one_reached: "outboundReaches TestLimits (newOutbound \<lparr>w_out = [], w_replies = []\<rparr>) oneWritten"
proof -
  have "enqueueControl TestLimits Send (plainFrame ''{}'') (newOutbound \<lparr>w_out = [], w_replies = []\<rparr>) = Some (nil, oneResponse)"
    by (simp add: enqueueControl_def newOutbound_def oneResponse_def TestLimits_def)
  then show ?thesis using outboundStep.control outboundStep.writes [OF one_write(1)]
    by (meson converse_rtranclp_into_rtranclp rtranclp.rtrancl_refl)
qed

theorem outbound_delivery_witness:
  "fst (readFrames 1 64 (Some (sampleReader 16 [''{'', [CHR ''}'', newline_ch]]))) = [Inr ''{}'']"
proof -
  let ?b = "sampleReader 16 [''{'', [CHR ''}'', newline_ch]]"
  have "readerOk ?b" "readerText ?b = ''{}'' @ [newline_ch]" by (simp_all add: readerOk_def readerText_def sampleReader_def)
  then show ?thesis using outbound_delivery [OF one_reached] by (simp add: one_write validateMaximumBytes_def)
qed

theorem control_bypassed_once_witness: "takenFrom False oneWritten = []"
proof -
  have "(\<lambda>s t. outboundStep TestLimits s t \<and> ob_control s \<noteq> [])\<^sup>*\<^sup>* oneResponse oneWritten"
    using outboundStep.writes [OF one_write(1)] by (intro r_into_rtranclp) (simp add: oneResponse_def)
  from control_bypassed_once [OF this] show ?thesis by (simp add: oneResponse_def newOutbound_def takenFrom_def)
qed

section \<open>The reading loop\<close>

text \<open>
  What the loop works on: the connection, its subscriptions, the reader, the requests whose context it
  has cancelled, and the errors it has answered.
\<close>

record readState =
  rl_connection :: connection
  rl_subscriptions :: serverConnection
  rl_reader :: "bufReader option"
  rl_cancelled :: "string list"
  rl_answers :: "(string \<times> go_error) list"

text \<open>
  The choices of one iteration: the decoded parameter of each notification, the result of \<open>sendError\<close>,
  which ready case the \<open>select\<close> takes, and the error of the context of the connection.
\<close>

record readEnv =
  re_cancel :: "go_error + string"
  re_heartbeat :: verr
  re_credit :: "go_error + TerminalCredit"
  re_sendError :: verr
  re_preferDone :: bool
  re_ctxErr :: go_error

abbreviation NotificationCancel :: string where "NotificationCancel \<equiv> ''$mc/cancel''"
abbreviation NotificationHeartbeat :: string where "NotificationHeartbeat \<equiv> ''$mc/heartbeat''"
abbreviation NotificationTerminalCredit :: string where "NotificationTerminalCredit \<equiv> ''$mc/terminal.credit''"

definition handleNotification :: "ServerConfig \<Rightarrow> readEnv \<Rightarrow> string \<Rightarrow> readState \<Rightarrow> verr \<times> readState" where
  "handleNotification cfg env name st =
     (if name = NotificationCancel then
        (case re_cancel env of
           Inl e \<Rightarrow> (Some e, st)
         | Inr rid \<Rightarrow>
             (nil, if rid \<in> set (cn_active (rl_connection st)) then st\<lparr>rl_cancelled := rid # rl_cancelled st\<rparr> else st))
      else if name = NotificationHeartbeat then (re_heartbeat env, st)
      else if name = NotificationTerminalCredit then
        (case re_credit env of
           Inl e \<Rightarrow> (Some e, st)
         | Inr credit \<Rightarrow>
             (case applyTerminalCredit (rl_subscriptions st) credit of
                (err, subs) \<Rightarrow> (err, st\<lparr>rl_subscriptions := subs\<rparr>)))
      else (Some (notSupported name (manifestCapabilities (cfg_Manifest cfg))), st))"

definition answerError :: "readEnv \<Rightarrow> string \<Rightarrow> go_error \<Rightarrow> readState \<Rightarrow> verr \<times> readState" where
  "answerError env rid e st =
     (case re_sendError env of
        Some sendErr \<Rightarrow> (Some sendErr, st)
      | None \<Rightarrow> (nil, st\<lparr>rl_answers := rl_answers st @ [(rid, e)]\<rparr>))"

text \<open>
  One iteration: the error that ends the loop, or nil to go on. While the frame is read the other
  goroutines change the state by \<open>meanwhile\<close>.
\<close>

definition readIteration ::
  "Limits \<Rightarrow> ServerConfig \<Rightarrow> readEnv \<Rightarrow> (readState \<Rightarrow> readState) \<Rightarrow> readState \<Rightarrow> verr \<times> readState" where
  "readIteration limits cfg env meanwhile st =
     (case readFrame (rl_reader st) (cn_maximum (rl_connection st)) of
        (Inl e, reader) \<Rightarrow> (Some e, meanwhile (st\<lparr>rl_reader := reader\<rparr>))
      | (Inr frame, reader) \<Rightarrow>
          (let st = meanwhile (st\<lparr>rl_reader := reader\<rparr>) in
           case decodeRPCRequest frame (cn_maximum (rl_connection st)) of
             Inl e \<Rightarrow> (Some e, st)
           | Inr request \<Rightarrow>
               if isNotification request then handleNotification cfg env (rq_Method request) st
               else (case admitRequest limits (rl_connection st) (rq_ID request) (re_preferDone env) of
                       (Spawned, c) \<Rightarrow> (nil, st\<lparr>rl_connection := c\<rparr>)
                     | (Answered e, c) \<Rightarrow> answerError env (rq_ID request) e (st\<lparr>rl_connection := c\<rparr>)
                     | (Stopped, c) \<Rightarrow> (Some (re_ctxErr env), st\<lparr>rl_connection := c\<rparr>))))"

text \<open>The loop, with fuel; \<open>others n\<close> is what the other goroutines do during iteration \<open>n\<close>.\<close>

fun readLoop ::
  "Limits \<Rightarrow> ServerConfig \<Rightarrow> (nat \<Rightarrow> readEnv) \<Rightarrow> (nat \<Rightarrow> readState \<Rightarrow> readState) \<Rightarrow> nat \<Rightarrow> nat \<Rightarrow> readState \<Rightarrow>
     (go_error \<times> readState) option" where
  "readLoop limits cfg env others 0 n st = None"
| "readLoop limits cfg env others (Suc fuel) n st =
     (case readIteration limits cfg (env n) (others n) st of
        (Some e, st') \<Rightarrow> Some (e, st')
      | (None, st') \<Rightarrow> readLoop limits cfg env others fuel (Suc n) st')"

lemma readFrame_consumes:
  assumes "readerOk b" "readFrame (Some b) m = (Inr data, reader)"
  shows "\<exists>b'. reader = Some b' \<and> readerOk b' \<and> length (readerText b') < length (readerText b)"
proof (cases "validateMaximumBytes m = nil")
  case True
  then show ?thesis using readFrame_some(2) [OF assms(1) True, of data] assms(2) by auto
next
  case False
  then show ?thesis using assms(2) by (auto simp: readFrame_def)
qed

lemma handleNotification_reader: "rl_reader (snd (handleNotification cfg env name st)) = rl_reader st"
  by (auto simp: handleNotification_def split: sum.split prod.split)

lemma readIteration_consumes:
  assumes "rl_reader st = Some b" "readerOk b" "\<forall>s. rl_reader (meanwhile s) = rl_reader s"
    "readIteration limits cfg env meanwhile st = (nil, st')"
  shows "\<exists>b'. rl_reader st' = Some b' \<and> readerOk b' \<and> length (readerText b') < length (readerText b)"
proof -
  obtain out reader where r: "readFrame (Some b) (cn_maximum (rl_connection st)) = (out, reader)" by (metis surj_pair)
  then obtain data where data: "out = Inr data" using assms by (cases out) (auto simp: readIteration_def)
  let ?st = "meanwhile (st\<lparr>rl_reader := reader\<rparr>)"
  have "rl_reader ?st = reader" using assms(3) by simp
  then have "rl_reader st' = reader"
    using assms(1,4) r data handleNotification_reader [of cfg env _ ?st]
    by (auto simp: readIteration_def Let_def answerError_def split: sum.splits if_splits prod.splits admitted.splits option.splits)
      (metis snd_conv)
  then show ?thesis using readFrame_consumes [OF assms(2)] r data by simp
qed


definition sampleReadEnv :: readEnv where
  "sampleReadEnv =
     \<lparr>re_cancel = Inr ''r-1'', re_heartbeat = nil, re_credit = Inl (newError CodeInvalidArgument), re_sendError = nil,
      re_preferDone = False, re_ctxErr = Sentinel context_Canceled\<rparr>"

definition sampleReadState :: "string list \<Rightarrow> readState" where
  "sampleReadState pieces =
     \<lparr>rl_connection = openConnection TestLimits, rl_subscriptions = newConnection 4 False 1024,
      rl_reader = Some (sampleReader 16 pieces), rl_cancelled = [], rl_answers = []\<rparr>"


section \<open>Shutting down\<close>

text \<open>The active requests whose contexts \<open>serve\<close> cancels when the connection ends.\<close>

definition cancelActive :: "readState \<Rightarrow> readState" where
  "cancelActive st = st\<lparr>rl_cancelled := cn_active (rl_connection st) @ rl_cancelled st\<rparr>"

text \<open>
  What \<open>serve\<close> returns, as the list that \<open>errors.Join\<close> keeps: the error of the reader, of the writer,
  and of the wait for the requests. The writer is not waited for when the requests did not drain in time.
\<close>

definition serveErrors :: "verr \<Rightarrow> verr \<Rightarrow> bool \<Rightarrow> go_error list" where
  "serveErrors readErr writeErr drained =
     (let hides = (\<lambda>names err. case err of None \<Rightarrow> [] | Some e \<Rightarrow> if \<exists>n \<in> set names. errors_Is e n then [] else [e])
      in hides [io_EOF, context_Canceled, ''io: read/write on closed pipe''] readErr @
         (if drained then hides [context_Canceled, ''io: read/write on closed pipe''] writeErr else []) @
         (if drained then [] else [newError CodeDeadlineExceeded]))"

end
