(* ===== verification/Provider_Handlers.thy ===== *)
theory Provider_Handlers
  imports Server_Requests Proto_Runtime
begin

text \<open>
  The handlers of a provider, \<open>provider/handler.go\<close>, the metadata of a mutation, \<open>provider/provider.go\<close>, and
  the construction of a server from them, \<open>NewServer\<close> of \<open>provider/server.go\<close>. The Go types of requests and
  results are the type \<open>'v\<close>: a handler carries the closed decoding of its request, the function itself,
  the \<open>Validate\<close> of its result and which results have their extensions checked.
\<close>

section \<open>The metadata of a mutation\<close>

record commandMeta =
  cm_Command :: Command
  cm_CommandDigest :: string
  cm_RawCommand :: string

text \<open>The decoding of a command by \<open>protocol.Decode\<close> is the parameter \<open>decodeCommand\<close>.\<close>

definition Meta_Validate :: "(string \<Rightarrow> string) \<Rightarrow> (string \<Rightarrow> go_error + Command) \<Rightarrow> commandMeta \<Rightarrow> verr" where
  "Meta_Validate sha256 decodeCommand m =
     (case wrapf ''mutation command is invalid'' (Command_Validate (cm_Command m)) of
        Some e \<Rightarrow> Some e
      | None \<Rightarrow>
          if cm_RawCommand m = [] then errorf ''raw mutation command is required''
          else (case CommandDigest sha256 (cm_RawCommand m) of
                  Inl e \<Rightarrow> wrapf ''raw mutation command is invalid'' (Some e)
                | Inr digest \<Rightarrow>
                    if cm_CommandDigest m \<noteq> digest then errorf ''mutation command digest does not match its raw envelope''
                    else (case decodeCommand (cm_RawCommand m) of
                            Inl e \<Rightarrow> wrapf ''raw mutation command is invalid'' (Some e)
                          | Inr decoded \<Rightarrow>
                              if decoded \<noteq> cm_Command m then errorf ''mutation command does not match its raw envelope'' else nil)))"

definition newMutationMeta :: "(string \<Rightarrow> string) \<Rightarrow> (string \<Rightarrow> go_error + Command) \<Rightarrow> Command \<Rightarrow> string \<Rightarrow> go_error + commandMeta" where
  "newMutationMeta sha256 decodeCommand command rawCommand =
     (case CommandDigest sha256 rawCommand of
        Inl e \<Rightarrow> Inl e
      | Inr digest \<Rightarrow>
          (let m = \<lparr>cm_Command = command, cm_CommandDigest = digest, cm_RawCommand = rawCommand\<rparr>
           in case Meta_Validate sha256 decodeCommand m of Some e \<Rightarrow> Inl e | None \<Rightarrow> Inr m))"

definition samePayload :: "string \<Rightarrow> string \<Rightarrow> bool" where
  "samePayload left right =
     (case (json_Compact left, json_Compact right) of (Some a, Some b) \<Rightarrow> a = b | _ \<Rightarrow> False)"

text \<open>What the ledger sees of the metadata.\<close>

definition ledgerMeta :: "commandMeta \<Rightarrow> MutationMeta" where
  "ledgerMeta m =
     \<lparr>mm_Capability = c_Capability (cm_Command m), mm_CommandID = c_CommandID (cm_Command m),
      mm_IdempotencyKey = c_IdempotencyKey (cm_Command m), mm_CommandDigest = cm_CommandDigest m\<rparr>"

section \<open>Extension values\<close>

definition extensionReservedKeys :: "string list" where
  "extensionReservedKeys =
     [''tenant_id'', ''project_id'', ''initiative_id'', ''work_item_id'',
      ''gateway_id'', ''session_id'', ''canonical_session_id'',
      ''correlation_id'', ''causation_id'', ''sensitivity'', ''authority'',
      ''verification_tier'', ''tier'', ''verified'', ''artifact_id'',
      ''creator_type'', ''creator_id'', ''review_state'', ''classification'',
      ''approval_id'', ''approved'', ''decision_revision'']"

function extensionLoop :: "json list \<Rightarrow> verr" where
  "extensionLoop [] = nil"
| "extensionLoop (v # stack) =
     (case v of
        JObj ms \<Rightarrow>
          if \<exists>m \<in> set ms. fst m \<in> set extensionReservedKeys then Some (newError CodePermissionDenied)
          else extensionLoop (rev (map snd ms) @ stack)
      | JArr vs \<Rightarrow> extensionLoop (rev vs @ stack)
      | _ \<Rightarrow> extensionLoop stack)"
  by pat_completeness auto

lemma size_members: "sum_list (map (Suc \<circ> size) (map snd ms)) \<le> size_list (size_prod (\<lambda>x. 0) size) ms"
  using sum_list_size_members [of ms] by (simp add: comp_def)

lemma size_elems: "sum_list (map (Suc \<circ> size) vs) \<le> size_list size vs"
  using sum_list_size_elems [of vs] by (simp add: comp_def)

termination extensionLoop
  by (relation "measure (\<lambda>stack. sum_list (map (Suc \<circ> size) stack))")
    (auto simp: rev_map [symmetric] less_Suc_eq_le intro: order_trans [OF size_members [unfolded map_map]] order_trans [OF size_elems])

declare extensionLoop.simps(2) [simp del]

definition validateExtensionAuthority :: "string \<Rightarrow> verr" where
  "validateExtensionAuthority raw =
     (case Decode unmarshalAny (\<lambda>_. nil) raw DOther of Inl e \<Rightarrow> Some e | Inr d \<Rightarrow> extensionLoop [d_rest d])"

definition validateExtensionValue :: "string \<Rightarrow> verr" where
  "validateExtensionValue raw = (case validateJSON raw of Some e \<Rightarrow> Some e | None \<Rightarrow> validateExtensionAuthority raw)"

definition validateExtensionMapAuthority :: "extensions \<Rightarrow> verr" where
  "validateExtensionMapAuthority exts = each_err (\<lambda>(_, value). validateExtensionAuthority value) exts"

text \<open>The results whose extensions are checked; a pointer is its target, and a nil pointer is \<open>PlainResult\<close>.\<close>

datatype guardedResult =
    SessionResult RuntimeSession
  | SessionListResult "RuntimeSession list"
  | WorkspaceResult Workspace
  | WorkspacesResult "Workspace list"
  | PlainResult

definition validateRuntimeWorkspaceExtensions :: "guardedResult \<Rightarrow> verr" where
  "validateRuntimeWorkspaceExtensions result =
     (case result of
        SessionResult s \<Rightarrow> validateExtensionMapAuthority (rt_Extensions s)
      | SessionListResult ss \<Rightarrow> each_err (\<lambda>s. validateExtensionMapAuthority (rt_Extensions s)) ss
      | WorkspaceResult w \<Rightarrow> validateExtensionMapAuthority (ws_Extensions w)
      | WorkspacesResult ws \<Rightarrow> each_err (\<lambda>w. validateExtensionMapAuthority (ws_Extensions w)) ws
      | PlainResult \<Rightarrow> nil)"

definition validateResult :: "verr \<Rightarrow> guardedResult \<Rightarrow> verr" where
  "validateResult validated guarded =
     (case validated of Some e \<Rightarrow> Some e | None \<Rightarrow> validateRuntimeWorkspaceExtensions guarded)"

section \<open>The set of handlers\<close>

definition decodeClosed ::
  "(bool \<Rightarrow> string \<Rightarrow> 'a document option) \<Rightarrow> ('a document \<Rightarrow> verr) \<Rightarrow> doc_kind \<Rightarrow> string \<Rightarrow> go_error + 'a document" where
  "decodeClosed unmarshal validate dst raw =
     (if decodeJSON unmarshal raw True = None then Inl (newError CodeInvalidArgument) else Decode unmarshal validate raw dst)"

record 'v QueryFunc =
  q_decode :: "string \<Rightarrow> go_error + 'v"
  q_run :: "'v \<Rightarrow> go_error + 'v"
  q_validate :: "'v \<Rightarrow> verr"
  q_guarded :: "'v \<Rightarrow> guardedResult"

record 'v MutationFunc =
  m_decode :: "string \<Rightarrow> go_error + 'v"
  m_run :: "commandMeta \<Rightarrow> 'v \<Rightarrow> go_error + 'v"
  m_validate :: "'v \<Rightarrow> verr"
  m_guarded :: "'v \<Rightarrow> guardedResult"

record ExtensionHandlers =
  xh_Query :: "(string \<Rightarrow> go_error + string) option"
  xh_Mutation :: "(commandMeta \<Rightarrow> string \<Rightarrow> go_error + string) option"

record 'v EventHandlers =
  eh_Subscribe :: "'v QueryFunc option"
  eh_Unsubscribe :: "'v MutationFunc option"

record 'v CommandHandlers =
  ch_GetResult :: "'v QueryFunc option"

record 'v ProviderHandlers =
  ph_Initialize :: "'v QueryFunc option"
  ph_Health :: "'v QueryFunc option"
  ph_Capabilities :: "'v QueryFunc option"
  ph_Shutdown :: "'v MutationFunc option"
  ph_Events :: "'v EventHandlers"
  ph_Commands :: "'v CommandHandlers"

record 'v EnvironmentHandlers =
  nh_Inspect :: "'v QueryFunc option"
  nh_Health :: "'v QueryFunc option"
  nh_Provision :: "'v MutationFunc option"
  nh_Mount :: "'v MutationFunc option"
  nh_Shutdown :: "'v MutationFunc option"

record 'v RuntimeSessionHandlers =
  rsh_List :: "'v QueryFunc option"
  rsh_Get :: "'v QueryFunc option"
  rsh_Create :: "'v MutationFunc option"
  rsh_Stop :: "'v MutationFunc option"
  rsh_Terminate :: "'v MutationFunc option"
  rsh_Attach :: "'v MutationFunc option"
  rsh_Detach :: "'v MutationFunc option"
  rsh_Snapshot :: "'v QueryFunc option"
  rsh_Checkpoint :: "'v MutationFunc option"
  rsh_Restore :: "'v MutationFunc option"
  rsh_Adopt :: "'v MutationFunc option"
  rsh_Resume :: "'v MutationFunc option"
  rsh_Clone :: "'v MutationFunc option"
  rsh_Fork :: "'v MutationFunc option"
  rsh_Migrate :: "'v MutationFunc option"
  rsh_Export :: "'v MutationFunc option"
  rsh_Import :: "'v MutationFunc option"
  rsh_Archive :: "'v MutationFunc option"

record 'v TerminalHandlers =
  th_Read :: "'v QueryFunc option"
  th_Subscribe :: "'v QueryFunc option"
  th_SendInput :: "'v MutationFunc option"
  th_SendKeys :: "'v MutationFunc option"
  th_Resize :: "'v MutationFunc option"
  th_Attach :: "'v MutationFunc option"
  th_Detach :: "'v MutationFunc option"

record 'v WorkspaceHandlers =
  wh_List :: "'v QueryFunc option"
  wh_Get :: "'v QueryFunc option"
  wh_Create :: "'v MutationFunc option"
  wh_Close :: "'v MutationFunc option"

record 'v TopologyHandlers =
  toh_Get :: "'v QueryFunc option"
  toh_Subscribe :: "'v QueryFunc option"

record 'v PaneHandlers =
  pah_List :: "'v QueryFunc option"
  pah_Get :: "'v QueryFunc option"
  pah_Create :: "'v MutationFunc option"
  pah_Split :: "'v MutationFunc option"
  pah_Focus :: "'v MutationFunc option"
  pah_Resize :: "'v MutationFunc option"
  pah_Close :: "'v MutationFunc option"

record 'v RuntimeHandlers =
  rh_Sessions :: "'v RuntimeSessionHandlers"
  rh_Terminal :: "'v TerminalHandlers"
  rh_Workspaces :: "'v WorkspaceHandlers"
  rh_Topology :: "'v TopologyHandlers"
  rh_Panes :: "'v PaneHandlers"

record 'v HarnessSessionHandlers =
  hsh_List :: "'v QueryFunc option"
  hsh_Inspect :: "'v QueryFunc option"
  hsh_Launch :: "'v MutationFunc option"
  hsh_Resume :: "'v MutationFunc option"
  hsh_Stop :: "'v MutationFunc option"

record 'v AgentHandlers =
  ah_SendMessage :: "'v MutationFunc option"
  ah_Interrupt :: "'v MutationFunc option"
  ah_Cancel :: "'v MutationFunc option"
  ah_GetState :: "'v QueryFunc option"
  ah_GetUsage :: "'v QueryFunc option"
  ah_GetPendingApprovals :: "'v QueryFunc option"
  ah_GetTools :: "'v QueryFunc option"
  ah_GetNativeIdentity :: "'v QueryFunc option"

record 'v ContextHandlers =
  cxh_Deliver :: "'v MutationFunc option"
  cxh_Confirm :: "'v QueryFunc option"

record 'v ApprovalHandlers =
  aph_List :: "'v QueryFunc option"
  aph_Approve :: "'v MutationFunc option"
  aph_Reject :: "'v MutationFunc option"
  aph_Expire :: "'v MutationFunc option"

record 'v ArtifactHandlers =
  arh_List :: "'v QueryFunc option"
  arh_Register :: "'v MutationFunc option"

record 'v HarnessHandlers =
  hh_Sessions :: "'v HarnessSessionHandlers"
  hh_Agent :: "'v AgentHandlers"
  hh_Context :: "'v ContextHandlers"
  hh_Approvals :: "'v ApprovalHandlers"
  hh_Artifacts :: "'v ArtifactHandlers"

record 'v HandlerSet =
  hs_Provider :: "'v ProviderHandlers"
  hs_Environment :: "'v EnvironmentHandlers"
  hs_Runtime :: "'v RuntimeHandlers"
  hs_Harness :: "'v HarnessHandlers"
  hs_Extensions :: "(string \<times> ExtensionHandlers) list"

section \<open>Which capabilities have a handler\<close>

definition supportsTable :: "'v HandlerSet \<Rightarrow> (string \<times> bool) list" where
  "supportsTable h =
     [(''provider.health'', ph_Health (hs_Provider h) \<noteq> None),
      (''provider.shutdown'', ph_Shutdown (hs_Provider h) \<noteq> None),
      (''events.subscribe'', eh_Subscribe (ph_Events (hs_Provider h)) \<noteq> None),
      (''events.unsubscribe'', eh_Unsubscribe (ph_Events (hs_Provider h)) \<noteq> None),
      (''environment.inspect'', nh_Inspect (hs_Environment h) \<noteq> None),
      (''environment.health'', nh_Health (hs_Environment h) \<noteq> None),
      (''environment.provision'', nh_Provision (hs_Environment h) \<noteq> None),
      (''environment.mount'', nh_Mount (hs_Environment h) \<noteq> None),
      (''environment.shutdown'', nh_Shutdown (hs_Environment h) \<noteq> None),
      (''runtime.list_sessions'', rsh_List (rh_Sessions (hs_Runtime h)) \<noteq> None),
      (''runtime.get_session'', rsh_Get (rh_Sessions (hs_Runtime h)) \<noteq> None),
      (''runtime.create_session'', rsh_Create (rh_Sessions (hs_Runtime h)) \<noteq> None),
      (''runtime.stop_session'', rsh_Stop (rh_Sessions (hs_Runtime h)) \<noteq> None),
      (''runtime.terminate_session'', rsh_Terminate (rh_Sessions (hs_Runtime h)) \<noteq> None),
      (''runtime.attach'', rsh_Attach (rh_Sessions (hs_Runtime h)) \<noteq> None),
      (''runtime.detach'', rsh_Detach (rh_Sessions (hs_Runtime h)) \<noteq> None),
      (''runtime.snapshot'', rsh_Snapshot (rh_Sessions (hs_Runtime h)) \<noteq> None),
      (''runtime.checkpoint'', rsh_Checkpoint (rh_Sessions (hs_Runtime h)) \<noteq> None),
      (''runtime.restore'', rsh_Restore (rh_Sessions (hs_Runtime h)) \<noteq> None),
      (''runtime.adopt'', rsh_Adopt (rh_Sessions (hs_Runtime h)) \<noteq> None),
      (''runtime.resume'', rsh_Resume (rh_Sessions (hs_Runtime h)) \<noteq> None),
      (''runtime.clone'', rsh_Clone (rh_Sessions (hs_Runtime h)) \<noteq> None),
      (''runtime.fork'', rsh_Fork (rh_Sessions (hs_Runtime h)) \<noteq> None),
      (''runtime.migrate'', rsh_Migrate (rh_Sessions (hs_Runtime h)) \<noteq> None),
      (''runtime.export'', rsh_Export (rh_Sessions (hs_Runtime h)) \<noteq> None),
      (''runtime.import'', rsh_Import (rh_Sessions (hs_Runtime h)) \<noteq> None),
      (''runtime.archive'', rsh_Archive (rh_Sessions (hs_Runtime h)) \<noteq> None),
      (''terminal.read'', th_Read (rh_Terminal (hs_Runtime h)) \<noteq> None),
      (''terminal.subscribe'', th_Subscribe (rh_Terminal (hs_Runtime h)) \<noteq> None),
      (''terminal.send_input'', th_SendInput (rh_Terminal (hs_Runtime h)) \<noteq> None),
      (''terminal.send_keys'', th_SendKeys (rh_Terminal (hs_Runtime h)) \<noteq> None),
      (''terminal.resize'', th_Resize (rh_Terminal (hs_Runtime h)) \<noteq> None),
      (''terminal.attach'', th_Attach (rh_Terminal (hs_Runtime h)) \<noteq> None),
      (''terminal.detach'', th_Detach (rh_Terminal (hs_Runtime h)) \<noteq> None),
      (''workspace.list'', wh_List (rh_Workspaces (hs_Runtime h)) \<noteq> None),
      (''workspace.get'', wh_Get (rh_Workspaces (hs_Runtime h)) \<noteq> None),
      (''workspace.create'', wh_Create (rh_Workspaces (hs_Runtime h)) \<noteq> None),
      (''workspace.close'', wh_Close (rh_Workspaces (hs_Runtime h)) \<noteq> None),
      (''topology.get'', toh_Get (rh_Topology (hs_Runtime h)) \<noteq> None),
      (''topology.subscribe'', toh_Subscribe (rh_Topology (hs_Runtime h)) \<noteq> None),
      (''pane.list'', pah_List (rh_Panes (hs_Runtime h)) \<noteq> None),
      (''pane.get'', pah_Get (rh_Panes (hs_Runtime h)) \<noteq> None),
      (''pane.create'', pah_Create (rh_Panes (hs_Runtime h)) \<noteq> None),
      (''pane.split'', pah_Split (rh_Panes (hs_Runtime h)) \<noteq> None),
      (''pane.focus'', pah_Focus (rh_Panes (hs_Runtime h)) \<noteq> None),
      (''pane.resize'', pah_Resize (rh_Panes (hs_Runtime h)) \<noteq> None),
      (''pane.close'', pah_Close (rh_Panes (hs_Runtime h)) \<noteq> None),
      (''harness.list'', hsh_List (hh_Sessions (hs_Harness h)) \<noteq> None),
      (''harness.inspect'', hsh_Inspect (hh_Sessions (hs_Harness h)) \<noteq> None),
      (''harness.launch'', hsh_Launch (hh_Sessions (hs_Harness h)) \<noteq> None),
      (''harness.resume'', hsh_Resume (hh_Sessions (hs_Harness h)) \<noteq> None),
      (''harness.stop'', hsh_Stop (hh_Sessions (hs_Harness h)) \<noteq> None),
      (''agent.send_message'', ah_SendMessage (hh_Agent (hs_Harness h)) \<noteq> None),
      (''agent.interrupt'', ah_Interrupt (hh_Agent (hs_Harness h)) \<noteq> None),
      (''agent.cancel'', ah_Cancel (hh_Agent (hs_Harness h)) \<noteq> None),
      (''agent.get_state'', ah_GetState (hh_Agent (hs_Harness h)) \<noteq> None),
      (''agent.get_usage'', ah_GetUsage (hh_Agent (hs_Harness h)) \<noteq> None),
      (''agent.get_pending_approvals'', ah_GetPendingApprovals (hh_Agent (hs_Harness h)) \<noteq> None),
      (''agent.get_tools'', ah_GetTools (hh_Agent (hs_Harness h)) \<noteq> None),
      (''agent.get_native_identity'', ah_GetNativeIdentity (hh_Agent (hs_Harness h)) \<noteq> None),
      (''context.deliver'', cxh_Deliver (hh_Context (hs_Harness h)) \<noteq> None),
      (''context.confirm'', cxh_Confirm (hh_Context (hs_Harness h)) \<noteq> None),
      (''approval.list'', aph_List (hh_Approvals (hs_Harness h)) \<noteq> None),
      (''approval.approve'', aph_Approve (hh_Approvals (hs_Harness h)) \<noteq> None),
      (''approval.reject'', aph_Reject (hh_Approvals (hs_Harness h)) \<noteq> None),
      (''approval.expire'', aph_Expire (hh_Approvals (hs_Harness h)) \<noteq> None),
      (''artifact.list'', arh_List (hh_Artifacts (hs_Harness h)) \<noteq> None),
      (''artifact.register'', arh_Register (hh_Artifacts (hs_Harness h)) \<noteq> None)]"

definition supports :: "'v HandlerSet \<Rightarrow> string \<Rightarrow> bool" where
  "supports h capability =
     (if capability \<in> {''provider.initialize'', ''provider.capabilities'', ''command.get_result''} then True
      else case map_of (supportsTable h) capability of
        Some populated \<Rightarrow> populated
      | None \<Rightarrow>
          (case map_of (hs_Extensions h) capability of
             None \<Rightarrow> False
           | Some extension \<Rightarrow>
               if Capability capability \<noteq> None then False else xh_Query extension \<noteq> None \<or> xh_Mutation extension \<noteq> None))"

definition populated :: "'v HandlerSet \<Rightarrow> string \<Rightarrow> bool" where
  "populated h capability =
     (if capability = ''provider.initialize'' then ph_Initialize (hs_Provider h) \<noteq> None
      else if capability = ''provider.capabilities'' then ph_Capabilities (hs_Provider h) \<noteq> None
      else if capability = ''command.get_result'' then ch_GetResult (ph_Commands (hs_Provider h)) \<noteq> None
      else supports h capability)"

definition advertisedHandlers :: "'v HandlerSet \<Rightarrow> string list" where
  "advertisedHandlers h =
     sort (filter (populated h) (map cap_Name KnownCapabilities) @
       map fst (filter (\<lambda>(_, x). xh_Query x \<noteq> None \<or> xh_Mutation x \<noteq> None) (hs_Extensions h)))"

section \<open>Dispatch\<close>

datatype 'v entry = QueryEntry "'v QueryFunc option" | MutationEntry "'v MutationFunc option"

definition dispatchTable :: "'v HandlerSet \<Rightarrow> (string \<times> 'v entry) list" where
  "dispatchTable h =
     [(''provider.initialize'', QueryEntry (ph_Initialize (hs_Provider h))),
      (''provider.health'', QueryEntry (ph_Health (hs_Provider h))),
      (''provider.capabilities'', QueryEntry (ph_Capabilities (hs_Provider h))),
      (''provider.shutdown'', MutationEntry (ph_Shutdown (hs_Provider h))),
      (''events.subscribe'', QueryEntry (eh_Subscribe (ph_Events (hs_Provider h)))),
      (''events.unsubscribe'', MutationEntry (eh_Unsubscribe (ph_Events (hs_Provider h)))),
      (''command.get_result'', QueryEntry (ch_GetResult (ph_Commands (hs_Provider h)))),
      (''environment.inspect'', QueryEntry (nh_Inspect (hs_Environment h))),
      (''environment.health'', QueryEntry (nh_Health (hs_Environment h))),
      (''environment.provision'', MutationEntry (nh_Provision (hs_Environment h))),
      (''environment.mount'', MutationEntry (nh_Mount (hs_Environment h))),
      (''environment.shutdown'', MutationEntry (nh_Shutdown (hs_Environment h))),
      (''runtime.list_sessions'', QueryEntry (rsh_List (rh_Sessions (hs_Runtime h)))),
      (''runtime.get_session'', QueryEntry (rsh_Get (rh_Sessions (hs_Runtime h)))),
      (''runtime.create_session'', MutationEntry (rsh_Create (rh_Sessions (hs_Runtime h)))),
      (''runtime.stop_session'', MutationEntry (rsh_Stop (rh_Sessions (hs_Runtime h)))),
      (''runtime.terminate_session'', MutationEntry (rsh_Terminate (rh_Sessions (hs_Runtime h)))),
      (''runtime.attach'', MutationEntry (rsh_Attach (rh_Sessions (hs_Runtime h)))),
      (''runtime.detach'', MutationEntry (rsh_Detach (rh_Sessions (hs_Runtime h)))),
      (''runtime.snapshot'', QueryEntry (rsh_Snapshot (rh_Sessions (hs_Runtime h)))),
      (''runtime.checkpoint'', MutationEntry (rsh_Checkpoint (rh_Sessions (hs_Runtime h)))),
      (''runtime.restore'', MutationEntry (rsh_Restore (rh_Sessions (hs_Runtime h)))),
      (''runtime.adopt'', MutationEntry (rsh_Adopt (rh_Sessions (hs_Runtime h)))),
      (''runtime.resume'', MutationEntry (rsh_Resume (rh_Sessions (hs_Runtime h)))),
      (''runtime.clone'', MutationEntry (rsh_Clone (rh_Sessions (hs_Runtime h)))),
      (''runtime.fork'', MutationEntry (rsh_Fork (rh_Sessions (hs_Runtime h)))),
      (''runtime.migrate'', MutationEntry (rsh_Migrate (rh_Sessions (hs_Runtime h)))),
      (''runtime.export'', MutationEntry (rsh_Export (rh_Sessions (hs_Runtime h)))),
      (''runtime.import'', MutationEntry (rsh_Import (rh_Sessions (hs_Runtime h)))),
      (''runtime.archive'', MutationEntry (rsh_Archive (rh_Sessions (hs_Runtime h)))),
      (''terminal.read'', QueryEntry (th_Read (rh_Terminal (hs_Runtime h)))),
      (''terminal.subscribe'', QueryEntry (th_Subscribe (rh_Terminal (hs_Runtime h)))),
      (''terminal.send_input'', MutationEntry (th_SendInput (rh_Terminal (hs_Runtime h)))),
      (''terminal.send_keys'', MutationEntry (th_SendKeys (rh_Terminal (hs_Runtime h)))),
      (''terminal.resize'', MutationEntry (th_Resize (rh_Terminal (hs_Runtime h)))),
      (''terminal.attach'', MutationEntry (th_Attach (rh_Terminal (hs_Runtime h)))),
      (''terminal.detach'', MutationEntry (th_Detach (rh_Terminal (hs_Runtime h)))),
      (''workspace.list'', QueryEntry (wh_List (rh_Workspaces (hs_Runtime h)))),
      (''workspace.get'', QueryEntry (wh_Get (rh_Workspaces (hs_Runtime h)))),
      (''workspace.create'', MutationEntry (wh_Create (rh_Workspaces (hs_Runtime h)))),
      (''workspace.close'', MutationEntry (wh_Close (rh_Workspaces (hs_Runtime h)))),
      (''topology.get'', QueryEntry (toh_Get (rh_Topology (hs_Runtime h)))),
      (''topology.subscribe'', QueryEntry (toh_Subscribe (rh_Topology (hs_Runtime h)))),
      (''pane.list'', QueryEntry (pah_List (rh_Panes (hs_Runtime h)))),
      (''pane.get'', QueryEntry (pah_Get (rh_Panes (hs_Runtime h)))),
      (''pane.create'', MutationEntry (pah_Create (rh_Panes (hs_Runtime h)))),
      (''pane.split'', MutationEntry (pah_Split (rh_Panes (hs_Runtime h)))),
      (''pane.focus'', MutationEntry (pah_Focus (rh_Panes (hs_Runtime h)))),
      (''pane.resize'', MutationEntry (pah_Resize (rh_Panes (hs_Runtime h)))),
      (''pane.close'', MutationEntry (pah_Close (rh_Panes (hs_Runtime h)))),
      (''harness.list'', QueryEntry (hsh_List (hh_Sessions (hs_Harness h)))),
      (''harness.inspect'', QueryEntry (hsh_Inspect (hh_Sessions (hs_Harness h)))),
      (''harness.launch'', MutationEntry (hsh_Launch (hh_Sessions (hs_Harness h)))),
      (''harness.resume'', MutationEntry (hsh_Resume (hh_Sessions (hs_Harness h)))),
      (''harness.stop'', MutationEntry (hsh_Stop (hh_Sessions (hs_Harness h)))),
      (''agent.send_message'', MutationEntry (ah_SendMessage (hh_Agent (hs_Harness h)))),
      (''agent.interrupt'', MutationEntry (ah_Interrupt (hh_Agent (hs_Harness h)))),
      (''agent.cancel'', MutationEntry (ah_Cancel (hh_Agent (hs_Harness h)))),
      (''agent.get_state'', QueryEntry (ah_GetState (hh_Agent (hs_Harness h)))),
      (''agent.get_usage'', QueryEntry (ah_GetUsage (hh_Agent (hs_Harness h)))),
      (''agent.get_pending_approvals'', QueryEntry (ah_GetPendingApprovals (hh_Agent (hs_Harness h)))),
      (''agent.get_tools'', QueryEntry (ah_GetTools (hh_Agent (hs_Harness h)))),
      (''agent.get_native_identity'', QueryEntry (ah_GetNativeIdentity (hh_Agent (hs_Harness h)))),
      (''context.deliver'', MutationEntry (cxh_Deliver (hh_Context (hs_Harness h)))),
      (''context.confirm'', QueryEntry (cxh_Confirm (hh_Context (hs_Harness h)))),
      (''approval.list'', QueryEntry (aph_List (hh_Approvals (hs_Harness h)))),
      (''approval.approve'', MutationEntry (aph_Approve (hh_Approvals (hs_Harness h)))),
      (''approval.reject'', MutationEntry (aph_Reject (hh_Approvals (hs_Harness h)))),
      (''approval.expire'', MutationEntry (aph_Expire (hh_Approvals (hs_Harness h)))),
      (''artifact.list'', QueryEntry (arh_List (hh_Artifacts (hs_Harness h)))),
      (''artifact.register'', MutationEntry (arh_Register (hh_Artifacts (hs_Harness h))))]"

text \<open>
  The outcome of a dispatch: a value of the SDK's types or the raw bytes of an extension, an error, or
  the error of a result that was found invalid after the mutation had run.
\<close>

datatype 'v dispatched = Dispatched "'v + string" | DispatchFailed go_error | PostResult go_error

definition invokeQuery :: "string \<Rightarrow> string \<Rightarrow> 'v QueryFunc option \<Rightarrow> string list \<Rightarrow> 'v dispatched" where
  "invokeQuery capability raw handler available =
     (case handler of
        None \<Rightarrow> DispatchFailed (NotSupported capability available)
      | Some q \<Rightarrow>
          (case q_decode q raw of
             Inl e \<Rightarrow> DispatchFailed e
           | Inr request \<Rightarrow>
               (case q_run q request of
                  Inl e \<Rightarrow> DispatchFailed e
                | Inr result \<Rightarrow>
                    (case validateResult (q_validate q result) (q_guarded q result) of
                       Some e \<Rightarrow> DispatchFailed (Wrapped (capability @ '' handler returned an invalid result'') e)
                     | None \<Rightarrow> Dispatched (Inl result)))))"

text \<open>\<open>metaErr\<close> is the \<open>Validate\<close> of the metadata.\<close>

definition invokeMutation ::
  "(commandMeta \<Rightarrow> verr) \<Rightarrow> string \<Rightarrow> commandMeta option \<Rightarrow> string \<Rightarrow> 'v MutationFunc option \<Rightarrow> string list \<Rightarrow> 'v dispatched" where
  "invokeMutation metaErr capability meta raw handler available =
     (case handler of
        None \<Rightarrow> DispatchFailed (NotSupported capability available)
      | Some m \<Rightarrow>
          (case meta of
             None \<Rightarrow> DispatchFailed (Plain ''mutation metadata is required'')
           | Some md \<Rightarrow>
               (case metaErr md of
                  Some e \<Rightarrow> DispatchFailed e
                | None \<Rightarrow>
                    if c_Capability (cm_Command md) \<noteq> capability \<or> \<not> samePayload (c_Payload (cm_Command md)) raw
                    then DispatchFailed (Plain ''mutation metadata does not match the dispatch request'')
                    else (case m_decode m raw of
                            Inl e \<Rightarrow> DispatchFailed e
                          | Inr request \<Rightarrow>
                              (case m_run m md request of
                                 Inl e \<Rightarrow> DispatchFailed e
                               | Inr result \<Rightarrow>
                                   (case validateResult (m_validate m result) (m_guarded m result) of
                                      Some e \<Rightarrow> PostResult (Wrapped (capability @ '' handler returned an invalid result'') e)
                                    | None \<Rightarrow> Dispatched (Inl result)))))))"

definition invokeExtensionQuery :: "string \<Rightarrow> (string \<Rightarrow> go_error + string) \<Rightarrow> 'v dispatched" where
  "invokeExtensionQuery raw handler =
     (case validateExtensionValue raw of
        Some e \<Rightarrow> DispatchFailed e
      | None \<Rightarrow>
          (case handler raw of
             Inl e \<Rightarrow> DispatchFailed e
           | Inr result \<Rightarrow>
               (case validateExtensionValue result of Some e \<Rightarrow> DispatchFailed e | None \<Rightarrow> Dispatched (Inr result))))"

definition invokeExtensionMutation ::
  "(commandMeta \<Rightarrow> verr) \<Rightarrow> commandMeta \<Rightarrow> string \<Rightarrow> (commandMeta \<Rightarrow> string \<Rightarrow> go_error + string) \<Rightarrow> 'v dispatched" where
  "invokeExtensionMutation metaErr md raw handler =
     (if metaErr md \<noteq> nil \<or> \<not> samePayload (c_Payload (cm_Command md)) raw then DispatchFailed (newError CodeInvalidArgument)
      else case validateExtensionValue raw of
        Some e \<Rightarrow> DispatchFailed e
      | None \<Rightarrow>
          (case handler md raw of
             Inl e \<Rightarrow> DispatchFailed e
           | Inr result \<Rightarrow>
               (case validateExtensionValue result of Some e \<Rightarrow> PostResult e | None \<Rightarrow> Dispatched (Inr result))))"

definition dispatch ::
  "(commandMeta \<Rightarrow> verr) \<Rightarrow> 'v HandlerSet \<Rightarrow> string \<Rightarrow> commandMeta option \<Rightarrow> string \<Rightarrow> 'v dispatched" where
  "dispatch metaErr h capability meta raw =
     (let available = advertisedHandlers h in
      case map_of (dispatchTable h) capability of
        Some (QueryEntry handler) \<Rightarrow> invokeQuery capability raw handler available
      | Some (MutationEntry handler) \<Rightarrow> invokeMutation metaErr capability meta raw handler available
      | None \<Rightarrow>
          (case map_of (hs_Extensions h) capability of
             None \<Rightarrow> DispatchFailed (NotSupported capability available)
           | Some extension \<Rightarrow>
               (case meta of
                  None \<Rightarrow>
                    (case xh_Query extension of
                       None \<Rightarrow> DispatchFailed (NotSupported capability available)
                     | Some handler \<Rightarrow> invokeExtensionQuery raw handler)
                | Some md \<Rightarrow>
                    (case xh_Mutation extension of
                       None \<Rightarrow> DispatchFailed (NotSupported capability available)
                     | Some handler \<Rightarrow> invokeExtensionMutation metaErr md raw handler))))"

section \<open>Building a server\<close>

definition NewServer :: "ServerConfig \<Rightarrow> 'v HandlerSet \<Rightarrow> limits_option list \<Rightarrow> go_error + Server" where
  "NewServer cfg h optionValues =
     (case ServerConfig_validate cfg of
        Some e \<Rightarrow> Inl e
      | None \<Rightarrow>
          (case applyOptions optionValues of
             Inl e \<Rightarrow> Inl e
           | Inr limits \<Rightarrow>
               (let advertised = map cap_Name (m_Capabilities (cfg_Manifest cfg)) in
                case first_err
                  [each_err (\<lambda>(c, _). if Capability c \<noteq> None then errorf ''core capability cannot use an extension handler'' else nil)
                     (hs_Extensions h),
                   each_err (\<lambda>d.
                     if \<not> supports h (cap_Name d) then errorf ''advertised capability has no typed handler''
                     else if Capability (cap_Name d) = None \<and>
                       (case map_of (hs_Extensions h) (cap_Name d) of
                          None \<Rightarrow> True
                        | Some x \<Rightarrow> cap_Mutating d \<and> xh_Mutation x = None \<or> \<not> cap_Mutating d \<and> xh_Query x = None)
                     then errorf ''extension capability has no matching handler'' else nil) (m_Capabilities (cfg_Manifest cfg)),
                   each_err (\<lambda>c. if c \<notin> set advertised then errorf ''handler capability is not advertised'' else nil)
                     (advertisedHandlers h),
                   each_err (\<lambda>c. if c \<notin> set advertised then errorf ''required SDK capability is not advertised'' else nil)
                     [''provider.initialize'', ''provider.capabilities'']] of
                  Some e \<Rightarrow> Inl e
                | None \<Rightarrow> Inr (newServer limits))))"

section \<open>The three tables agree\<close>

abbreviation isMutation :: "'v entry \<Rightarrow> bool" where
  "isMutation e \<equiv> (case e of QueryEntry _ \<Rightarrow> False | MutationEntry _ \<Rightarrow> True)"

abbreviation present :: "'v entry \<Rightarrow> bool" where
  "present e \<equiv> (case e of QueryEntry q \<Rightarrow> q \<noteq> None | MutationEntry m \<Rightarrow> m \<noteq> None)"

text \<open>The names of the dispatch table with the kind of their handler, whatever handlers are set.\<close>

definition dispatchKinds :: "(string \<times> bool) list" where
  "dispatchKinds =
     [(''provider.initialize'', False), (''provider.health'', False), (''provider.capabilities'', False), (''provider.shutdown'', True),
      (''events.subscribe'', False), (''events.unsubscribe'', True), (''command.get_result'', False), (''environment.inspect'', False),
      (''environment.health'', False), (''environment.provision'', True), (''environment.mount'', True), (''environment.shutdown'', True),
      (''runtime.list_sessions'', False), (''runtime.get_session'', False), (''runtime.create_session'', True), (''runtime.stop_session'', True),
      (''runtime.terminate_session'', True), (''runtime.attach'', True), (''runtime.detach'', True), (''runtime.snapshot'', False),
      (''runtime.checkpoint'', True), (''runtime.restore'', True), (''runtime.adopt'', True), (''runtime.resume'', True),
      (''runtime.clone'', True), (''runtime.fork'', True), (''runtime.migrate'', True), (''runtime.export'', True),
      (''runtime.import'', True), (''runtime.archive'', True), (''terminal.read'', False), (''terminal.subscribe'', False),
      (''terminal.send_input'', True), (''terminal.send_keys'', True), (''terminal.resize'', True), (''terminal.attach'', True),
      (''terminal.detach'', True), (''workspace.list'', False), (''workspace.get'', False), (''workspace.create'', True),
      (''workspace.close'', True), (''topology.get'', False), (''topology.subscribe'', False), (''pane.list'', False),
      (''pane.get'', False), (''pane.create'', True), (''pane.split'', True), (''pane.focus'', True),
      (''pane.resize'', True), (''pane.close'', True), (''harness.list'', False), (''harness.inspect'', False),
      (''harness.launch'', True), (''harness.resume'', True), (''harness.stop'', True), (''agent.send_message'', True),
      (''agent.interrupt'', True), (''agent.cancel'', True), (''agent.get_state'', False), (''agent.get_usage'', False),
      (''agent.get_pending_approvals'', False), (''agent.get_tools'', False), (''agent.get_native_identity'', False), (''context.deliver'', True),
      (''context.confirm'', False), (''approval.list'', False), (''approval.approve'', True), (''approval.reject'', True),
      (''approval.expire'', True), (''artifact.list'', False), (''artifact.register'', True)]"

lemma dispatch_kinds: "map (\<lambda>(c, e). (c, isMutation e)) (dispatchTable h) = dispatchKinds"
  by (simp add: dispatchTable_def dispatchKinds_def)

lemma kinds_catalog: "set dispatchKinds = (\<lambda>d. (cap_Name d, cap_Mutating d)) ` set capabilityCatalog"
proof -
  let ?xs = "map (\<lambda>d. (cap_Name d, cap_Mutating d)) capabilityCatalog"
  have "drop 11 dispatchKinds = drop 11 ?xs" by (simp add: dispatchKinds_def capabilityCatalog_def readonly_cap_def mutating_cap_def)
  moreover have "set (take 11 dispatchKinds) = set (take 11 ?xs)" by code_simp
  moreover have "set zs = set (take 11 zs) \<union> set (drop 11 zs)" for zs :: "(string \<times> bool) list"
    by (metis append_take_drop_id set_append)
  ultimately have "set dispatchKinds = set ?xs" by metis
  then show ?thesis by simp
qed

lemma kinds_Capability: "map_of dispatchKinds c = map_option cap_Mutating (Capability c)"
proof -
  have found: "\<exists>d. Capability c = Some d \<and> cap_Mutating d = b" if "map_of dispatchKinds c = Some b" for b
    using map_of_SomeD [OF that] unfolding kinds_catalog by (auto simp: Capability_Some_iff)
  show ?thesis
  proof (cases "Capability c")
    case None
    then show ?thesis using found by (cases "map_of dispatchKinds c") auto
  next
    case (Some d)
    then have "(c, cap_Mutating d) \<in> set dispatchKinds" unfolding kinds_catalog by (auto simp: Capability_Some_iff)
    from weak_map_of_SomeI [OF this] obtain b where b: "map_of dispatchKinds c = Some b" ..
    then show ?thesis using found [OF b] Some by simp
  qed
qed

lemma supports_entries:
  "supportsTable h = map (\<lambda>(c, e). (c, present e))
     (filter (\<lambda>(c, _). c \<notin> {''provider.initialize'', ''provider.capabilities'', ''command.get_result''}) (dispatchTable h))"
  by (simp add: supportsTable_def dispatchTable_def)

lemma map_of_entries: "map_of (map (\<lambda>(c, e). (c, f e)) xs) k = map_option f (map_of xs k)"
  by (induction xs) auto

text \<open>The dispatch table has exactly the capabilities of the catalog, each with a handler of its kind.\<close>

lemma dispatch_catalog:
  "(\<exists>e. map_of (dispatchTable h) c = Some e \<and> isMutation e = b) \<longleftrightarrow> (\<exists>d. Capability c = Some d \<and> cap_Mutating d = b)"
proof -
  have kind: "map_option isMutation (map_of (dispatchTable h) c) = map_of dispatchKinds c"
    unfolding dispatch_kinds [of h, symmetric] by (rule map_of_entries [symmetric])
  then have "map_option isMutation (map_of (dispatchTable h) c) = map_option cap_Mutating (Capability c)"
    by (simp add: kinds_Capability)
  then show ?thesis by (cases "Capability c"; cases "map_of (dispatchTable h) c") auto
qed

abbreviation builtins :: "string set" where
  "builtins \<equiv> {''provider.initialize'', ''provider.capabilities'', ''command.get_result''}"

lemma supports_core:
  assumes "c \<notin> builtins" "Capability c = Some d"
  shows "supports h c \<longleftrightarrow> (\<exists>e. map_of (dispatchTable h) c = Some e \<and> present e \<and> isMutation e = cap_Mutating d)"
proof -
  obtain e where e: "map_of (dispatchTable h) c = Some e" "isMutation e = cap_Mutating d"
    using dispatch_catalog [of h c "cap_Mutating d"] assms(2) by blast
  have keep: "map_of (filter (\<lambda>(c, _). c \<notin> B) xs) c = map_of xs c" if "c \<notin> B" for B and xs :: "(string \<times> 'a entry) list"
    using that by (induction xs) auto
  have "map_of (supportsTable h) c = Some (present e)"
    unfolding supports_entries map_of_entries using keep [OF assms(1), of "dispatchTable h"] e(1) by simp
  then show ?thesis using assms(1) e by (simp add: supports_def)
qed

lemma NewServer_facts:
  assumes "NewServer cfg h opts = Inr s"
  shows "ServerConfig_validate cfg = nil" "\<exists>limits. applyOptions opts = Inr limits \<and> s = newServer limits"
    "\<And>c x. (c, x) \<in> set (hs_Extensions h) \<Longrightarrow> Capability c = None"
    "\<And>d. d \<in> set (m_Capabilities (cfg_Manifest cfg)) \<Longrightarrow> supports h (cap_Name d) \<and>
       (Capability (cap_Name d) = None \<longrightarrow> (\<exists>x. map_of (hs_Extensions h) (cap_Name d) = Some x \<and>
          (if cap_Mutating d then xh_Mutation x \<noteq> None else xh_Query x \<noteq> None)))"
    "\<And>c. c \<in> set (advertisedHandlers h) \<Longrightarrow> \<exists>d \<in> set (m_Capabilities (cfg_Manifest cfg)). cap_Name d = c"
proof -
  let ?caps = "m_Capabilities (cfg_Manifest cfg)"
  obtain limits where ok: "ServerConfig_validate cfg = nil" "applyOptions opts = Inr limits" "s = newServer limits"
    "each_err (\<lambda>(c, _). if Capability c \<noteq> None then errorf ''core capability cannot use an extension handler'' else nil) (hs_Extensions h) = nil"
    "each_err (\<lambda>d.
       if \<not> supports h (cap_Name d) then errorf ''advertised capability has no typed handler''
       else if Capability (cap_Name d) = None \<and>
         (case map_of (hs_Extensions h) (cap_Name d) of
            None \<Rightarrow> True
          | Some x \<Rightarrow> cap_Mutating d \<and> xh_Mutation x = None \<or> \<not> cap_Mutating d \<and> xh_Query x = None)
       then errorf ''extension capability has no matching handler'' else nil) ?caps = nil"
    "each_err (\<lambda>c. if c \<notin> set (map cap_Name ?caps) then errorf ''handler capability is not advertised'' else nil) (advertisedHandlers h) = nil"
    using assms by (simp add: NewServer_def Let_def split: option.splits sum.splits)
  show "ServerConfig_validate cfg = nil" "\<exists>limits. applyOptions opts = Inr limits \<and> s = newServer limits" using ok(1-3) by simp_all
  show "Capability c = None" if "(c, x) \<in> set (hs_Extensions h)" for c x
    using ok(4) that by (fastforce simp: each_err_nil split: if_splits)
  show "\<exists>d \<in> set ?caps. cap_Name d = c" if "c \<in> set (advertisedHandlers h)" for c
    using ok(6) that by (fastforce simp: each_err_nil split: if_splits)
  show "supports h (cap_Name d) \<and> (Capability (cap_Name d) = None \<longrightarrow> (\<exists>x. map_of (hs_Extensions h) (cap_Name d) = Some x \<and>
          (if cap_Mutating d then xh_Mutation x \<noteq> None else xh_Query x \<noteq> None)))" if d: "d \<in> set ?caps" for d
  proof -
    note cap = bspec [OF ok(5) [unfolded each_err_nil] d]
    show ?thesis using cap by (cases "map_of (hs_Extensions h) (cap_Name d)") (auto split: if_splits)
  qed
qed

lemma manifest_of_config: "ServerConfig_validate cfg = nil \<Longrightarrow> ProviderManifest_Validate (cfg_Manifest cfg) = nil"
  using config_facts(1,3) [of cfg] by (cases "cfg_AuthenticationModes cfg") (auto simp: InitializeResult_Validate_def configCandidate_def)

lemma dispatch_extension:
  assumes "map_of (dispatchTable h) capability = None" "map_of (hs_Extensions h) capability = Some x"
  shows "xh_Query x \<noteq> None \<Longrightarrow> \<exists>f. dispatch metaErr h capability None raw = invokeExtensionQuery raw f"
    "xh_Mutation x \<noteq> None \<Longrightarrow> \<exists>f. dispatch metaErr h capability (Some md) raw = invokeExtensionMutation metaErr md raw f"
  using assms by (auto simp: dispatch_def Let_def)


section \<open>Extension values carry no authority\<close>

lemma reserved_same: "k \<in> set extensionReservedKeys \<longleftrightarrow> reservedKey k"
  by (auto simp: extensionReservedKeys_def providerCanonicalAuthorityKeys_def providerReviewAuthorityKeys_def)

lemma extensionLoop_cases:
  "extensionLoop stack = (if \<forall>v \<in> set stack. \<forall>q \<in> allKeys v. \<not> reservedKey q then nil else Some (newError CodePermissionDenied))"
proof (induction stack rule: extensionLoop.induct)
  case (2 v stack)
  show ?case
  proof (cases v)
    case (JArr vs)
    then show ?thesis using 2 by (auto simp: extensionLoop.simps)
  next
    case (JObj ms)
    show ?thesis
    proof (cases "\<exists>m \<in> set ms. fst m \<in> set extensionReservedKeys")
      case True
      then show ?thesis using JObj by (auto simp: extensionLoop.simps reserved_same)
    next
      case False
      then show ?thesis using JObj 2 by (auto simp: extensionLoop.simps reserved_same)
    qed
  qed (use 2 in \<open>auto simp: extensionLoop.simps\<close>)
qed simp

lemma Decode_any:
  assumes "validateJSON raw = nil"
  shows "\<exists>v. json_decode raw = Some v \<and> jdistinct v \<and> Decode unmarshalAny (\<lambda>_. nil) raw DOther =
    Inr \<lparr>d_kind = DOther, d_raw = [], d_extensions = [], d_rest = v\<rparr>"
proof -
  obtain v where v: "json_decode raw = Some v" "jdistinct v" "numbersInRange v" "length raw \<le> MaxMessageBytes"
    using assms unfolding validateJSON_nil by blast
  then have "rejectDuplicateKeys raw = nil" by (auto simp: json_decode_def rejectDuplicateKeys_nil split: option.splits if_splits)
  then show ?thesis using v
    by (auto simp: Decode_def decodeJSON_def isClosedSecurityDocument_def rejectReservedAuthorityFields_def
        unmarshalAny_def json_Valid_def normalizeDecoded_def)
qed

lemma free_root: "authorityFree [] v \<longleftrightarrow> (\<forall>q \<in> allKeys v. \<not> reservedKey q)"
  by (cases v) (auto simp: authorityFree_def split_beta)

text \<open>
  C21: The SDK and the protocol package agree on which content carries gateway authority: for a JSON value,
  \<open>validateExtensionValue\<close> accepts exactly what \<open>rejectReservedProviderContent\<close> accepts with no exception for
  the root, that is the values without a reserved key at any depth, and otherwise denies permission.
\<close>

theorem validateExtensionValue_agrees:
  "validateExtensionValue raw =
     (case validateJSON raw of
        Some e \<Rightarrow> Some e
      | None \<Rightarrow> if rejectReservedProviderContent raw [] = nil then nil else Some (newError CodePermissionDenied))"
proof (cases "validateJSON raw")
  case None
  obtain v where v: "json_decode raw = Some v" "jdistinct v" "Decode unmarshalAny (\<lambda>_. nil) raw DOther =
      Inr \<lparr>d_kind = DOther, d_raw = [], d_extensions = [], d_rest = v\<rparr>" using Decode_any [OF None] by blast
  have "rejectReservedProviderContent raw [] = nil \<longleftrightarrow> (\<forall>q \<in> allKeys v. \<not> reservedKey q)"
    unfolding rejectReservedProviderContent_nil using v(1,2) by (simp add: free_root)
  then show ?thesis using None v(3) extensionLoop_cases [of "[v]"]
    by (simp add: validateExtensionValue_def validateExtensionAuthority_def)
qed (simp add: validateExtensionValue_def)

lemma validateExtensionValue_nil:
  "validateExtensionValue raw = nil \<Longrightarrow> validateJSON raw = nil \<and> (\<exists>v. json_decode raw = Some v \<and> (\<forall>q \<in> allKeys v. \<not> reservedKey q))"
  using Decode_any [of raw] extensionLoop_cases
  by (auto simp: validateExtensionValue_def validateExtensionAuthority_def split: option.splits if_splits)

section \<open>What a dispatch lets through\<close>

text \<open>
  What a handler returns is checked before it leaves the dispatcher: the bytes of an extension are JSON
  without a key of gateway authority at any depth, and a typed result is one its handler returned for the
  decoded request, valid, with extensions that pass the authority check; a mutation is only run with
  metadata that validates, names the capability and carries the payload that is dispatched.
\<close>

theorem dispatch_checked:
  assumes "dispatch metaErr h capability meta raw = Dispatched out"
  shows "case out of
      Inr result \<Rightarrow> validateJSON result = nil \<and> (\<exists>v. json_decode result = Some v \<and> (\<forall>k \<in> allKeys v. k \<notin> set extensionReservedKeys))
    | Inl result \<Rightarrow>
        (\<exists>q request. map_of (dispatchTable h) capability = Some (QueryEntry (Some q)) \<and> q_decode q raw = Inr request \<and>
           q_run q request = Inr result \<and> q_validate q result = nil \<and> validateRuntimeWorkspaceExtensions (q_guarded q result) = nil) \<or>
        (\<exists>m md request. map_of (dispatchTable h) capability = Some (MutationEntry (Some m)) \<and> meta = Some md \<and> metaErr md = nil \<and>
           c_Capability (cm_Command md) = capability \<and> samePayload (c_Payload (cm_Command md)) raw \<and> m_decode m raw = Inr request \<and>
           m_run m md request = Inr result \<and> m_validate m result = nil \<and> validateRuntimeWorkspaceExtensions (m_guarded m result) = nil)"
proof (cases "map_of (dispatchTable h) capability")
  case None
  then obtain result where "out = Inr result" "validateExtensionValue result = nil"
    using assms by (auto simp: dispatch_def Let_def invokeExtensionQuery_def invokeExtensionMutation_def split: option.splits sum.splits if_splits)
  then show ?thesis using validateExtensionValue_nil [of result] reserved_same by auto
next
  case (Some e)
  then show ?thesis using assms
    by (cases e) (auto simp: dispatch_def Let_def invokeQuery_def invokeMutation_def validateResult_def split: option.splits sum.splits if_splits)
qed

text \<open>What \<open>executeMutation\<close> makes of a dispatch; \<open>encode\<close> is the encoding of a value.\<close>

definition outcomeOf :: "('v + string \<Rightarrow> json option) \<Rightarrow> 'v dispatched \<Rightarrow> handlerOutcome" where
  "outcomeOf encode d =
     (case d of Dispatched v \<Rightarrow> HandlerValue (encode v) | DispatchFailed e \<Rightarrow> HandlerError e | PostResult e \<Rightarrow> PostResultError)"

text \<open>
  A mutation that ran is never recorded as failed: when its handler returned a result, the call is
  planned to answer with that result or recorded with an unknown outcome, whatever the result is, whether
  it can be encoded, and whatever the contexts and the subscription do afterwards.
\<close>

theorem executed_never_failed:
  assumes "map_of (dispatchTable h) capability = Some (MutationEntry (Some m))" "metaErr md = nil"
    "c_Capability (cm_Command md) = capability" "samePayload (c_Payload (cm_Command md)) raw"
    "m_decode m raw = Inr request" "m_run m md request = Inr result"
    "me_admission env \<in> {None, Some nil}" "me_setupErr env = nil"
    "me_handler env = outcomeOf encode (dispatch metaErr h capability (Some md) raw)"
  shows "decideMutation env maximumBytes = unknownOutcome \<or> (\<exists>text. decideMutation env maximumBytes = Answer text)"
proof -
  have "\<not> (\<exists>e. me_handler env = HandlerError e)"
    using assms(1-6,9) by (auto simp: dispatch_def Let_def invokeMutation_def outcomeOf_def split: option.splits)
  then show ?thesis using assms(7,8)
    by (auto simp: decideMutation_def split: option.splits handlerOutcome.splits if_splits sum.splits)
qed

text \<open>
  C1: The metadata a mutation handler receives binds the exact bytes of the command: \<open>newMutationMeta\<close>
  succeeds only when the digest is the hash of the raw bytes, which are one unambiguous JSON value that
  decodes to the command, and two commands with the same digest are the same bytes unless the hash collides.
\<close>

theorem newMutationMeta_binds:
  assumes "newMutationMeta sha256 decodeCommand command raw = Inr m"
  shows "m = \<lparr>cm_Command = command, cm_CommandDigest = ''sha256:'' @ hexEncode (sha256 raw), cm_RawCommand = raw\<rparr> \<and>
    decodeCommand raw = Inr command \<and> Command_Validate command = nil \<and> Meta_Validate sha256 decodeCommand m = nil \<and>
    (\<exists>v. json_decode raw = Some v \<and> jdistinct v) \<and>
    (\<forall>command' raw' m'. newMutationMeta sha256 decodeCommand command' raw' = Inr m' \<and>
       mm_CommandDigest (ledgerMeta m') = mm_CommandDigest (ledgerMeta m) \<longrightarrow> sha256 raw' = sha256 raw)"
proof -
  have valid: "Command_Validate (cm_Command n) = nil \<and> CommandDigest sha256 (cm_RawCommand n) = Inr (cm_CommandDigest n) \<and>
      decodeCommand (cm_RawCommand n) = Inr (cm_Command n)" if ok: "Meta_Validate sha256 decodeCommand n = nil" for n
  proof -
    have "Command_Validate (cm_Command n) = nil"
      using ok by (cases "Command_Validate (cm_Command n)") (simp_all add: Meta_Validate_def wrapf_def)
    moreover obtain digest where "CommandDigest sha256 (cm_RawCommand n) = Inr digest"
      using ok calculation by (cases "CommandDigest sha256 (cm_RawCommand n)") (simp_all add: Meta_Validate_def wrapf_def split: if_splits)
    moreover obtain decoded where "decodeCommand (cm_RawCommand n) = Inr decoded"
      using ok calculation by (cases "decodeCommand (cm_RawCommand n)") (simp_all add: Meta_Validate_def wrapf_def split: if_splits)
    ultimately show ?thesis using ok by (simp add: Meta_Validate_def wrapf_def split: if_splits)
  qed
  have parts: "n = \<lparr>cm_Command = k, cm_CommandDigest = ''sha256:'' @ hexEncode (sha256 r), cm_RawCommand = r\<rparr> \<and>
      decodeCommand r = Inr k \<and> Command_Validate k = nil \<and> Meta_Validate sha256 decodeCommand n = nil \<and>
      json_Valid r \<and> rejectDuplicateKeys r = nil"
    if new: "newMutationMeta sha256 decodeCommand k r = Inr n" for k r n
  proof -
    obtain digest where digest: "CommandDigest sha256 r = Inr digest" using new by (cases "CommandDigest sha256 r") (simp_all add: newMutationMeta_def)
    then have n: "n = \<lparr>cm_Command = k, cm_CommandDigest = digest, cm_RawCommand = r\<rparr>" "Meta_Validate sha256 decodeCommand n = nil"
      using new by (auto simp: newMutationMeta_def Let_def split: option.splits)
    show ?thesis using digest n valid [OF n(2)] by (auto simp: CommandDigest_def split: if_splits)
  qed
  have "\<exists>v. json_decode raw = Some v \<and> jdistinct v"
    using parts [OF assms] by (auto simp: json_Valid_def rejectDuplicateKeys_nil json_decode_def split: option.splits if_splits)
  moreover have "sha256 raw' = sha256 raw"
    if "newMutationMeta sha256 decodeCommand command' raw' = Inr m'" "mm_CommandDigest (ledgerMeta m') = mm_CommandDigest (ledgerMeta m)"
    for command' raw' m'
    using parts [OF that(1)] parts [OF assms] that(2) by (simp add: ledgerMeta_def hexEncode_inject)
  ultimately show ?thesis using parts [OF assms] by blast
qed

section \<open>A sample provider\<close>

definition sampleHealth :: "string QueryFunc" where
  "sampleHealth = \<lparr>q_decode = Inr, q_run = Inr, q_validate = (\<lambda>_. nil), q_guarded = (\<lambda>_. PlainResult)\<rparr>"

definition sampleCreate :: "string MutationFunc" where
  "sampleCreate = \<lparr>m_decode = Inr, m_run = (\<lambda>_. Inr), m_validate = (\<lambda>_. nil), m_guarded = (\<lambda>_. PlainResult)\<rparr>"

definition sampleHandlers :: "string HandlerSet" where
  "sampleHandlers =
     \<lparr>hs_Provider = \<lparr>ph_Initialize = None, ph_Health = Some sampleHealth, ph_Capabilities = None,
      ph_Shutdown = None, ph_Events = \<lparr>eh_Subscribe = None, eh_Unsubscribe = None\<rparr>,
      ph_Commands = \<lparr>ch_GetResult = None\<rparr>\<rparr>, hs_Environment = \<lparr>nh_Inspect = None,
      nh_Health = None, nh_Provision = None, nh_Mount = None, nh_Shutdown = None\<rparr>,
      hs_Runtime = \<lparr>rh_Sessions = \<lparr>rsh_List = None, rsh_Get = None, rsh_Create = Some sampleCreate,
      rsh_Stop = None, rsh_Terminate = None, rsh_Attach = None, rsh_Detach = None, rsh_Snapshot = None,
      rsh_Checkpoint = None, rsh_Restore = None, rsh_Adopt = None, rsh_Resume = None, rsh_Clone = None,
      rsh_Fork = None, rsh_Migrate = None, rsh_Export = None, rsh_Import = None, rsh_Archive = None\<rparr>,
      rh_Terminal = \<lparr>th_Read = None, th_Subscribe = None, th_SendInput = None, th_SendKeys = None,
      th_Resize = None, th_Attach = None, th_Detach = None\<rparr>, rh_Workspaces = \<lparr>wh_List = None,
      wh_Get = None, wh_Create = None, wh_Close = None\<rparr>, rh_Topology = \<lparr>toh_Get = None,
      toh_Subscribe = None\<rparr>, rh_Panes = \<lparr>pah_List = None, pah_Get = None, pah_Create = None,
      pah_Split = None, pah_Focus = None, pah_Resize = None, pah_Close = None\<rparr>\<rparr>,
      hs_Harness = \<lparr>hh_Sessions = \<lparr>hsh_List = None, hsh_Inspect = None, hsh_Launch = None,
      hsh_Resume = None, hsh_Stop = None\<rparr>, hh_Agent = \<lparr>ah_SendMessage = None, ah_Interrupt = None,
      ah_Cancel = None, ah_GetState = None, ah_GetUsage = None, ah_GetPendingApprovals = None, ah_GetTools = None,
      ah_GetNativeIdentity = None\<rparr>, hh_Context = \<lparr>cxh_Deliver = None, cxh_Confirm = None\<rparr>,
      hh_Approvals = \<lparr>aph_List = None, aph_Approve = None, aph_Reject = None, aph_Expire = None\<rparr>,
      hh_Artifacts = \<lparr>arh_List = None, arh_Register = None\<rparr>\<rparr>, hs_Extensions = []\<rparr>"

definition hostConfig :: ServerConfig where
  "hostConfig = sampleConfig\<lparr>cfg_Manifest := sampleManifest\<lparr>m_Capabilities :=
     [readonly_cap ''provider.initialize'' RoleProvider, readonly_cap ''provider.capabilities'' RoleProvider,
      readonly_cap ''provider.health'' RoleProvider,
      mutating_cap ''runtime.create_session'' RoleSessionRuntime DeliveryStateReconciled]\<rparr>\<rparr>"

lemma hostConfig_valid: "ServerConfig_validate hostConfig = nil"
  by code_simp

lemma hostConfig_capabilities:
  "m_Capabilities (cfg_Manifest hostConfig) =
     [readonly_cap ''provider.initialize'' RoleProvider, readonly_cap ''provider.capabilities'' RoleProvider,
      readonly_cap ''provider.health'' RoleProvider,
      mutating_cap ''runtime.create_session'' RoleSessionRuntime DeliveryStateReconciled]"
  by (simp add: hostConfig_def)

lemma sample_entries:
  "filter (\<lambda>(_, e). present e) (dispatchTable sampleHandlers) =
     [(''provider.health'', QueryEntry (Some sampleHealth)), (''runtime.create_session'', MutationEntry (Some sampleCreate))]"
  by (simp add: dispatchTable_def sampleHandlers_def)

lemma sample_lookup:
  "map_of (dispatchTable sampleHandlers) ''provider.health'' = Some (QueryEntry (Some sampleHealth))"
  "map_of (dispatchTable sampleHandlers) ''runtime.create_session'' = Some (MutationEntry (Some sampleCreate))"
  by (simp_all add: dispatchTable_def sampleHandlers_def)

lemma sample_builtins [simp]:
  "hs_Extensions sampleHandlers = []" "ph_Initialize (hs_Provider sampleHandlers) = None"
  "ph_Capabilities (hs_Provider sampleHandlers) = None" "ch_GetResult (ph_Commands (hs_Provider sampleHandlers)) = None"
  by (simp_all add: sampleHandlers_def)

lemma core_samples: "Capability ''provider.health'' \<noteq> None" "Capability ''runtime.create_session'' \<noteq> None"
  "Capability ''provider.initialize'' \<noteq> None" "Capability ''provider.capabilities'' \<noteq> None"
  by code_simp+

lemma sample_supports: "supports sampleHandlers ''provider.health''" "supports sampleHandlers ''runtime.create_session''"
  using core_samples supports_core [of "''provider.health''" _ sampleHandlers] supports_core [of "''runtime.create_session''" _ sampleHandlers]
    dispatch_catalog [of sampleHandlers "''provider.health''"] dispatch_catalog [of sampleHandlers "''runtime.create_session''"]
    sample_lookup by auto

lemma sample_populated:
  assumes "c \<in> set (advertisedHandlers sampleHandlers)"
  shows "c = ''provider.health'' \<or> c = ''runtime.create_session''"
proof -
  have "populated sampleHandlers c" "c \<in> cap_Name ` set capabilityCatalog"
    using assms by (auto simp: advertisedHandlers_def KnownCapabilities_def)
  then obtain d where d: "Capability c = Some d" "c \<notin> builtins" "supports sampleHandlers c"
    by (auto simp: populated_def Capability_Some_iff split: if_splits)
  then obtain e where "map_of (dispatchTable sampleHandlers) c = Some e" "present e"
    using supports_core [OF d(2,1), of sampleHandlers] by blast
  then have "(c, e) \<in> set (filter (\<lambda>(_, e). present e) (dispatchTable sampleHandlers))"
    using map_of_SomeD [of "dispatchTable sampleHandlers" c e] by (simp only: set_filter mem_Collect_eq prod.case simp_thms)
  then show ?thesis unfolding sample_entries by auto
qed

lemma sample_server: "NewServer hostConfig sampleHandlers [WithLimits TestLimits] = Inr (newServer TestLimits)"
proof -
  let ?adv = "map cap_Name (m_Capabilities (cfg_Manifest hostConfig))"
  have opts: "applyOptions [WithLimits TestLimits] = Inr TestLimits" by (simp add: applyOptions_def WithLimits_def TestLimits_valid)
  have adv: "set ?adv = {''provider.initialize'', ''provider.capabilities'', ''provider.health'', ''runtime.create_session''}"
    by (simp add: hostConfig_capabilities readonly_cap_def mutating_cap_def)
  have "each_err (\<lambda>c. if c \<notin> set ?adv then errorf ''handler capability is not advertised'' else nil) (advertisedHandlers sampleHandlers) = nil"
    unfolding each_err_nil adv using sample_populated by auto
  then show ?thesis using opts sample_supports core_samples adv
    by (simp add: NewServer_def hostConfig_valid hostConfig_capabilities Let_def each_err.simps supports_def [of _ "''provider.initialize''"]
        supports_def [of _ "''provider.capabilities''"] readonly_cap_def mutating_cap_def)
qed

text \<open>The sample connection, initialized, of \<open>Server_Requests\<close> routes to the sample handlers.\<close>

lemma host_routes:
  "executeRoute hostConfig sampleInitialized ''provider.health'' nil nil nil nil (ch_GetResult (ph_Commands (hs_Provider sampleHandlers)) \<noteq> None) =
     RouteQuery (readonly_cap ''provider.health'' RoleProvider)"
  "executeRoute hostConfig sampleInitialized ''runtime.create_session'' nil nil nil nil (ch_GetResult (ph_Commands (hs_Provider sampleHandlers)) \<noteq> None) =
     RouteMutation (mutating_cap ''runtime.create_session'' RoleSessionRuntime DeliveryStateReconciled)"
  by (simp_all add: executeRoute_def Manifest_Capability_def hostConfig_capabilities isSubscriptionCapability_def readonly_cap_def mutating_cap_def)


lemma sample_dispatch: "dispatch (\<lambda>_. nil) sampleHandlers ''provider.health'' None ''{}'' = Dispatched (Inl ''{}'')"
  by (simp add: dispatch_def sample_lookup Let_def invokeQuery_def sampleHealth_def validateResult_def validateRuntimeWorkspaceExtensions_def)

theorem dispatch_checked_witness:
  "\<exists>q request. map_of (dispatchTable sampleHandlers) ''provider.health'' = Some (QueryEntry (Some q)) \<and>
     q_decode q ''{}'' = Inr request \<and> q_run q request = Inr ''{}''"
  using dispatch_checked [OF sample_dispatch] sample_lookup(1) by auto

definition sampleMeta :: commandMeta where
  "sampleMeta = \<lparr>cm_Command = sampleCommand, cm_CommandDigest = ''d'', cm_RawCommand = ''{}''\<rparr>"

lemma sampleMeta_matches:
  "c_Capability (cm_Command sampleMeta) = ''runtime.create_session''" "samePayload (c_Payload (cm_Command sampleMeta)) ''{}''"
  by code_simp+

theorem executed_never_failed_witness:
  "let env = \<lparr>me_admission = None, me_setupErr = nil,
       me_handler = outcomeOf (\<lambda>_. None) (dispatch (\<lambda>_. nil) sampleHandlers ''runtime.create_session'' (Some sampleMeta) ''{}''),
       me_ctxErr = nil, me_prepareErr = nil\<rparr>
   in decideMutation env 4096 = unknownOutcome \<or> (\<exists>text. decideMutation env 4096 = Answer text)"
  unfolding Let_def
  by (rule executed_never_failed [OF sample_lookup(2) _ sampleMeta_matches, where request = "''{}''" and result = "''{}''" and metaErr = "\<lambda>_. nil"])
    (simp_all add: sampleCreate_def)

theorem newMutationMeta_binds_witness:
  "\<exists>m. newMutationMeta (\<lambda>_. ''h'') (\<lambda>_. Inr sampleCommand) sampleCommand ''{}'' = Inr m \<and> cm_RawCommand m = ''{}'' \<and> Command_Validate sampleCommand = nil"
proof -
  have valid: "Command_Validate sampleCommand = nil" by code_simp
  have digest: "CommandDigest (\<lambda>_. ''h'') ''{}'' = Inr (''sha256:'' @ hexEncode ''h'')" by code_simp
  have new: "newMutationMeta (\<lambda>_. ''h'') (\<lambda>_. Inr sampleCommand) sampleCommand ''{}'' =
      Inr \<lparr>cm_Command = sampleCommand, cm_CommandDigest = ''sha256:'' @ hexEncode ''h'', cm_RawCommand = ''{}''\<rparr>"
    using valid digest by (simp add: newMutationMeta_def Meta_Validate_def wrapf_def Let_def)
  show ?thesis using newMutationMeta_binds [OF new] new by simp
qed

end
