(* ===== verification/Client_Calls.thy ===== *)
theory Client_Calls
  imports Server_Requests Provider_Handlers
begin

text \<open>
  The calls of \<open>provider/client.go\<close>: registering a call, delivering responses to the calls that wait for
  them, failing the client, negotiating once, and the checks of \<open>query\<close> and \<open>Mutate\<close> before a request is
  sent. Encodings, contexts and the transport are arguments.
\<close>

section \<open>State\<close>

datatype clientOutcome = OutcomeResponse rpcResponse | OutcomeError go_error

text \<open>
  \<open>cl_pending\<close> are the keys of the map \<open>pending\<close>; \<open>cl_outcomes\<close> are the values sent on the channels of the
  calls. The last two fields record the history: the identifiers of all calls that were registered, and
  of those that stopped waiting.
\<close>

record Client =
  cl_initialized :: bool
  cl_manifest :: "ProviderManifest option"
  cl_maximum :: uint64
  cl_terminalMax :: uint64
  cl_replay :: bool
  cl_writerMaximum :: uint64
  cl_closed :: bool
  cl_readErr :: verr
  cl_pending :: "string list"
  cl_outcomes :: "(string \<times> clientOutcome) list"
  cl_calls :: "string list"
  cl_gaveUp :: "string list"

definition NewClient :: "bool \<Rightarrow> limits_option list \<Rightarrow> go_error + Limits \<times> Client" where
  "NewClient streams optionValues =
     (if \<not> streams then Inl (Plain ''provider client streams are required'')
      else case applyOptions optionValues of
        Inl e \<Rightarrow> Inl e
      | Inr limits \<Rightarrow>
          Inr (limits, \<lparr>cl_initialized = False, cl_manifest = None, cl_maximum = MaxEnvelopeBytes limits,
             cl_terminalMax = of_nat MaxTerminalChunkBytes, cl_replay = False, cl_writerMaximum = MaxEnvelopeBytes limits,
             cl_closed = False, cl_readErr = nil, cl_pending = [], cl_outcomes = [], cl_calls = [], cl_gaveUp = []\<rparr>))"

section \<open>Calls\<close>

text \<open>The part of \<open>callValidated\<close> under the lock: the call waits for the identifier \<open>rid\<close>.\<close>

definition registerCall :: "Limits \<Rightarrow> Client \<Rightarrow> string \<Rightarrow> bool \<Rightarrow> verr \<times> Client" where
  "registerCall limits c rid initialization =
     (if cl_closed c then
        (Some (case cl_readErr c of Some e \<Rightarrow> Structured (normalizeProtocolError e) | None \<Rightarrow> newError CodeUnavailable), c)
      else if \<not> initialization \<and> \<not> cl_initialized c then (Some (newError CodeConflict), c)
      else if int (length (cl_pending c)) \<ge> MaxInFlightRequests limits then (Some (newError CodeResourceExhausted), c)
      else (nil, c\<lparr>cl_pending := rid # cl_pending c, cl_calls := rid # cl_calls c\<rparr>))"

definition removePending :: "Client \<Rightarrow> string \<Rightarrow> Client" where
  "removePending c rid = c\<lparr>cl_pending := filter (\<lambda>x. x \<noteq> rid) (cl_pending c), cl_gaveUp := rid # cl_gaveUp c\<rparr>"

text \<open>The end of an iteration of the client's \<open>readLoop\<close>: a decoded response.\<close>

definition deliverResponse :: "Client \<Rightarrow> rpcResponse \<Rightarrow> Client" where
  "deliverResponse c response =
     (if rpcResponse.rs_ID response \<in> set (cl_pending c)
      then c\<lparr>cl_pending := filter (\<lambda>x. x \<noteq> rpcResponse.rs_ID response) (cl_pending c),
             cl_outcomes := (rpcResponse.rs_ID response, OutcomeResponse response) # cl_outcomes c\<rparr>
      else c)"

text \<open>\<open>fail\<close> acts once, by \<open>closeOnce\<close>.\<close>

definition fail :: "Client \<Rightarrow> go_error \<Rightarrow> Client" where
  "fail c err =
     (if cl_closed c then c
      else c\<lparr>cl_closed := True, cl_readErr := Some err, cl_pending := [],
             cl_outcomes := map (\<lambda>rid. (rid, OutcomeError err)) (cl_pending c) @ cl_outcomes c\<rparr>)"

text \<open>
  What a call makes of its outcome: a local error is one of the client's own validation of a successful
  response. \<open>validate\<close> is the validation of the raw result, \<open>strict\<close> the result of the closed decoding.
\<close>

datatype callResult = CallOk | CallError go_error | CallLocalError go_error

definition finishClientOutcome :: "(string \<Rightarrow> verr) option \<Rightarrow> (string \<Rightarrow> verr) \<Rightarrow> clientOutcome \<Rightarrow> callResult" where
  "finishClientOutcome validate strict outcome =
     (case outcome of
        OutcomeError e \<Rightarrow> CallError (Structured (normalizeProtocolError e))
      | OutcomeResponse response \<Rightarrow>
          (case rs_Error response of
             Some e \<Rightarrow> CallError (Structured (re_Data e))
           | None \<Rightarrow>
               (case (case validate of None \<Rightarrow> nil | Some v \<Rightarrow> v (rs_Result response)) of
                  Some e \<Rightarrow> CallLocalError (Structured (normalizeProtocolError e))
                | None \<Rightarrow> (case strict (rs_Result response) of Some e \<Rightarrow> CallLocalError e | None \<Rightarrow> CallOk))))"

text \<open>What the call waits for after its frame was written, or was not.\<close>

datatype waited = GotOutcome clientOutcome | WriteFailed go_error "clientOutcome option" | ContextDone go_error "clientOutcome option"
  | ClientDone "clientOutcome option"

definition awaitCall :: "(string \<Rightarrow> verr) option \<Rightarrow> (string \<Rightarrow> verr) \<Rightarrow> string \<Rightarrow> waited \<Rightarrow> Client \<Rightarrow> callResult \<times> Client" where
  "awaitCall validate strict rid w c =
     (case w of
        GotOutcome result \<Rightarrow> (finishClientOutcome validate strict result, c)
      | WriteFailed e (Some (OutcomeResponse r)) \<Rightarrow> (finishClientOutcome validate strict (OutcomeResponse r), c)
      | WriteFailed e _ \<Rightarrow> (CallError (Structured (normalizeProtocolError e)), removePending c rid)
      | ContextDone e (Some result) \<Rightarrow> (finishClientOutcome validate strict result, c)
      | ContextDone e None \<Rightarrow> (CallError (newError (errorCode e)), removePending c rid)
      | ClientDone (Some result) \<Rightarrow> (finishClientOutcome validate strict result, c)
      | ClientDone None \<Rightarrow> (CallError (newError CodeUnavailable), removePending c rid))"

section \<open>Negotiation\<close>

definition beginInitialize :: "ProviderInitializeRequest \<Rightarrow> Client \<Rightarrow> verr" where
  "beginInitialize request c =
     (if InitializeRequest_Validate request \<noteq> nil then Some (newError CodeInvalidArgument)
      else if cl_initialized c then Some (newError CodeConflict) else nil)"

definition finishInitialize :: "Limits \<Rightarrow> ProviderInitializeRequest \<Rightarrow> ProviderInitializeResult \<Rightarrow> Client \<Rightarrow> verr \<times> Client" where
  "finishInitialize limits request result c =
     (if ValidateProviderNegotiation request result \<noteq> nil then (Some (newError CodeInvalidArgument), c)
      else if cl_initialized c then (Some (newError CodeConflict), c)
      else
        (let maximum = min (MaxEnvelopeBytes limits) (rs_MaximumMessageBytes result) in
         (nil, c\<lparr>cl_initialized := True, cl_manifest := Some (rs_Manifest result), cl_maximum := maximum,
                 cl_terminalMax := min (of_nat MaxTerminalChunkBytes) (rs_MaximumChunkBytes result),
                 cl_replay := rs_ReplaySupported result, cl_writerMaximum := maximum\<rparr>)))"

section \<open>The checks before a request is sent\<close>

definition isExtensionCapability :: "string \<Rightarrow> bool" where
  "isExtensionCapability capability \<longleftrightarrow> Capability capability = None"

definition validateClientExtensionRaw :: "string \<Rightarrow> verr" where
  "validateClientExtensionRaw raw =
     (case validateExtensionValue raw of
        None \<Rightarrow> nil
      | Some e \<Rightarrow>
          (case errors_As e of
             Some structured \<Rightarrow> Some (Structured (normalizeProtocolError (Structured structured)))
           | None \<Rightarrow> Some (newError CodeInvalidArgument)))"

text \<open>
  \<open>query\<close> up to the call: \<open>canonical\<close> is the encoded parameter, \<open>replayErr\<close> the check of the replay fields and
  \<open>requestErr\<close> the codec of the capability, None when it has none.
\<close>

definition queryGuard ::
  "Client \<Rightarrow> verr option \<Rightarrow> string \<Rightarrow> go_error + string \<Rightarrow> verr \<Rightarrow> (string \<Rightarrow> verr) option \<Rightarrow> verr" where
  "queryGuard c ctx capability canonical replayErr codec =
     (case ctx of
        None \<Rightarrow> Some (newError CodeInvalidArgument)
      | Some (Some e) \<Rightarrow> Some (newError (errorCode e))
      | Some None \<Rightarrow>
          if \<not> cl_initialized c then Some (newError CodeConflict)
          else (case Option.bind (cl_manifest c) (\<lambda>m. Manifest_Capability m capability) of
                  None \<Rightarrow> Some (notSupported capability (case cl_manifest c of None \<Rightarrow> [] | Some m \<Rightarrow> manifestCapabilities m))
                | Some descriptor \<Rightarrow>
                    if cap_Mutating descriptor then Some (newError CodeInvalidArgument)
                    else (case canonical of
                            Inl e \<Rightarrow> Some e
                          | Inr raw \<Rightarrow>
                              first_err
                               [replayErr,
                                if isExtensionCapability capability then validateClientExtensionRaw raw
                                else (case codec of
                                        None \<Rightarrow> Some (newError CodeInvalidArgument)
                                      | Some request \<Rightarrow> map_option (\<lambda>e. Structured (normalizeProtocolError e)) (request raw))])))"

definition mutateGuard :: "Client \<Rightarrow> verr option \<Rightarrow> Command \<Rightarrow> verr" where
  "mutateGuard c ctx command =
     (case ctx of
        None \<Rightarrow> Some (newError CodeInvalidArgument)
      | Some (Some e) \<Rightarrow> Some (newError (errorCode e))
      | Some None \<Rightarrow>
          if \<not> cl_initialized c then Some (newError CodeConflict)
          else (case cl_manifest c of
                  None \<Rightarrow> Some (newError CodeInvalidArgument)
                | Some m \<Rightarrow> map_option (\<lambda>e. Structured (normalizeProtocolError e)) (ValidateAgainstManifest command m)))"

section \<open>Calls over time\<close>

text \<open>
  The client as a step relation. A call registers under an identifier that no other call has used: it is
  128 random bits. A call may give up, by its context or a failed write, before its outcome arrives.
\<close>

inductive clientStep :: "Limits \<Rightarrow> Client \<Rightarrow> Client \<Rightarrow> bool" for limits :: Limits where
  register: "rid \<notin> set (cl_calls c) \<Longrightarrow> registerCall limits c rid i = (err, c') \<Longrightarrow> clientStep limits c c'"
| deliver: "clientStep limits c (deliverResponse c response)"
| failed: "clientStep limits c (fail c e)"
| giveUp: "clientStep limits c (removePending c rid)"
| negotiate: "finishInitialize limits request result c = (err, c') \<Longrightarrow> clientStep limits c c'"

abbreviation clientReaches :: "Limits \<Rightarrow> Client \<Rightarrow> Client \<Rightarrow> bool" where
  "clientReaches limits \<equiv> (clientStep limits)\<^sup>*\<^sup>*"

definition outcomeFits :: "string \<times> clientOutcome \<Rightarrow> bool" where
  "outcomeFits p = (case p of (rid, OutcomeResponse r) \<Rightarrow> rpcResponse.rs_ID r = rid | _ \<Rightarrow> True)"

text \<open>Every call waits, has its outcome or gave up; none waits that has an outcome.\<close>

definition accounted :: "'a set \<Rightarrow> 'a set \<Rightarrow> 'a set \<Rightarrow> 'a set \<Rightarrow> bool" where
  "accounted waiting answered calls gone \<longleftrightarrow>
     waiting \<inter> answered = {} \<and> waiting \<union> answered \<subseteq> calls \<and> calls \<subseteq> waiting \<union> answered \<union> gone"

lemma accounted_rules:
  "accounted W A C G \<Longrightarrow> r \<notin> C \<Longrightarrow> accounted (insert r W) A (insert r C) G"
  "accounted W A C G \<Longrightarrow> r \<in> W \<Longrightarrow> accounted (W - {r}) (insert r A) C G"
  "accounted W A C G \<Longrightarrow> accounted {} (W \<union> A) C G"
  "accounted W A C G \<Longrightarrow> accounted (W - {r}) A C (insert r G)"
  unfolding accounted_def by blast+

definition callsOk :: "Limits \<Rightarrow> Client \<Rightarrow> bool" where
  "callsOk limits c \<longleftrightarrow>
     distinct (map fst (cl_outcomes c)) \<and> distinct (cl_pending c) \<and>
     accounted (set (cl_pending c)) (fst ` set (cl_outcomes c)) (set (cl_calls c)) (set (cl_gaveUp c)) \<and>
     int (length (cl_pending c)) \<le> max 0 (MaxInFlightRequests limits) \<and> (\<forall>p \<in> set (cl_outcomes c). outcomeFits p) \<and>
     (cl_closed c \<longrightarrow> cl_pending c = [])"

lemma shorter_queue: "int (length xs) \<le> n \<Longrightarrow> int (length (filter P xs)) \<le> n"
  using length_filter_le [of P xs] by linarith

lemma set_without: "set (filter (\<lambda>x. x \<noteq> a) xs) = set xs - {a}"
  by auto

lemma register_cases:
  "registerCall limits c rid i = (err, c') \<Longrightarrow>
     c' = c \<or> \<not> cl_closed c \<and> int (length (cl_pending c)) < MaxInFlightRequests limits \<and>
       c' = c\<lparr>cl_pending := rid # cl_pending c, cl_calls := rid # cl_calls c\<rparr>"
  by (auto simp: registerCall_def split: if_splits)

lemma register_keeps:
  assumes "callsOk limits c" "rid \<notin> set (cl_calls c)" "registerCall limits c rid i = (err, c')"
  shows "callsOk limits c'"
  using register_cases [OF assms(3)]
proof
  assume new: "\<not> cl_closed c \<and> int (length (cl_pending c)) < MaxInFlightRequests limits \<and>
       c' = c\<lparr>cl_pending := rid # cl_pending c, cl_calls := rid # cl_calls c\<rparr>"
  have "rid \<notin> set (cl_pending c)" using assms(1,2) by (auto simp: callsOk_def accounted_def)
  then show ?thesis using new assms(1,2) by (simp add: callsOk_def accounted_rules(1))
qed (use assms in simp)

lemma deliver_keeps:
  assumes "callsOk limits c"
  shows "callsOk limits (deliverResponse c response)"
proof (cases "rpcResponse.rs_ID response \<in> set (cl_pending c)")
  case True
  let ?rid = "rpcResponse.rs_ID response"
  have "?rid \<notin> fst ` set (cl_outcomes c)" using True assms by (auto simp: callsOk_def accounted_def)
  then show ?thesis using True assms
    by (simp add: callsOk_def deliverResponse_def outcomeFits_def set_without accounted_rules(2) shorter_queue del: set_filter)
qed (use assms in \<open>simp add: deliverResponse_def\<close>)

lemma fail_keeps:
  assumes "callsOk limits c"
  shows "callsOk limits (fail c e)"
proof (cases "cl_closed c")
  case False
  have "map fst (map (\<lambda>rid. (rid, OutcomeError e)) (cl_pending c)) = cl_pending c" by (simp add: comp_def)
  then have "map fst (cl_outcomes (fail c e)) = cl_pending c @ map fst (cl_outcomes c)" using False by (simp add: fail_def)
  moreover from this have "fst ` set (cl_outcomes (fail c e)) = set (cl_pending c) \<union> fst ` set (cl_outcomes c)"
    by (metis list.set_map set_append)
  moreover have "\<forall>p \<in> set (cl_outcomes (fail c e)). outcomeFits p" using assms False by (auto simp: fail_def callsOk_def outcomeFits_def)
  moreover have "cl_pending (fail c e) = []" "cl_calls (fail c e) = cl_calls c" "cl_gaveUp (fail c e) = cl_gaveUp c"
    using False by (simp_all add: fail_def)
  moreover have "set (cl_pending c) \<inter> fst ` set (cl_outcomes c) = {}" using assms by (simp add: callsOk_def accounted_def)
  ultimately show ?thesis using assms by (simp add: callsOk_def accounted_rules(3))
qed (use assms in \<open>simp add: fail_def\<close>)

lemma giveUp_keeps:
  assumes "callsOk limits c"
  shows "callsOk limits (removePending c rid)"
  using assms by (simp add: callsOk_def removePending_def set_without accounted_rules(4) shorter_queue del: set_filter)

lemma callsOk_step:
  assumes "clientStep limits c c'" "callsOk limits c"
  shows "callsOk limits c'"
  using assms
proof (induction rule: clientStep.induct)
  case (register rid c i err c')
  then show ?case using register_keeps by blast
next
  case (negotiate request result c err c')
  have frame: "callsOk limits (c\<lparr>cl_initialized := a, cl_manifest := b, cl_maximum := m, cl_terminalMax := t, cl_replay := r, cl_writerMaximum := w\<rparr>)
      = callsOk limits c" for a b m t r w by (simp add: callsOk_def)
  from negotiate show ?case by (auto simp: finishInitialize_def Let_def frame split: if_splits)
qed (simp_all add: deliver_keeps fail_keeps giveUp_keeps)

lemma callsOk_reaches:
  assumes "NewClient streams opts = Inr (limits, new)" "clientReaches limits new c"
  shows "callsOk limits c"
  using assms(2)
proof induction
  case base
  then show ?case using assms(1) by (auto simp: NewClient_def callsOk_def accounted_def split: if_splits sum.splits)
qed (rule callsOk_step)

text \<open>
  C10: In every interleaving of calls, responses and failures, a call gets at most one outcome, a response
  only reaches the call with its identifier, at most \<open>MaxInFlightRequests\<close> calls wait, and no call is left
  waiting: when the client has failed, every call that was registered has its outcome or had stopped
  waiting, and every later call is refused.
\<close>

theorem client_calls_answered:
  assumes "NewClient streams opts = Inr (limits, new)" "clientReaches limits new c"
  shows "distinct (map fst (cl_outcomes c)) \<and>
    (\<forall>rid response. (rid, OutcomeResponse response) \<in> set (cl_outcomes c) \<longrightarrow> rpcResponse.rs_ID response = rid) \<and>
    int (length (cl_pending c)) \<le> max 0 (MaxInFlightRequests limits) \<and>
    (cl_closed c \<longrightarrow> cl_pending c = [] \<and>
      (\<forall>rid \<in> set (cl_calls c). rid \<in> fst ` set (cl_outcomes c) \<or> rid \<in> set (cl_gaveUp c)) \<and>
      (\<exists>e. registerCall limits c rid' initialization = (Some e, c)))"
proof -
  have inv: "callsOk limits c" by (rule callsOk_reaches [OF assms])
  have "\<forall>rid response. (rid, OutcomeResponse response) \<in> set (cl_outcomes c) \<longrightarrow> rpcResponse.rs_ID response = rid"
    using inv by (fastforce simp: callsOk_def outcomeFits_def)
  moreover have "\<exists>e. registerCall limits c rid' initialization = (Some e, c)" if "cl_closed c" using that by (simp add: registerCall_def)
  moreover have "rid \<in> fst ` set (cl_outcomes c) \<or> rid \<in> set (cl_gaveUp c)" if "cl_closed c" "rid \<in> set (cl_calls c)" for rid
    using inv that by (auto simp: callsOk_def accounted_def)
  ultimately show ?thesis using inv by (simp add: callsOk_def)
qed

text \<open>
  C21: The two peers agree on what was negotiated: when the client offered no more than its own limit and
  accepts the result that the server settled, both ends read and write with the same envelope limit, use
  the same limit for terminal chunks and the same answer on replay, within what was offered.
\<close>

theorem peers_agree:
  assumes "initialize marshal cfg serverLimits custom request = Inr result"
    "finishInitialize clientLimits request result c = (nil, c')" "rq_MaximumMessageBytes request \<le> MaxEnvelopeBytes clientLimits"
  shows "let s = prepareInitialized serverLimits result (openConnection serverLimits)
    in cl_maximum c' = cn_maximum s \<and> cl_writerMaximum c' = cn_writerMaximum s \<and>
      cl_terminalMax c' = cn_maximumChunk s \<and> cl_replay c' = cn_replaySupported s \<and>
      cl_maximum c' \<le> rq_MaximumMessageBytes request \<and> cl_terminalMax c' \<le> cl_maximum c'"
proof -
  have own: "rs_MaximumMessageBytes result \<le> MaxEnvelopeBytes serverLimits" using initialize_own [OF assms(1)] by simp
  have neg: "ValidateProviderNegotiation request result = nil" using assms(2) by (auto simp: finishInitialize_def split: if_splits)
  then have "rs_MaximumMessageBytes result \<le> rq_MaximumMessageBytes request"
    "validateSizes (rs_MaximumMessageBytes result) (rs_MaximumChunkBytes result) = nil"
    by (auto simp: ValidateProviderNegotiation_def wrapf_iff each_err_nil InitializeResult_Validate_def)
  moreover from this(2) have "rs_MaximumChunkBytes result \<le> of_nat MaxTerminalChunkBytes" "rs_MaximumChunkBytes result \<le> rs_MaximumMessageBytes result"
    by (auto simp: validateSizes_def)
  moreover have "c' = c\<lparr>cl_initialized := True, cl_manifest := Some (rs_Manifest result),
      cl_maximum := min (MaxEnvelopeBytes clientLimits) (rs_MaximumMessageBytes result),
      cl_terminalMax := min (of_nat MaxTerminalChunkBytes) (rs_MaximumChunkBytes result),
      cl_replay := rs_ReplaySupported result, cl_writerMaximum := min (MaxEnvelopeBytes clientLimits) (rs_MaximumMessageBytes result)\<rparr>"
    using assms(2) by (auto simp: finishInitialize_def Let_def split: if_splits)
  ultimately show ?thesis using own assms(3)
    by (auto simp: prepareInitialized_def openConnection_def Let_def min_absorb2 min_def)
qed

section \<open>The codecs\<close>

text \<open>
  The Go types of the request and result of each handler, as the fields of the handler groups declare
  them, and those of the client's codecs. A type is its name, with its package when it is not \<open>provider\<close>.
\<close>

definition handlerTypes :: "(string \<times> string \<times> string) list" where
  "handlerTypes =
     [(''provider.initialize'', ''protocol.ProviderInitializeRequest'', ''protocol.ProviderInitializeResult''),
      (''provider.health'', ''protocol.ProviderHealthRequest'', ''protocol.ProviderHealthResult''),
      (''provider.capabilities'', ''protocol.ProviderCapabilitiesRequest'', ''protocol.ProviderCapabilitiesResult''),
      (''provider.shutdown'', ''protocol.ProviderShutdownRequest'', ''protocol.OperationResult''),
      (''events.subscribe'', ''protocol.EventsSubscribeRequest'', ''EventSubscription''),
      (''events.unsubscribe'', ''protocol.EventsUnsubscribeRequest'', ''protocol.OperationResult''),
      (''command.get_result'', ''protocol.CommandGetResultRequest'', ''protocol.CommandResult''),
      (''environment.inspect'', ''protocol.EnvironmentInspectRequest'', ''protocol.EnvironmentResult''),
      (''environment.health'', ''protocol.EnvironmentHealthRequest'', ''protocol.EnvironmentResult''),
      (''environment.provision'', ''protocol.EnvironmentProvisionRequest'', ''protocol.EnvironmentResult''),
      (''environment.mount'', ''protocol.EnvironmentMountRequest'', ''protocol.EnvironmentResult''),
      (''environment.shutdown'', ''protocol.EnvironmentShutdownRequest'', ''protocol.EnvironmentResult''),
      (''runtime.list_sessions'', ''protocol.RuntimeListSessionsRequest'', ''protocol.RuntimeListSessionsResult''),
      (''runtime.get_session'', ''protocol.RuntimeSessionRequest'', ''protocol.RuntimeSessionResult''),
      (''runtime.create_session'', ''protocol.RuntimeCreateSessionRequest'', ''protocol.RuntimeSessionResult''),
      (''runtime.stop_session'', ''protocol.RuntimeSessionRequest'', ''protocol.RuntimeSessionResult''),
      (''runtime.terminate_session'', ''protocol.RuntimeSessionRequest'', ''protocol.RuntimeSessionResult''),
      (''runtime.attach'', ''protocol.RuntimeSessionRequest'', ''protocol.RuntimeSessionResult''),
      (''runtime.detach'', ''protocol.RuntimeSessionRequest'', ''protocol.RuntimeSessionResult''),
      (''runtime.snapshot'', ''protocol.RuntimeSessionRequest'', ''protocol.RuntimeSnapshot''),
      (''runtime.checkpoint'', ''protocol.RuntimeCheckpointRequest'', ''protocol.RuntimeSnapshot''),
      (''runtime.restore'', ''protocol.RuntimeRestoreRequest'', ''protocol.RuntimeSessionResult''),
      (''runtime.adopt'', ''protocol.RuntimeAdoptRequest'', ''protocol.RuntimeSessionResult''),
      (''runtime.resume'', ''protocol.RuntimeSessionRequest'', ''protocol.RuntimeSessionResult''),
      (''runtime.clone'', ''protocol.RuntimeSessionRequest'', ''protocol.RuntimeSessionResult''),
      (''runtime.fork'', ''protocol.RuntimeSessionRequest'', ''protocol.RuntimeSessionResult''),
      (''runtime.migrate'', ''protocol.RuntimeTransferRequest'', ''protocol.RuntimeSessionResult''),
      (''runtime.export'', ''protocol.RuntimeSessionRequest'', ''protocol.RuntimeSnapshot''),
      (''runtime.import'', ''protocol.RuntimeRestoreRequest'', ''protocol.RuntimeSessionResult''),
      (''runtime.archive'', ''protocol.RuntimeSessionRequest'', ''protocol.RuntimeSessionResult''),
      (''terminal.read'', ''protocol.TerminalReadRequest'', ''protocol.TerminalChunk''),
      (''terminal.subscribe'', ''protocol.TerminalSubscribeRequest'', ''TerminalSubscription''),
      (''terminal.send_input'', ''protocol.TerminalInputRequest'', ''protocol.TerminalAck''),
      (''terminal.send_keys'', ''protocol.TerminalKeysRequest'', ''protocol.TerminalAck''),
      (''terminal.resize'', ''protocol.TerminalResizeRequest'', ''protocol.TerminalAck''),
      (''terminal.attach'', ''protocol.TerminalSubscribeRequest'', ''TerminalSubscription''),
      (''terminal.detach'', ''TerminalDetachRequest'', ''protocol.TerminalAck''),
      (''workspace.list'', ''WorkspaceListRequest'', ''protocol.WorkspaceListResult''),
      (''workspace.get'', ''protocol.WorkspaceRequest'', ''protocol.Workspace''),
      (''workspace.create'', ''protocol.WorkspaceCreateRequest'', ''protocol.Workspace''),
      (''workspace.close'', ''protocol.WorkspaceRequest'', ''protocol.OperationResult''),
      (''topology.get'', ''protocol.WorkspaceRequest'', ''protocol.TopologySnapshot''),
      (''topology.subscribe'', ''protocol.WorkspaceRequest'', ''TopologySubscription''),
      (''pane.list'', ''protocol.WorkspaceRequest'', ''PaneListResult''),
      (''pane.get'', ''protocol.PaneRequest'', ''protocol.Pane''),
      (''pane.create'', ''protocol.PaneCreateRequest'', ''protocol.Pane''),
      (''pane.split'', ''protocol.PaneSplitRequest'', ''protocol.Pane''),
      (''pane.focus'', ''protocol.PaneRequest'', ''protocol.Pane''),
      (''pane.resize'', ''protocol.PaneResizeRequest'', ''protocol.Pane''),
      (''pane.close'', ''protocol.PaneRequest'', ''protocol.OperationResult''),
      (''harness.list'', ''protocol.HarnessListRequest'', ''protocol.HarnessListResult''),
      (''harness.inspect'', ''protocol.HarnessSessionRequest'', ''protocol.HarnessSessionResult''),
      (''harness.launch'', ''protocol.HarnessLaunchRequest'', ''protocol.HarnessSessionResult''),
      (''harness.resume'', ''protocol.HarnessResumeRequest'', ''protocol.HarnessSessionResult''),
      (''harness.stop'', ''protocol.HarnessSessionRequest'', ''protocol.OperationResult''),
      (''agent.send_message'', ''protocol.AgentMessageRequest'', ''protocol.AgentStateResult''),
      (''agent.interrupt'', ''protocol.AgentControlRequest'', ''protocol.OperationResult''),
      (''agent.cancel'', ''protocol.AgentControlRequest'', ''protocol.OperationResult''),
      (''agent.get_state'', ''protocol.HarnessSessionRequest'', ''protocol.AgentStateResult''),
      (''agent.get_usage'', ''protocol.HarnessSessionRequest'', ''protocol.AgentUsageResult''),
      (''agent.get_pending_approvals'', ''protocol.HarnessSessionRequest'', ''protocol.ApprovalListResult''),
      (''agent.get_tools'', ''protocol.HarnessSessionRequest'', ''protocol.AgentToolsResult''),
      (''agent.get_native_identity'', ''protocol.HarnessSessionRequest'', ''protocol.AgentNativeIdentityResult''),
      (''context.deliver'', ''protocol.ContextDeliverRequest'', ''protocol.ContextDeliverResult''),
      (''context.confirm'', ''protocol.ContextConfirmRequest'', ''protocol.ContextConfirmResult''),
      (''approval.list'', ''protocol.ApprovalListRequest'', ''protocol.ApprovalListResult''),
      (''approval.approve'', ''protocol.ApprovalActionRequest'', ''protocol.ApprovalActionResult''),
      (''approval.reject'', ''protocol.ApprovalActionRequest'', ''protocol.ApprovalActionResult''),
      (''approval.expire'', ''protocol.ApprovalActionRequest'', ''protocol.ApprovalActionResult''),
      (''artifact.list'', ''protocol.ArtifactListRequest'', ''protocol.ArtifactListResult''),
      (''artifact.register'', ''protocol.ArtifactRegisterRequest'', ''protocol.ArtifactRegisterResult'')]"

definition clientCapabilityCodecs :: "(string \<times> string \<times> string) list" where
  "clientCapabilityCodecs =
     [(''provider.initialize'', ''protocol.ProviderInitializeRequest'', ''protocol.ProviderInitializeResult''),
      (''provider.health'', ''protocol.ProviderHealthRequest'', ''protocol.ProviderHealthResult''),
      (''provider.capabilities'', ''protocol.ProviderCapabilitiesRequest'', ''protocol.ProviderCapabilitiesResult''),
      (''provider.shutdown'', ''protocol.ProviderShutdownRequest'', ''protocol.OperationResult''),
      (''events.subscribe'', ''protocol.EventsSubscribeRequest'', ''protocol.EventsSubscribeResult''),
      (''events.unsubscribe'', ''protocol.EventsUnsubscribeRequest'', ''protocol.OperationResult''),
      (''command.get_result'', ''protocol.CommandGetResultRequest'', ''protocol.CommandResult''),
      (''environment.inspect'', ''protocol.EnvironmentInspectRequest'', ''protocol.EnvironmentResult''),
      (''environment.health'', ''protocol.EnvironmentHealthRequest'', ''protocol.EnvironmentResult''),
      (''environment.provision'', ''protocol.EnvironmentProvisionRequest'', ''protocol.EnvironmentResult''),
      (''environment.mount'', ''protocol.EnvironmentMountRequest'', ''protocol.EnvironmentResult''),
      (''environment.shutdown'', ''protocol.EnvironmentShutdownRequest'', ''protocol.EnvironmentResult''),
      (''runtime.list_sessions'', ''protocol.RuntimeListSessionsRequest'', ''protocol.RuntimeListSessionsResult''),
      (''runtime.get_session'', ''protocol.RuntimeSessionRequest'', ''protocol.RuntimeSessionResult''),
      (''runtime.create_session'', ''protocol.RuntimeCreateSessionRequest'', ''protocol.RuntimeSessionResult''),
      (''runtime.stop_session'', ''protocol.RuntimeSessionRequest'', ''protocol.RuntimeSessionResult''),
      (''runtime.terminate_session'', ''protocol.RuntimeSessionRequest'', ''protocol.RuntimeSessionResult''),
      (''runtime.attach'', ''protocol.RuntimeSessionRequest'', ''protocol.RuntimeSessionResult''),
      (''runtime.detach'', ''protocol.RuntimeSessionRequest'', ''protocol.RuntimeSessionResult''),
      (''runtime.snapshot'', ''protocol.RuntimeSessionRequest'', ''protocol.RuntimeSnapshot''),
      (''runtime.checkpoint'', ''protocol.RuntimeCheckpointRequest'', ''protocol.RuntimeSnapshot''),
      (''runtime.restore'', ''protocol.RuntimeRestoreRequest'', ''protocol.RuntimeSessionResult''),
      (''runtime.adopt'', ''protocol.RuntimeAdoptRequest'', ''protocol.RuntimeSessionResult''),
      (''runtime.resume'', ''protocol.RuntimeSessionRequest'', ''protocol.RuntimeSessionResult''),
      (''runtime.clone'', ''protocol.RuntimeSessionRequest'', ''protocol.RuntimeSessionResult''),
      (''runtime.fork'', ''protocol.RuntimeSessionRequest'', ''protocol.RuntimeSessionResult''),
      (''runtime.migrate'', ''protocol.RuntimeTransferRequest'', ''protocol.RuntimeSessionResult''),
      (''runtime.export'', ''protocol.RuntimeSessionRequest'', ''protocol.RuntimeSnapshot''),
      (''runtime.import'', ''protocol.RuntimeRestoreRequest'', ''protocol.RuntimeSessionResult''),
      (''runtime.archive'', ''protocol.RuntimeSessionRequest'', ''protocol.RuntimeSessionResult''),
      (''terminal.read'', ''protocol.TerminalReadRequest'', ''protocol.TerminalChunk''),
      (''terminal.subscribe'', ''protocol.TerminalSubscribeRequest'', ''protocol.EventsSubscribeResult''),
      (''terminal.send_input'', ''protocol.TerminalInputRequest'', ''protocol.TerminalAck''),
      (''terminal.send_keys'', ''protocol.TerminalKeysRequest'', ''protocol.TerminalAck''),
      (''terminal.resize'', ''protocol.TerminalResizeRequest'', ''protocol.TerminalAck''),
      (''terminal.attach'', ''protocol.TerminalSubscribeRequest'', ''protocol.EventsSubscribeResult''),
      (''terminal.detach'', ''TerminalDetachRequest'', ''protocol.TerminalAck''),
      (''workspace.list'', ''WorkspaceListRequest'', ''protocol.WorkspaceListResult''),
      (''workspace.get'', ''protocol.WorkspaceRequest'', ''protocol.Workspace''),
      (''workspace.create'', ''protocol.WorkspaceCreateRequest'', ''protocol.Workspace''),
      (''workspace.close'', ''protocol.WorkspaceRequest'', ''protocol.OperationResult''),
      (''topology.get'', ''protocol.WorkspaceRequest'', ''protocol.TopologySnapshot''),
      (''topology.subscribe'', ''protocol.WorkspaceRequest'', ''protocol.EventsSubscribeResult''),
      (''pane.list'', ''protocol.WorkspaceRequest'', ''PaneListResult''),
      (''pane.get'', ''protocol.PaneRequest'', ''protocol.Pane''),
      (''pane.create'', ''protocol.PaneCreateRequest'', ''protocol.Pane''),
      (''pane.split'', ''protocol.PaneSplitRequest'', ''protocol.Pane''),
      (''pane.focus'', ''protocol.PaneRequest'', ''protocol.Pane''),
      (''pane.resize'', ''protocol.PaneResizeRequest'', ''protocol.Pane''),
      (''pane.close'', ''protocol.PaneRequest'', ''protocol.OperationResult''),
      (''harness.list'', ''protocol.HarnessListRequest'', ''protocol.HarnessListResult''),
      (''harness.inspect'', ''protocol.HarnessSessionRequest'', ''protocol.HarnessSessionResult''),
      (''harness.launch'', ''protocol.HarnessLaunchRequest'', ''protocol.HarnessSessionResult''),
      (''harness.resume'', ''protocol.HarnessResumeRequest'', ''protocol.HarnessSessionResult''),
      (''harness.stop'', ''protocol.HarnessSessionRequest'', ''protocol.OperationResult''),
      (''agent.send_message'', ''protocol.AgentMessageRequest'', ''protocol.AgentStateResult''),
      (''agent.interrupt'', ''protocol.AgentControlRequest'', ''protocol.OperationResult''),
      (''agent.cancel'', ''protocol.AgentControlRequest'', ''protocol.OperationResult''),
      (''agent.get_state'', ''protocol.HarnessSessionRequest'', ''protocol.AgentStateResult''),
      (''agent.get_usage'', ''protocol.HarnessSessionRequest'', ''protocol.AgentUsageResult''),
      (''agent.get_pending_approvals'', ''protocol.HarnessSessionRequest'', ''protocol.ApprovalListResult''),
      (''agent.get_tools'', ''protocol.HarnessSessionRequest'', ''protocol.AgentToolsResult''),
      (''agent.get_native_identity'', ''protocol.HarnessSessionRequest'', ''protocol.AgentNativeIdentityResult''),
      (''context.deliver'', ''protocol.ContextDeliverRequest'', ''protocol.ContextDeliverResult''),
      (''context.confirm'', ''protocol.ContextConfirmRequest'', ''protocol.ContextConfirmResult''),
      (''approval.list'', ''protocol.ApprovalListRequest'', ''protocol.ApprovalListResult''),
      (''approval.approve'', ''protocol.ApprovalActionRequest'', ''protocol.ApprovalActionResult''),
      (''approval.reject'', ''protocol.ApprovalActionRequest'', ''protocol.ApprovalActionResult''),
      (''approval.expire'', ''protocol.ApprovalActionRequest'', ''protocol.ApprovalActionResult''),
      (''artifact.list'', ''protocol.ArtifactListRequest'', ''protocol.ArtifactListResult''),
      (''artifact.register'', ''protocol.ArtifactRegisterRequest'', ''protocol.ArtifactRegisterResult'')]"

text \<open>The type that \<open>subscriptionWireResult\<close> puts on the wire.\<close>

definition subscriptionWireResult :: "string \<Rightarrow> string" where
  "subscriptionWireResult name =
     (if name \<in> {''EventSubscription'', ''TerminalSubscription'', ''TopologySubscription''}
      then ''protocol.EventsSubscribeResult'' else name)"

text \<open>What \<open>responseValidator\<close> does beyond the codec, by capability.\<close>

datatype resultCheck =
    ExtensionCheck | ReadChunkCheck | SessionListCheck | SessionCheck | WorkspaceListCheck | WorkspaceCheck | CanonicalCheck | RejectCheck

definition switchCheck :: "string \<Rightarrow> resultCheck" where
  "switchCheck capability =
     (if capability = ''terminal.read'' then ReadChunkCheck
      else if capability = ''runtime.list_sessions'' then SessionListCheck
      else if capability \<in> {''runtime.get_session'', ''runtime.create_session'', ''runtime.stop_session'', ''runtime.terminate_session'',
          ''runtime.attach'', ''runtime.detach'', ''runtime.restore'', ''runtime.adopt'', ''runtime.resume'', ''runtime.clone'',
          ''runtime.fork'', ''runtime.migrate'', ''runtime.import'', ''runtime.archive''} then SessionCheck
      else if capability = ''workspace.list'' then WorkspaceListCheck
      else if capability \<in> {''workspace.get'', ''workspace.create''} then WorkspaceCheck
      else CanonicalCheck)"

definition responseCheck :: "string \<Rightarrow> resultCheck" where
  "responseCheck capability =
     (if isExtensionCapability capability then ExtensionCheck
      else if map_of clientCapabilityCodecs capability = None then RejectCheck
      else switchCheck capability)"

text \<open>The check that a result type needs: the types with extensions that a provider fills in, and a chunk.\<close>

definition neededCheck :: "string \<Rightarrow> resultCheck" where
  "neededCheck name =
     (if name = ''protocol.TerminalChunk'' then ReadChunkCheck
      else if name = ''protocol.RuntimeListSessionsResult'' then SessionListCheck
      else if name = ''protocol.RuntimeSessionResult'' then SessionCheck
      else if name = ''protocol.WorkspaceListResult'' then WorkspaceListCheck
      else if name = ''protocol.Workspace'' then WorkspaceCheck
      else CanonicalCheck)"

lemma codec_names: "map fst clientCapabilityCodecs = map fst dispatchKinds"
  by (simp add: clientCapabilityCodecs_def dispatchKinds_def)

lemma codec_core:
  assumes "(c, rq, rs) \<in> set clientCapabilityCodecs"
  shows "\<not> isExtensionCapability c" "map_of clientCapabilityCodecs c \<noteq> None"
proof -
  have "c \<in> fst ` set dispatchKinds" using assms by (metis codec_names fst_conv image_eqI list.set_map)
  then have "map_of dispatchKinds c \<noteq> None" by (simp add: map_of_eq_None_iff)
  then show "\<not> isExtensionCapability c" using kinds_Capability [of c] by (simp add: isExtensionCapability_def)
  show "map_of clientCapabilityCodecs c \<noteq> None" using weak_map_of_SomeI [OF assms] by auto
qed

lemma codec_checks: "list_all (\<lambda>(c, _, rs). switchCheck c = neededCheck rs) clientCapabilityCodecs"
  by code_simp

lemma codec_types: "clientCapabilityCodecs = map (\<lambda>(c, request, result). (c, request, subscriptionWireResult result)) handlerTypes"
  by code_simp


section \<open>A sample client\<close>

definition sampleClientState :: Client where
  "sampleClientState =
     \<lparr>cl_initialized = False, cl_manifest = None, cl_maximum = MaxEnvelopeBytes TestLimits,
      cl_terminalMax = of_nat MaxTerminalChunkBytes, cl_replay = False, cl_writerMaximum = MaxEnvelopeBytes TestLimits,
      cl_closed = False, cl_readErr = nil, cl_pending = [], cl_outcomes = [], cl_calls = [], cl_gaveUp = []\<rparr>"

lemma sample_client: "NewClient True [WithLimits TestLimits] = Inr (TestLimits, sampleClientState)"
proof -
  have "applyOptions [WithLimits TestLimits] = Inr TestLimits" by (simp add: applyOptions_def WithLimits_def TestLimits_valid)
  then show ?thesis by (simp add: NewClient_def sampleClientState_def)
qed

definition sampleFailed :: Client where
  "sampleFailed = fail (snd (registerCall TestLimits sampleClientState ''req-1'' True)) (Sentinel ''EOF'')"

lemma sample_failed:
  "clientReaches TestLimits sampleClientState sampleFailed" "cl_closed sampleFailed" "set (cl_calls sampleFailed) = {''req-1''}" "cl_gaveUp sampleFailed = []"
proof -
  have r: "registerCall TestLimits sampleClientState ''req-1'' True =
      (nil, sampleClientState\<lparr>cl_pending := [''req-1''], cl_calls := [''req-1'']\<rparr>)"
    by (simp add: registerCall_def sampleClientState_def TestLimits_def)
  then have "clientStep TestLimits sampleClientState (snd (registerCall TestLimits sampleClientState ''req-1'' True))"
    using clientStep.register [of "''req-1''" sampleClientState TestLimits True] by (simp add: sampleClientState_def)
  then show "clientReaches TestLimits sampleClientState sampleFailed"
    unfolding sampleFailed_def by (meson clientStep.failed converse_rtranclp_into_rtranclp rtranclp.rtrancl_refl)
  show "cl_closed sampleFailed" "set (cl_calls sampleFailed) = {''req-1''}" "cl_gaveUp sampleFailed = []"
    using r by (simp_all add: sampleFailed_def fail_def sampleClientState_def)
qed

theorem client_calls_answered_witness: "''req-1'' \<in> fst ` set (cl_outcomes sampleFailed) \<and> cl_pending sampleFailed = []"
  using client_calls_answered [OF sample_client sample_failed(1)] sample_failed(2-4) by auto

theorem peers_agree_witness:
  "\<exists>c'. finishInitialize DefaultLimits sampleOffer sampleNegotiated sampleClientState = (nil, c') \<and>
     cl_maximum c' = cn_maximum (prepareInitialized TestLimits sampleNegotiated (openConnection TestLimits)) \<and>
     cl_maximum c' \<le> rq_MaximumMessageBytes sampleOffer"
proof -
  have neg: "ValidateProviderNegotiation sampleOffer sampleNegotiated = nil" by code_simp
  have le: "rq_MaximumMessageBytes sampleOffer \<le> MaxEnvelopeBytes DefaultLimits" by code_simp
  obtain c' where c': "finishInitialize DefaultLimits sampleOffer sampleNegotiated sampleClientState = (nil, c')"
    using neg by (simp add: finishInitialize_def sampleClientState_def Let_def)
  show ?thesis using peers_agree [OF sampleConfig_answers c' le] c' unfolding Let_def by blast
qed

end
