(* ===== verification/Client_Flows.thy ===== *)
theory Client_Flows
  imports Terminal_Flow
begin

text \<open>
  The registry of terminal flows of \<open>provider/client.go\<close>. Flows are objects that calls keep references to,
  so they live in a store and are named by their index; the map \<open>terminalFlows\<close> is an association list from
  a stream to an index. The digest of an attach command is an argument.
\<close>

section \<open>State and operations\<close>

record flowTable =
  ft_flows :: "clientTerminalFlow list"
  ft_table :: "((string \<times> string) \<times> nat) list"

abbreviation flowAt :: "flowTable \<Rightarrow> nat \<Rightarrow> clientTerminalFlow" where
  "flowAt t i \<equiv> ft_flows t ! i"

definition terminalStreamKey :: "clientTerminalFlow \<Rightarrow> string \<times> string" where
  "terminalStreamKey f = (cf_nativeSession f, cf_streamID f)"

definition requestKey :: "TerminalSubscribeRequest \<Rightarrow> string \<times> string" where
  "requestKey request = (tsr_NativeSessionID request, tsr_StreamID request)"

abbreviation updateFlow :: "flowTable \<Rightarrow> nat \<Rightarrow> clientTerminalFlow \<Rightarrow> flowTable" where
  "updateFlow t i f \<equiv> t\<lparr>ft_flows := (ft_flows t)[i := f]\<rparr>"

definition addFlow :: "flowTable \<Rightarrow> (string \<times> string) \<Rightarrow> clientTerminalFlow \<Rightarrow> flowTable" where
  "addFlow t key f = \<lparr>ft_flows = ft_flows t @ [f], ft_table = (key, length (ft_flows t)) # ft_table t\<rparr>"

definition reserveTerminalFlow :: "int \<Rightarrow> flowTable \<Rightarrow> TerminalSubscribeRequest \<Rightarrow> (go_error + nat) \<times> flowTable" where
  "reserveTerminalFlow maxSubscriptions t request =
     (let key = requestKey request in
      if map_of (ft_table t) key \<noteq> None then (Inl (newError CodeConflict), t)
      else if int (length (ft_table t)) \<ge> maxSubscriptions then (Inl (newError CodeResourceExhausted), t)
      else (Inr (length (ft_flows t)), addFlow t key (newClientTerminalFlow request)))"

definition reserveAttachedTerminalFlow ::
  "int \<Rightarrow> go_error + string \<Rightarrow> flowTable \<Rightarrow> TerminalSubscribeRequest \<Rightarrow> (go_error + nat) \<times> flowTable" where
  "reserveAttachedTerminalFlow maxSubscriptions digested t request =
     (case digested of
        Inl e \<Rightarrow> (Inl (Structured (normalizeProtocolError e)), t)
      | Inr digest \<Rightarrow>
          (let key = requestKey request in
           case map_of (ft_table t) key of
             Some i \<Rightarrow>
               (let existing = flowAt t i in
                if cf_retiring existing then (Inl (newError CodeConflict), t)
                else if cf_attachDigest existing = digest
                then (Inr i, updateFlow t i (existing\<lparr>cf_attachPending := cf_attachPending existing + 1\<rparr>))
                else (Inl (newError CodeConflict), t))
           | None \<Rightarrow>
               if int (length (ft_table t)) \<ge> maxSubscriptions then (Inl (newError CodeResourceExhausted), t)
               else (Inr (length (ft_flows t)),
                     addFlow t key ((newClientTerminalFlow request)\<lparr>cf_attachDigest := digest, cf_attachPending := 1\<rparr>))))"

definition ambiguousTerminalFlowError :: "go_error \<Rightarrow> bool" where
  "ambiguousTerminalFlowError e \<longleftrightarrow>
     IsCode (Some e) CodeCancelled \<or> IsCode (Some e) CodeDeadlineExceeded \<or>
     IsCode (Some e) CodeUnavailable \<or> IsCode (Some e) CodeOutcomeUnknown"

text \<open>\<open>retireTerminalFlow\<close> takes its locks one after the other: mark, close, delete.\<close>

definition inTable :: "flowTable \<Rightarrow> nat \<Rightarrow> bool" where
  "inTable t i \<longleftrightarrow> map_of (ft_table t) (terminalStreamKey (flowAt t i)) = Some i"

definition retireMark :: "flowTable \<Rightarrow> nat \<Rightarrow> flowTable" where
  "retireMark t i = (if inTable t i then updateFlow t i ((flowAt t i)\<lparr>cf_retiring := True\<rparr>) else t)"

definition closeFlow :: "flowTable \<Rightarrow> nat \<Rightarrow> flowTable" where
  "closeFlow t i = updateFlow t i ((flowAt t i)\<lparr>cf_closed := True\<rparr>)"

definition retireDelete :: "flowTable \<Rightarrow> nat \<Rightarrow> flowTable" where
  "retireDelete t i =
     (if inTable t i then t\<lparr>ft_table := filter (\<lambda>(k, _). k \<noteq> terminalStreamKey (flowAt t i)) (ft_table t)\<rparr> else t)"

definition retireTerminalFlow :: "flowTable \<Rightarrow> nat \<Rightarrow> flowTable" where
  "retireTerminalFlow t i = retireDelete (closeFlow (retireMark t i) i) i"

text \<open>
  The end of an attach: the flow takes the subscription under its own lock, what follows is decided under
  the lock of the registry, and a flow that nothing depends on is retired.
\<close>

definition completeFlow :: "clientTerminalFlow \<Rightarrow> bool \<Rightarrow> verr \<Rightarrow> bool \<times> clientTerminalFlow" where
  "completeFlow f0 registered outcome =
     (let f1 = (if cf_attachPending f0 > 0 then f0\<lparr>cf_attachPending := cf_attachPending f0 - 1\<rparr> else f0);
          f2 = (case outcome of
                  None \<Rightarrow> f1\<lparr>cf_established := True\<rparr>
                | Some e \<Rightarrow> if ambiguousTerminalFlowError e then f1\<lparr>cf_unknown := True\<rparr> else f1);
          remove = (case outcome of
                      None \<Rightarrow> False
                    | Some e \<Rightarrow> \<not> ambiguousTerminalFlowError e \<and> cf_attachPending f2 = 0 \<and> \<not> cf_established f2 \<and>
                               \<not> cf_unknown f2 \<and> registered)
      in (remove, if remove then f2\<lparr>cf_retiring := True\<rparr> else f2))"

definition completeDecide :: "flowTable \<Rightarrow> nat \<Rightarrow> verr \<Rightarrow> bool \<times> flowTable" where
  "completeDecide t i outcome = (case completeFlow (flowAt t i) (inTable t i) outcome of (remove, f) \<Rightarrow> (remove, updateFlow t i f))"

definition bindFlow :: "flowTable \<Rightarrow> nat \<Rightarrow> string \<Rightarrow> verr \<times> flowTable" where
  "bindFlow t i subscriptionID = (case bindSubscription (flowAt t i) subscriptionID of (r, f) \<Rightarrow> (r, updateFlow t i f))"

definition completeAttachedTerminalFlow :: "flowTable \<Rightarrow> nat \<Rightarrow> string \<Rightarrow> verr \<Rightarrow> verr \<times> flowTable" where
  "completeAttachedTerminalFlow t i subscriptionID outcome0 =
     (case (case outcome0 of None \<Rightarrow> bindFlow t i subscriptionID | Some e \<Rightarrow> (Some e, t)) of
        (outcome, t1) \<Rightarrow>
          (case completeDecide t1 i outcome of
             (remove, t2) \<Rightarrow> (outcome, if remove then retireTerminalFlow t2 i else t2)))"

definition lookupTerminalFlow :: "flowTable \<Rightarrow> string \<Rightarrow> string \<Rightarrow> nat option" where
  "lookupTerminalFlow t nativeSession streamID =
     (case map_of (ft_table t) (nativeSession, streamID) of
        None \<Rightarrow> None | Some i \<Rightarrow> if cf_retiring (flowAt t i) then None else Some i)"

definition isTerminalFlowActive :: "flowTable \<Rightarrow> nat \<Rightarrow> bool" where
  "isTerminalFlowActive t i \<longleftrightarrow> inTable t i \<and> \<not> cf_retiring (flowAt t i)"

text \<open>The first flow of the iteration, in any order, that carries the subscription.\<close>

definition removeTerminalFlowForCommand :: "flowTable \<Rightarrow> nat list \<Rightarrow> string \<Rightarrow> flowTable" where
  "removeTerminalFlowForCommand t order subscriptionID =
     (case find (\<lambda>i. cf_subscriptionID (flowAt t i) = subscriptionID) order of
        None \<Rightarrow> t | Some i \<Rightarrow> retireTerminalFlow t i)"

text \<open>A chunk and a credit, on the flow that the registry has for the stream.\<close>

definition receiveChunk :: "flowTable \<Rightarrow> uint64 \<Rightarrow> bool \<Rightarrow> TerminalChunk \<Rightarrow> verr \<times> flowTable" where
  "receiveChunk t maximum replay chunk =
     (case lookupTerminalFlow t (tc_NativeSessionID chunk) (tc_StreamID chunk) of
        None \<Rightarrow> (fst (consumeTerminalChunk maximum replay None chunk False), t)
      | Some i \<Rightarrow>
          (case consumeTerminalChunk maximum replay (Some (flowAt t i)) chunk (isTerminalFlowActive t i) of
             (err, Some f) \<Rightarrow> (err, updateFlow t i f) | (err, None) \<Rightarrow> (err, t)))"

definition sendCredit :: "flowTable \<Rightarrow> nat \<Rightarrow> go_error + string \<Rightarrow> verr \<Rightarrow> TerminalCredit \<Rightarrow> verr \<times> flowTable" where
  "sendCredit t i frame written credit =
     (case sendTerminalCredit frame written (flowAt t i) (isTerminalFlowActive t i) credit of (err, f) \<Rightarrow> (err, updateFlow t i f))"

section \<open>The registry over time\<close>

text \<open>
  Every locked section is one step, so that they interleave freely. A retirement closes a flow that its
  first section has marked, unless the flow was not registered, and deletes a flow that it has closed.
\<close>

inductive flowStep :: "int \<Rightarrow> flowTable \<Rightarrow> flowTable \<Rightarrow> bool" for limit :: int where
  reserve: "reserveTerminalFlow limit t request = (r, t') \<Longrightarrow> flowStep limit t t'"
| attach: "reserveAttachedTerminalFlow limit digested t request = (r, t') \<Longrightarrow> flowStep limit t t'"
| bind: "i < length (ft_flows t) \<Longrightarrow> bindFlow t i sid = (r, t') \<Longrightarrow> flowStep limit t t'"
| complete: "i < length (ft_flows t) \<Longrightarrow> completeDecide t i outcome = (remove, t') \<Longrightarrow> flowStep limit t t'"
| mark: "i < length (ft_flows t) \<Longrightarrow> flowStep limit t (retireMark t i)"
| close: "i < length (ft_flows t) \<Longrightarrow> cf_retiring (flowAt t i) \<or> \<not> inTable t i \<Longrightarrow> flowStep limit t (closeFlow t i)"
| delete: "i < length (ft_flows t) \<Longrightarrow> cf_closed (flowAt t i) \<Longrightarrow> flowStep limit t (retireDelete t i)"
| chunk: "receiveChunk t maximum replay c = (r, t') \<Longrightarrow> flowStep limit t t'"
| credit: "i < length (ft_flows t) \<Longrightarrow> sendCredit t i frame written d = (r, t') \<Longrightarrow> flowStep limit t t'"

abbreviation flowReaches :: "int \<Rightarrow> flowTable \<Rightarrow> flowTable \<Rightarrow> bool" where
  "flowReaches limit \<equiv> (flowStep limit)\<^sup>*\<^sup>*"

definition newFlows :: flowTable where
  "newFlows = \<lparr>ft_flows = [], ft_table = []\<rparr>"

text \<open>
  The table is a partial map from streams to flows of those streams; a flow that is not in it, and a flow
  that is closed, is being retired or was.
\<close>

definition flowsOk :: "int \<Rightarrow> flowTable \<Rightarrow> bool" where
  "flowsOk limit t \<longleftrightarrow>
     distinct (map fst (ft_table t)) \<and> int (length (ft_table t)) \<le> max 0 limit \<and>
     (\<forall>k i. (k, i) \<in> set (ft_table t) \<longrightarrow> i < length (ft_flows t) \<and> terminalStreamKey (flowAt t i) = k) \<and>
     (\<forall>i < length (ft_flows t). \<not> inTable t i \<longrightarrow> cf_closed (flowAt t i) \<and> cf_retiring (flowAt t i)) \<and>
     (\<forall>i < length (ft_flows t). cf_closed (flowAt t i) \<longrightarrow> cf_retiring (flowAt t i))"


text \<open>What an update of a flow may change: its stream never, its retirement only forwards.\<close>

definition evolves :: "clientTerminalFlow \<Rightarrow> clientTerminalFlow \<Rightarrow> bool" where
  "evolves f f' \<longleftrightarrow>
     cf_nativeSession f' = cf_nativeSession f \<and> cf_streamID f' = cf_streamID f \<and>
     (cf_retiring f \<longrightarrow> cf_retiring f') \<and> (cf_closed f \<longrightarrow> cf_closed f') \<and> (cf_closed f' \<longrightarrow> cf_closed f \<or> cf_retiring f')"

text \<open>The part of a flow that chunks and credits move.\<close>

definition flowWindow :: "clientTerminalFlow \<Rightarrow> uint64 \<times> uint64 \<times> uint64" where
  "flowWindow f = (cf_remaining f, cf_throughOffset f, cf_sequence f)"

lemma bindSubscription_evolves: "bindSubscription f sid = (r, f') \<Longrightarrow> evolves f f' \<and> flowWindow f' = flowWindow f"
  by (auto simp: bindSubscription_def evolves_def flowWindow_def split: if_splits)

lemma completeFlow_evolves:
  "completeFlow f registered outcome = (remove, f') \<Longrightarrow> evolves f f' \<and> flowWindow f' = flowWindow f"
  by (auto simp: completeFlow_def evolves_def flowWindow_def Let_def split: option.splits if_splits)

lemma clientFlow_consume_evolves:
  "clientFlow_consume f chunk active = (r, f') \<Longrightarrow> evolves f f' \<and> (cf_closed f \<or> \<not> active \<longrightarrow> f' = f)"
  by (auto simp: clientFlow_consume_def evolves_def split: if_splits option.splits)

lemma sendTerminalCredit_evolves:
  "sendTerminalCredit frame written f active credit = (r, f') \<Longrightarrow> evolves f f' \<and> (cf_closed f \<or> \<not> active \<longrightarrow> f' = f)"
  by (auto simp: sendTerminalCredit_def evolves_def split: if_splits option.splits sum.splits)


text \<open>The four effects that a locked section can have.\<close>

inductive flowEffect :: "int \<Rightarrow> flowTable \<Rightarrow> flowTable \<Rightarrow> bool" for limit :: int where
  same: "flowEffect limit t t"
| update: "i < length (ft_flows t) \<Longrightarrow> evolves (flowAt t i) f \<Longrightarrow>
    isTerminalFlowActive t i \<or> flowWindow f = flowWindow (flowAt t i) \<Longrightarrow> flowEffect limit t (updateFlow t i f)"
| add: "map_of (ft_table t) (terminalStreamKey f) = None \<Longrightarrow> int (length (ft_table t)) < limit \<Longrightarrow>
    \<not> cf_retiring f \<Longrightarrow> \<not> cf_closed f \<Longrightarrow> flowEffect limit t (addFlow t (terminalStreamKey f) f)"
| delete: "i < length (ft_flows t) \<Longrightarrow> cf_closed (flowAt t i) \<Longrightarrow> flowEffect limit t (retireDelete t i)"

lemma flowsOk_indexed:
  assumes "flowsOk limit t" "map_of (ft_table t) k = Some i"
  shows "i < length (ft_flows t)" "terminalStreamKey (flowAt t i) = k"
  using assms(1) map_of_SomeD [OF assms(2)] unfolding flowsOk_def by blast+

lemma newFlow_key:
  "terminalStreamKey (newClientTerminalFlow request) = requestKey request"
  "terminalStreamKey ((newClientTerminalFlow request)\<lparr>cf_attachDigest := d, cf_attachPending := n\<rparr>) = requestKey request"
  "\<not> cf_retiring (newClientTerminalFlow request)" "\<not> cf_closed (newClientTerminalFlow request)"
  by (simp_all add: terminalStreamKey_def newClientTerminalFlow_def requestKey_def)

lemma reserve_effect: "reserveTerminalFlow limit t request = (r, t') \<Longrightarrow> flowEffect limit t t'"
  using flowEffect.add [of t "newClientTerminalFlow request" limit]
  by (auto simp: reserveTerminalFlow_def Let_def newFlow_key flowEffect.same split: if_splits)

lemma attach_effect:
  assumes ok: "flowsOk limit t" and run: "reserveAttachedTerminalFlow limit digested t request = (r, t')"
  shows "flowEffect limit t t'"
proof (cases digested)
  case (Inr d)
  show ?thesis
  proof (cases "map_of (ft_table t) (requestKey request)")
    case None
    then show ?thesis
      using run Inr flowEffect.add [of t "(newClientTerminalFlow request)\<lparr>cf_attachDigest := d, cf_attachPending := 1\<rparr>" limit]
      by (auto simp: reserveAttachedTerminalFlow_def Let_def newFlow_key flowEffect.same split: if_splits)
  next
    case (Some i)
    have "flowEffect limit t (updateFlow t i ((flowAt t i)\<lparr>cf_attachPending := cf_attachPending (flowAt t i) + 1\<rparr>))"
      using flowsOk_indexed [OF ok Some] by (intro flowEffect.update) (auto simp: evolves_def flowWindow_def)
    then show ?thesis
      using run Inr Some by (auto simp: reserveAttachedTerminalFlow_def Let_def flowEffect.same split: if_splits)
  qed
qed (use run in \<open>auto simp: reserveAttachedTerminalFlow_def flowEffect.same\<close>)

lemma chunk_effect:
  assumes ok: "flowsOk limit t" and run: "receiveChunk t maximum replay c = (r, t')"
  shows "flowEffect limit t t'"
proof (cases "lookupTerminalFlow t (tc_NativeSessionID c) (tc_StreamID c)")
  case None
  then show ?thesis using run by (simp add: receiveChunk_def flowEffect.same)
next
  case (Some i)
  then have reg: "map_of (ft_table t) (tc_NativeSessionID c, tc_StreamID c) = Some i"
    by (auto simp: lookupTerminalFlow_def split: option.splits if_splits)
  consider "t' = t" | err f where "clientFlow_consume (flowAt t i) c (isTerminalFlowActive t i) = (err, f)" "t' = updateFlow t i f"
    using run Some
    by (cases "clientFlow_consume (flowAt t i) c (isTerminalFlowActive t i)")
       (auto simp: receiveChunk_def consumeTerminalChunk_def simp del: fun_upd_apply split: option.split_asm if_split_asm)
  then show ?thesis
  proof cases
    case 2
    then show ?thesis
      using flowsOk_indexed [OF ok reg] clientFlow_consume_evolves [OF 2(1)] by (auto intro!: flowEffect.update)
  qed (simp add: flowEffect.same)
qed

lemma flowStep_effect:
  assumes "flowStep limit t t'" "flowsOk limit t"
  shows "flowEffect limit t t'"
  using assms
proof (cases rule: flowStep.cases)
  case (reserve request r) then show ?thesis by (simp add: reserve_effect)
next
  case (attach digested request r) then show ?thesis using assms attach_effect by blast
next
  case (bind i sid r)
  then show ?thesis
    by (auto simp: bindFlow_def split: prod.splits intro!: flowEffect.update dest: bindSubscription_evolves)
next
  case (complete i outcome remove)
  then show ?thesis
    by (auto simp: completeDecide_def split: prod.splits intro!: flowEffect.update dest: completeFlow_evolves)
next
  case (mark i)
  then show ?thesis
    by (auto simp: retireMark_def flowEffect.same evolves_def flowWindow_def intro!: flowEffect.update)
next
  case (close i)
  then have "cf_retiring (flowAt t i)" using assms(2) by (auto simp: flowsOk_def)
  then show ?thesis
    using close by (auto simp: closeFlow_def evolves_def flowWindow_def intro!: flowEffect.update)
next
  case (delete i) then show ?thesis by (simp add: flowEffect.delete)
next
  case (chunk maximum replay c r) then show ?thesis using assms chunk_effect by blast
next
  case (credit i frame written d r)
  then show ?thesis
    by (auto simp: sendCredit_def split: prod.splits intro!: flowEffect.update dest: sendTerminalCredit_evolves)
qed


lemma evolves_key: "evolves f f' \<Longrightarrow> terminalStreamKey f' = terminalStreamKey f"
  by (simp add: evolves_def terminalStreamKey_def)

lemma inTable_update [simp]:
  "evolves (flowAt t i) f \<Longrightarrow> i < length (ft_flows t) \<Longrightarrow> inTable (updateFlow t i f) j \<longleftrightarrow> inTable t j"
  by (cases "i = j") (simp_all add: inTable_def evolves_key)

lemma flowsOk_update:
  assumes "flowsOk limit t" "i < length (ft_flows t)" "evolves (flowAt t i) f"
  shows "flowsOk limit (updateFlow t i f)"
  using assms evolves_key [OF assms(3)]
  by (auto simp: flowsOk_def nth_list_update evolves_def inTable_update [OF assms(3,2)])

lemma inTable_add:
  assumes "flowsOk limit t" "map_of (ft_table t) (terminalStreamKey f) = None" "j < length (ft_flows t)"
  shows "inTable (addFlow t (terminalStreamKey f) f) j \<longleftrightarrow> inTable t j"
  using assms(2,3) by (auto simp: inTable_def addFlow_def nth_append)

lemma flowsOk_add:
  assumes "flowsOk limit t" "map_of (ft_table t) (terminalStreamKey f) = None" "int (length (ft_table t)) < limit"
    "\<not> cf_retiring f" "\<not> cf_closed f"
  shows "flowsOk limit (addFlow t (terminalStreamKey f) f)"
proof -
  have new: "inTable (addFlow t (terminalStreamKey f) f) (length (ft_flows t))"
    by (simp add: inTable_def addFlow_def)
  have fresh: "terminalStreamKey f \<notin> set (map fst (ft_table t))"
    using assms(2) by (simp add: map_of_eq_None_iff)
  show ?thesis
    using assms new fresh inTable_add [OF assms(1,2)]
    by (auto simp: flowsOk_def addFlow_def nth_append less_Suc_eq)
qed

lemma map_of_delete: "map_of (filter (\<lambda>(k, _). k \<noteq> a) xs) b = (if b = a then None else map_of xs b)"
  by (induction xs) auto

lemma inTable_delete:
  "flowsOk limit t \<Longrightarrow> inTable (retireDelete t i) j \<longleftrightarrow> inTable t j \<and> \<not> (inTable t i \<and> j = i)"
proof (cases "inTable t i")
  case True
  then show ?thesis by (auto simp: inTable_def retireDelete_def map_of_delete)
qed (simp add: retireDelete_def)

lemma flowsOk_delete:
  assumes ok: "flowsOk limit t" and i: "i < length (ft_flows t)" "cf_closed (flowAt t i)"
  shows "flowsOk limit (retireDelete t i)"
proof -
  have flows: "ft_flows (retireDelete t i) = ft_flows t" by (simp add: retireDelete_def)
  have sub: "set (ft_table (retireDelete t i)) \<subseteq> set (ft_table t)" by (auto simp: retireDelete_def)
  have le: "length (ft_table (retireDelete t i)) \<le> length (ft_table t)" by (simp add: retireDelete_def)
  have "distinct (map fst (ft_table (retireDelete t i)))"
    using ok by (simp add: flowsOk_def retireDelete_def distinct_map_filter)
  then show ?thesis
    using ok i sub le unfolding flowsOk_def flows inTable_delete [OF ok] by auto
qed

lemma flowEffect_ok: "flowEffect limit t t' \<Longrightarrow> flowsOk limit t \<Longrightarrow> flowsOk limit t'"
  by (induction rule: flowEffect.induct) (simp_all add: flowsOk_update flowsOk_add flowsOk_delete)

lemma newFlows_ok: "flowsOk limit newFlows"
  by (simp add: flowsOk_def newFlows_def)

lemma flowReaches_ok: "flowReaches limit t t' \<Longrightarrow> flowsOk limit t \<Longrightarrow> flowsOk limit t'"
  by (induction rule: rtranclp_induct) (blast intro: flowEffect_ok flowStep_effect)+

lemma flowEffect_retired:
  assumes "flowEffect limit t t'" "flowsOk limit t" "i < length (ft_flows t)" "\<not> isTerminalFlowActive t i"
  shows "i < length (ft_flows t') \<and> \<not> isTerminalFlowActive t' i \<and> flowWindow (flowAt t' i) = flowWindow (flowAt t i)"
  using assms(1)
proof (cases rule: flowEffect.cases)
  case (update j f)
  then show ?thesis
    using assms(3,4) by (cases "j = i") (auto simp: isTerminalFlowActive_def evolves_def)
next
  case (add f)
  then show ?thesis
    using assms(2-4) inTable_add [OF assms(2), of f i] by (simp add: isTerminalFlowActive_def addFlow_def nth_append)
next
  case (delete j)
  have "ft_flows (retireDelete t j) = ft_flows t" by (simp add: retireDelete_def)
  then show ?thesis
    using assms(2-4) delete inTable_delete [OF assms(2), of j i] by (auto simp: isTerminalFlowActive_def)
qed (use assms in simp)

lemma flowReaches_retired:
  assumes "flowReaches limit t t'" "flowsOk limit t" "i < length (ft_flows t)" "\<not> isTerminalFlowActive t i"
  shows "i < length (ft_flows t') \<and> \<not> isTerminalFlowActive t' i \<and> flowWindow (flowAt t' i) = flowWindow (flowAt t i)"
  using assms(1)
proof (induction rule: rtranclp_induct)
  case (step u v)
  then show ?case
    using flowEffect_retired [OF flowStep_effect, of limit u v i] flowReaches_ok [OF step.hyps(1) assms(2)] by simp
qed (use assms in simp)

lemma active_is_registered:
  assumes ok: "flowsOk limit t"
  shows "lookupTerminalFlow t ns sid = Some i \<longleftrightarrow>
    i < length (ft_flows t) \<and> isTerminalFlowActive t i \<and> terminalStreamKey (flowAt t i) = (ns, sid)"
  using flowsOk_indexed [OF ok, of "(ns, sid)" i]
  by (auto simp: lookupTerminalFlow_def isTerminalFlowActive_def inTable_def split: option.splits if_splits)


section \<open>Theorems\<close>


text \<open>The registry is closed under the operations that the client calls, which are sequences of these steps.\<close>

lemma retireMark_closable: "cf_retiring (flowAt (retireMark t i) i) \<or> \<not> inTable (retireMark t i) i" if "i < length (ft_flows t)"
  using that by (simp add: retireMark_def)

lemma retireTerminalFlow_reaches:
  assumes "i < length (ft_flows t)"
  shows "flowReaches limit t (retireTerminalFlow t i)"
proof -
  let ?m = "retireMark t i" and ?c = "closeFlow (retireMark t i) i"
  have len: "length (ft_flows ?m) = length (ft_flows t)" by (simp add: retireMark_def)
  have "flowStep limit t ?m" using assms by (rule flowStep.mark)
  moreover have "flowStep limit ?m ?c"
    using assms len retireMark_closable [OF assms] by (intro flowStep.close) simp_all
  moreover have "flowStep limit ?c (retireDelete ?c i)"
    using assms len by (intro flowStep.delete) (simp_all add: closeFlow_def)
  ultimately show ?thesis
    unfolding retireTerminalFlow_def by (meson converse_rtranclp_into_rtranclp rtranclp.rtrancl_refl)
qed

definition sampleRegistry :: flowTable where
  "sampleRegistry = snd (reserveTerminalFlow 4 newFlows sampleRequest)"

lemma sampleRegistry_reached: "flowReaches 4 newFlows sampleRegistry"
  using flowStep.reserve [of 4 newFlows sampleRequest "fst (reserveTerminalFlow 4 newFlows sampleRequest)" sampleRegistry]
  by (auto simp: sampleRegistry_def)

lemma sampleRegistry_eq:
  "sampleRegistry = \<lparr>ft_flows = [newClientTerminalFlow sampleRequest], ft_table = [(requestKey sampleRequest, 0)]\<rparr>"
  by (simp add: sampleRegistry_def reserveTerminalFlow_def newFlows_def addFlow_def)


text \<open>
  A new attach reserves a flow for its stream. When it fails with an error that leaves its outcome open,
  the flow stays, and the same command attached again joins that flow instead of starting another, while a
  different command for the stream is refused as a conflict; when it fails definitely, the registry is as it
  was before, every later look-up of the stream finds nothing, and its flow is closed.
\<close>
theorem attach_retry_rejoins:
  assumes "map_of (ft_table t) (requestKey request) = None"
    "reserveAttachedTerminalFlow limit (Inr digest) t request = (Inr i, t1)"
    "completeAttachedTerminalFlow t1 i sid (Some e) = (r, t2)"
  shows "r = Some e \<and>
    (if ambiguousTerminalFlowError e
     then fst (reserveAttachedTerminalFlow limit (Inr digest) t2 request) = Inr i \<and>
          (\<forall>other. other \<noteq> digest \<longrightarrow>
             reserveAttachedTerminalFlow limit (Inr other) t2 request = (Inl (newError CodeConflict), t2))
     else ft_table t2 = ft_table t \<and> lookupTerminalFlow t2 (tsr_NativeSessionID request) (tsr_StreamID request) = None \<and>
          cf_closed (flowAt t2 i) \<and> \<not> isTerminalFlowActive t2 i)"
proof -
  let ?f = "(newClientTerminalFlow request)\<lparr>cf_attachDigest := digest, cf_attachPending := 1\<rparr>"
  have t1: "i = length (ft_flows t)" "t1 = addFlow t (requestKey request) ?f"
    using assms(1,2) by (auto simp: reserveAttachedTerminalFlow_def Let_def split: if_splits)
  have at: "flowAt t1 i = ?f" by (simp add: t1 addFlow_def)
  have ok1: "inTable t1 i" by (simp add: inTable_def t1 addFlow_def newFlow_key)
  have fresh: "filter (\<lambda>(k, _). k \<noteq> requestKey request) (ft_table t) = ft_table t"
    using assms(1) by (force simp: map_of_eq_None_iff filter_id_conv)
  have field: "cf_attachPending ?f = 1" "\<not> cf_established ?f" "\<not> cf_unknown ?f"
    by (simp_all add: newClientTerminalFlow_def)
  show ?thesis
  proof (cases "ambiguousTerminalFlowError e")
    case True
    let ?g = "?f\<lparr>cf_attachPending := 0, cf_unknown := True\<rparr>"
    have run: "r = Some e" "t2 = updateFlow t1 i ?g"
      using assms(3) True at by (simp_all add: completeAttachedTerminalFlow_def completeDecide_def completeFlow_def Let_def)
    have "map_of (ft_table t2) (requestKey request) = Some i" "flowAt t2 i = ?g"
      by (simp_all add: run t1 addFlow_def)
    moreover have "\<not> cf_retiring ?g" "cf_attachDigest ?g = digest" by (simp_all add: newFlow_key)
    ultimately show ?thesis
      using True run(1) by (simp add: reserveAttachedTerminalFlow_def Let_def)
  next
    case False
    let ?g = "?f\<lparr>cf_attachPending := 0, cf_retiring := True\<rparr>"
    have dec: "completeDecide t1 i (Some e) = (True, updateFlow t1 i ?g)"
      using False ok1 field unfolding completeDecide_def at by (simp add: completeFlow_def Let_def)
    have run: "r = Some e" "t2 = retireTerminalFlow (updateFlow t1 i ?g) i"
      using assms(3) dec by (simp_all add: completeAttachedTerminalFlow_def)
    have key: "terminalStreamKey (?g\<lparr>cf_closed := b\<rparr>) = requestKey request" "terminalStreamKey ?g = requestKey request" for b
      by (simp_all add: terminalStreamKey_def newClientTerminalFlow_def requestKey_def)
    have t2: "t2 = \<lparr>ft_flows = ft_flows t @ [?g\<lparr>cf_closed := True\<rparr>], ft_table = ft_table t\<rparr>"
      using key fresh
      by (simp add: run t1 addFlow_def retireTerminalFlow_def retireMark_def closeFlow_def retireDelete_def inTable_def)
    then show ?thesis
      using assms(1) run(1) False t1(1) key
      by (simp add: lookupTerminalFlow_def isTerminalFlowActive_def inTable_def requestKey_def)
  qed
qed

theorem attach_retry_rejoins_witness:
  "let t1 = snd (reserveAttachedTerminalFlow 4 (Inr ''d'') newFlows sampleRequest);
       lost = snd (completeAttachedTerminalFlow t1 0 [] (Some (newError CodeUnavailable)));
       refused = snd (completeAttachedTerminalFlow t1 0 [] (Some (newError CodePermissionDenied)))
   in fst (reserveAttachedTerminalFlow 4 (Inr ''d'') lost sampleRequest) = Inr 0 \<and> ft_table refused = []"
proof -
  let ?t1 = "snd (reserveAttachedTerminalFlow 4 (Inr ''d'') newFlows sampleRequest)"
  have 1: "map_of (ft_table newFlows) (requestKey sampleRequest) = None" by (simp add: newFlows_def)
  have 2: "reserveAttachedTerminalFlow 4 (Inr ''d'') newFlows sampleRequest = (Inr 0, ?t1)"
    by (simp add: reserveAttachedTerminalFlow_def newFlows_def)
  have 3: "ambiguousTerminalFlowError (newError CodeUnavailable)" "\<not> ambiguousTerminalFlowError (newError CodePermissionDenied)"
    by code_simp+
  show ?thesis
    using attach_retry_rejoins [OF 1 2 prod.collapse [symmetric], of "[]" "newError CodeUnavailable"]
      attach_retry_rejoins [OF 1 2 prod.collapse [symmetric], of "[]" "newError CodePermissionDenied"] 3
    by (simp add: Let_def newFlows_def)
qed
end
