(* ===== verification/Go_Url.thy ===== *)
theory Go_Url
  imports Go_Encoding
begin

text \<open>
  What \<open>protocol/artifact.go\<close> uses of \<open>net/url\<close>: \<open>url.Parse\<close> and the fields \<open>Scheme\<close>, \<open>User\<close>, \<open>Host\<close>,
  \<open>Path\<close>, \<open>RawQuery\<close> and \<open>Fragment\<close> of its result. The scheme is lower-cased, the path, the host and the
  fragment are unescaped, and a question mark or a number sign with nothing behind it leaves no trace in these fields.
\<close>

record url =
  url_Scheme :: string
  url_User :: bool
  url_Host :: string
  url_Path :: string
  url_RawQuery :: string
  url_Fragment :: string

text \<open>\<open>strings.Cut\<close> at a one-byte separator.\<close>

fun stringsCut :: "char \<Rightarrow> string \<Rightarrow> string \<times> string" where
  "stringsCut c [] = ([], [])"
| "stringsCut c (x # s) = (if x = c then ([], s) else apfst ((#) x) (stringsCut c s))"

definition isLetter :: "char \<Rightarrow> bool" where
  "isLetter c \<longleftrightarrow> 97 \<le> byte c \<and> byte c \<le> 122 \<or> 65 \<le> byte c \<and> byte c \<le> 90"

definition isNumeral :: "char \<Rightarrow> bool" where
  "isNumeral c \<longleftrightarrow> 48 \<le> byte c \<and> byte c \<le> 57"

definition isSchemeChar :: "char \<Rightarrow> bool" where
  "isSchemeChar c \<longleftrightarrow> isLetter c \<or> isNumeral c \<or> c \<in> set ''+-.''"

definition containsCTLByte :: "string \<Rightarrow> bool" where
  "containsCTLByte s \<longleftrightarrow> list_ex (\<lambda>c. byte c < 32 \<or> byte c = 127) s"

text \<open>\<open>getScheme\<close>: the scheme and the rest; no scheme is the empty one, and a colon in front is an error.\<close>

definition getScheme :: "string \<Rightarrow> (string \<times> string) option" where
  "getScheme s =
     (case s of
        [] \<Rightarrow> Some ([], s)
      | c # _ \<Rightarrow>
          if c = CHR '':'' then None
          else if \<not> isLetter c then Some ([], s)
          else (case dropWhile isSchemeChar s of
                  [] \<Rightarrow> Some ([], s)
                | d # rest \<Rightarrow> if d = CHR '':'' then Some (takeWhile isSchemeChar s, rest) else Some ([], s)))"

text \<open>\<open>unescape\<close> for a path or a fragment, and for a host.\<close>

fun unescapePath :: "string \<Rightarrow> string option" where
  "unescapePath [] = Some []"
| "unescapePath (c # s) =
     (if c \<noteq> CHR ''%'' then map_option ((#) c) (unescapePath s)
      else case s of
        a # b # r \<Rightarrow>
          (case (hexVal a, hexVal b) of
             (Some x, Some y) \<Rightarrow> map_option ((#) (char_of (x * 16 + y))) (unescapePath r)
           | _ \<Rightarrow> None)
      | _ \<Rightarrow> None)"

definition hostChar :: "char \<Rightarrow> bool" where
  "hostChar c \<longleftrightarrow> isLetter c \<or> isNumeral c \<or> c \<in> set ''-_.~!$&()*+,;=:[]<>'' \<or> c = CHR 0x22 \<or> c = CHR 0x27 \<or> byte c \<ge> 128"

fun unescapeHost :: "string \<Rightarrow> string option" where
  "unescapeHost [] = Some []"
| "unescapeHost (c # s) =
     (if c \<noteq> CHR ''%'' then (if hostChar c then map_option ((#) c) (unescapeHost s) else None)
      else case s of
        a # b # r \<Rightarrow>
          (case (hexVal a, hexVal b) of
             (Some x, Some y) \<Rightarrow>
               if x < 8 \<and> (a, b) \<noteq> (CHR ''2'', CHR ''5'') then None
               else map_option ((#) (char_of (x * 16 + y))) (unescapeHost r)
           | _ \<Rightarrow> None)
      | _ \<Rightarrow> None)"

text \<open>
  \<open>parseHost\<close>. A bracketed address is not followed: its result still has the bracket, which no caller here accepts,
  so the model answers with an error at once.
\<close>

definition parseHost :: "string \<Rightarrow> string option" where
  "parseHost host =
     (if hasPrefix host ''['' then None
      else if CHR '':'' \<in> set host \<and> \<not> list_all isNumeral (rev (takeWhile (\<lambda>c. c \<noteq> CHR '':'') (rev host))) then None
      else unescapeHost host)"

text \<open>\<open>parseAuthority\<close>: with an at sign, an error or a user; the syntax of the user is not followed.\<close>

definition parseAuthority :: "string \<Rightarrow> (bool \<times> string) option" where
  "parseAuthority authority =
     (if CHR ''@'' \<in> set authority
      then map_option (Pair True) (parseHost (rev (takeWhile (\<lambda>c. c \<noteq> CHR ''@'') (rev authority))))
      else map_option (Pair False) (parseHost authority))"

text \<open>The query: a single question mark at the end is dropped, otherwise the text is cut at the first one.\<close>

definition splitQuery :: "string \<Rightarrow> string \<times> string" where
  "splitQuery rest =
     (if rest \<noteq> [] \<and> last rest = CHR ''?'' \<and> count_list rest (CHR ''?'') = 1 then (butlast rest, []) else stringsCut (CHR ''?'') rest)"

definition parseHierarchy :: "string \<Rightarrow> string \<Rightarrow> string \<Rightarrow> url option" where
  "parseHierarchy scheme rest query =
     (let build = (\<lambda>user host path.
            map_option (\<lambda>p. \<lparr>url_Scheme = scheme, url_User = user, url_Host = host, url_Path = p, url_RawQuery = query, url_Fragment = []\<rparr>)
              (unescapePath path))
      in if (scheme \<noteq> [] \<or> \<not> hasPrefix rest ''///'') \<and> hasPrefix rest ''//''
         then (let authority = takeWhile (\<lambda>c. c \<noteq> CHR ''/'') (drop 2 rest);
                   path = dropWhile (\<lambda>c. c \<noteq> CHR ''/'') (drop 2 rest)
               in case parseAuthority authority of
                    None \<Rightarrow> None
                  | Some (user, host) \<Rightarrow> build user host path)
         else build False [] rest)"

definition parse :: "string \<Rightarrow> url option" where
  "parse raw =
     (if containsCTLByte raw then None
      else case getScheme raw of
        None \<Rightarrow> None
      | Some (sch, rest0) \<Rightarrow>
          (let scheme = map toLowerASCII sch; (rest, query) = splitQuery rest0 in
           if \<not> hasPrefix rest ''/''
           then (if scheme \<noteq> []
                 then Some \<lparr>url_Scheme = scheme, url_User = False, url_Host = [], url_Path = [], url_RawQuery = query, url_Fragment = []\<rparr>
                 else if CHR '':'' \<in> set (takeWhile (\<lambda>c. c \<noteq> CHR ''/'') rest) then None
                 else parseHierarchy scheme rest query)
           else parseHierarchy scheme rest query))"

definition url_Parse :: "string \<Rightarrow> url option" where
  "url_Parse raw =
     (let (u, frag) = stringsCut (CHR ''#'') raw in
      case parse u of
        None \<Rightarrow> None
      | Some parsed \<Rightarrow>
          if frag = [] then Some parsed
          else map_option (\<lambda>f. parsed\<lparr>url_Fragment := f\<rparr>) (unescapePath frag))"

section \<open>Lemmas\<close>

lemma stringsCut_eq: "stringsCut c s = (a, b) \<Longrightarrow> c \<notin> set a \<and> (s = a \<and> b = [] \<or> s = a @ c # b)"
  by (induction s arbitrary: a) (auto simp: apfst_def map_prod_def split: if_splits prod.splits)

lemma stringsCut_notin [simp]: "c \<notin> set s \<Longrightarrow> stringsCut c s = (s, [])"
  by (induction s) auto

lemma stringsCut_append [simp]: "c \<notin> set s \<Longrightarrow> stringsCut c (s @ c # t) = (s, t)"
  by (induction s) auto

lemma unescapePath_plain: "CHR ''%'' \<notin> set s \<Longrightarrow> unescapePath s = Some s"
  by (induction s) auto

lemma unescapePath_Nil_iff: "unescapePath s = Some [] \<longleftrightarrow> s = []"
  by (cases s) (auto split: list.splits option.splits if_splits)

lemma unescapeHost_plain: "list_all hostChar s \<Longrightarrow> CHR ''%'' \<notin> set s \<Longrightarrow> unescapeHost s = Some s"
  by (induction s) auto

text \<open>An escape in a host gives a byte above 127 or a percent sign.\<close>

lemma unescapeHost_escape:
  assumes "unescapeHost s = Some t" "CHR ''%'' \<in> set s"
  shows "\<exists>c \<in> set t. byte c \<ge> 128 \<or> c = CHR ''%''"
  using assms
proof (induction s arbitrary: t rule: unescapeHost.induct)
  case (2 c s)
  show ?case
  proof (cases "c = CHR ''%''")
    case False
    then obtain t' where t': "unescapeHost s = Some t'" "t = c # t'" "hostChar c"
      using "2.prems" by (auto split: if_splits)
    then have "\<exists>c \<in> set t'. byte c \<ge> 128 \<or> c = CHR ''%''" using "2.IH"(1) False "2.prems" by auto
    then show ?thesis using t' by auto
  next
    case True
    then obtain a b r x y t' where p: "s = a # b # r" "hexVal a = Some x" "hexVal b = Some y"
      "\<not> (x < 8 \<and> (a, b) \<noteq> (CHR ''2'', CHR ''5''))" "t = char_of (x * 16 + y) # t'"
      using "2.prems"(1) by (auto split: list.splits option.splits if_splits)
    have bounds: "x < 16" "y < 16" using p(2,3) by (auto simp: hexVal_def Let_def split: if_splits)
    show ?thesis
    proof (cases "x < 8")
      case True
      then have "a = CHR ''2''" "b = CHR ''5''" using p(4) by auto
      then have "x * 16 + y = byte (CHR ''%'')" using p(2,3) by (auto simp: hexVal_def Let_def)
      then have "char_of (x * 16 + y) = CHR ''%''" by (simp only: char_of_char)
      then show ?thesis using p(5) by auto
    next
      case False
      have "x * 16 + y < 256" using bounds by simp
      then have "byte (char_of (x * 16 + y)) = x * 16 + y" by (simp only: of_char_of) simp
      then show ?thesis using False p(5) by auto
    qed
  qed
qed simp

end
