(* ===== verification/Proto_Documents.thy ===== *)
theory Proto_Documents
  imports Go_Url Proto_Verification
begin

text \<open>
  \<open>protocol/artifact.go\<close>, \<open>context.go\<close>, \<open>environment.go\<close> and \<open>harness.go\<close>: the documents and their validators.
  A request or result that consists of one field is that field. SHA-256 is an argument of the digest checks.
\<close>

section \<open>Artifacts\<close>

definition ArtifactCreatorType_Validate :: "string \<Rightarrow> verr" where
  "ArtifactCreatorType_Validate t =
     (if t \<in> {''agent'', ''human'', ''workflow'', ''system''} then nil else errorf ''artifact creator type is unsupported'')"

definition ArtifactReviewState_Validate :: "string \<Rightarrow> verr" where
  "ArtifactReviewState_Validate s =
     (if s \<in> {''pending'', ''approved'', ''rejected''} then nil else errorf ''artifact review state is unsupported'')"

abbreviation ArtifactLocalOnly :: string where "ArtifactLocalOnly \<equiv> ''local-only''"
abbreviation ArtifactUploadEligible :: string where "ArtifactUploadEligible \<equiv> ''upload-eligible''"
abbreviation ArtifactHosted :: string where "ArtifactHosted \<equiv> ''hosted''"

definition ArtifactLocality_Validate :: "string \<Rightarrow> verr" where
  "ArtifactLocality_Validate l =
     (if l \<in> {ArtifactLocalOnly, ArtifactUploadEligible, ArtifactHosted} then nil else errorf ''artifact locality is unsupported'')"

definition locatorScheme :: "string \<Rightarrow> string" where
  "locatorScheme locality = (if locality = ArtifactHosted then ''artifact'' else ''local-resource'')"

definition validateArtifactLocator :: "string \<Rightarrow> string \<Rightarrow> verr" where
  "validateArtifactLocator locality locator =
     (let invalid = errorf ''artifact locator is invalid'' in
      case ArtifactLocality_Validate locality of
        Some e \<Rightarrow> Some e
      | None \<Rightarrow>
          if locator = [] \<or> length locator > 2048 \<or> containsAny locator (CHR 0x5C # nulCRLF) then invalid
          else (case url_Parse locator of
                  None \<Rightarrow> invalid
                | Some parsed \<Rightarrow>
                    if url_User parsed \<or> url_Host parsed = [] \<or> url_Path parsed = [] \<or> url_RawQuery parsed \<noteq> [] \<or> url_Fragment parsed \<noteq> []
                    then invalid
                    else if url_Scheme parsed \<noteq> locatorScheme locality then errorf ''artifact locator scheme does not match locality''
                    else if validateID ''artifact locator authority'' (url_Host parsed) \<noteq> nil then invalid
                    else (let token = trimPrefix (url_Path parsed) ''/'' in
                          if token = url_Path parsed \<or> token = [] \<or> contains token ''/''
                          then errorf ''artifact locator must contain exactly one opaque token''
                          else if validateID ''artifact locator token'' token \<noteq> nil then errorf ''artifact locator token is invalid''
                          else nil)))"

record Artifact =
  art_ProtocolVersion :: string
  art_ArtifactID :: string
  art_SessionID :: string
  art_CreatorType :: string
  art_CreatorID :: string
  art_Version :: string
  art_ReviewState :: string
  art_Locality :: string
  art_Locator :: string
  art_MIMEType :: string
  art_Size :: int
  art_Digest :: string
  art_Classification :: string
  art_SourceResources :: "string list"
  art_Extensions :: extensions

definition Artifact_Validate :: "Artifact \<Rightarrow> verr" where
  "Artifact_Validate a =
     first_err
      [validateProtocol (art_ProtocolVersion a),
       validateIDs [(''artifact_id'', art_ArtifactID a), (''session_id'', art_SessionID a), (''creator_id'', art_CreatorID a)],
       ArtifactCreatorType_Validate (art_CreatorType a),
       validateVersion ''version'' (art_Version a),
       ArtifactReviewState_Validate (art_ReviewState a),
       validateArtifactLocator (art_Locality a) (art_Locator a),
       validateText ''artifact MIME type'' (art_MIMEType a) 256,
       if art_Size a < 0 then errorf ''artifact size is invalid'' else nil,
       Digest_Validate (art_Digest a),
       Sensitivity_Validate (art_Classification a),
       if length (art_SourceResources a) > 256 then errorf ''too many artifact source resources'' else nil,
       validateUniqueStrings ''source_resources'' (art_SourceResources a),
       each_err (validateID ''source_resource'') (art_SourceResources a),
       validateExtensions (art_Extensions a)]"

record ProviderArtifactReport =
  rep_ProtocolVersion :: string
  rep_ReportID :: string
  rep_ProviderID :: string
  rep_Role :: string
  rep_StreamID :: string
  rep_NativeSessionID :: string
  rep_NativeArtifactID :: string
  rep_Version :: string
  rep_Locality :: string
  rep_Locator :: string
  rep_MIMEType :: string
  rep_Size :: int
  rep_Digest :: string
  rep_SourceLocators :: "string list"
  rep_Extensions :: extensions

definition ProviderArtifactReport_Validate :: "ProviderArtifactReport \<Rightarrow> verr" where
  "ProviderArtifactReport_Validate r =
     first_err
      [validateProtocol (rep_ProtocolVersion r),
       validateIDs [(''report_id'', rep_ReportID r), (''provider_id'', rep_ProviderID r), (''stream_id'', rep_StreamID r)],
       Role_validateConcern (rep_Role r),
       if rep_NativeSessionID r \<noteq> [] then NativeID_Validate (rep_NativeSessionID r) else nil,
       NativeID_Validate (rep_NativeArtifactID r),
       validateVersion ''version'' (rep_Version r),
       if rep_Locality r \<noteq> ArtifactLocalOnly \<and> rep_Locality r \<noteq> ArtifactUploadEligible
         then errorf ''provider artifact locality is unsupported'' else nil,
       validateArtifactLocator (rep_Locality r) (rep_Locator r),
       validateText ''artifact MIME type'' (rep_MIMEType r) 256,
       if rep_Size r < 0 then errorf ''artifact size is invalid'' else nil,
       Digest_Validate (rep_Digest r),
       if length (rep_SourceLocators r) > 256 then errorf ''too many artifact source locators'' else nil,
       validateUniqueStrings ''source_locators'' (rep_SourceLocators r),
       each_err (\<lambda>l. if validateArtifactLocator ArtifactLocalOnly l \<noteq> nil then errorf ''artifact source locator is invalid'' else nil)
         (rep_SourceLocators r),
       rejectReservedExtensions (rep_Extensions r),
       validateExtensions (rep_Extensions r)]"

definition ArtifactListRequest_Validate :: "string \<Rightarrow> verr" where
  "ArtifactListRequest_Validate nativeSessionID = NativeID_Validate nativeSessionID"

definition ArtifactListResult_Validate :: "ProviderArtifactReport list \<Rightarrow> verr" where
  "ArtifactListResult_Validate artifacts =
     first_err
      [if length artifacts > 4096 then errorf ''too many provider artifacts'' else nil,
       each_unique ProviderArtifactReport_Validate rep_NativeArtifactID ''provider artifact is duplicated'' artifacts]"

definition ArtifactRegisterRequest_Validate :: "ProviderArtifactReport \<Rightarrow> verr" where
  "ArtifactRegisterRequest_Validate artifact = ProviderArtifactReport_Validate artifact"

definition ArtifactRegisterResult_Validate :: "OperationResult \<Rightarrow> verr" where
  "ArtifactRegisterResult_Validate operation = OperationResult_Validate operation"

section \<open>Context\<close>

definition ContextDeliveryMode_Validate :: "string \<Rightarrow> verr" where
  "ContextDeliveryMode_Validate m =
     (if m \<in> {''initial_prompt'', ''system_instructions'', ''mounted_file'', ''environment_reference'', ''mcp_resource'',
              ''acp_initialization'', ''project_instructions'', ''follow_up_message''}
      then nil else errorf ''context delivery mode is unsupported'')"

definition ContextDeliveryStatus_Validate :: "string \<Rightarrow> verr" where
  "ContextDeliveryStatus_Validate s =
     (if s \<in> {''accepted'', ''rejected'', ''failed''} then nil else errorf ''context delivery status is unsupported'')"

record ContextReceipt =
  rcp_ProtocolVersion :: string
  rcp_SessionID :: string
  rcp_ProviderID :: string
  rcp_NativeSessionID :: string
  rcp_ContextVersion :: string
  rcp_SourceDigest :: string
  rcp_DeliveryMode :: string
  rcp_DeliveredAt :: gotime
  rcp_Status :: string
  rcp_NativeRuntimeMayIgnore :: bool

definition ContextReceipt_Validate :: "ContextReceipt \<Rightarrow> verr" where
  "ContextReceipt_Validate r =
     first_err
      [validateProtocol (rcp_ProtocolVersion r),
       validateIDs [(''session_id'', rcp_SessionID r), (''provider_id'', rcp_ProviderID r), (''context_version'', rcp_ContextVersion r)],
       NativeID_Validate (rcp_NativeSessionID r),
       Digest_Validate (rcp_SourceDigest r),
       ContextDeliveryMode_Validate (rcp_DeliveryMode r),
       validateTime ''delivered_at'' (rcp_DeliveredAt r),
       ContextDeliveryStatus_Validate (rcp_Status r)]"

definition Accepted :: "ContextReceipt \<Rightarrow> bool" where
  "Accepted r \<longleftrightarrow> rcp_Status r = ''accepted''"

record ContextDeliverRequest =
  cdr_NativeSessionID :: string
  cdr_ContextVersion :: string
  cdr_SourceDigest :: string
  cdr_DeliveryMode :: string
  cdr_Content :: string
  cdr_ContentDigest :: string

definition ContextDeliverRequest_Validate :: "(string \<Rightarrow> string) \<Rightarrow> ContextDeliverRequest \<Rightarrow> verr" where
  "ContextDeliverRequest_Validate sha256 r =
     first_err
      [NativeID_Validate (cdr_NativeSessionID r),
       validateID ''context_version'' (cdr_ContextVersion r),
       Digest_Validate (cdr_SourceDigest r),
       ContextDeliveryMode_Validate (cdr_DeliveryMode r),
       validateCompactJSONDigest sha256 ''context content'' (cdr_Content r) (cdr_ContentDigest r)]"

definition ContextDeliverResult_Validate :: "ContextReceipt \<Rightarrow> verr" where
  "ContextDeliverResult_Validate receipt = ContextReceipt_Validate receipt"

record ContextConfirmRequest =
  ccr_NativeSessionID :: string
  ccr_ContextVersion :: string

definition ContextConfirmRequest_Validate :: "ContextConfirmRequest \<Rightarrow> verr" where
  "ContextConfirmRequest_Validate r =
     first_err [NativeID_Validate (ccr_NativeSessionID r), validateID ''context_version'' (ccr_ContextVersion r)]"

definition ContextConfirmResult_Validate :: "ContextReceipt \<Rightarrow> verr" where
  "ContextConfirmResult_Validate receipt = ContextReceipt_Validate receipt"

section \<open>Environments\<close>

record Environment =
  env_ProviderID :: string
  env_NativeEnvironmentID :: string
  env_Platform :: Platform
  env_Health :: StateReport
  env_Configuration :: string

definition Environment_Validate :: "Environment \<Rightarrow> verr" where
  "Environment_Validate e =
     first_err
      [validateID ''provider_id'' (env_ProviderID e),
       NativeID_Validate (env_NativeEnvironmentID e),
       Platform_Validate (env_Platform e),
       StateReport_validate (env_Health e) AxisHealth,
       if env_Configuration e \<noteq> [] \<and> \<not> json_Valid (env_Configuration e)
         then errorf ''environment configuration is invalid'' else nil]"

definition EnvironmentInspectRequest_Validate :: "string \<Rightarrow> verr" where
  "EnvironmentInspectRequest_Validate nativeEnvironmentID = NativeID_Validate nativeEnvironmentID"

record EnvironmentProvisionRequest =
  epr_Configuration :: string
  epr_ConfigurationDigest :: string
  epr_ImageDigest :: string

definition EnvironmentProvisionRequest_Validate :: "(string \<Rightarrow> string) \<Rightarrow> EnvironmentProvisionRequest \<Rightarrow> verr" where
  "EnvironmentProvisionRequest_Validate sha256 r =
     first_err
      [validateCompactJSONDigest sha256 ''environment configuration'' (epr_Configuration r) (epr_ConfigurationDigest r),
       if epr_ImageDigest r \<noteq> [] then Digest_Validate (epr_ImageDigest r) else nil]"

record EnvironmentMountRequest =
  emr_NativeEnvironmentID :: string
  emr_MountID :: string
  emr_ResourceReference :: string
  emr_ReadOnly :: bool

definition EnvironmentMountRequest_Validate :: "EnvironmentMountRequest \<Rightarrow> verr" where
  "EnvironmentMountRequest_Validate r =
     first_err
      [NativeID_Validate (emr_NativeEnvironmentID r), validateID ''mount_id'' (emr_MountID r),
       validateOpaqueReference ''resource_reference'' (emr_ResourceReference r)]"

definition EnvironmentResult_Validate :: "Environment \<Rightarrow> verr" where
  "EnvironmentResult_Validate environment = Environment_Validate environment"

section \<open>Harnesses and agents\<close>

record HarnessState =
  hst_ProviderID :: string
  hst_NativeSessionID :: string
  hst_Activity :: StateReport
  hst_Usage :: Usage

definition HarnessState_Validate :: "HarnessState \<Rightarrow> verr" where
  "HarnessState_Validate s =
     first_err
      [validateID ''provider_id'' (hst_ProviderID s), NativeID_Validate (hst_NativeSessionID s),
       StateReport_validate (hst_Activity s) AxisActivity]"

definition HarnessSessionRequest_Validate :: "string \<Rightarrow> verr" where
  "HarnessSessionRequest_Validate nativeSessionID = NativeID_Validate nativeSessionID"

record HarnessLaunchRequest =
  hlr_NativeEnvironmentID :: string
  hlr_NativeRuntimeID :: string
  hlr_ContextVersion :: string
  hlr_Configuration :: string
  hlr_ConfigurationDigest :: string

definition HarnessLaunchRequest_Validate :: "(string \<Rightarrow> string) \<Rightarrow> HarnessLaunchRequest \<Rightarrow> verr" where
  "HarnessLaunchRequest_Validate sha256 r =
     first_err
      [NativeID_Validate (hlr_NativeEnvironmentID r),
       if hlr_NativeRuntimeID r \<noteq> [] then NativeID_Validate (hlr_NativeRuntimeID r) else nil,
       validateID ''context_version'' (hlr_ContextVersion r),
       validateCompactJSONDigest sha256 ''harness configuration'' (hlr_Configuration r) (hlr_ConfigurationDigest r)]"

record HarnessResumeRequest =
  hrr_NativeResumeReference :: string
  hrr_ContextVersion :: string

definition HarnessResumeRequest_Validate :: "HarnessResumeRequest \<Rightarrow> verr" where
  "HarnessResumeRequest_Validate r =
     first_err [NativeID_Validate (hrr_NativeResumeReference r), validateID ''context_version'' (hrr_ContextVersion r)]"

record HarnessSessionResult =
  hsr_ProviderID :: string
  hsr_NativeSessionID :: string
  hsr_NativeResumeReference :: string
  hsr_State :: HarnessState

definition HarnessSessionResult_Validate :: "HarnessSessionResult \<Rightarrow> verr" where
  "HarnessSessionResult_Validate r =
     first_err
      [validateID ''provider_id'' (hsr_ProviderID r),
       NativeID_Validate (hsr_NativeSessionID r),
       if hsr_NativeResumeReference r \<noteq> [] then NativeID_Validate (hsr_NativeResumeReference r) else nil,
       if hst_ProviderID (hsr_State r) \<noteq> hsr_ProviderID r \<or> hst_NativeSessionID (hsr_State r) \<noteq> hsr_NativeSessionID r
         then errorf ''harness result identity is inconsistent'' else nil,
       HarnessState_Validate (hsr_State r)]"

definition HarnessListResult_Validate :: "HarnessSessionResult list \<Rightarrow> verr" where
  "HarnessListResult_Validate sessions =
     first_err
      [if length sessions > 4096 then errorf ''too many harness sessions'' else nil,
       each_unique HarnessSessionResult_Validate hsr_NativeSessionID ''harness session is duplicated'' sessions]"

record AgentMessageRequest =
  amr_NativeSessionID :: string
  amr_Message :: string
  amr_MessageDigest :: string

definition AgentMessageRequest_Validate :: "(string \<Rightarrow> string) \<Rightarrow> AgentMessageRequest \<Rightarrow> verr" where
  "AgentMessageRequest_Validate sha256 r =
     first_err
      [NativeID_Validate (amr_NativeSessionID r),
       validateCompactJSONDigest sha256 ''agent message'' (amr_Message r) (amr_MessageDigest r)]"

definition AgentStateResult_Validate :: "HarnessState \<Rightarrow> verr" where
  "AgentStateResult_Validate state = HarnessState_Validate state"

record AgentTool =
  tool_Name :: string
  tool_Description :: string
  tool_InputSchema :: string

definition AgentTool_Validate :: "AgentTool \<Rightarrow> verr" where
  "AgentTool_Validate t =
     first_err
      [validateToken ''agent tool name'' (tool_Name t),
       if tool_Description t \<noteq> [] then validateText ''agent tool description'' (tool_Description t) 512 else nil,
       if tool_InputSchema t = [] \<or> \<not> json_Valid (tool_InputSchema t) then errorf ''agent tool input schema is invalid'' else nil]"

definition AgentToolsResult_Validate :: "AgentTool list \<Rightarrow> verr" where
  "AgentToolsResult_Validate tools =
     first_err
      [if length tools > 256 then errorf ''too many agent tools'' else nil,
       each_unique AgentTool_Validate tool_Name ''agent tool is duplicated'' tools]"

record AgentNativeIdentityResult =
  ani_NativeSessionID :: string
  ani_NativeAgentID :: string

definition AgentNativeIdentityResult_Validate :: "AgentNativeIdentityResult \<Rightarrow> verr" where
  "AgentNativeIdentityResult_Validate r =
     first_err [NativeID_Validate (ani_NativeSessionID r), NativeID_Validate (ani_NativeAgentID r)]"

section \<open>Locators\<close>

text \<open>The characters of a path that unescapes to an identifier, and of a scheme that is one of the two in lower case.\<close>

lemma hexVal_id: "hexVal a = Some x \<Longrightarrow> in_class cls_id a"
  by (auto simp: hexVal_def Let_def in_class_def split: if_splits)

lemma unescapePath_id_chars:
  assumes "unescapePath raw = Some token" "c \<in> set raw"
  shows "c = CHR ''%'' \<or> in_class cls_id c \<or> c \<in> set token"
  using assms
proof (induction raw arbitrary: token rule: unescapePath.induct)
  case (2 d s)
  show ?case
  proof (cases "d = CHR ''%''")
    case True
    then obtain a b r x y t' where p: "s = a # b # r" "hexVal a = Some x" "hexVal b = Some y"
      "unescapePath r = Some t'" "token = char_of (x * 16 + y) # t'"
      using "2.prems"(1) by (auto split: list.splits option.splits)
    have "c = d \<or> c = a \<or> c = b \<or> c \<in> set r" using "2.prems"(2) p(1) by auto
    moreover have "c = CHR ''%'' \<or> in_class cls_id c \<or> c \<in> set t'" if "c \<in> set r"
      using "2.IH"(2) True p that by simp
    ultimately show ?thesis using True p hexVal_id by auto
  next
    case False
    then obtain t' where "unescapePath s = Some t'" "token = d # t'" using "2.prems"(1) by auto
    then show ?thesis using "2.IH"(1) False "2.prems"(2) by auto
  qed
qed simp

lemma idPattern_all: "matchString idPattern s \<Longrightarrow> list_all (in_class cls_id) s"
  by (simp add: list_all_iff idPattern_chars del: matchString.simps)

lemma lower_letter: "toLowerASCII c = d \<Longrightarrow> 97 \<le> byte d \<and> byte d \<le> 122 \<Longrightarrow> isLetter c"
  by (auto simp: toLowerASCII_def isLetter_def split: if_splits)

lemma lower_dash:
  assumes "toLowerASCII c = CHR ''-''"
  shows "c = CHR ''-''"
proof (cases "65 \<le> byte c \<and> byte c \<le> 90")
  case True
  then have "byte (char_of (byte c + 32)) = byte c + 32" by (simp only: of_char_of) simp
  moreover have "char_of (byte c + 32) = CHR ''-''" using assms True by (simp only: toLowerASCII_def if_True simp_thms)
  ultimately have "byte c + 32 = byte (CHR ''-'')" by metis
  then show ?thesis using True by simp
qed (use assms in \<open>simp add: toLowerASCII_def split: if_splits\<close>)

lemma scheme_chars:
  assumes "map toLowerASCII sch = locatorScheme locality"
  shows "sch \<noteq> []" "isLetter (hd sch)" "list_all isSchemeChar sch"
proof -
  have "list_all (\<lambda>d. 97 \<le> byte d \<and> byte d \<le> 122 \<or> d = CHR ''-'') (locatorScheme locality)"
    by (simp add: locatorScheme_def)
  then have "\<forall>c \<in> set sch. 97 \<le> byte (toLowerASCII c) \<and> byte (toLowerASCII c) \<le> 122 \<or> toLowerASCII c = CHR ''-''"
    by (simp add: list_all_iff flip: assms)
  then have "\<forall>c \<in> set sch. isLetter c \<or> c = CHR ''-''" using lower_letter [OF refl] lower_dash by blast
  then show "list_all isSchemeChar sch" by (auto simp: list_all_iff isSchemeChar_def)
  obtain d ds where d: "locatorScheme locality = d # ds" "97 \<le> byte d \<and> byte d \<le> 122"
    by (cases "locality = ArtifactHosted") (simp_all add: locatorScheme_def)
  then show "sch \<noteq> []" "isLetter (hd sch)" using assms lower_letter by (auto simp: map_eq_Cons_conv)
qed


lemma id_char_facts:
  assumes "in_class cls_id c"
  shows "hostChar c" "c \<noteq> CHR ''%''" "c \<notin> set ''/?#@:[''" "32 \<le> byte c" "byte c < 127" "c \<noteq> CHR 0x5C"
proof -
  have "byte c = 46 \<longleftrightarrow> c = CHR ''.''" "byte c = 95 \<longleftrightarrow> c = CHR ''_''" "byte c = 45 \<longleftrightarrow> c = CHR ''-''"
    using of_char_eq_iff [of c "CHR ''.''"] of_char_eq_iff [of c "CHR ''_''"] of_char_eq_iff [of c "CHR ''-''"] by simp_all
  then have c: "isLetter c \<or> isNumeral c \<or> c = CHR ''.'' \<or> c = CHR ''_'' \<or> c = CHR ''-''"
    using assms by (auto simp: in_class_def isLetter_def isNumeral_def)
  then show "hostChar c" by (auto simp: hostChar_def)
  show "c \<noteq> CHR ''%''" "c \<notin> set ''/?#@:[''" "32 \<le> byte c" "byte c < 127" "c \<noteq> CHR 0x5C"
    using c by (auto simp: isLetter_def isNumeral_def)
qed

lemma schemeChar_facts:
  assumes "isSchemeChar c"
  shows "c \<notin> set ''#?/''" "32 \<le> byte c" "byte c < 127"
  using assms by (auto simp: isSchemeChar_def isLetter_def isNumeral_def)

lemma parseHost_id:
  assumes "matchString idPattern host"
  shows "parseHost host = Some host"
proof -
  have chars: "in_class cls_id c" if "c \<in> set host" for c using idPattern_chars [OF assms that] .
  have "CHR '':'' \<notin> set host" "CHR ''%'' \<notin> set host" "list_all hostChar host"
    using chars id_char_facts by (auto simp: list_all_iff)
  moreover have "\<not> hasPrefix host ''[''" using chars id_char_facts(3) by (cases host) auto
  ultimately show ?thesis by (simp add: parseHost_def unescapeHost_plain)
qed

lemma parseHost_only_id:
  assumes "parseHost auth = Some host" "matchString idPattern host"
  shows "auth = host"
proof -
  have un: "unescapeHost auth = Some host" using assms(1) by (simp add: parseHost_def split: if_splits)
  have "CHR ''%'' \<notin> set auth"
  proof
    assume "CHR ''%'' \<in> set auth"
    from unescapeHost_escape [OF un this] obtain c where "c \<in> set host" "byte c \<ge> 128 \<or> c = CHR ''%''" by blast
    then show False using id_char_facts [OF idPattern_chars [OF assms(2)]] by fastforce
  qed
  moreover have "list_all hostChar s" if "unescapeHost s = Some t" "CHR ''%'' \<notin> set s" for s t
    using that by (induction s arbitrary: t) (auto split: if_splits)
  ultimately show ?thesis using un unescapeHost_plain by (metis option.inject)
qed

text \<open>The texts that the validator accepts.\<close>

definition locatorText :: "string \<Rightarrow> string \<Rightarrow> string \<Rightarrow> string \<Rightarrow> string" where
  "locatorText sch host raw tail = sch @ ''://'' @ host @ ''/'' @ raw @ tail"

lemma getScheme_text:
  assumes "sch \<noteq> []" "isLetter (hd sch)" "list_all isSchemeChar sch"
  shows "getScheme (sch @ CHR '':'' # rest) = Some (sch, rest)"
proof -
  obtain c cs where c: "sch = c # cs" using assms(1) by (cases sch) auto
  have "\<not> isSchemeChar (CHR '':'')" by (simp add: isSchemeChar_def isLetter_def isNumeral_def)
  then have "takeWhile isSchemeChar (sch @ CHR '':'' # rest) = sch" "dropWhile isSchemeChar (sch @ CHR '':'' # rest) = CHR '':'' # rest"
    using assms(3) by (simp_all add: list_all_iff)
  moreover have "c \<noteq> CHR '':''" "isLetter c" using assms(2) c by (auto simp: isLetter_def)
  ultimately show ?thesis using c by (simp add: getScheme_def)
qed

lemma getScheme_eq:
  assumes "getScheme s = Some (sch, rest)" "sch \<noteq> []"
  shows "s = sch @ CHR '':'' # rest"
proof -
  have "sch = takeWhile isSchemeChar s" "dropWhile isSchemeChar s = CHR '':'' # rest"
    using assms by (auto simp: getScheme_def split: list.splits if_splits)
  then show ?thesis using takeWhile_dropWhile_id [of isSchemeChar s] by simp
qed

lemma splitQuery_eq:
  assumes "splitQuery s = (rest, [])"
  shows "s = rest \<or> s = rest @ ''?''"
proof (cases "s \<noteq> [] \<and> last s = CHR ''?'' \<and> count_list s (CHR ''?'') = 1")
  case True
  then have "rest = butlast s" "s = butlast s @ [CHR ''?'']" using assms append_butlast_last_id [of s] by (simp_all add: splitQuery_def)
  then show ?thesis by simp
next
  case False
  then have "stringsCut (CHR ''?'') s = (rest, [])" using assms by (simp only: splitQuery_def if_False)
  from stringsCut_eq [OF this] show ?thesis by blast
qed

lemma splitQuery_text: "CHR ''?'' \<notin> set s \<Longrightarrow> splitQuery s = (s, [])" "CHR ''?'' \<notin> set s \<Longrightarrow> splitQuery (s @ ''?'') = (s, [])"
  by (cases s rule: rev_cases) (auto simp: splitQuery_def count_list_append count_notin)

lemma parse_locator:
  assumes sch: "map toLowerASCII sch = locatorScheme locality" and host: "matchString idPattern host"
    and raw: "unescapePath raw = Some token" "matchString idPattern token" and tail: "tail \<in> {[], ''?'', ''#'', ''?#''}"
  shows "url_Parse (locatorText sch host raw tail) =
    Some \<lparr>url_Scheme = locatorScheme locality, url_User = False, url_Host = host, url_Path = ''/'' @ token, url_RawQuery = [], url_Fragment = []\<rparr>"
proof -
  have hc: "\<And>c. c \<in> set host \<Longrightarrow> in_class cls_id c" using idPattern_chars [OF host] .
  have rc: "\<And>c. c \<in> set raw \<Longrightarrow> c = CHR ''%'' \<or> in_class cls_id c"
    using unescapePath_id_chars [OF raw(1)] idPattern_chars [OF raw(2)] by blast
  have sc: "\<And>c. c \<in> set sch \<Longrightarrow> isSchemeChar c" using scheme_chars(3) [OF sch] by (simp add: list_all_iff)
  let ?rest = "''//'' @ host @ ''/'' @ raw"
  have sep: "c \<notin> set ''?#@''" if mem: "c \<in> set ?rest" for c
  proof -
    consider "in_class cls_id c" | "c = CHR ''/''" | "c = CHR ''%''" using mem hc rc by auto
    then show ?thesis
    proof cases
      case 1
      from id_char_facts(3) [OF this] show ?thesis by simp
    qed simp_all
  qed
  then have outside: "c \<notin> set ?rest" if "c \<in> set ''?#@''" for c using that by blast
  have q: "CHR ''?'' \<notin> set ?rest" "CHR ''#'' \<notin> set ?rest" by (rule outside, simp)+
  have sq: "CHR ''#'' \<notin> set sch" using schemeChar_facts(1) [OF sc] by fastforce
  have ctl: "\<not> containsCTLByte (sch @ CHR '':'' # ?rest @ t)" if t: "t \<in> {[], ''?''}" for t
  proof -
    have "32 \<le> byte c \<and> byte c < 127" if mem: "c \<in> set sch \<union> set ?rest \<union> set t" for c
    proof -
      consider "c \<in> set sch" | "in_class cls_id c" | "c \<in> set ''/%?''" using mem t hc rc by auto
      then show ?thesis using sc schemeChar_facts(2,3) id_char_facts(4,5) by cases auto
    qed
    then show ?thesis by (fastforce simp: containsCTLByte_def list_ex_iff)
  qed
  have slash: "\<forall>c \<in> set host. c \<noteq> CHR ''/'' \<and> c \<noteq> CHR ''@''" using id_char_facts(3) [OF hc] by fastforce
  have path: "takeWhile (\<lambda>c. c \<noteq> CHR ''/'') (host @ CHR ''/'' # raw) = host" "dropWhile (\<lambda>c. c \<noteq> CHR ''/'') (host @ CHR ''/'' # raw) = CHR ''/'' # raw"
    using slash by simp_all
  have auth: "parseAuthority host = Some (False, host)"
    using slash parseHost_id [OF host] by (auto simp: parseAuthority_def)
  have parsed: "parse (sch @ CHR '':'' # ?rest @ t) =
    Some \<lparr>url_Scheme = locatorScheme locality, url_User = False, url_Host = host, url_Path = ''/'' @ token, url_RawQuery = [], url_Fragment = []\<rparr>"
    if t: "t \<in> {[], ''?''}" for t
  proof -
    have "splitQuery (?rest @ t) = (?rest, [])" using t splitQuery_text [OF q(1)] by auto
    moreover have "parseHierarchy (locatorScheme locality) ?rest [] =
      Some \<lparr>url_Scheme = locatorScheme locality, url_User = False, url_Host = host, url_Path = ''/'' @ token, url_RawQuery = [], url_Fragment = []\<rparr>"
      using scheme_chars(1) [OF sch] sch path auth raw(1) by (auto simp: parseHierarchy_def Let_def)
    ultimately show ?thesis
      unfolding parse_def using ctl [OF t] getScheme_text [OF scheme_chars [OF sch]] by (simp add: sch)
  qed
  obtain t f where tf: "tail = t @ f" "t \<in> {[], ''?''}" "f \<in> {[], ''#''}"
    using tail by (metis append.left_neutral append.right_neutral append_Cons empty_iff insertCI insertE)
  have "CHR ''#'' \<notin> set (sch @ CHR '':'' # ?rest @ t)" using sq q(2) tf(2) by auto
  then have "stringsCut (CHR ''#'') (locatorText sch host raw tail) = (sch @ CHR '':'' # ?rest @ t, [])"
    using tf stringsCut_notin [of "CHR ''#''" "sch @ CHR '':'' # ?rest @ t"] stringsCut_append [of "CHR ''#''" "sch @ CHR '':'' # ?rest @ t" "[]"]
    by (auto simp: locatorText_def)
  then show ?thesis using parsed [OF tf(2)] by (simp add: url_Parse_def)
qed


lemma url_Parse_query:
  assumes "url_Parse s = Some u" "url_Fragment u = []"
  shows "\<exists>v. (s = v \<or> s = v @ ''#'') \<and> parse v = Some u"
proof -
  obtain v frag where v: "stringsCut (CHR ''#'') s = (v, frag)" by fastforce
  have "frag = []" "parse v = Some u"
    using assms v unescapePath_Nil_iff [of frag] by (auto simp: url_Parse_def split: option.splits if_splits)
  then show ?thesis using stringsCut_eq [OF v] by auto
qed

lemma parse_authority:
  assumes "parse s = Some u" "url_Scheme u \<noteq> []" "url_Host u \<noteq> []" "url_Path u \<noteq> []" "\<not> url_User u" "url_RawQuery u = []"
  shows "\<exists>sch auth raw tail. s = sch @ CHR '':'' # ''//'' @ auth @ CHR ''/'' # raw @ tail \<and> tail \<in> {[], ''?''} \<and>
    map toLowerASCII sch = url_Scheme u \<and> parseHost auth = Some (url_Host u) \<and> unescapePath (CHR ''/'' # raw) = Some (url_Path u)"
proof -
  obtain sch rest0 rest query where g: "getScheme s = Some (sch, rest0)" "splitQuery rest0 = (rest, query)"
    and h: "hasPrefix rest ''/''" "parseHierarchy (map toLowerASCII sch) rest query = Some u"
    using assms(1-3) by (auto simp: parse_def Let_def parseHierarchy_def split: option.splits if_splits prod.splits)
  have slashes: "hasPrefix rest ''//''"
    using h(2) assms(3) by (auto simp: parseHierarchy_def Let_def split: if_splits)
  then obtain body where body: "rest = ''//'' @ body" by (auto simp: hasPrefix_iff)
  let ?auth = "takeWhile (\<lambda>c. c \<noteq> CHR ''/'') body" and ?path = "dropWhile (\<lambda>c. c \<noteq> CHR ''/'') body"
  have u: "url_Scheme u = map toLowerASCII sch" "url_RawQuery u = query" "parseAuthority ?auth = Some (False, url_Host u)"
    "unescapePath ?path = Some (url_Path u)"
    using h(2) body assms(3,5) by (auto simp: parseHierarchy_def Let_def split: if_splits option.splits)
  have host: "parseHost ?auth = Some (url_Host u)" using u(3) by (auto simp: parseAuthority_def split: if_splits)
  have "?path \<noteq> []" using u(4) assms(4) by (metis option.inject unescapePath.simps(1))
  then obtain raw where raw: "?path = CHR ''/'' # raw" using hd_dropWhile [of "\<lambda>c. c \<noteq> CHR ''/''" body] by (cases ?path) auto
  have "body = ?auth @ CHR ''/'' # raw" using takeWhile_dropWhile_id [of "\<lambda>c. c \<noteq> CHR ''/''" body] raw by simp
  moreover have "s = sch @ CHR '':'' # rest0" using getScheme_eq [OF g(1)] u(1) assms(2) by simp
  moreover have "rest0 = rest \<or> rest0 = rest @ ''?''" using splitQuery_eq [of rest0 rest] g(2) u(2) assms(6) by simp
  ultimately have "s = sch @ CHR '':'' # ''//'' @ ?auth @ CHR ''/'' # raw @ [] \<or> s = sch @ CHR '':'' # ''//'' @ ?auth @ CHR ''/'' # raw @ ''?''"
    using body by (metis append.assoc append_Cons append_Nil2)
  then show ?thesis using u(1,4) raw host by (metis insertCI)
qed

lemma contains_char: "contains s [c] \<longleftrightarrow> c \<in> set s"
  by (induction s) (auto)

lemma locator_accepted:
  assumes "validateArtifactLocator locality locator = nil"
  shows "\<exists>sch host raw token tail. locator = locatorText sch host raw tail \<and> tail \<in> {[], ''?'', ''#'', ''?#''} \<and>
    map toLowerASCII sch = locatorScheme locality \<and> matchString idPattern host \<and>
    unescapePath raw = Some token \<and> matchString idPattern token"
proof -
  obtain u where u: "url_Parse locator = Some u" "\<not> url_User u" "url_Host u \<noteq> []" "url_Path u \<noteq> []" "url_RawQuery u = []" "url_Fragment u = []"
    "url_Scheme u = locatorScheme locality" "matchString idPattern (url_Host u)"
    "matchString idPattern (trimPrefix (url_Path u) ''/'')" "trimPrefix (url_Path u) ''/'' \<noteq> url_Path u"
    using assms unfolding validateArtifactLocator_def Let_def
    by (auto simp: validateID_nil simp del: matchString.simps split: option.splits if_splits)
  obtain v where v: "locator = v \<or> locator = v @ ''#''" "parse v = Some u" using url_Parse_query [OF u(1,6)] by blast
  have "url_Scheme u \<noteq> []" using u(7) by (simp add: locatorScheme_def)
  from parse_authority [OF v(2) this u(3,4,2,5)] obtain sch auth raw tail where
    p: "v = sch @ CHR '':'' # ''//'' @ auth @ CHR ''/'' # raw @ tail" "tail \<in> {[], ''?''}" "map toLowerASCII sch = url_Scheme u"
      "parseHost auth = Some (url_Host u)" "unescapePath (CHR ''/'' # raw) = Some (url_Path u)" by blast
  have auth: "auth = url_Host u" by (rule parseHost_only_id [OF p(4) u(8)])
  obtain token where token: "unescapePath raw = Some token" "url_Path u = CHR ''/'' # token" using p(5) by auto
  then have "matchString idPattern token" using u(9) by (simp add: trimPrefix_def del: matchString.simps)
  moreover have "locator = locatorText sch (url_Host u) raw tail \<or> locator = locatorText sch (url_Host u) raw (tail @ ''#'')"
    using v(1) p(1) auth by (simp add: locatorText_def)
  moreover have "tail \<in> {[], ''?'', ''#'', ''?#''} \<and> tail @ ''#'' \<in> {[], ''?'', ''#'', ''?#''}" using p(2) by auto
  moreover have "map toLowerASCII sch = locatorScheme locality" using p(3) u(7) by simp
  ultimately show ?thesis using u(8) token(1) by blast
qed

lemma locator_complete:
  assumes loc: "ArtifactLocality_Validate locality = nil" "length (locatorText sch host raw tail) \<le> 2048" and
    sch: "map toLowerASCII sch = locatorScheme locality" and host: "matchString idPattern host" and
    raw: "unescapePath raw = Some token" "matchString idPattern token" and tail: "tail \<in> {[], ''?'', ''#'', ''?#''}"
  shows "validateArtifactLocator locality (locatorText sch host raw tail) = nil"
proof -
  have bad: "c \<notin> set (CHR 0x5C # nulCRLF)" if mem: "c \<in> set (locatorText sch host raw tail)" for c
  proof -
    consider "isSchemeChar c" | "in_class cls_id c" | "c \<in> set ''/:%?#''"
      using mem tail scheme_chars(3) [OF sch] idPattern_chars [OF host] idPattern_chars [OF raw(2)] unescapePath_id_chars [OF raw(1)]
      by (auto simp: locatorText_def list_all_iff)
    then show ?thesis
    proof cases
      case 1
      then show ?thesis by (auto simp: isSchemeChar_def isLetter_def isNumeral_def)
    next
      case 2
      from id_char_facts(4,6) [OF this] show ?thesis by auto
    qed auto
  qed
  have "\<not> containsAny (locatorText sch host raw tail) (CHR 0x5C # nulCRLF)" using bad by (auto simp only: containsAny_iff)
  moreover have "locatorText sch host raw tail \<noteq> []" by (simp add: locatorText_def)
  moreover have "CHR ''/'' \<notin> set token" "token \<noteq> []" "host \<noteq> []"
    using id_char_facts(3) [OF idPattern_chars [OF raw(2)]] idPattern_length [OF raw(2)] idPattern_length [OF host] by fastforce+
  ultimately show ?thesis
    using loc parse_locator [OF sch host raw tail] host raw(2)
    by (simp add: validateArtifactLocator_def Let_def validateID_nil trimPrefix_def contains_char del: matchString.simps)
qed

section \<open>Properties\<close>


text \<open>
  One artifact has many locators: the letter case of the scheme, escapes in the token and an empty query or
  fragment are not seen, while the published schema admits only the first of these two texts.
\<close>

theorem locator_not_canonical:
  "validateArtifactLocator ''local-only'' ''local-resource://gateway/artifact'' = nil \<and>
   validateArtifactLocator ''local-only'' ''LOCAL-Resource://gateway/%61rtifact?#'' = nil"
  by code_simp

end
