(* ===== verification/Proto_Event.thy ===== *)
theory Proto_Event
  imports Proto_Documents Proto_Custody Event_Sequence
begin

text \<open>
  The event documents of \<open>protocol/event.go\<close>: provider events, the canonical events that a gateway makes of them,
  and the subscription documents. What \<open>encoding/json\<close> makes of a payload of a known type is an argument.
\<close>

section \<open>Provider events\<close>

definition providerCoreEventTypes :: "string list" where
  "providerCoreEventTypes =
     [''session.discovered'', ''session.created'', ''session.state_changed'', ''session.context_delivered'',
      ''session.output_available'', ''session.input_requested'', ''session.approval_requested'',
      ''session.checkpoint_created'', ''session.completed'', ''session.failed'', ''session.disconnected'',
      ''session.recovered'', ''artifact.created'', ''artifact.updated'', ''artifact.deleted'',
      ''artifact.review_requested'', ''usage.updated'', ''adapter.degraded'', ''adapter.recovered'']"

definition validateProviderEventType :: "string \<Rightarrow> verr" where
  "validateProviderEventType v =
     (if v \<in> set providerCoreEventTypes then nil
      else if matchString extensionPattern v then nil
      else errorf ''provider event type is unsupported'')"

definition KnownProviderEventTypes :: "string list" where
  "KnownProviderEventTypes = sort providerCoreEventTypes"

record ProviderEvent =
  ev_ProtocolVersion :: string
  ev_EventID :: string
  ev_ProviderID :: string
  ev_Role :: string
  ev_StreamID :: string
  ev_NativeSessionID :: string
  ev_Type :: string
  ev_Sequence :: uint64
  ev_ObservedAt :: gotime
  ev_Payload :: string
  ev_Extensions :: extensions

text \<open>The two decoders of payloads.\<close>

record payloadCodec =
  pc_state :: "bool \<Rightarrow> string \<Rightarrow> StateReport option"
  pc_artifact :: "bool \<Rightarrow> string \<Rightarrow> ProviderArtifactReport option"

definition statePayload :: "payloadCodec \<Rightarrow> ProviderEvent \<Rightarrow> verr" where
  "statePayload codec e =
     (case decodeJSON (pc_state codec) (ev_Payload e) True of
        None \<Rightarrow> errorf ''session state payload is invalid''
      | Some state \<Rightarrow> if StateReport_Validate state \<noteq> nil then errorf ''session state payload is invalid'' else nil)"

definition artifactPayload :: "payloadCodec \<Rightarrow> ProviderEvent \<Rightarrow> verr" where
  "artifactPayload codec e =
     (case decodeJSON (pc_artifact codec) (ev_Payload e) True of
        None \<Rightarrow> errorf ''artifact event payload is invalid''
      | Some report \<Rightarrow>
          if ProviderArtifactReport_Validate report \<noteq> nil then errorf ''artifact event payload is invalid''
          else if rep_ProviderID report \<noteq> ev_ProviderID e \<or> rep_Role report \<noteq> ev_Role e \<or>
              rep_StreamID report \<noteq> ev_StreamID e \<or> rep_NativeSessionID report \<noteq> ev_NativeSessionID e
          then errorf ''artifact event identity does not match its provider envelope'' else nil)"

definition ProviderEvent_Validate :: "payloadCodec \<Rightarrow> ProviderEvent \<Rightarrow> verr" where
  "ProviderEvent_Validate codec e =
     first_err
      [validateProtocol (ev_ProtocolVersion e),
       validateID ''event_id'' (ev_EventID e),
       validateID ''provider_id'' (ev_ProviderID e),
       Role_Validate (ev_Role e),
       validateID ''stream_id'' (ev_StreamID e),
       if ev_NativeSessionID e \<noteq> [] then NativeID_Validate (ev_NativeSessionID e) else nil,
       validateProviderEventType (ev_Type e),
       if hasPrefix (ev_Type e) ''session.''
         then (if ev_NativeSessionID e = [] then errorf ''session event requires a native session ID''
               else if ev_Role e = ''provider'' then errorf ''session event requires a provider concern role'' else nil)
         else nil,
       if ev_Sequence e = 0 then errorf ''event sequence must be positive'' else nil,
       validateTime ''observed_at'' (ev_ObservedAt e),
       if ev_Payload e = [] \<or> \<not> json_Valid (ev_Payload e) then errorf ''event payload is invalid'' else nil,
       if rejectDuplicateKeys (ev_Payload e) \<noteq> nil then errorf ''event payload is ambiguous'' else nil,
       if ev_Type e = stateChanged then statePayload codec e else nil,
       if hasPrefix (ev_Type e) ''artifact.'' then artifactPayload codec e else nil,
       rejectReservedProviderContent (ev_Payload e) (if ev_Type e = stateChanged then [''authority''] else []),
       rejectReservedExtensions (ev_Extensions e),
       validateExtensions (ev_Extensions e)]"

section \<open>Canonical events\<close>

record CanonicalEvent =
  ce_ProtocolVersion :: string
  ce_TenantID :: string
  ce_GatewayID :: string
  ce_SessionID :: string
  ce_CorrelationID :: string
  ce_CausationID :: string
  ce_Sensitivity :: string
  ce_Authority :: string
  ce_ProviderEvent :: ProviderEvent

definition CanonicalEvent_Validate :: "payloadCodec \<Rightarrow> CanonicalEvent \<Rightarrow> verr" where
  "CanonicalEvent_Validate codec e =
     (let inner = ce_ProviderEvent e;
          requiresSession = (hasPrefix (ev_Type inner) ''session.'' \<or> ev_NativeSessionID inner \<noteq> [])
      in first_err
          [validateProtocol (ce_ProtocolVersion e),
           validateIDs [(''tenant_id'', ce_TenantID e), (''gateway_id'', ce_GatewayID e), (''correlation_id'', ce_CorrelationID e)],
           if requiresSession \<and> ce_SessionID e = []
             then errorf ''canonical session ID is required for a session-scoped provider event'' else nil,
           if ce_SessionID e \<noteq> [] then validateID ''session_id'' (ce_SessionID e) else nil,
           if ce_CausationID e \<noteq> [] then validateID ''causation_id'' (ce_CausationID e) else nil,
           Sensitivity_Validate (ce_Sensitivity e),
           if ce_Authority e \<noteq> ''gateway-assigned'' then errorf ''canonical event authority must be gateway-assigned'' else nil,
           ProviderEvent_Validate codec inner])"

section \<open>Subscriptions\<close>

record EventSubscriptionCursor =
  sc_Role :: string
  sc_StreamID :: string
  sc_AfterSequence :: uint64

definition EventSubscriptionCursor_Validate :: "EventSubscriptionCursor \<Rightarrow> verr" where
  "EventSubscriptionCursor_Validate c = first_err [Role_Validate (sc_Role c), validateID ''stream_id'' (sc_StreamID c)]"

record EventsSubscribeRequest =
  esq_Cursors :: "EventSubscriptionCursor list"
  esq_EventTypes :: "string list"
  esq_WindowSize :: uint32

definition EventsSubscribeRequest_Validate :: "EventsSubscribeRequest \<Rightarrow> verr" where
  "EventsSubscribeRequest_Validate r =
     first_err
      [if length (esq_Cursors r) > 4096 \<or> length (esq_EventTypes r) > 256 then errorf ''event subscription scope is too large'' else nil,
       each_unique EventSubscriptionCursor_Validate (\<lambda>c. (sc_Role c, sc_StreamID c)) ''event subscription cursor is duplicated'' (esq_Cursors r),
       each_unique validateProviderEventType (\<lambda>t. t) ''event type is duplicated'' (esq_EventTypes r),
       if esq_WindowSize r = 0 \<or> esq_WindowSize r > 4096 then errorf ''event subscription window is invalid'' else nil]"

record EventsSubscribeResult =
  esr_SubscriptionID :: string
  esr_Cursors :: "EventSubscriptionCursor list"

definition EventsSubscribeResult_Validate :: "EventsSubscribeResult \<Rightarrow> verr" where
  "EventsSubscribeResult_Validate r =
     first_err
      [NativeID_Validate (esr_SubscriptionID r),
       if length (esr_Cursors r) > 4096 then errorf ''too many event subscription cursors'' else nil,
       each_err EventSubscriptionCursor_Validate (esr_Cursors r)]"

definition EventsUnsubscribeRequest_Validate :: "string \<Rightarrow> verr" where
  "EventsUnsubscribeRequest_Validate subscriptionID = NativeID_Validate subscriptionID"

section \<open>Properties\<close>

text \<open>The cursor under which a sink observes an event.\<close>

definition eventCursor :: "(ProviderEvent \<Rightarrow> string) \<Rightarrow> ProviderEvent \<Rightarrow> EventCursor" where
  "eventCursor digest e =
     \<lparr>ec_ProviderID = ev_ProviderID e, ec_Role = ev_Role e, ec_StreamID = ev_StreamID e, ec_EventID = ev_EventID e,
      ec_Sequence = ev_Sequence e, ec_Digest = digest e\<rparr>"


text \<open>
  C34: What a gateway passes on as a canonical event keeps the boundary of authority: the event is marked as
  assigned by the gateway and names tenant and gateway, an event about a session names the canonical session, the
  native session and a concern role, the payload and the extensions of the provider hold no gateway-owned key
  (other than the provenance of a state report), an artifact payload carries the identity of its envelope, and the
  event gives a valid cursor for sequencing.
\<close>

theorem canonical_event_sound:
  assumes "CanonicalEvent_Validate codec e = nil" "Digest_Validate (digest (ce_ProviderEvent e)) = nil"
  shows "let p = ce_ProviderEvent e in
    ce_Authority e = ''gateway-assigned'' \<and> matchString idPattern (ce_TenantID e) \<and> matchString idPattern (ce_GatewayID e) \<and>
    (hasPrefix (ev_Type p) ''session.'' \<longrightarrow>
       matchString idPattern (ce_SessionID e) \<and> NativeID_Validate (ev_NativeSessionID p) = nil \<and> Role_validateConcern (ev_Role p) = nil) \<and>
    (\<exists>v. json_decode (ev_Payload p) = Some v \<and> jdistinct v \<and> authorityFree (if ev_Type p = stateChanged then [''authority''] else []) v) \<and>
    rejectReservedExtensions (ev_Extensions p) = nil \<and>
    (hasPrefix (ev_Type p) ''artifact.'' \<longrightarrow>
       (\<exists>report. decodeJSON (pc_artifact codec) (ev_Payload p) True = Some report \<and> ProviderArtifactReport_Validate report = nil \<and>
          (rep_ProviderID report, rep_Role report, rep_StreamID report, rep_NativeSessionID report) =
          (ev_ProviderID p, ev_Role p, ev_StreamID p, ev_NativeSessionID p))) \<and>
    cursorValid (eventCursor digest p)"
proof -
  let ?p = "ce_ProviderEvent e"
  have outer: "ce_Authority e = ''gateway-assigned''" "matchString idPattern (ce_TenantID e)" "matchString idPattern (ce_GatewayID e)"
    "hasPrefix (ev_Type ?p) ''session.'' \<Longrightarrow> matchString idPattern (ce_SessionID e)" and inner: "ProviderEvent_Validate codec ?p = nil"
    using assms(1) by (auto simp: CanonicalEvent_Validate_def Let_def validateID_nil each_err_nil simp del: matchString.simps split: if_splits)
  have ids: "validateID ''event_id'' (ev_EventID ?p) = nil" "validateID ''provider_id'' (ev_ProviderID ?p) = nil" "Role_Validate (ev_Role ?p) = nil"
    "validateID ''stream_id'' (ev_StreamID ?p) = nil" "ev_Sequence ?p \<noteq> 0"
    and session: "hasPrefix (ev_Type ?p) ''session.'' \<Longrightarrow> ev_NativeSessionID ?p \<noteq> [] \<and> ev_Role ?p \<noteq> ''provider''"
      "ev_NativeSessionID ?p \<noteq> [] \<Longrightarrow> NativeID_Validate (ev_NativeSessionID ?p) = nil"
    and content: "rejectReservedProviderContent (ev_Payload ?p) (if ev_Type ?p = stateChanged then [''authority''] else []) = nil"
      "rejectReservedExtensions (ev_Extensions ?p) = nil"
    and artifact: "hasPrefix (ev_Type ?p) ''artifact.'' \<Longrightarrow> artifactPayload codec ?p = nil"
    using inner unfolding ProviderEvent_Validate_def by (simp_all split: if_splits)
  have "cursorValid (eventCursor digest ?p)" using ids assms(2) by (simp add: cursorValid_def eventCursor_def)
  moreover have "Role_validateConcern (ev_Role ?p) = nil" if "hasPrefix (ev_Type ?p) ''session.''"
    using session(1) [OF that] ids(3) by (auto simp: Role_validateConcern_def Role_Validate_def split: if_splits)
  moreover have "\<exists>report. decodeJSON (pc_artifact codec) (ev_Payload ?p) True = Some report \<and> ProviderArtifactReport_Validate report = nil \<and>
      (rep_ProviderID report, rep_Role report, rep_StreamID report, rep_NativeSessionID report) =
      (ev_ProviderID ?p, ev_Role ?p, ev_StreamID ?p, ev_NativeSessionID ?p)" if "hasPrefix (ev_Type ?p) ''artifact.''"
    using artifact [OF that] by (auto simp: artifactPayload_def split: option.splits if_splits)
  ultimately show ?thesis
    unfolding Let_def using outer session content(2) content(1) [unfolded rejectReservedProviderContent_nil] by blast
qed

definition noCodec :: payloadCodec where
  "noCodec = \<lparr>pc_state = (\<lambda>_ _. None), pc_artifact = (\<lambda>_ _. None)\<rparr>"

definition sampleEvent :: "string \<Rightarrow> uint64 \<Rightarrow> CanonicalEvent" where
  "sampleEvent eid q =
     \<lparr>ce_ProtocolVersion = ProtocolVersion, ce_TenantID = ''tenant'', ce_GatewayID = ''gateway'', ce_SessionID = ''session'',
      ce_CorrelationID = ''correlation'', ce_CausationID = [], ce_Sensitivity = ''internal'', ce_Authority = ''gateway-assigned'',
      ce_ProviderEvent =
        \<lparr>ev_ProtocolVersion = ProtocolVersion, ev_EventID = eid, ev_ProviderID = ''provider'', ev_Role = ''agent-harness'',
         ev_StreamID = ''stream'', ev_NativeSessionID = ''native'', ev_Type = ''session.created'', ev_Sequence = q,
         ev_ObservedAt = sampleTime 1, ev_Payload = ''{}'', ev_Extensions = []\<rparr>\<rparr>"

lemma sampleEvent_valid: "CanonicalEvent_Validate noCodec (sampleEvent ''event-1'' 1) = nil"
  by code_simp

theorem canonical_event_sound_witness:
  "matchString idPattern (ce_SessionID (sampleEvent ''event-1'' 1)) \<and> cursorValid (eventCursor (\<lambda>_. sampleDigest) (ce_ProviderEvent (sampleEvent ''event-1'' 1)))"
proof -
  have "Digest_Validate sampleDigest = nil" by (simp add: sampleDigest_ok)
  moreover have "hasPrefix (ev_Type (ce_ProviderEvent (sampleEvent ''event-1'' 1))) ''session.''" by code_simp
  ultimately show ?thesis using canonical_event_sound [OF sampleEvent_valid, of "\<lambda>_. sampleDigest"] unfolding Let_def by blast
qed

end
