(* ===== verification/Provider_Documents.thy ===== *)
theory Provider_Documents
  imports Proto_Event Proto_Runtime Rpc_Envelope
begin

text \<open>
  The documents of \<open>provider/provider.go\<close> that the SDK adds to the protocol: detach requests, pane lists, subscriptions
  with their replay, heartbeats, cancellations, and the notification that carries one of them. The byte loop of
  \<open>validateCanonicalID\<close> accepts exactly what the pattern of package \<open>protocol\<close> accepts.
\<close>

section \<open>Canonical identifiers\<close>

definition isASCIIAlphaNumeric :: "char \<Rightarrow> bool" where
  "isASCIIAlphaNumeric c \<longleftrightarrow>
     byte (CHR ''A'') \<le> byte c \<and> byte c \<le> byte (CHR ''Z'') \<or>
     byte (CHR ''a'') \<le> byte c \<and> byte c \<le> byte (CHR ''z'') \<or>
     byte (CHR ''0'') \<le> byte c \<and> byte c \<le> byte (CHR ''9'')"

fun canonicalIDRest :: "string \<Rightarrow> verr" where
  "canonicalIDRest [] = nil"
| "canonicalIDRest (c # cs) =
     (if \<not> isASCIIAlphaNumeric c \<and> c \<noteq> CHR ''.'' \<and> c \<noteq> CHR ''_'' \<and> c \<noteq> CHR ''-'' then errorf ''canonical ID is invalid''
      else canonicalIDRest cs)"

definition validateCanonicalID :: "string \<Rightarrow> verr" where
  "validateCanonicalID s =
     (case s of
        [] \<Rightarrow> errorf ''canonical ID is invalid''
      | c # cs \<Rightarrow>
          if length s > 128 \<or> \<not> isASCIIAlphaNumeric c then errorf ''canonical ID is invalid'' else canonicalIDRest cs)"

lemma isASCIIAlphaNumeric_class: "isASCIIAlphaNumeric c \<longleftrightarrow> in_class cls_AZaz09 c"
  by (auto simp only: isASCIIAlphaNumeric_def in_class_def list_ex_iff list.set bex_simps insert_iff empty_iff case_prod_conv simp_thms)

lemma canonicalIDRest_nil: "canonicalIDRest cs = nil \<longleftrightarrow> list_all (in_class cls_id) cs"
proof (induction cs)
  case (Cons c cs)
  have single: "byte d \<le> byte c \<and> byte c \<le> byte d \<longleftrightarrow> c = d" for d
    using of_char_eq_iff [of c d] by auto
  have "in_class cls_id c \<longleftrightarrow> isASCIIAlphaNumeric c \<or> c = CHR ''.'' \<or> c = CHR ''_'' \<or> c = CHR ''-''"
    by (simp only: isASCIIAlphaNumeric_def in_class_def list_ex_iff list.set bex_simps insert_iff empty_iff case_prod_conv simp_thms single disj_assoc)
  then show ?case using Cons.IH by auto
qed simp

section \<open>Documents\<close>

record TerminalDetachRequest =
  dt_NativeSessionID :: string
  dt_StreamID :: string
  dt_SubscriptionID :: string

definition TerminalDetachRequest_Validate :: "TerminalDetachRequest \<Rightarrow> verr" where
  "TerminalDetachRequest_Validate r =
     first_err
      [validateCanonicalID (dt_SubscriptionID r),
       TerminalSubscribeRequest_Validate
         \<lparr>tsr_NativeSessionID = dt_NativeSessionID r, tsr_StreamID = dt_StreamID r, tsr_AfterOffset = 0, tsr_WindowBytes = 1\<rparr>]"

definition PaneListResult_Validate :: "Pane list \<Rightarrow> verr" where
  "PaneListResult_Validate panes =
     first_err
      [if length panes > 4096 then errorf ''too many panes'' else nil,
       each_unique Pane_Validate pn_NativePaneID ''pane is duplicated'' panes]"

text \<open>The channels of live values that a subscription carries are not part of its validation.\<close>

definition EventSubscription_Validate :: "payloadCodec \<Rightarrow> EventsSubscribeResult \<Rightarrow> ProviderEvent list \<Rightarrow> verr" where
  "EventSubscription_Validate codec result replay =
     first_err [EventsSubscribeResult_Validate result, each_err (ProviderEvent_Validate codec) replay]"

definition TerminalSubscription_Validate :: "EventsSubscribeResult \<Rightarrow> TerminalChunk list \<Rightarrow> verr" where
  "TerminalSubscription_Validate result replay =
     first_err [EventsSubscribeResult_Validate result, each_err TerminalChunk_Validate replay]"

definition TopologySubscription_Validate :: "EventsSubscribeResult \<Rightarrow> TopologySnapshot list \<Rightarrow> verr" where
  "TopologySubscription_Validate result replay =
     first_err [EventsSubscribeResult_Validate result, each_err TopologySnapshot_Validate replay]"

definition Heartbeat_Validate :: "gotime \<Rightarrow> verr" where
  "Heartbeat_Validate observedAt =
     (if time_IsZero observedAt \<or> \<not> t_utc observedAt then errorf ''heartbeat timestamp must be UTC'' else nil)"

definition CancelRequest_Validate :: "string \<Rightarrow> verr" where
  "CancelRequest_Validate requestID = validateWireToken ''cancellation request ID'' requestID"

section \<open>Notifications\<close>

record Notification =
  nt_Method :: string
  nt_Event :: "ProviderEvent option"
  nt_TerminalChunk :: "TerminalChunk option"
  nt_Topology :: "TopologySnapshot option"
  nt_Heartbeat :: "gotime option"
  nt_Cancel :: "string option"
  nt_TerminalCredit :: "TerminalCredit option"

text \<open>A slice of interfaces is listed as what each of its pointers validates to, \<open>None\<close> for a nil pointer.\<close>

definition notificationValues :: "payloadCodec \<Rightarrow> Notification \<Rightarrow> verr option list" where
  "notificationValues codec n =
     [map_option (ProviderEvent_Validate codec) (nt_Event n), map_option TerminalChunk_Validate (nt_TerminalChunk n),
      map_option TopologySnapshot_Validate (nt_Topology n), map_option Heartbeat_Validate (nt_Heartbeat n),
      map_option CancelRequest_Validate (nt_Cancel n), map_option TerminalCredit_Validate (nt_TerminalCredit n)]"

definition Notification_Validate :: "payloadCodec \<Rightarrow> Notification \<Rightarrow> verr" where
  "Notification_Validate codec n =
     (if nt_Method n = [] then errorf ''notification method is required''
      else
        (let values = filter (\<lambda>v. v \<noteq> None) (notificationValues codec n) in
         if length values \<noteq> 1 then errorf ''notification requires exactly one payload''
         else (case values of Some err # _ \<Rightarrow> err | _ \<Rightarrow> nil)))"

definition noPayload :: "string \<Rightarrow> Notification" where
  "noPayload name =
     \<lparr>nt_Method = name, nt_Event = None, nt_TerminalChunk = None, nt_Topology = None, nt_Heartbeat = None,
      nt_Cancel = None, nt_TerminalCredit = None\<rparr>"

text \<open>A valid notification carries exactly one payload, and that one is valid.\<close>

lemma Notification_Validate_nil:
  "Notification_Validate codec n = nil \<longleftrightarrow>
     nt_Method n \<noteq> [] \<and> filter (\<lambda>v. v \<noteq> None) (notificationValues codec n) = [Some nil]"
proof (cases "filter (\<lambda>v. v \<noteq> None) (notificationValues codec n)")
  case (Cons v vs)
  have "v \<noteq> None" using arg_cong [OF Cons, of set] by auto
  then show ?thesis using Cons by (auto simp: Notification_Validate_def)
qed (auto simp: Notification_Validate_def)

section \<open>Properties\<close>

text \<open>
  C0: The hand-written check of canonical identifiers in package \<open>provider\<close> and the pattern of package \<open>protocol\<close>
  accept the same strings: a byte loop with a length bound is the reading of the regular expression.
\<close>

theorem validateCanonicalID_matches: "validateCanonicalID s = nil \<longleftrightarrow> validateID field s = nil"
proof (cases s)
  case (Cons c cs)
  then show ?thesis
    by (auto simp: validateCanonicalID_def validateID_nil isASCIIAlphaNumeric_class canonicalIDRest_nil simp del: matchString.simps)
qed (simp add: validateCanonicalID_def validateID_nil del: matchString.simps)

end
