(* ===== verification/Client_Reader.thy ===== *)
theory Client_Reader
  imports Client_Calls Client_Flows Server_Loops Provider_Documents
begin

text \<open>
  The receiving side of \<open>provider/client.go\<close>: \<open>readLoop\<close> with \<open>decodeNotification\<close>, and the loop that hands
  notifications to the caller. The decoding of parameters is an argument, and so is what the other goroutines do to the
  client while a frame is read.
\<close>

section \<open>Notifications\<close>

abbreviation NotificationEvent :: string where "NotificationEvent \<equiv> ''$mc/event''"
abbreviation NotificationTerminalChunk :: string where "NotificationTerminalChunk \<equiv> ''$mc/terminal.chunk''"
abbreviation NotificationTopologySnapshot :: string where "NotificationTopologySnapshot \<equiv> ''$mc/topology.snapshot''"

record notifyCodec =
  nc_payload :: payloadCodec
  nc_event :: "rpcRequest \<Rightarrow> go_error + ProviderEvent"
  nc_chunk :: "rpcRequest \<Rightarrow> go_error + TerminalChunk"
  nc_topology :: "rpcRequest \<Rightarrow> go_error + TopologySnapshot"
  nc_heartbeat :: "rpcRequest \<Rightarrow> go_error + gotime"
  nc_cancel :: "rpcRequest \<Rightarrow> go_error + string"
  nc_credit :: "rpcRequest \<Rightarrow> go_error + TerminalCredit"

definition checkNotification :: "notifyCodec \<Rightarrow> Notification \<Rightarrow> go_error + Notification" where
  "checkNotification nc n = (if Notification_Validate (nc_payload nc) n \<noteq> nil then Inl (newError CodeInvalidArgument) else Inr n)"

definition withParam :: "notifyCodec \<Rightarrow> go_error + 'a \<Rightarrow> ('a \<Rightarrow> Notification) \<Rightarrow> flowTable \<Rightarrow> (go_error + Notification) \<times> flowTable" where
  "withParam nc decoded notification flows =
     (case decoded of Inl e \<Rightarrow> (Inl e, flows) | Inr v \<Rightarrow> (checkNotification nc (notification v), flows))"

definition decodeNotification :: "notifyCodec \<Rightarrow> Client \<Rightarrow> flowTable \<Rightarrow> rpcRequest \<Rightarrow> (go_error + Notification) \<times> flowTable" where
  "decodeNotification nc c flows request =
     (let empty = noPayload (rq_Method request) in
      if rq_Method request = NotificationEvent
      then withParam nc (nc_event nc request) (\<lambda>v. empty\<lparr>nt_Event := Some v\<rparr>) flows
      else if rq_Method request = NotificationTerminalChunk
      then (case nc_chunk nc request of
              Inl e \<Rightarrow> (Inl e, flows)
            | Inr v \<Rightarrow>
                (case receiveChunk flows (cl_terminalMax c) (cl_replay c) v of
                   (Some e, flows') \<Rightarrow> (Inl e, flows')
                 | (None, flows') \<Rightarrow> (checkNotification nc (empty\<lparr>nt_TerminalChunk := Some v\<rparr>), flows')))
      else if rq_Method request = NotificationTopologySnapshot
      then withParam nc (nc_topology nc request) (\<lambda>v. empty\<lparr>nt_Topology := Some v\<rparr>) flows
      else if rq_Method request = NotificationHeartbeat
      then withParam nc (nc_heartbeat nc request) (\<lambda>v. empty\<lparr>nt_Heartbeat := Some v\<rparr>) flows
      else if rq_Method request = NotificationCancel
      then withParam nc (nc_cancel nc request) (\<lambda>v. empty\<lparr>nt_Cancel := Some v\<rparr>) flows
      else if rq_Method request = NotificationTerminalCredit
      then withParam nc (nc_credit nc request) (\<lambda>v. empty\<lparr>nt_TerminalCredit := Some v\<rparr>) flows
      else (Inl (newError CodeInvalidArgument), flows))"

section \<open>The loops\<close>

text \<open>
  \<open>kr_input\<close> is the channel \<open>notificationInput\<close>, \<open>kr_held\<close> the notification between the two receives of
  \<open>notificationLoop\<close> and \<open>kr_out\<close> the channel \<open>notifications\<close>. The last two members record the history: what was put
  into the input, and what the caller has received.
\<close>

record clientReader =
  kr_client :: Client
  kr_flows :: flowTable
  kr_reader :: "bufReader option"
  kr_input :: "Notification list"
  kr_held :: "Notification option"
  kr_out :: "Notification list"
  kr_accepted :: "Notification list"
  kr_received :: "Notification list"

abbreviation failReader :: "go_error \<Rightarrow> clientReader \<Rightarrow> clientReader" where
  "failReader e st \<equiv> st\<lparr>kr_client := fail (kr_client st) e\<rparr>"

text \<open>The \<open>select\<close> that passes a notification on: \<open>preferDone\<close> is its choice when both cases are ready.\<close>

definition offerNotification :: "Limits \<Rightarrow> bool \<Rightarrow> Notification \<Rightarrow> clientReader \<Rightarrow> bool \<times> clientReader" where
  "offerNotification limits preferDone n st =
     (let full = (int (length (kr_input st)) \<ge> MaxOutboundQueue limits) in
      if cl_closed (kr_client st) \<and> (full \<or> preferDone) then (False, st)
      else if full then (False, failReader (newError CodeResourceExhausted) st)
      else (True, st\<lparr>kr_input := kr_input st @ [n], kr_accepted := kr_accepted st @ [n]\<rparr>))"

text \<open>One iteration of \<open>readLoop\<close>, and whether the loop goes on.\<close>

definition clientIteration ::
  "Limits \<Rightarrow> notifyCodec \<Rightarrow> (string \<Rightarrow> rpcError option option) \<Rightarrow> bool \<Rightarrow> (clientReader \<Rightarrow> clientReader) \<Rightarrow> clientReader
     \<Rightarrow> bool \<times> clientReader" where
  "clientIteration limits nc unmarshalError preferDone meanwhile st =
     (case readFrame (kr_reader st) (cl_maximum (kr_client st)) of
        (Inl e, reader) \<Rightarrow> (False, failReader e (meanwhile (st\<lparr>kr_reader := reader\<rparr>)))
      | (Inr frame, reader) \<Rightarrow>
          (let st = meanwhile (st\<lparr>kr_reader := reader\<rparr>); maximum = cl_maximum (kr_client st) in
           case decodeFields frame of
             Inl e \<Rightarrow> (False, failReader e st)
           | Inr members \<Rightarrow>
               if rawLookup members ''method'' \<noteq> None
               then (case decodeRPCRequest frame maximum of
                       Inl _ \<Rightarrow> (False, failReader (newError CodeInvalidArgument) st)
                     | Inr request \<Rightarrow>
                         if \<not> isNotification request then (False, failReader (newError CodeInvalidArgument) st)
                         else (case decodeNotification nc (kr_client st) (kr_flows st) request of
                                 (Inl e, flows) \<Rightarrow> (False, failReader e (st\<lparr>kr_flows := flows\<rparr>))
                               | (Inr n, flows) \<Rightarrow> offerNotification limits preferDone n (st\<lparr>kr_flows := flows\<rparr>)))
               else (case decodeRPCResponse unmarshalError frame maximum of
                       Inl e \<Rightarrow> (False, failReader e st)
                     | Inr response \<Rightarrow> (True, st\<lparr>kr_client := deliverResponse (kr_client st) response\<rparr>))))"

fun clientReadLoop ::
  "Limits \<Rightarrow> notifyCodec \<Rightarrow> (string \<Rightarrow> rpcError option option) \<Rightarrow> (nat \<Rightarrow> bool) \<Rightarrow> (nat \<Rightarrow> clientReader \<Rightarrow> clientReader)
     \<Rightarrow> nat \<Rightarrow> nat \<Rightarrow> clientReader \<Rightarrow> clientReader option" where
  "clientReadLoop limits nc unmarshalError prefer others 0 n st = None"
| "clientReadLoop limits nc unmarshalError prefer others (Suc fuel) n st =
     (case clientIteration limits nc unmarshalError (prefer n) (others n) st of
        (False, st') \<Rightarrow> Some st'
      | (True, st') \<Rightarrow> clientReadLoop limits nc unmarshalError prefer others fuel (Suc n) st')"

text \<open>A step of \<open>notificationLoop\<close>, and a receive by the caller; \<open>None\<close> waits.\<close>

definition notificationStep :: "Limits \<Rightarrow> clientReader \<Rightarrow> clientReader option" where
  "notificationStep limits st =
     (case kr_held st of
        Some n \<Rightarrow>
          if int (length (kr_out st)) < MaxOutboundQueue limits then Some (st\<lparr>kr_held := None, kr_out := kr_out st @ [n]\<rparr>) else None
      | None \<Rightarrow> (case kr_input st of [] \<Rightarrow> None | n # rest \<Rightarrow> Some (st\<lparr>kr_held := Some n, kr_input := rest\<rparr>)))"

definition receiveNotification :: "clientReader \<Rightarrow> clientReader option" where
  "receiveNotification st =
     (case kr_out st of [] \<Rightarrow> None | n # rest \<Rightarrow> Some (st\<lparr>kr_out := rest, kr_received := kr_received st @ [n]\<rparr>))"

section \<open>The reader ends with the client\<close>

lemma fail_closes: "cl_closed (fail c e)"
  by (simp add: fail_def)

lemma clientReaches_step: "clientStep limits c c' \<Longrightarrow> clientReaches limits c c'"
  by (rule r_into_rtranclp)

lemma flowReaches_step: "flowStep limit t t' \<Longrightarrow> flowReaches limit t t'"
  by (rule r_into_rtranclp)

lemma fail_reaches [simp]: "clientReaches limits c (fail c e)"
  by (rule clientReaches_step) (rule clientStep.failed)

lemma offer_shape:
  assumes "offerNotification limits preferDone n st = (go, st')"
  shows "kr_reader st' = kr_reader st" "kr_flows st' = kr_flows st" "clientReaches limits (kr_client st) (kr_client st')"
    "\<not> go \<Longrightarrow> cl_closed (kr_client st')"
  using assms
  by (auto simp: offerNotification_def Let_def fail_closes split: if_splits)

text \<open>
  What an iteration makes of the state that it finds after its read: the client fails, a notification is offered, or a
  response is delivered.
\<close>

lemma decodeNotification_flows:
  "decodeNotification nc c flows request = (r, flows') \<Longrightarrow> flowReaches limit flows flows'"
  by (auto simp: decodeNotification_def withParam_def Let_def split: if_splits sum.splits prod.splits option.splits
      intro: flowReaches_step flowStep.chunk)

lemma clientIteration_shape:
  assumes "clientIteration limits nc ue preferDone meanwhile st = (go, st')"
  obtains (failed) e reader where "\<not> go" "readFrame (kr_reader st) (cl_maximum (kr_client st)) = (Inl e, reader)"
      "st' = failReader e (meanwhile (st\<lparr>kr_reader := reader\<rparr>))"
  | (refused) frame reader e flows where "\<not> go" "readFrame (kr_reader st) (cl_maximum (kr_client st)) = (Inr frame, reader)"
      "st' = failReader e ((meanwhile (st\<lparr>kr_reader := reader\<rparr>))\<lparr>kr_flows := flows\<rparr>)"
      "\<And>limit. flowReaches limit (kr_flows (meanwhile (st\<lparr>kr_reader := reader\<rparr>))) flows"
  | (offered) frame reader n flows request where "readFrame (kr_reader st) (cl_maximum (kr_client st)) = (Inr frame, reader)"
      "offerNotification limits preferDone n ((meanwhile (st\<lparr>kr_reader := reader\<rparr>))\<lparr>kr_flows := flows\<rparr>) = (go, st')"
      "decodeNotification nc (kr_client (meanwhile (st\<lparr>kr_reader := reader\<rparr>))) (kr_flows (meanwhile (st\<lparr>kr_reader := reader\<rparr>))) request = (Inr n, flows)"
  | (delivered) frame reader response where go "readFrame (kr_reader st) (cl_maximum (kr_client st)) = (Inr frame, reader)"
      "st' = (meanwhile (st\<lparr>kr_reader := reader\<rparr>))\<lparr>kr_client := deliverResponse (kr_client (meanwhile (st\<lparr>kr_reader := reader\<rparr>))) response\<rparr>"
proof -
  obtain out reader where r: "readFrame (kr_reader st) (cl_maximum (kr_client st)) = (out, reader)" by (metis surj_pair)
  let ?m = "meanwhile (st\<lparr>kr_reader := reader\<rparr>)"
  have same: "?m\<lparr>kr_flows := kr_flows ?m\<rparr> = ?m" by simp
  show thesis
  proof (cases out)
    case (Inl e)
    then show thesis using assms r by (intro failed [of e reader]) (auto simp: clientIteration_def)
  next
    case (Inr frame)
    note it = assms [unfolded clientIteration_def r Inr prod.case sum.case Let_def]
    have refuse: thesis if "\<not> go" "st' = failReader e (?m\<lparr>kr_flows := flows\<rparr>)" "\<And>limit. flowReaches limit (kr_flows ?m) flows" for e flows
      using refused [OF that(1) _ that(2,3)] r Inr by blast
    show thesis
    proof (cases "decodeFields frame")
      case (Inl e)
      then show thesis using it refuse [of "kr_flows ?m" e] by (simp add: same)
    next
      case members: (Inr members)
      show thesis
      proof (cases "rawLookup members ''method'' = None")
        case True
        show thesis
        proof (cases "decodeRPCResponse ue frame (cl_maximum (kr_client ?m))")
          case (Inl e)
          then show thesis using it members True refuse [of "kr_flows ?m" e] by (simp add: same)
        next
          case resp: (Inr response)
          then show thesis using it members True r Inr by (intro delivered [of frame reader response]) simp_all
        qed
      next
        case False
        show thesis
        proof (cases "decodeRPCRequest frame (cl_maximum (kr_client ?m))")
          case (Inl e)
          then show thesis using it members False refuse [of "kr_flows ?m" "newError CodeInvalidArgument"] by (simp add: same)
        next
          case req: (Inr request)
          obtain dn flows where dn: "decodeNotification nc (kr_client ?m) (kr_flows ?m) request = (dn, flows)" by (metis surj_pair)
          show thesis
          proof (cases "isNotification request")
            case False
            then show thesis using it members \<open>rawLookup members ''method'' \<noteq> None\<close> req refuse [of "kr_flows ?m" "newError CodeInvalidArgument"]
              by (simp add: same)
          next
            case True
            show thesis
            proof (cases dn)
              case (Inl e)
              then show thesis using it members False req True dn refuse [of flows e] decodeNotification_flows [OF dn] by simp
            next
              case n: (Inr n)
              then show thesis using it members False req True dn r Inr by (intro offered [of frame reader n flows request]) simp_all
            qed
          qed
        qed
      qed
    qed
  qed
qed

text \<open>What holds of every iteration: the client moves by its steps, and the loop only stops with the client closed.\<close>

lemma deliver_reaches: "clientReaches limits c (deliverResponse c response)"
  by (rule clientReaches_step) (rule clientStep.deliver)

lemma clientIteration_client:
  assumes "clientIteration limits nc ue preferDone meanwhile st = (go, st')"
    "\<forall>s. clientReaches limits (kr_client s) (kr_client (meanwhile s))"
  shows "clientReaches limits (kr_client st) (kr_client st') \<and> (\<not> go \<longrightarrow> cl_closed (kr_client st'))"
  using assms(1)
proof (cases rule: clientIteration_shape)
  case (failed e reader)
  then show ?thesis using spec [OF assms(2), of "st\<lparr>kr_reader := reader\<rparr>"] by (auto simp: fail_closes intro: rtranclp_trans)
next
  case (refused frame reader e flows)
  then show ?thesis using spec [OF assms(2), of "st\<lparr>kr_reader := reader\<rparr>"] by (auto simp: fail_closes intro: rtranclp_trans)
next
  case (offered frame reader n flows request)
  then show ?thesis using spec [OF assms(2), of "st\<lparr>kr_reader := reader\<rparr>"] offer_shape(3,4) [OF offered(2)]
    by (auto intro: rtranclp_trans)
next
  case (delivered frame reader response)
  then show ?thesis using spec [OF assms(2), of "st\<lparr>kr_reader := reader\<rparr>"] by (auto intro: rtranclp_trans deliver_reaches)
qed

lemma clientIteration_consumes:
  assumes "clientIteration limits nc ue preferDone meanwhile st = (True, st')" "kr_reader st = Some b" "readerOk b"
    "\<forall>s. kr_reader (meanwhile s) = kr_reader s"
  shows "\<exists>b'. kr_reader st' = Some b' \<and> readerOk b' \<and> length (readerText b') < length (readerText b)"
  using assms(1)
proof (cases rule: clientIteration_shape)
  case (offered frame reader n flows request)
  then show ?thesis using readFrame_consumes [OF assms(3), of _ frame reader] offer_shape(1) [OF offered(2)] assms(2,4) by simp
next
  case (delivered frame reader response)
  then show ?thesis using readFrame_consumes [OF assms(3), of _ frame reader] assms(2,4) by simp
qed simp_all

lemma clientReadLoop_returns:
  assumes "kr_reader st = Some b" "readerOk b" "length (readerText b) < fuel"
    "\<forall>n s. kr_reader (others n s) = kr_reader s" "\<forall>n s. clientReaches limits (kr_client s) (kr_client (others n s))"
  shows "\<exists>st'. clientReadLoop limits nc ue prefer others fuel n st = Some st' \<and> cl_closed (kr_client st') \<and>
    clientReaches limits (kr_client st) (kr_client st')"
  using assms(1-3)
proof (induction fuel arbitrary: n st b)
  case (Suc fuel)
  obtain go st' where it: "clientIteration limits nc ue (prefer n) (others n) st = (go, st')" by (metis surj_pair)
  have c: "clientReaches limits (kr_client st) (kr_client st')" "\<not> go \<longrightarrow> cl_closed (kr_client st')"
    using clientIteration_client [OF it] assms(5) by blast+
  show ?case
  proof (cases go)
    case True
    then obtain b' where "kr_reader st' = Some b'" "readerOk b'" "length (readerText b') < length (readerText b)"
      using clientIteration_consumes [OF it [unfolded eqTrueI [OF True]] Suc.prems(1,2)] assms(4) by blast
    then show ?thesis using Suc.IH [of st' b' "Suc n"] Suc.prems(3) it True c(1) by (auto intro: rtranclp_trans)
  qed (use it c in simp)
qed simp


section \<open>Notifications arrive in order\<close>

text \<open>The interleavings of the reader, the loop that hands over, the caller, and the calls and streams of other goroutines.\<close>

inductive readerStep :: "Limits \<Rightarrow> notifyCodec \<Rightarrow> clientReader \<Rightarrow> clientReader \<Rightarrow> bool" for limits nc where
  read: "clientIteration limits nc ue preferDone (\<lambda>s. s) st = (go, st') \<Longrightarrow> readerStep limits nc st st'"
| hand: "notificationStep limits st = Some st' \<Longrightarrow> readerStep limits nc st st'"
| receive: "receiveNotification st = Some st' \<Longrightarrow> readerStep limits nc st st'"
| call: "clientStep limits (kr_client st) c \<Longrightarrow> readerStep limits nc st (st\<lparr>kr_client := c\<rparr>)"
| flow: "flowStep limit (kr_flows st) flows \<Longrightarrow> readerStep limits nc st (st\<lparr>kr_flows := flows\<rparr>)"

definition startReader :: "Client \<Rightarrow> flowTable \<Rightarrow> bufReader option \<Rightarrow> clientReader" where
  "startReader c flows reader =
     \<lparr>kr_client = c, kr_flows = flows, kr_reader = reader, kr_input = [], kr_held = None, kr_out = [], kr_accepted = [], kr_received = []\<rparr>"

definition inTransit :: "clientReader \<Rightarrow> Notification list" where
  "inTransit st = kr_out st @ (case kr_held st of None \<Rightarrow> [] | Some n \<Rightarrow> [n]) @ kr_input st"

definition readerOrdered :: "Limits \<Rightarrow> notifyCodec \<Rightarrow> clientReader \<Rightarrow> bool" where
  "readerOrdered limits nc st \<longleftrightarrow>
     kr_received st @ inTransit st = kr_accepted st \<and> (\<forall>n \<in> set (kr_accepted st). Notification_Validate (nc_payload nc) n = nil) \<and>
     int (length (kr_input st)) \<le> max 0 (MaxOutboundQueue limits) \<and> int (length (kr_out st)) \<le> max 0 (MaxOutboundQueue limits)"

lemma checkNotification_valid: "checkNotification nc n = Inr m \<Longrightarrow> m = n \<and> Notification_Validate (nc_payload nc) m = nil"
  by (simp add: checkNotification_def split: if_splits)

lemma withParam_valid: "withParam nc decoded f flows = (Inr m, flows') \<Longrightarrow> Notification_Validate (nc_payload nc) m = nil"
  by (auto simp: withParam_def dest!: checkNotification_valid split: sum.splits)

lemma decodeNotification_valid:
  "decodeNotification nc c flows request = (Inr n, flows') \<Longrightarrow> Notification_Validate (nc_payload nc) n = nil"
  by (auto simp: decodeNotification_def Let_def dest!: checkNotification_valid withParam_valid
      split: if_splits sum.splits prod.splits option.splits)

lemma offer_keeps:
  assumes "offerNotification limits preferDone n st = (go, st')" "readerOrdered limits nc st" "Notification_Validate (nc_payload nc) n = nil"
  shows "readerOrdered limits nc st'"
  using assms by (auto simp: offerNotification_def readerOrdered_def inTransit_def Let_def split: if_splits)

lemma readerOrdered_frame [simp]:
  "readerOrdered limits nc (st\<lparr>kr_client := c\<rparr>) = readerOrdered limits nc st"
  "readerOrdered limits nc (st\<lparr>kr_flows := flows\<rparr>) = readerOrdered limits nc st"
  "readerOrdered limits nc (st\<lparr>kr_reader := reader\<rparr>) = readerOrdered limits nc st"
  by (simp_all add: readerOrdered_def inTransit_def)

lemma iteration_keeps:
  assumes "clientIteration limits nc ue preferDone (\<lambda>s. s) st = (go, st')" "readerOrdered limits nc st"
  shows "readerOrdered limits nc st'"
  using assms(1)
proof (cases rule: clientIteration_shape)
  case (offered frame reader n flows request)
  then show ?thesis using offer_keeps [OF offered(2)] decodeNotification_valid [OF offered(3)] assms(2) by simp
qed (use assms(2) in simp_all)

lemma handOver_keeps:
  "notificationStep limits st = Some st' \<Longrightarrow> readerOrdered limits nc st \<Longrightarrow> readerOrdered limits nc st'"
  "receiveNotification st = Some st' \<Longrightarrow> readerOrdered limits nc st \<Longrightarrow> readerOrdered limits nc st'"
  by (auto simp: notificationStep_def receiveNotification_def readerOrdered_def inTransit_def split: option.splits list.splits if_splits)


section \<open>Witnesses\<close>

definition sampleNotify :: notifyCodec where
  "sampleNotify =
     \<lparr>nc_payload = noCodec, nc_event = (\<lambda>_. Inl (newError CodeInvalidArgument)), nc_chunk = (\<lambda>_. Inl (newError CodeInvalidArgument)),
      nc_topology = (\<lambda>_. Inl (newError CodeInvalidArgument)), nc_heartbeat = (\<lambda>_. Inl (newError CodeInvalidArgument)),
      nc_cancel = (\<lambda>_. Inr ''request-1''), nc_credit = (\<lambda>_. Inl (newError CodeInvalidArgument))\<rparr>"

definition sampleCancelFrame :: string where
  "sampleCancelFrame = ''{\"jsonrpc\":\"2.0\",\"method\":\"$mc/cancel\",\"params\":[{\"request_id\":\"request-1\"}]}''"

definition sampleReceiver :: "string \<Rightarrow> clientReader" where
  "sampleReceiver input = startReader sampleClientState \<lparr>ft_flows = [], ft_table = []\<rparr> (Some (sampleReader 16 [input]))"

lemma sample_iteration:
  "let (go, st) = clientIteration TestLimits sampleNotify (\<lambda>_. None) False (\<lambda>s. s) (sampleReceiver (sampleCancelFrame @ [newline_ch])) in
     go \<and> map nt_Cancel (kr_accepted st) = [Some ''request-1''] \<and> kr_held st = None"
  by code_simp



end
