(* ===== verification/Client_Operations.thy ===== *)
theory Client_Operations
  imports Client_Reader
begin

text \<open>
  The operations of \<open>provider/client.go\<close> as a caller sees them: \<open>callValidated\<close> with the queue of frames to write,
  \<open>query\<close>, \<open>Query\<close>, \<open>Mutate\<close>, \<open>SubscribeTerminal\<close>, \<open>SendTerminalCredit\<close> and \<open>Close\<close>. The decoding of documents,
  contexts, random identifiers and what other goroutines do in between are arguments.
\<close>

section \<open>State\<close>

text \<open>
  \<open>cp_writes\<close> is the channel \<open>writes\<close>, and \<open>cp_closers\<close> are the results that the closers of the transport will give.
\<close>

record clientPeer =
  cp_client :: Client
  cp_flows :: flowTable
  cp_writes :: "string list"
  cp_writer :: frameWriter
  cp_closers :: "verr list"
  cp_transportClosed :: bool
  cp_transportErr :: "go_error list"

definition closeTransport :: "clientPeer \<Rightarrow> clientPeer" where
  "closeTransport st =
     (if cp_transportClosed st then st
      else st\<lparr>cp_transportClosed := True,
              cp_transportErr := filter (\<lambda>e. \<not> errors_Is e ''net.ErrClosed'' \<and> \<not> errors_Is e ''os.ErrClosed'')
                (concat (map (\<lambda>r. case r of None \<Rightarrow> [] | Some e \<Rightarrow> [e]) (cp_closers st)))\<rparr>)"

abbreviation failPeer :: "go_error \<Rightarrow> clientPeer \<Rightarrow> clientPeer" where
  "failPeer e st \<equiv> st\<lparr>cp_client := fail (cp_client st) e\<rparr>"

definition tearDown :: "go_error \<Rightarrow> clientPeer \<Rightarrow> clientPeer" where
  "tearDown e st = failPeer e (closeTransport st)"

text \<open>\<open>Close\<close>; the list is what \<open>errors.Join\<close> keeps.\<close>

definition Client_Close :: "clientPeer \<Rightarrow> go_error list \<times> clientPeer" where
  "Client_Close st = (let st' = tearDown (Sentinel io_EOF) st in (cp_transportErr st', st'))"

section \<open>Writing\<close>

text \<open>How the two \<open>select\<close> statements of \<open>write\<close> end.\<close>

datatype writeEnd = Acknowledged verr | ContextBefore go_error | ClosedBefore | ContextAfter go_error | ClosedAfter

definition clientWrite :: "writeEnd \<Rightarrow> string \<Rightarrow> clientPeer \<Rightarrow> verr \<times> clientPeer" where
  "clientWrite w frame st =
     (let queued = st\<lparr>cp_writes := cp_writes st @ [frame]\<rparr> in
      case w of
        Acknowledged err \<Rightarrow> (err, queued)
      | ContextBefore e \<Rightarrow> (Some e, st)
      | ClosedBefore \<Rightarrow> (Some (newError CodeUnavailable), st)
      | ContextAfter e \<Rightarrow> (Some e, tearDown e queued)
      | ClosedAfter \<Rightarrow> (Some (newError CodeUnavailable), queued))"

definition enqueueNotification :: "Limits \<Rightarrow> string \<Rightarrow> clientPeer \<Rightarrow> clientPeer" where
  "enqueueNotification limits frame st =
     (if int (length (cp_writes st)) < MaxOutboundQueue limits then st\<lparr>cp_writes := cp_writes st @ [frame]\<rparr>
      else tearDown (newError CodeResourceExhausted) st)"

text \<open>
  An iteration of \<open>writeLoop\<close> that takes a frame: what the caller is told, whether the loop goes on, and the state.
  \<open>ctxErr\<close> is the error of the context of the request.
\<close>

definition clientWriteStep :: "verr \<Rightarrow> clientPeer \<Rightarrow> (verr \<times> bool \<times> clientPeer) option" where
  "clientWriteStep ctxErr st =
     (case cp_writes st of
        [] \<Rightarrow> None
      | frame # rest \<Rightarrow>
          (let st = st\<lparr>cp_writes := rest\<rparr> in
           case ctxErr of
             Some e \<Rightarrow> Some (Some e, True, st)
           | None \<Rightarrow>
               (case frameWriter_write (cp_writer st) frame of
                  (None, writer) \<Rightarrow> Some (nil, True, st\<lparr>cp_writer := writer\<rparr>)
                | (Some e, writer) \<Rightarrow> Some (Some e, False, tearDown e (st\<lparr>cp_writer := writer\<rparr>)))))"

section \<open>Calls\<close>

text \<open>
  What a call meets: its context (None is a nil context), the random identifier, \<open>validateOutbound\<close> of the parameter,
  how the write ends, and how the wait ends: the error of the context, or None for a closed client. A poll may be early
  for an outcome whose call was already taken from the pending ones. The two functions are what other goroutines do
  while the frame is written and while the call waits.
\<close>

record callEnv =
  ce_ctx :: "verr option"
  ce_requestID :: "go_error + string"
  ce_outbound :: verr
  ce_written :: writeEnd
  ce_end :: verr
  ce_early :: bool
  ce_writing :: "clientPeer \<Rightarrow> clientPeer"
  ce_waiting :: "clientPeer \<Rightarrow> clientPeer"

definition polled :: "callEnv \<Rightarrow> string \<Rightarrow> clientPeer \<Rightarrow> clientOutcome option" where
  "polled env rid st = (if ce_early env then None else map_of (cl_outcomes (cp_client st)) rid)"

definition cancelCall :: "Limits \<Rightarrow> uint64 \<Rightarrow> string \<Rightarrow> clientPeer \<Rightarrow> clientPeer" where
  "cancelCall limits maximum rid st =
     (case marshalNotification NotificationCancel (Some (JObj [(''request_id'', JStr rid)])) nil maximum of
        Inl _ \<Rightarrow> st | Inr frame \<Rightarrow> enqueueNotification limits frame st)"

definition onClient :: "(Client \<Rightarrow> 'r \<times> Client) \<Rightarrow> clientPeer \<Rightarrow> 'r \<times> clientPeer" where
  "onClient f st = (case f (cp_client st) of (r, c) \<Rightarrow> (r, st\<lparr>cp_client := c\<rparr>))"

definition awaitReply ::
  "Limits \<Rightarrow> callEnv \<Rightarrow> uint64 \<Rightarrow> (string \<Rightarrow> verr) option \<Rightarrow> (string \<Rightarrow> verr) \<Rightarrow> string \<Rightarrow> clientPeer \<Rightarrow> callResult \<times> clientPeer" where
  "awaitReply limits env maximum validate strict rid st =
     (case polled env rid st of
        Some result \<Rightarrow> onClient (awaitCall validate strict rid (GotOutcome result)) st
      | None \<Rightarrow>
          (case ce_end env of
             Some e \<Rightarrow> onClient (awaitCall validate strict rid (ContextDone e None)) (cancelCall limits maximum rid st)
           | None \<Rightarrow> onClient (awaitCall validate strict rid (ClientDone None)) st))"

text \<open>\<open>callValidated\<close> in its three parts: up to the frame, the registration, and the exchange.\<close>

definition prepareCall :: "callEnv \<Rightarrow> string \<Rightarrow> json option \<Rightarrow> bool \<Rightarrow> uint64 \<Rightarrow> go_error + string \<times> string" where
  "prepareCall env name parameter destination maximum =
     (case ce_ctx env of
        None \<Rightarrow> Inl (newError CodeInvalidArgument)
      | Some ctxErr \<Rightarrow>
          if \<not> destination then Inl (newError CodeInvalidArgument)
          else (case ctxErr of
                  Some e \<Rightarrow> Inl (newError (errorCode e))
                | None \<Rightarrow>
                    (case ce_requestID env of
                       Inl _ \<Rightarrow> Inl (newError CodeUnavailable)
                     | Inr rid \<Rightarrow>
                         (case marshalRequest rid name parameter (ce_outbound env) maximum of
                            Inl e \<Rightarrow> Inl (Structured (normalizeProtocolError e)) | Inr frame \<Rightarrow> Inr (rid, frame)))))"

definition exchange ::
  "Limits \<Rightarrow> callEnv \<Rightarrow> uint64 \<Rightarrow> string \<Rightarrow> (string \<Rightarrow> verr) option \<Rightarrow> (string \<Rightarrow> verr) \<Rightarrow> string \<Rightarrow> clientPeer \<Rightarrow> callResult \<times> clientPeer" where
  "exchange limits env maximum frame validate strict rid st =
     (case clientWrite (ce_written env) frame (ce_writing env st) of
        (Some e, st) \<Rightarrow> onClient (awaitCall validate strict rid (WriteFailed e (polled env rid st))) st
      | (None, st) \<Rightarrow> awaitReply limits env maximum validate strict rid (ce_waiting env st))"

definition callValidated ::
  "Limits \<Rightarrow> callEnv \<Rightarrow> string \<Rightarrow> json option \<Rightarrow> bool \<Rightarrow> bool \<Rightarrow> (string \<Rightarrow> verr) option \<Rightarrow> (string \<Rightarrow> verr) \<Rightarrow> clientPeer \<Rightarrow>
     callResult \<times> clientPeer" where
  "callValidated limits env name parameter destination initialization validate strict st =
     (let maximum = cl_maximum (cp_client st) in
      case prepareCall env name parameter destination maximum of
        Inl e \<Rightarrow> (CallError e, st)
      | Inr (rid, frame) \<Rightarrow>
          (case registerCall limits (cp_client st) rid initialization of
             (Some e, c) \<Rightarrow> (CallError e, st\<lparr>cp_client := c\<rparr>)
           | (None, c) \<Rightarrow> exchange limits env maximum frame validate strict rid (st\<lparr>cp_client := c\<rparr>)))"

section \<open>Documents and destinations\<close>

text \<open>The closed decoding of the documents that the client looks into, and the codecs of the capabilities.\<close>

record clientCodec =
  cc_read :: "string \<Rightarrow> go_error + TerminalReadRequest"
  cc_subscribe :: "string \<Rightarrow> go_error + TerminalSubscribeRequest"
  cc_events :: "string \<Rightarrow> go_error + EventsSubscribeRequest"
  cc_input :: "string \<Rightarrow> go_error + TerminalInputRequest"
  cc_chunk :: "string \<Rightarrow> go_error + TerminalChunk"
  cc_guarded :: "resultCheck \<Rightarrow> string \<Rightarrow> go_error + guardedResult"
  cc_subscriptionID :: "string \<Rightarrow> string \<Rightarrow> go_error + string"
  cc_request :: "string \<Rightarrow> (string \<Rightarrow> verr) option"
  cc_result :: "string \<Rightarrow> (string \<Rightarrow> verr) option"
  cc_digest :: "Command \<Rightarrow> go_error + string"
  cc_command :: "Command \<Rightarrow> json option"

text \<open>
  The destination of a result: its decoding, what it holds after the raw result was decoded into it, and its type where
  the client asks for it.
\<close>

record destination =
  ds_present :: bool
  ds_strict :: "string \<Rightarrow> verr"
  ds_guarded :: "string \<Rightarrow> guardedResult"
  ds_marshal :: "string \<Rightarrow> string option"
  ds_chunk :: "(string \<Rightarrow> TerminalChunk) option"
  ds_subscription :: "(string \<Rightarrow> EventsSubscribeResult) option"

definition noReplay :: "bool \<Rightarrow> uint64 \<Rightarrow> verr" where
  "noReplay replay position = (if \<not> replay \<and> position > 0 then Some (newError CodeInvalidArgument) else nil)"

definition Client_validateReplayRequest :: "clientCodec \<Rightarrow> Client \<Rightarrow> string \<Rightarrow> string \<Rightarrow> verr" where
  "Client_validateReplayRequest codec c capability request =
     (if capability = ''terminal.read''
      then (case cc_read codec request of Inl e \<Rightarrow> Some e | Inr v \<Rightarrow> noReplay (cl_replay c) (tr_AfterOffset v))
      else if capability \<in> {''terminal.subscribe'', ''terminal.attach''}
      then (case cc_subscribe codec request of Inl e \<Rightarrow> Some e | Inr v \<Rightarrow> noReplay (cl_replay c) (tsr_AfterOffset v))
      else if capability = ''events.subscribe''
      then (case cc_events codec request of
              Inl e \<Rightarrow> Some e | Inr v \<Rightarrow> each_err (\<lambda>cursor. noReplay (cl_replay c) (sc_AfterSequence cursor)) (esq_Cursors v))
      else nil)"

definition canonicalClientParameter :: "verr \<Rightarrow> json option \<Rightarrow> go_error + string" where
  "canonicalClientParameter outbound value =
     (if outbound \<noteq> nil then Inl (newError CodeInvalidArgument)
      else case value of
        None \<Rightarrow> Inl (newError CodeInvalidArgument)
      | Some v \<Rightarrow> if validateObject (jprint v) \<noteq> nil then Inl (newError CodeInvalidArgument) else Inr (jprint v))"

definition validateTerminalInput :: "clientCodec \<Rightarrow> Client \<Rightarrow> string \<Rightarrow> verr" where
  "validateTerminalInput codec c raw =
     (case cc_input codec raw of
        Inl _ \<Rightarrow> Some (newError CodeInvalidArgument)
      | Inr request \<Rightarrow>
          if TerminalInputRequest_Validate request \<noteq> nil then Some (newError CodeInvalidArgument)
          else (case terminalDataSize (ti_Encoding request) (ti_Data request) of
                  None \<Rightarrow> Some (newError CodeInvalidArgument)
                | Some n \<Rightarrow> if n > cl_terminalMax c then Some (newError CodeMessageTooLarge) else nil))"

definition validateClientExtensionValue :: "string option \<Rightarrow> verr" where
  "validateClientExtensionValue marshalled =
     (case marshalled of None \<Rightarrow> Some (newError CodeInvalidArgument) | Some raw \<Rightarrow> validateClientExtensionRaw raw)"

text \<open>The validation of a raw result that \<open>responseValidator\<close> builds for a request.\<close>

definition guardedCheck :: "clientCodec \<Rightarrow> resultCheck \<Rightarrow> (string \<Rightarrow> verr) \<Rightarrow> string \<Rightarrow> verr" where
  "guardedCheck codec kind canonical raw =
     (case canonical raw of
        Some e \<Rightarrow> Some e
      | None \<Rightarrow> (case cc_guarded codec kind raw of Inl e \<Rightarrow> Some e | Inr v \<Rightarrow> validateRuntimeWorkspaceExtensions v))"

definition readChunkCheck :: "clientCodec \<Rightarrow> Client \<Rightarrow> string \<Rightarrow> (string \<Rightarrow> verr) \<Rightarrow> string \<Rightarrow> verr" where
  "readChunkCheck codec c request canonical raw =
     (case cc_read codec request of
        Inl _ \<Rightarrow> Some (newError CodeInvalidArgument)
      | Inr readRequest \<Rightarrow>
          (case canonical raw of
             Some e \<Rightarrow> Some e
           | None \<Rightarrow>
               (case cc_chunk codec raw of
                  Inl e \<Rightarrow> Some e
                | Inr chunk \<Rightarrow> validateTerminalReadChunk readRequest chunk (cl_terminalMax c) (cl_replay c))))"

definition responseValidator :: "clientCodec \<Rightarrow> Client \<Rightarrow> string \<Rightarrow> string \<Rightarrow> string \<Rightarrow> verr" where
  "responseValidator codec c capability request =
     (if isExtensionCapability capability then validateClientExtensionRaw
      else case cc_result codec capability of
        None \<Rightarrow> (\<lambda>_. Some (newError CodeInvalidArgument))
      | Some canonical \<Rightarrow>
          (case switchCheck capability of
             ReadChunkCheck \<Rightarrow> readChunkCheck codec c request canonical
           | CanonicalCheck \<Rightarrow> canonical
           | kind \<Rightarrow> guardedCheck codec kind canonical))"

section \<open>Queries\<close>

text \<open>The raw result that the destination was decoded from.\<close>

definition callRaw :: "callEnv \<Rightarrow> clientPeer \<Rightarrow> string" where
  "callRaw env st =
     (case ce_requestID env of
        Inl _ \<Rightarrow> []
      | Inr rid \<Rightarrow> (case map_of (cl_outcomes (cp_client st)) rid of Some (OutcomeResponse r) \<Rightarrow> rs_Result r | _ \<Rightarrow> []))"

definition callErr :: "callResult \<Rightarrow> verr" where
  "callErr r = (case r of CallOk \<Rightarrow> nil | CallError e \<Rightarrow> Some e | CallLocalError e \<Rightarrow> Some e)"

definition isClientLocalResponseError :: "callResult \<Rightarrow> bool" where
  "isClientLocalResponseError r = (case r of CallLocalError _ \<Rightarrow> True | _ \<Rightarrow> False)"

text \<open>The peer may hold a subscription that the client does not know: the client gives the connection up.\<close>

definition doubtful :: "callResult \<Rightarrow> bool" where
  "doubtful r \<longleftrightarrow> isClientLocalResponseError r \<or> (case callErr r of None \<Rightarrow> False | Some e \<Rightarrow> ambiguousTerminalFlowError e)"

definition tearDownFor :: "callResult \<Rightarrow> clientPeer \<Rightarrow> clientPeer" where
  "tearDownFor r st = (case callErr r of None \<Rightarrow> st | Some e \<Rightarrow> tearDown e st)"

definition asResult :: "verr \<Rightarrow> callResult" where
  "asResult err = (case err of None \<Rightarrow> CallOk | Some e \<Rightarrow> CallError e)"

definition finishRead :: "clientCodec \<Rightarrow> Client \<Rightarrow> string \<Rightarrow> destination \<Rightarrow> string \<Rightarrow> verr" where
  "finishRead codec c canonicalRequest ds raw =
     (case ds_chunk ds of
        None \<Rightarrow> Some (newError CodeInvalidArgument)
      | Some chunk \<Rightarrow>
          (case cc_read codec canonicalRequest of
             Inl _ \<Rightarrow> Some (newError CodeInvalidArgument)
           | Inr readRequest \<Rightarrow> validateTerminalReadChunk readRequest (chunk raw) (cl_terminalMax c) (cl_replay c)))"

definition finishQuery :: "clientCodec \<Rightarrow> Client \<Rightarrow> string \<Rightarrow> string \<Rightarrow> destination \<Rightarrow> string \<Rightarrow> verr" where
  "finishQuery codec c capability canonicalRequest ds raw =
     (case validateRuntimeWorkspaceExtensions (ds_guarded ds raw) of
        Some e \<Rightarrow> Some (Structured (normalizeProtocolError e))
      | None \<Rightarrow>
          if isExtensionCapability capability then validateClientExtensionValue (ds_marshal ds raw)
          else if capability = ''terminal.read'' then finishRead codec c canonicalRequest ds raw
          else nil)"

definition query ::
  "Limits \<Rightarrow> clientCodec \<Rightarrow> callEnv \<Rightarrow> verr \<Rightarrow> string \<Rightarrow> json option \<Rightarrow> destination \<Rightarrow> clientPeer \<Rightarrow> callResult \<times> clientPeer" where
  "query limits codec env outbound capability request ds st =
     (let c = cp_client st; canonical = canonicalClientParameter outbound request;
          raw = (case canonical of Inl _ \<Rightarrow> [] | Inr text \<Rightarrow> text) in
      case queryGuard c (ce_ctx env) capability canonical (Client_validateReplayRequest codec c capability raw) (cc_request codec capability) of
        Some e \<Rightarrow> (CallError e, st)
      | None \<Rightarrow>
          (case callValidated limits env capability request (ds_present ds) False
                  (Some (responseValidator codec c capability raw)) (ds_strict ds) st of
             (CallOk, st) \<Rightarrow> (asResult (finishQuery codec (cp_client st) capability raw ds (callRaw env st)), st)
           | (r, st) \<Rightarrow> (r, if isSubscriptionCapability capability \<and> doubtful r then tearDownFor r st else st)))"

section \<open>Subscribing to a terminal\<close>

definition onFlows :: "(flowTable \<Rightarrow> 'r \<times> flowTable) \<Rightarrow> clientPeer \<Rightarrow> 'r \<times> clientPeer" where
  "onFlows f st = (case f (cp_flows st) of (r, t) \<Rightarrow> (r, st\<lparr>cp_flows := t\<rparr>))"

definition releaseTerminalFlow :: "nat \<Rightarrow> clientPeer \<Rightarrow> clientPeer" where
  "releaseTerminalFlow i st = st\<lparr>cp_flows := retireTerminalFlow (cp_flows st) i\<rparr>"

text \<open>
  \<open>SubscribeTerminal\<close>: its checks, and what follows once flow \<open>i\<close> is reserved. \<open>encoded\<close> is the request as JSON, \<open>ds\<close> the
  destination that it declares.
\<close>

definition subscribeGuard :: "clientCodec \<Rightarrow> verr option \<Rightarrow> TerminalSubscribeRequest \<Rightarrow> json \<Rightarrow> Client \<Rightarrow> verr" where
  "subscribeGuard codec ctx request encoded c =
     first_err
      [if \<not> cl_initialized c then Some (newError CodeConflict) else nil,
       if TerminalSubscribeRequest_Validate request \<noteq> nil then Some (newError CodeInvalidArgument) else nil,
       Client_validateReplayRequest codec c ''terminal.subscribe'' (jprint encoded),
       case ctx of
         None \<Rightarrow> Some (newError CodeInvalidArgument)
       | Some (Some e) \<Rightarrow> Some (newError (errorCode e))
       | Some None \<Rightarrow> nil]"

definition subscribeReserved ::
  "Limits \<Rightarrow> clientCodec \<Rightarrow> callEnv \<Rightarrow> verr \<Rightarrow> json \<Rightarrow> destination \<Rightarrow> (string \<Rightarrow> EventsSubscribeResult) \<Rightarrow> nat \<Rightarrow>
     clientPeer \<Rightarrow> (callResult + EventsSubscribeResult) \<times> clientPeer" where
  "subscribeReserved limits codec env outbound encoded ds decoded i st =
     (case query limits codec env outbound ''terminal.subscribe'' (Some encoded) ds st of
        (CallOk, st) \<Rightarrow>
          (let result = decoded (callRaw env st) in
           case onFlows (\<lambda>t. bindFlow t i (esr_SubscriptionID result)) st of
             (Some e, st) \<Rightarrow> (Inl (CallError e), releaseTerminalFlow i (tearDown e st))
           | (None, st) \<Rightarrow> (Inr result, st))
      | (r, st) \<Rightarrow> (Inl r, releaseTerminalFlow i (if doubtful r then tearDownFor r st else st)))"

definition SubscribeTerminal ::
  "Limits \<Rightarrow> clientCodec \<Rightarrow> callEnv \<Rightarrow> verr \<Rightarrow> TerminalSubscribeRequest \<Rightarrow> json \<Rightarrow> destination \<Rightarrow> (string \<Rightarrow> EventsSubscribeResult) \<Rightarrow>
     clientPeer \<Rightarrow> (callResult + EventsSubscribeResult) \<times> clientPeer" where
  "SubscribeTerminal limits codec env outbound request encoded ds decoded st =
     (case subscribeGuard codec (ce_ctx env) request encoded (cp_client st) of
        Some e \<Rightarrow> (Inl (CallError e), st)
      | None \<Rightarrow>
          (case onFlows (\<lambda>t. reserveTerminalFlow (MaxSubscriptions limits) t request) st of
             (Inl e, st) \<Rightarrow> (Inl (CallError e), st)
           | (Inr i, st) \<Rightarrow> subscribeReserved limits codec env outbound encoded ds decoded i st))"

text \<open>\<open>Query\<close>: the request of a terminal subscription must have its type, given as \<open>typed\<close>.\<close>

definition Client_Query ::
  "Limits \<Rightarrow> clientCodec \<Rightarrow> callEnv \<Rightarrow> verr \<Rightarrow> string \<Rightarrow> TerminalSubscribeRequest option \<Rightarrow> json option \<Rightarrow> destination \<Rightarrow> clientPeer \<Rightarrow>
     callResult \<times> clientPeer" where
  "Client_Query limits codec env outbound capability typed request ds st =
     (if capability = ''terminal.subscribe''
      then (case (typed, request, ds_subscription ds) of
              (Some subscription, Some encoded, Some decoded) \<Rightarrow>
                (case SubscribeTerminal limits codec env outbound subscription encoded ds decoded st of
                   (Inl r, st) \<Rightarrow> (r, st) | (Inr _, st) \<Rightarrow> (CallOk, st))
            | _ \<Rightarrow> (CallError (newError CodeInvalidArgument), st))
      else query limits codec env outbound capability request ds st)"

section \<open>Mutations\<close>

text \<open>
  The flow that an attach reserves or joins; other commands have none. The request that was decoded from the payload is
  encoded and decoded once more for the check of the replay fields, which gives it back.
\<close>

definition reserveAttach ::
  "Limits \<Rightarrow> clientCodec \<Rightarrow> Command \<Rightarrow> destination \<Rightarrow> clientPeer \<Rightarrow> (go_error + nat option) \<times> clientPeer" where
  "reserveAttach limits codec command ds st =
     (if c_Capability command \<noteq> ''terminal.attach'' then (Inr None, st)
      else case cc_subscribe codec (c_Payload command) of
        Inl e \<Rightarrow> (Inl e, st)
      | Inr request \<Rightarrow>
          (case Client_validateReplayRequest codec (cp_client st) (c_Capability command) (c_Payload command) of
             Some e \<Rightarrow> (Inl e, st)
           | None \<Rightarrow>
               if ds_subscription ds = None then (Inl (newError CodeInvalidArgument), st)
               else (case onFlows (\<lambda>t. reserveAttachedTerminalFlow (MaxSubscriptions limits) (cc_digest codec command) t request) st of
                       (Inl e, st) \<Rightarrow> (Inl e, st) | (Inr i, st) \<Rightarrow> (Inr (Some i), st))))"

definition finishAttach :: "nat option \<Rightarrow> string \<Rightarrow> callResult \<Rightarrow> clientPeer \<Rightarrow> callResult \<times> clientPeer" where
  "finishAttach attachFlow subscriptionID r st =
     (case attachFlow of
        None \<Rightarrow> (r, st)
      | Some i \<Rightarrow>
          (case onFlows (\<lambda>t. completeAttachedTerminalFlow t i subscriptionID (callErr r)) st of
             (outcome, st) \<Rightarrow> (if r = CallOk then asResult outcome else r, st)))"

definition checkPayload :: "clientCodec \<Rightarrow> Client \<Rightarrow> Command \<Rightarrow> verr" where
  "checkPayload codec c command =
     first_err
      [if c_Capability command = ''terminal.send_input'' then validateTerminalInput codec c (c_Payload command) else nil,
       if isExtensionCapability (c_Capability command) then validateClientExtensionValue (Some (c_Payload command))
       else (case cc_request codec (c_Capability command) of
               None \<Rightarrow> Some (newError CodeInvalidArgument)
             | Some request \<Rightarrow> map_option (\<lambda>e. Structured (normalizeProtocolError e)) (request (c_Payload command)))]"

definition checkMutated :: "Command \<Rightarrow> destination \<Rightarrow> string \<Rightarrow> verr" where
  "checkMutated command ds raw =
     first_err
      [map_option (\<lambda>e. Structured (normalizeProtocolError e)) (validateRuntimeWorkspaceExtensions (ds_guarded ds raw)),
       if isExtensionCapability (c_Capability command) then validateClientExtensionValue (ds_marshal ds raw) else nil]"

text \<open>
  \<open>removeTerminalFlowForCommand\<close> with the decoding of the two commands that end a subscription; \<open>order\<close> is the order
  in which the iteration over the map visits the flows.
\<close>

definition releaseForCommand :: "clientCodec \<Rightarrow> nat list \<Rightarrow> Command \<Rightarrow> clientPeer \<Rightarrow> clientPeer" where
  "releaseForCommand codec order command st =
     (if c_Capability command \<in> {''terminal.detach'', ''events.unsubscribe''}
      then (case cc_subscriptionID codec (c_Capability command) (c_Payload command) of
              Inl _ \<Rightarrow> st
            | Inr subscriptionID \<Rightarrow> st\<lparr>cp_flows := removeTerminalFlowForCommand (cp_flows st) order subscriptionID\<rparr>)
      else st)"

definition attachedID :: "destination \<Rightarrow> string \<Rightarrow> string" where
  "attachedID ds raw = (case ds_subscription ds of None \<Rightarrow> [] | Some decoded \<Rightarrow> esr_SubscriptionID (decoded raw))"

definition Mutate ::
  "Limits \<Rightarrow> clientCodec \<Rightarrow> callEnv \<Rightarrow> nat list \<Rightarrow> Command \<Rightarrow> destination \<Rightarrow> clientPeer \<Rightarrow> callResult \<times> clientPeer" where
  "Mutate limits codec env order command ds st =
     (case mutateGuard (cp_client st) (ce_ctx env) command of
        Some e \<Rightarrow> (CallError e, st)
      | None \<Rightarrow>
          (case reserveAttach limits codec command ds st of
             (Inl e, st) \<Rightarrow> (CallError e, st)
           | (Inr attachFlow, st) \<Rightarrow>
               (case checkPayload codec (cp_client st) command of
                  Some e \<Rightarrow> finishAttach attachFlow [] (CallError e) st
                | None \<Rightarrow>
                    (case callValidated limits env (c_Capability command) (cc_command codec command) (ds_present ds) False
                            (Some (responseValidator codec (cp_client st) (c_Capability command) (c_Payload command))) (ds_strict ds) st of
                       (CallOk, st) \<Rightarrow>
                         (case checkMutated command ds (callRaw env st) of
                            Some e \<Rightarrow> finishAttach attachFlow [] (CallError e) st
                          | None \<Rightarrow>
                              (case finishAttach attachFlow (attachedID ds (callRaw env st)) CallOk st of
                                 (CallOk, st) \<Rightarrow> (CallOk, releaseForCommand codec order command st)
                               | (r, st) \<Rightarrow> (r, st)))
                     | (r, st) \<Rightarrow>
                         finishAttach attachFlow [] r
                           (if attachFlow \<noteq> None \<and> isClientLocalResponseError r then tearDownFor r st else st)))))"

section \<open>Credit and negotiation\<close>

definition SendTerminalCredit ::
  "callEnv \<Rightarrow> json \<Rightarrow> TerminalCredit \<Rightarrow> clientPeer \<Rightarrow> verr \<times> clientPeer" where
  "SendTerminalCredit env encoded credit st =
     (if \<not> cl_initialized (cp_client st) \<or> ce_ctx env = None \<or> TerminalCredit_Validate credit \<noteq> nil
      then (Some (newError CodeInvalidArgument), st)
      else case lookupTerminalFlow (cp_flows st) (cd_NativeSessionID credit) (cd_StreamID credit) of
        None \<Rightarrow> (Some (newError CodeInvalidArgument), st)
      | Some i \<Rightarrow>
          (let frame = marshalNotification NotificationTerminalCredit (Some encoded) (ce_outbound env) (cl_maximum (cp_client st));
               sends = (case frame of Inl _ \<Rightarrow> False | Inr _ \<Rightarrow> fst (sendCredit (cp_flows st) i frame nil credit) = nil) in
           if sends
           then (case clientWrite (ce_written env) (case frame of Inl _ \<Rightarrow> [] | Inr text \<Rightarrow> text) st of
                   (written, st) \<Rightarrow> onFlows (\<lambda>t. sendCredit t i frame written credit) st)
           else onFlows (\<lambda>t. sendCredit t i frame nil credit) st))"

definition Client_Initialize ::
  "Limits \<Rightarrow> callEnv \<Rightarrow> ProviderInitializeRequest \<Rightarrow> json option \<Rightarrow> (string \<Rightarrow> verr) option \<Rightarrow> (string \<Rightarrow> verr) \<Rightarrow>
     (string \<Rightarrow> ProviderInitializeResult) \<Rightarrow> clientPeer \<Rightarrow> (callResult + ProviderInitializeResult) \<times> clientPeer" where
  "Client_Initialize limits env request encoded codec strict decoded st =
     (case beginInitialize request (cp_client st) of
        Some e \<Rightarrow> (Inl (CallError e), st)
      | None \<Rightarrow>
          (case codec of
             None \<Rightarrow> (Inl (CallError (newError CodeInvalidArgument)), st)
           | Some validate \<Rightarrow>
               (case callValidated limits env ''provider.initialize'' encoded True True (Some validate) strict st of
                  (CallOk, st) \<Rightarrow>
                    (let result = decoded (callRaw env st) in
                     case onClient (finishInitialize limits request result) st of
                       (Some e, st) \<Rightarrow> (Inl (CallError e), st) | (None, st) \<Rightarrow> (Inr result, st))
                | (r, st) \<Rightarrow> (Inl r, st))))"

section \<open>A call leaves nothing behind\<close>

lemma closeTransport_frame [simp]:
  "cp_client (closeTransport st) = cp_client st" "cp_flows (closeTransport st) = cp_flows st"
  by (simp_all add: closeTransport_def)

lemma tearDown_frame [simp]:
  "cp_client (tearDown e st) = fail (cp_client st) e" "cp_flows (tearDown e st) = cp_flows st"
  by (simp_all add: tearDown_def)

lemma clientWrite_client:
  "clientWrite w frame st = (err, st') \<Longrightarrow> clientReaches limits (cp_client st) (cp_client st') \<and> cp_flows st' = cp_flows st"
  by (auto simp: clientWrite_def Let_def split: writeEnd.splits)

lemma cancelCall_client:
  "clientReaches limits (cp_client st) (cp_client (cancelCall limits m rid st)) \<and> cp_flows (cancelCall limits m rid st) = cp_flows st"
  by (simp add: cancelCall_def enqueueNotification_def split: sum.split)

lemma callsOk_reached: "clientReaches limits c c' \<Longrightarrow> callsOk limits c \<Longrightarrow> callsOk limits c'"
  by (induction rule: rtranclp_induct) (auto intro: callsOk_step)

text \<open>What \<open>awaitCall\<close> does to a client whose calls are in order.\<close>

definition callSettled :: "Limits \<Rightarrow> (string \<Rightarrow> verr) option \<Rightarrow> (string \<Rightarrow> verr) \<Rightarrow> string \<Rightarrow> callResult \<Rightarrow> Client \<Rightarrow> bool" where
  "callSettled limits validate strict rid r c \<longleftrightarrow>
     callsOk limits c \<and> rid \<notin> set (cl_pending c) \<and>
     (r = CallOk \<longrightarrow>
       (\<exists>response. map_of (cl_outcomes c) rid = Some (OutcomeResponse response) \<and> rpcResponse.rs_ID response = rid \<and>
          rs_Error response = None \<and> strict (rs_Result response) = nil \<and> (\<forall>v. validate = Some v \<longrightarrow> v (rs_Result response) = nil)))"

lemma finishClientOutcome_ok:
  "finishClientOutcome validate strict result = CallOk \<Longrightarrow>
     \<exists>response. result = OutcomeResponse response \<and> rs_Error response = None \<and> strict (rs_Result response) = nil \<and>
       (\<forall>v. validate = Some v \<longrightarrow> v (rs_Result response) = nil)"
  by (cases result) (auto simp: finishClientOutcome_def split: option.splits)

lemma outcome_settles:
  assumes "callsOk limits c" "map_of (cl_outcomes c) rid = Some result"
  shows "callSettled limits validate strict rid (finishClientOutcome validate strict result) c"
proof -
  have in_out: "(rid, result) \<in> set (cl_outcomes c)" using assms(2) by (rule map_of_SomeD)
  then have "rid \<in> fst ` set (cl_outcomes c)" by (metis fst_conv image_eqI)
  then have "rid \<notin> set (cl_pending c)" using assms(1) unfolding callsOk_def accounted_def by blast
  moreover have "outcomeFits (rid, result)" using assms(1) in_out by (auto simp: callsOk_def)
  ultimately show ?thesis
    using assms finishClientOutcome_ok [of validate strict result] by (auto simp: callSettled_def outcomeFits_def)
qed

lemma givingUp_settles:
  "callsOk limits c \<Longrightarrow> callSettled limits validate strict rid (CallError e) (removePending c rid)"
  by (simp add: callSettled_def giveUp_keeps) (simp add: removePending_def)

lemma writeFailed_settles:
  assumes "callsOk limits (cp_client st)"
    "onClient (awaitCall validate strict rid (WriteFailed e (polled env rid st))) st = (r, st')"
  shows "callSettled limits validate strict rid r (cp_client st')"
proof (cases "polled env rid st")
  case (Some result)
  then have "map_of (cl_outcomes (cp_client st)) rid = Some result" by (simp add: polled_def split: if_splits)
  from outcome_settles [OF assms(1) this] givingUp_settles [OF assms(1)] show ?thesis
    using assms(2) Some by (cases result) (auto simp: onClient_def awaitCall_def)
next
  case None
  then show ?thesis using assms(2) givingUp_settles [OF assms(1)] by (auto simp: onClient_def awaitCall_def)
qed

lemma awaitReply_settles:
  assumes "callsOk limits (cp_client st)" "awaitReply limits env m validate strict rid st = (r, st')"
  shows "callSettled limits validate strict rid r (cp_client st')"
proof (cases "polled env rid st")
  case (Some result)
  then have "map_of (cl_outcomes (cp_client st)) rid = Some result" by (simp add: polled_def split: if_splits)
  from outcome_settles [OF assms(1) this] show ?thesis
    using assms(2) Some by (auto simp: awaitReply_def onClient_def awaitCall_def)
next
  case None
  have "callsOk limits (cp_client (cancelCall limits m rid st))" using callsOk_reached [OF _ assms(1)] cancelCall_client by blast
  from givingUp_settles [OF this] givingUp_settles [OF assms(1)] show ?thesis
    using assms(2) None by (auto simp: awaitReply_def onClient_def awaitCall_def split: option.splits)
qed

text \<open>What other goroutines may do to the client while a call is under way, and to the registry of flows.\<close>

definition fairEnv :: "Limits \<Rightarrow> callEnv \<Rightarrow> bool" where
  "fairEnv limits env \<longleftrightarrow>
     (\<forall>st. clientReaches limits (cp_client st) (cp_client (ce_writing env st)) \<and>
           clientReaches limits (cp_client st) (cp_client (ce_waiting env st)) \<and>
           flowReaches (MaxSubscriptions limits) (cp_flows st) (cp_flows (ce_writing env st)) \<and>
           flowReaches (MaxSubscriptions limits) (cp_flows st) (cp_flows (ce_waiting env st)))"

lemma exchange_settles:
  assumes "callsOk limits (cp_client st)" "fairEnv limits env" "exchange limits env m frame validate strict rid st = (r, st')"
  shows "callSettled limits validate strict rid r (cp_client st')"
proof -
  have ok: "callsOk limits (cp_client (ce_writing env st))" using callsOk_reached [OF _ assms(1)] assms(2) unfolding fairEnv_def by blast
  obtain err s where w: "clientWrite (ce_written env) frame (ce_writing env st) = (err, s)" by (metis surj_pair)
  have ok: "callsOk limits (cp_client s)" using callsOk_reached [OF _ ok] clientWrite_client [OF w] by blast
  then have ok': "callsOk limits (cp_client (ce_waiting env s))" using callsOk_reached [OF _ ok] assms(2) unfolding fairEnv_def by blast
  show ?thesis
  proof (cases err)
    case None
    then show ?thesis using assms(3) w awaitReply_settles [OF ok'] by (simp add: exchange_def)
  next
    case (Some e)
    then show ?thesis using assms(3) w writeFailed_settles [OF ok] by (simp add: exchange_def)
  qed
qed

lemma prepareCall_id: "prepareCall env name parameter d m = Inr (rid, frame) \<Longrightarrow> ce_requestID env = Inr rid"
  by (auto simp: prepareCall_def split: option.splits if_splits sum.splits)

lemma register_refused: "registerCall limits c rid i = (Some e, c') \<Longrightarrow> c' = c"
  by (auto simp: registerCall_def split: if_splits)

lemma callValidated_settled:
  assumes "callsOk limits (cp_client st)" "ce_requestID env = Inr rid" "rid \<notin> set (cl_calls (cp_client st))" "fairEnv limits env"
    "callValidated limits env name parameter destination initialization validate strict st = (r, st')"
  shows "callSettled limits validate strict rid r (cp_client st')"
proof -
  have fresh: "rid \<notin> set (cl_pending (cp_client st))" using assms(1,3) by (auto simp: callsOk_def accounted_def)
  have refuse: "callSettled limits validate strict rid (CallError e) (cp_client st)" for e
    using assms(1) fresh by (simp add: callSettled_def)
  show ?thesis
  proof (cases "prepareCall env name parameter destination (cl_maximum (cp_client st))")
    case (Inl e)
    then show ?thesis using assms(5) refuse by (auto simp: callValidated_def Let_def)
  next
    case (Inr p)
    obtain rid' frame where p: "p = (rid', frame)" by (cases p)
    with Inr have prep: "prepareCall env name parameter destination (cl_maximum (cp_client st)) = Inr (rid, frame)"
      using prepareCall_id [of env name parameter destination "cl_maximum (cp_client st)" rid' frame] assms(2) by auto
    obtain err c where reg: "registerCall limits (cp_client st) rid initialization = (err, c)" by (metis surj_pair)
    note run = assms(5) [unfolded callValidated_def Let_def prep sum.case prod.case reg]
    show ?thesis
    proof (cases err)
      case None
      then show ?thesis using run exchange_settles [OF _ assms(4), of "st\<lparr>cp_client := c\<rparr>"] register_keeps [OF assms(1,3) reg] by simp
    next
      case (Some e)
      then show ?thesis using run refuse [of e] register_refused [of limits "cp_client st" rid initialization e c] reg by auto
    qed
  qed
qed

text \<open>
  C12: A call leaves nothing behind: in every interleaving with other goroutines, whether its write fails, its context ends,
  the client closes or the peer answers, when \<open>callValidated\<close> returns the identifier is no longer pending; and it reports
  success only for a response that carries this identifier, no error, and a result that passed the validation of the
  capability and the closed decoding.
\<close>

theorem call_leaves_nothing:
  assumes "NewClient streams opts = Inr (limits, new)" "clientReaches limits new (cp_client st)"
    "ce_requestID env = Inr rid" "rid \<notin> set (cl_calls (cp_client st))" "fairEnv limits env"
    "callValidated limits env name parameter destination initialization validate strict st = (r, st')"
  shows "rid \<notin> set (cl_pending (cp_client st')) \<and>
    (r = CallOk \<longrightarrow>
      (\<exists>response. map_of (cl_outcomes (cp_client st')) rid = Some (OutcomeResponse response) \<and> rpcResponse.rs_ID response = rid \<and>
         rs_Error response = None \<and> strict (rs_Result response) = nil \<and> (\<forall>v. validate = Some v \<longrightarrow> v (rs_Result response) = nil)))"
  using callValidated_settled [OF callsOk_reaches [OF assms(1,2)] assms(3-6)] by (simp add: callSettled_def)

section \<open>Subscriptions are bound or given up\<close>

lemma onClient_flows: "onClient f st = (r, st') \<Longrightarrow> cp_flows st' = cp_flows st"
  by (auto simp: onClient_def split: prod.splits)

lemma awaitReply_flows: "awaitReply limits env m validate strict rid st = (r, st') \<Longrightarrow> cp_flows st' = cp_flows st"
  using cancelCall_client by (auto simp: awaitReply_def dest!: onClient_flows split: option.splits)

lemma callValidated_flows:
  assumes "fairEnv limits env" "callValidated limits env name parameter destination i validate strict st = (r, st')"
  shows "flowReaches (MaxSubscriptions limits) (cp_flows st) (cp_flows st')"
proof -
  have ex: "flowReaches (MaxSubscriptions limits) (cp_flows s) (cp_flows s')"
    if "exchange limits env m frame validate strict rid s = (r, s')" for m frame rid s s'
  proof -
    obtain err u where w: "clientWrite (ce_written env) frame (ce_writing env s) = (err, u)" by (metis surj_pair)
    have u: "flowReaches (MaxSubscriptions limits) (cp_flows s) (cp_flows u)"
      using clientWrite_client [OF w] assms(1) unfolding fairEnv_def by metis
    moreover have "flowReaches (MaxSubscriptions limits) (cp_flows u) (cp_flows (ce_waiting env u))"
      using assms(1) unfolding fairEnv_def by blast
    ultimately show ?thesis
      using that w by (cases err) (auto simp: exchange_def dest!: onClient_flows awaitReply_flows)
  qed
  show ?thesis
    using assms(2) by (auto simp: callValidated_def Let_def dest!: ex split: sum.splits prod.splits option.splits)
qed

lemma query_flows:
  assumes "fairEnv limits env" "query limits codec env outbound capability request ds st = (r, st')"
  shows "flowReaches (MaxSubscriptions limits) (cp_flows st) (cp_flows st')"
  using assms(2)
  by (auto simp: query_def Let_def tearDownFor_def dest!: callValidated_flows [OF assms(1)]
      split: option.splits prod.splits callResult.splits if_splits)

lemma flowStep_length: "flowStep limit t t' \<Longrightarrow> length (ft_flows t) \<le> length (ft_flows t')"
proof (induction rule: flowStep.induct)
  case (chunk t maximum replay c r t')
  then show ?case by (auto simp: receiveChunk_def split: option.splits prod.splits)
next
  case (attach digested t request r t')
  then show ?case by (auto simp: reserveAttachedTerminalFlow_def addFlow_def Let_def split: option.splits sum.splits if_splits)
qed (auto simp: reserveTerminalFlow_def addFlow_def bindFlow_def completeDecide_def retireMark_def closeFlow_def retireDelete_def
    sendCredit_def Let_def split: if_splits prod.splits)

lemma flowReaches_length: "flowReaches limit t t' \<Longrightarrow> length (ft_flows t) \<le> length (ft_flows t')"
  by (induction rule: rtranclp_induct) (auto dest: flowStep_length)

lemma reserve_index:
  "reserveTerminalFlow limit t request = (Inr i, t') \<Longrightarrow> i = length (ft_flows t) \<and> length (ft_flows t') = Suc i"
  by (auto simp: reserveTerminalFlow_def addFlow_def Let_def split: if_splits)

text \<open>A flow is gone when it is closed and no longer in the table.\<close>

definition gone :: "flowTable \<Rightarrow> nat \<Rightarrow> bool" where
  "gone t i \<longleftrightarrow> cf_closed (flowAt t i) \<and> \<not> inTable t i"

lemma retired_gone:
  assumes "i < length (ft_flows t)"
  shows "gone (retireTerminalFlow t i) i"
  using assms
  by (auto simp: gone_def retireTerminalFlow_def retireDelete_def closeFlow_def retireMark_def inTable_def map_of_delete terminalStreamKey_def)

lemma fail_closed: "cl_closed (fail c e)"
  by (simp add: fail_def)

lemma release_frame [simp]:
  "cp_flows (releaseTerminalFlow i st) = retireTerminalFlow (cp_flows st) i" "cp_client (releaseTerminalFlow i st) = cp_client st"
  by (simp_all add: releaseTerminalFlow_def)

lemma tearDownFor_frame [simp]: "cp_flows (tearDownFor r st) = cp_flows st"
  by (simp add: tearDownFor_def split: option.split)

lemma tearDownFor_closes: "r \<noteq> CallOk \<Longrightarrow> cl_closed (cp_client (tearDownFor r st))"
  by (cases r) (simp_all add: tearDownFor_def callErr_def fail_closed)

lemma subscribeReserved_outcome:
  assumes "fairEnv limits env" "subscribeReserved limits codec env outbound encoded ds decoded i st = (out, st')"
    "i < length (ft_flows (cp_flows st))"
  shows "case out of
      Inl r \<Rightarrow> gone (cp_flows st') i \<and> (doubtful r \<longrightarrow> cl_closed (cp_client st'))
    | Inr result \<Rightarrow> cf_subscriptionID (flowAt (cp_flows st') i) = esr_SubscriptionID result \<and>
        NativeID_Validate (esr_SubscriptionID result) = nil"
proof -
  obtain r s where q: "query limits codec env outbound ''terminal.subscribe'' (Some encoded) ds st = (r, s)" by (metis surj_pair)
  have len: "i < length (ft_flows (cp_flows s))" using flowReaches_length [OF query_flows [OF assms(1) q]] assms(3) by simp
  show ?thesis
  proof (cases "r = CallOk")
    case False
    then have "out = Inl r \<and> st' = releaseTerminalFlow i (if doubtful r then tearDownFor r s else s)"
      using assms(2) q by (cases r) (auto simp: subscribeReserved_def)
    then show ?thesis using retired_gone [OF len] tearDownFor_closes [OF False, of s] by auto
  next
    case True
    let ?result = "decoded (callRaw env s)"
    obtain err t where b: "bindFlow (cp_flows s) i (esr_SubscriptionID ?result) = (err, t)" by (metis surj_pair)
    have len2: "length (ft_flows t) = length (ft_flows (cp_flows s))" using b by (auto simp: bindFlow_def split: prod.splits)
    show ?thesis
    proof (cases err)
      case None
      then have "out = Inr ?result" "st' = s\<lparr>cp_flows := t\<rparr>" using assms(2) q True b by (auto simp: subscribeReserved_def onFlows_def Let_def)
      moreover have "cf_subscriptionID (flowAt t i) = esr_SubscriptionID ?result \<and> NativeID_Validate (esr_SubscriptionID ?result) = nil"
        using b None len by (auto simp: bindFlow_def bindSubscription_def split: if_splits prod.splits)
      ultimately show ?thesis by simp
    next
      case (Some e)
      then have "out = Inl (CallError e)" "st' = releaseTerminalFlow i (tearDown e (s\<lparr>cp_flows := t\<rparr>))"
        using assms(2) q True b by (auto simp: subscribeReserved_def onFlows_def Let_def)
      then show ?thesis using retired_gone [of i t] len len2 by (simp add: fail_closed)
    qed
  qed
qed

text \<open>
  C13: Subscribing to a terminal is all or nothing. A call that fails before it has reserved its flow changes nothing. A call
  that fails later leaves its flow closed and out of the table, and when the provider may hold a subscription all the same
  (the answer did not arrive, or was not understood) the client is closed. A call that succeeds has bound its flow to the
  subscription that it returns.
\<close>

theorem subscribe_all_or_nothing:
  assumes "fairEnv limits env"
    "SubscribeTerminal limits codec env outbound request encoded ds decoded st = (out, st')"
  shows "case out of
      Inl r \<Rightarrow> st' = st \<or> gone (cp_flows st') (length (ft_flows (cp_flows st))) \<and> (doubtful r \<longrightarrow> cl_closed (cp_client st'))
    | Inr result \<Rightarrow> cf_subscriptionID (flowAt (cp_flows st') (length (ft_flows (cp_flows st)))) = esr_SubscriptionID result \<and>
        NativeID_Validate (esr_SubscriptionID result) = nil"
proof (cases "subscribeGuard codec (ce_ctx env) request encoded (cp_client st)")
  case (Some e)
  then show ?thesis using assms(2) by (auto simp: SubscribeTerminal_def)
next
  case None
  obtain rsv t where rsv: "reserveTerminalFlow (MaxSubscriptions limits) (cp_flows st) request = (rsv, t)" by (metis surj_pair)
  show ?thesis
  proof (cases rsv)
    case (Inl e)
    have "t = cp_flows st" using rsv Inl by (auto simp: reserveTerminalFlow_def Let_def split: if_splits)
    then show ?thesis using assms(2) rsv Inl None by (auto simp: SubscribeTerminal_def onFlows_def)
  next
    case (Inr j)
    then have j: "j = length (ft_flows (cp_flows st))" "j < length (ft_flows t)"
      using reserve_index [of _ "cp_flows st" request j t] rsv by auto
    have "subscribeReserved limits codec env outbound encoded ds decoded j (st\<lparr>cp_flows := t\<rparr>) = (out, st')"
      using assms(2) rsv Inr None by (simp add: SubscribeTerminal_def onFlows_def)
    from subscribeReserved_outcome [OF assms(1) this] j show ?thesis by (auto split: sum.splits)
  qed
qed

section \<open>Attaches are accounted for\<close>

definition attachSettled :: "nat \<Rightarrow> callResult \<Rightarrow> flowTable \<Rightarrow> bool" where
  "attachSettled i r t \<longleftrightarrow>
     (case callErr r of
        None \<Rightarrow> cf_established (flowAt t i) \<and> NativeID_Validate (cf_subscriptionID (flowAt t i)) = nil
      | Some e \<Rightarrow>
          if ambiguousTerminalFlowError e then cf_unknown (flowAt t i)
          else gone t i \<or> \<not> inTable t i \<or>
            cf_attachPending (flowAt t i) \<noteq> 0 \<or> cf_established (flowAt t i) \<or> cf_unknown (flowAt t i))"

lemma completeDecide_settles:
  assumes "i < length (ft_flows t)" "completeDecide t i outcome = (remove, t')" "\<not> remove"
    "outcome = nil \<Longrightarrow> NativeID_Validate (cf_subscriptionID (flowAt t i)) = nil"
  shows "attachSettled i (asResult outcome) t'"
proof (cases outcome)
  case None
  then show ?thesis
    using assms by (auto simp: completeDecide_def completeFlow_def attachSettled_def asResult_def callErr_def Let_def split: if_splits)
next
  case (Some e)
  have "inTable (updateFlow t i f) i \<longleftrightarrow> inTable t i" if "terminalStreamKey f = terminalStreamKey (flowAt t i)" for f
    using that assms(1) by (simp add: inTable_def)
  then show ?thesis
    using assms(1-3) Some
    by (auto simp: completeDecide_def completeFlow_def attachSettled_def asResult_def callErr_def Let_def terminalStreamKey_def split: if_splits)
qed

lemma completeDecide_removes: "completeDecide t i outcome = (True, t') \<Longrightarrow> \<exists>e. outcome = Some e \<and> \<not> ambiguousTerminalFlowError e"
  by (auto simp: completeDecide_def completeFlow_def Let_def split: option.splits if_splits)

lemma complete_settles:
  assumes "i < length (ft_flows t)" "completeAttachedTerminalFlow t i sid outcome0 = (outcome, t')"
  shows "attachSettled i (asResult outcome) t'"
proof -
  obtain t1 where t1: "(case outcome0 of None \<Rightarrow> bindFlow t i sid | Some e \<Rightarrow> (Some e, t)) = (outcome, t1)"
    using assms(2) by (auto simp: completeAttachedTerminalFlow_def split: prod.splits)
  obtain remove t2 where t2: "completeDecide t1 i outcome = (remove, t2)" by (metis surj_pair)
  have t': "t' = (if remove then retireTerminalFlow t2 i else t2)"
    using assms(2) t1 t2 by (simp add: completeAttachedTerminalFlow_def)
  have len: "i < length (ft_flows t1)" using t1 assms(1) by (auto simp: bindFlow_def split: option.splits prod.splits)
  have len2: "i < length (ft_flows t2)" using t2 len by (auto simp: completeDecide_def split: prod.splits)
  have bound: "NativeID_Validate (cf_subscriptionID (flowAt t1 i)) = nil" if "outcome = nil"
    using t1 that assms(1) by (auto simp: bindFlow_def bindSubscription_def split: option.splits if_splits prod.splits)
  show ?thesis
  proof (cases remove)
    case True
    then obtain e where "outcome = Some e" "\<not> ambiguousTerminalFlowError e" using completeDecide_removes [of t1 i outcome t2] t2 by auto
    then show ?thesis using retired_gone [OF len2] t' True by (simp add: attachSettled_def asResult_def callErr_def)
  next
    case False
    then show ?thesis using completeDecide_settles [OF len t2] bound t' by simp
  qed
qed

lemma callErr_asResult: "callErr (asResult err) = err"
  by (simp add: callErr_def asResult_def split: option.split)

lemma attachSettled_error: "callErr r = callErr r' \<Longrightarrow> attachSettled i r t = attachSettled i r' t"
  by (simp add: attachSettled_def)

lemma finishAttach_settles:
  assumes "i < length (ft_flows (cp_flows st))" "finishAttach (Some i) sid r0 st = (r, st')"
  shows "attachSettled i r (cp_flows st')"
proof -
  obtain outcome t where c: "completeAttachedTerminalFlow (cp_flows st) i sid (callErr r0) = (outcome, t)" by (metis surj_pair)
  then have r: "r = (if r0 = CallOk then asResult outcome else r0)" "cp_flows st' = t"
    using assms(2) by (auto simp: finishAttach_def onFlows_def)
  have "outcome = callErr r0" if "r0 \<noteq> CallOk"
    using c that by (cases r0) (auto simp: completeAttachedTerminalFlow_def callErr_def split: prod.splits)
  then show ?thesis
    using complete_settles [OF assms(1) c] r attachSettled_error [of "asResult outcome" r0 i t] by (auto simp: callErr_asResult)
qed

lemma reserveAttached_index:
  assumes "flowsOk limit t" "reserveAttachedTerminalFlow limit digested t request = (Inr i, t')"
  shows "i < length (ft_flows t')"
proof (cases "map_of (ft_table t) (requestKey request)")
  case None
  then show ?thesis using assms(2) by (auto simp: reserveAttachedTerminalFlow_def addFlow_def Let_def split: sum.splits if_splits)
next
  case (Some j)
  then show ?thesis using assms(2) flowsOk_indexed(1) [OF assms(1) Some]
    by (auto simp: reserveAttachedTerminalFlow_def Let_def split: sum.splits if_splits)
qed

lemma reserveAttach_index:
  assumes "flowsOk (MaxSubscriptions limits) (cp_flows st)" "reserveAttach limits codec command ds st = (Inr (Some i), st1)"
  shows "i < length (ft_flows (cp_flows st1)) \<and> c_Capability command = ''terminal.attach''"
  using assms(2) reserveAttached_index [OF assms(1)]
  by (auto simp: reserveAttach_def onFlows_def split: if_splits sum.splits option.splits prod.splits)

text \<open>
  C14: An attach settles its flow on every path. When \<open>Mutate\<close> returns from an attach, a success has bound the subscription
  and marked the flow as established; an error that leaves the outcome open is recorded on the flow as unknown; and after
  any other error the flow stays registered only for the sake of another attach, pending or established, or an unknown one.
\<close>

theorem attach_settles:
  assumes "fairEnv limits env" "flowsOk (MaxSubscriptions limits) (cp_flows st)"
    "mutateGuard (cp_client st) (ce_ctx env) command = nil"
    "reserveAttach limits codec command ds st = (Inr (Some i), st1)"
    "Mutate limits codec env order command ds st = (r, st')"
  shows "case callErr r of
      None \<Rightarrow> cf_established (flowAt (cp_flows st') i) \<and> NativeID_Validate (cf_subscriptionID (flowAt (cp_flows st') i)) = nil
    | Some e \<Rightarrow>
        if ambiguousTerminalFlowError e then cf_unknown (flowAt (cp_flows st') i)
        else inTable (cp_flows st') i \<longrightarrow>
          cf_attachPending (flowAt (cp_flows st') i) \<noteq> 0 \<or> cf_established (flowAt (cp_flows st') i) \<or> cf_unknown (flowAt (cp_flows st') i)"
proof -
  note at = reserveAttach_index [OF assms(2,4)]
  note run = assms(5) [unfolded Mutate_def assms(3,4) option.case prod.case sum.case]
  have "attachSettled i r (cp_flows st')"
  proof (cases "checkPayload codec (cp_client st1) command")
    case (Some e)
    then show ?thesis using run finishAttach_settles [of i st1] at by simp
  next
    case None
    obtain r1 s where c: "callValidated limits env (c_Capability command) (cc_command codec command) (ds_present ds) False
        (Some (responseValidator codec (cp_client st1) (c_Capability command) (c_Payload command))) (ds_strict ds) st1 = (r1, s)"
      by (metis surj_pair)
    have len: "i < length (ft_flows (cp_flows s))" using flowReaches_length [OF callValidated_flows [OF assms(1) c]] at by simp
    show ?thesis
    proof (cases "r1 = CallOk")
      case False
      then have "finishAttach (Some i) [] r1 (if isClientLocalResponseError r1 then tearDownFor r1 s else s) = (r, st')"
        using run None c by (cases r1) auto
      then show ?thesis using finishAttach_settles [of i "if isClientLocalResponseError r1 then tearDownFor r1 s else s"] len
        by (simp split: if_splits)
    next
      case True
      show ?thesis
      proof (cases "checkMutated command ds (callRaw env s)")
        case (Some e)
        then show ?thesis using run None c True finishAttach_settles [OF len] by simp
      next
        case checked: None
        obtain r2 u where f: "finishAttach (Some i) (attachedID ds (callRaw env s)) CallOk s = (r2, u)" by (metis surj_pair)
        have "r = r2 \<and> st' = u" using run None c True checked f at by (cases r2) (auto simp: releaseForCommand_def)
        then show ?thesis using finishAttach_settles [OF len f] by simp
      qed
    qed
  qed
  then show ?thesis by (auto simp: attachSettled_def gone_def split: option.splits if_splits)
qed

section \<open>Witnesses\<close>

definition samplePeerManifest :: ProviderManifest where
  "samplePeerManifest = sampleManifest\<lparr>m_Capabilities := [readonly_cap ''terminal.subscribe'' RoleSessionRuntime,
       mutating_cap ''terminal.attach'' RoleSessionRuntime DeliveryStateReconciled]\<rparr>"

definition samplePeer :: clientPeer where
  "samplePeer =
     \<lparr>cp_client = sampleClientState\<lparr>cl_initialized := True, cl_manifest := Some samplePeerManifest\<rparr>, cp_flows = newFlows, cp_writes = [],
      cp_writer = \<lparr>fw_writer = None, fw_maximumBytes = 0\<rparr>, cp_closers = [], cp_transportClosed = False, cp_transportErr = []\<rparr>"

definition sampleReply :: rpcResponse where
  "sampleReply = \<lparr>rs_JSONRPC = jsonRPCVersion, rs_ID = ''req-1'', rs_Result = ''{}'', rs_Error = None\<rparr>"

definition sampleCallEnv :: callEnv where
  "sampleCallEnv =
     \<lparr>ce_ctx = Some nil, ce_requestID = Inr ''req-1'', ce_outbound = nil, ce_written = Acknowledged nil, ce_end = nil, ce_early = False,
      ce_writing = (\<lambda>st. st), ce_waiting = (\<lambda>st. st\<lparr>cp_client := deliverResponse (cp_client st) sampleReply\<rparr>)\<rparr>"

definition sampleCodec :: clientCodec where
  "sampleCodec =
     \<lparr>cc_read = (\<lambda>_. Inl (newError CodeInvalidArgument)), cc_subscribe = (\<lambda>_. Inr sampleRequest), cc_events = (\<lambda>_. Inl (newError CodeInvalidArgument)),
      cc_input = (\<lambda>_. Inl (newError CodeInvalidArgument)), cc_chunk = (\<lambda>_. Inl (newError CodeInvalidArgument)),
      cc_guarded = (\<lambda>_ _. Inr PlainResult), cc_subscriptionID = (\<lambda>_ _. Inr ''sub-1''), cc_request = (\<lambda>_. Some (\<lambda>_. nil)),
      cc_result = (\<lambda>_. Some (\<lambda>_. nil)), cc_digest = (\<lambda>_. Inr ''digest''), cc_command = (\<lambda>_. Some (JObj []))\<rparr>"

definition sampleSubscribed :: "string \<Rightarrow> EventsSubscribeResult" where
  "sampleSubscribed _ = \<lparr>esr_SubscriptionID = ''sub-1'', esr_Cursors = []\<rparr>"

definition sampleDestination :: destination where
  "sampleDestination =
     \<lparr>ds_present = True, ds_strict = (\<lambda>_. nil), ds_guarded = (\<lambda>_. PlainResult), ds_marshal = (\<lambda>_. Some ''{}''), ds_chunk = None,
      ds_subscription = Some sampleSubscribed\<rparr>"

definition sampleAttach :: Command where
  "sampleAttach = sampleCommand\<lparr>c_Capability := ''terminal.attach'', c_DeliveryClass := DeliveryStateReconciled\<rparr>"

lemma sample_fair: "fairEnv limits sampleCallEnv"
  by (simp add: fairEnv_def sampleCallEnv_def deliver_reaches)

lemma sample_call:
  "fst (callValidated TestLimits sampleCallEnv ''provider.initialize'' (Some (JObj [])) True True None (\<lambda>_. nil)
     (samplePeer\<lparr>cp_client := sampleClientState\<rparr>)) = CallOk"
  by code_simp

lemma sample_subscribe:
  "fst (SubscribeTerminal TestLimits sampleCodec sampleCallEnv nil sampleRequest (JObj []) sampleDestination sampleSubscribed samplePeer)
     = Inr (sampleSubscribed ''{}'')"
  by code_simp

lemma sample_attach:
  "mutateGuard (cp_client samplePeer) (ce_ctx sampleCallEnv) sampleAttach = nil"
  "fst (Mutate TestLimits sampleCodec sampleCallEnv [] sampleAttach sampleDestination samplePeer) = CallOk"
  by code_simp+

theorem call_leaves_nothing_witness:
  "\<exists>st' response. callValidated TestLimits sampleCallEnv ''provider.initialize'' (Some (JObj [])) True True None (\<lambda>_. nil)
       (samplePeer\<lparr>cp_client := sampleClientState\<rparr>) = (CallOk, st') \<and>
     ''req-1'' \<notin> set (cl_pending (cp_client st')) \<and> map_of (cl_outcomes (cp_client st')) ''req-1'' = Some (OutcomeResponse response)"
proof -
  let ?st = "samplePeer\<lparr>cp_client := sampleClientState\<rparr>"
  obtain st' where run: "callValidated TestLimits sampleCallEnv ''provider.initialize'' (Some (JObj [])) True True None (\<lambda>_. nil) ?st = (CallOk, st')"
    using sample_call by (metis prod.collapse)
  have "clientReaches TestLimits sampleClientState (cp_client ?st)" "''req-1'' \<notin> set (cl_calls (cp_client ?st))"
    by (simp_all add: sampleClientState_def)
  moreover have "ce_requestID sampleCallEnv = Inr ''req-1''" by (simp add: sampleCallEnv_def)
  ultimately show ?thesis using call_leaves_nothing [OF sample_client _ _ _ sample_fair run] run by blast
qed

theorem subscribe_all_or_nothing_witness:
  "\<exists>st'. SubscribeTerminal TestLimits sampleCodec sampleCallEnv nil sampleRequest (JObj []) sampleDestination sampleSubscribed samplePeer
       = (Inr (sampleSubscribed ''{}''), st') \<and> cf_subscriptionID (flowAt (cp_flows st') 0) = ''sub-1''"
proof -
  obtain st' where run: "SubscribeTerminal TestLimits sampleCodec sampleCallEnv nil sampleRequest (JObj []) sampleDestination sampleSubscribed samplePeer
       = (Inr (sampleSubscribed ''{}''), st')" using sample_subscribe by (metis prod.collapse)
  have "ft_flows (cp_flows samplePeer) = []" by (simp add: samplePeer_def newFlows_def)
  then show ?thesis using subscribe_all_or_nothing [OF sample_fair run] run by (simp add: sampleSubscribed_def)
qed

theorem attach_settles_witness:
  "\<exists>st'. Mutate TestLimits sampleCodec sampleCallEnv [] sampleAttach sampleDestination samplePeer = (CallOk, st') \<and>
     cf_established (flowAt (cp_flows st') 0)"
proof -
  obtain st' where run: "Mutate TestLimits sampleCodec sampleCallEnv [] sampleAttach sampleDestination samplePeer = (CallOk, st')"
    using sample_attach(2) by (metis prod.collapse)
  have "fst (reserveAttach TestLimits sampleCodec sampleAttach sampleDestination samplePeer) = Inr (Some 0)" by code_simp
  then obtain st1 where res: "reserveAttach TestLimits sampleCodec sampleAttach sampleDestination samplePeer = (Inr (Some 0), st1)"
    by (metis prod.collapse)
  have "flowsOk (MaxSubscriptions TestLimits) (cp_flows samplePeer)" by (simp add: samplePeer_def newFlows_ok)
  from attach_settles [OF sample_fair this sample_attach(1) res run] run show ?thesis by (simp add: callErr_def)
qed

end
