(* ===== verification/Mock_Faults.thy ===== *)
theory Mock_Faults
  imports Proto_Validate
begin

text \<open>
  \<open>mock/faults.go\<close>: the fault script of a boundary. A byte slice is a string; copies are values. The script keeps
  its steps in order, and the frames that an out-of-order fault holds back, by point. Waiting for a timer or a gate
  ends with the timer or gate, or with the error of the context: that is the argument \<open>wait\<close>.
\<close>

section \<open>Scripts\<close>

abbreviation ActionDisconnect :: string where "ActionDisconnect \<equiv> ''disconnect''"
abbreviation ActionCrash :: string where "ActionCrash \<equiv> ''crash''"
abbreviation ActionDelay :: string where "ActionDelay \<equiv> ''delay''"
abbreviation ActionDuplicate :: string where "ActionDuplicate \<equiv> ''duplicate''"
abbreviation ActionOutOfOrder :: string where "ActionOutOfOrder \<equiv> ''out_of_order''"
abbreviation ActionReplayGap :: string where "ActionReplayGap \<equiv> ''replay_gap''"
abbreviation ActionBackpressure :: string where "ActionBackpressure \<equiv> ''backpressure''"
abbreviation ActionOversize :: string where "ActionOversize \<equiv> ''oversize''"
abbreviation ActionRedact :: string where "ActionRedact \<equiv> ''redact''"

abbreviation PointGatewayToProvider :: string where "PointGatewayToProvider \<equiv> ''gateway.provider''"
abbreviation PointProviderToGateway :: string where "PointProviderToGateway \<equiv> ''provider.gateway''"
abbreviation PointControlPlaneIngest :: string where "PointControlPlaneIngest \<equiv> ''control-plane.ingest''"
abbreviation PointControlPlaneReplay :: string where "PointControlPlaneReplay \<equiv> ''control-plane.replay''"

abbreviation maxFaultOutputFrames :: nat where "maxFaultOutputFrames \<equiv> 1024"

abbreviation ErrDisconnected :: go_error where "ErrDisconnected \<equiv> Sentinel ''mock boundary disconnected''"
abbreviation ErrCrash :: go_error where "ErrCrash \<equiv> Sentinel ''mock provider crash''"

record Fault =
  fl_Point :: string
  fl_Occurrence :: uint64
  fl_Action :: string
  fl_Contains :: string
  fl_Delay :: int
  fl_Copies :: int
  fl_Size :: int
  fl_Match :: string
  fl_Replacement :: string
  fl_Gate :: bool

record faultStep =
  fs_fault :: Fault
  fs_seen :: uint64
  fs_used :: bool

record Faults =
  fa_steps :: "faultStep list"
  fa_pending :: "string \<Rightarrow> string list"

definition Fault_validate :: "Fault \<Rightarrow> verr" where
  "Fault_validate f =
     (if fl_Point f \<notin> {PointGatewayToProvider, PointProviderToGateway, PointControlPlaneIngest, PointControlPlaneReplay}
      then errorf ''mock fault point is invalid''
      else if fl_Occurrence f = 0 then errorf ''mock fault occurrence must be positive''
      else if fl_Action f \<in> {ActionDisconnect, ActionCrash, ActionOutOfOrder, ActionReplayGap} then nil
      else if fl_Action f = ActionDelay then (if fl_Delay f \<le> 0 then errorf ''mock delay must be positive'' else nil)
      else if fl_Action f = ActionDuplicate
      then (if fl_Copies f < 2 \<or> fl_Copies f > 16 then errorf ''mock duplicate copies must be between 2 and 16'' else nil)
      else if fl_Action f = ActionBackpressure then (if \<not> fl_Gate f then errorf ''mock backpressure gate is required'' else nil)
      else if fl_Action f = ActionOversize
      then (if fl_Size f \<le> 0 \<or> fl_Size f > int MaxMessageBytes + 1 then errorf ''mock oversize target is invalid'' else nil)
      else if fl_Action f = ActionRedact then (if fl_Match f = [] then errorf ''mock redaction match is required'' else nil)
      else errorf ''mock fault action is invalid'')"

definition NewFaults :: "Fault list \<Rightarrow> go_error + Faults" where
  "NewFaults values =
     (case each_err Fault_validate values of
        Some e \<Rightarrow> Inl e
      | None \<Rightarrow> Inr \<lparr>fa_steps = map (\<lambda>f. \<lparr>fs_fault = f, fs_seen = 0, fs_used = False\<rparr>) values, fa_pending = (\<lambda>_. [])\<rparr>)"

section \<open>Applying a script\<close>

text \<open>The locked section: every step whose point and content match counts the frame, and fires at its occurrence.\<close>

definition matches :: "string \<Rightarrow> string \<Rightarrow> faultStep \<Rightarrow> bool" where
  "matches point payload s \<longleftrightarrow>
     \<not> fs_used s \<and> fl_Point (fs_fault s) = point \<and>
     \<not> (fl_Contains (fs_fault s) \<noteq> [] \<and> \<not> contains payload (fl_Contains (fs_fault s)))"

definition countStep :: "string \<Rightarrow> string \<Rightarrow> faultStep \<Rightarrow> faultStep" where
  "countStep point payload s =
     (if matches point payload s
      then s\<lparr>fs_seen := fs_seen s + 1, fs_used := (fs_seen s + 1 = fl_Occurrence (fs_fault s))\<rparr> else s)"

definition fires :: "string \<Rightarrow> string \<Rightarrow> faultStep \<Rightarrow> bool" where
  "fires point payload s \<longleftrightarrow> matches point payload s \<and> fs_seen s + 1 = fl_Occurrence (fs_fault s)"

text \<open>\<open>bytes.ReplaceAll\<close>; the script has no redaction with an empty match.\<close>

function replaceAll :: "string \<Rightarrow> string \<Rightarrow> string \<Rightarrow> string" where
  "replaceAll old new [] = []"
| "replaceAll old new (c # s) =
     (if old \<noteq> [] \<and> hasPrefix (c # s) old then new @ replaceAll old new (drop (length old) (c # s)) else c # replaceAll old new s)"
  by pat_completeness auto
termination by (relation "measure (\<lambda>(_, _, s). length s)") auto

definition oversize :: "int \<Rightarrow> string \<Rightarrow> string" where
  "oversize n frame = (if int (length frame) \<ge> n then frame else frame @ replicate (nat n - length frame) (CHR '' ''))"

fun runFaults :: "(Fault \<Rightarrow> verr) \<Rightarrow> string \<Rightarrow> Fault list \<Rightarrow> string list \<Rightarrow> (string \<Rightarrow> string list)
    \<Rightarrow> (go_error + string list) \<times> (string \<Rightarrow> string list)" where
  "runFaults wait point [] frames pending = (Inr frames, pending)"
| "runFaults wait point (f # fs) frames pending =
     (if fl_Action f = ActionDelay \<or> fl_Action f = ActionBackpressure
      then (case wait f of Some e \<Rightarrow> (Inl e, pending) | None \<Rightarrow> runFaults wait point fs frames pending)
      else if fl_Action f = ActionDuplicate
      then (if fl_Copies f < 2 \<or> fl_Copies f > 16 \<or> int (length frames) > int maxFaultOutputFrames div fl_Copies f
            then (Inl (Plain ''mock duplicate output exceeds frame limit''), pending)
            else runFaults wait point fs (concat (map (replicate (nat (fl_Copies f))) frames)) pending)
      else if fl_Action f = ActionOutOfOrder
      then runFaults wait point fs [] (pending(point := pending point @ frames))
      else if fl_Action f = ActionReplayGap then runFaults wait point fs [] pending
      else if fl_Action f = ActionOversize then runFaults wait point fs (map (oversize (fl_Size f)) frames) pending
      else if fl_Action f = ActionRedact
      then runFaults wait point fs (map (replaceAll (fl_Match f) (fl_Replacement f)) frames) pending
      else if fl_Action f = ActionDisconnect then (Inl ErrDisconnected, pending)
      else if fl_Action f = ActionCrash then (Inl ErrCrash, pending)
      else runFaults wait point fs frames pending)"

text \<open>\<open>Apply\<close> and \<open>Flush\<close>; None is a nil script.\<close>

definition Faults_Apply :: "(Fault \<Rightarrow> verr) \<Rightarrow> Faults option \<Rightarrow> string \<Rightarrow> string \<Rightarrow> (go_error + string list) \<times> Faults option" where
  "Faults_Apply wait faults point payload =
     (case faults of
        None \<Rightarrow> (Inr [payload], None)
      | Some f \<Rightarrow>
          (case runFaults wait point (map fs_fault (filter (fires point payload) (fa_steps f)))
                  (payload # fa_pending f point) ((fa_pending f)(point := [])) of
             (r, pending) \<Rightarrow> (r, Some \<lparr>fa_steps = map (countStep point payload) (fa_steps f), fa_pending = pending\<rparr>)))"

definition Faults_Flush :: "Faults option \<Rightarrow> string \<Rightarrow> string list \<times> Faults option" where
  "Faults_Flush faults point =
     (case faults of
        None \<Rightarrow> ([], None)
      | Some f \<Rightarrow> (fa_pending f point, Some (f\<lparr>fa_pending := (fa_pending f)(point := [])\<rparr>)))"

definition Remaining :: "Faults option \<Rightarrow> nat" where
  "Remaining faults = (case faults of None \<Rightarrow> 0 | Some f \<Rightarrow> length (filter (\<lambda>s. \<not> fs_used s) (fa_steps f)))"

text \<open>A boundary over time: the frames given to one point, with what each delivers; an error ends the boundary.\<close>

fun relay :: "(Fault \<Rightarrow> verr) \<Rightarrow> string \<Rightarrow> string list \<Rightarrow> Faults option \<Rightarrow> (go_error + string list) \<times> Faults option" where
  "relay wait point [] faults = (case Faults_Flush faults point of (frames, faults') \<Rightarrow> (Inr frames, faults'))"
| "relay wait point (p # ps) faults =
     (case Faults_Apply wait faults point p of
        (Inl e, faults') \<Rightarrow> (Inl e, faults')
      | (Inr frames, faults') \<Rightarrow> apfst (map_sum id ((@) frames)) (relay wait point ps faults'))"

section \<open>Lemmas\<close>

definition reordering :: "Fault \<Rightarrow> bool" where
  "reordering f \<longleftrightarrow> fl_Action f \<in> {ActionDelay, ActionBackpressure, ActionOutOfOrder}"

lemma runFaults_conserves:
  "list_all reordering fs \<Longrightarrow> runFaults wait point fs frames pending = (Inr out, pending') \<Longrightarrow>
     mset out + mset (pending' point) = mset frames + mset (pending point)"
  by (induction fs arbitrary: frames pending) (auto simp: reordering_def split: option.splits if_splits)

lemma countStep_fault [simp]: "fs_fault (countStep point payload s) = fs_fault s"
  by (simp add: countStep_def)

lemma Apply_conserves:
  assumes "list_all (reordering \<circ> fs_fault) (fa_steps f)" "Faults_Apply wait (Some f) point p = (Inr out, Some f')"
  shows "mset out + mset (fa_pending f' point) = add_mset p (mset (fa_pending f point))"
    "list_all (reordering \<circ> fs_fault) (fa_steps f')"
proof -
  obtain pending where r: "runFaults wait point (map fs_fault (filter (fires point p) (fa_steps f)))
      (p # fa_pending f point) ((fa_pending f)(point := [])) = (Inr out, pending)"
    and f': "f' = \<lparr>fa_steps = map (countStep point p) (fa_steps f), fa_pending = pending\<rparr>"
    using assms(2) by (auto simp: Faults_Apply_def split: prod.splits)
  have "list_all reordering (map fs_fault (filter (fires point p) (fa_steps f)))" using assms(1) by (auto simp: list_all_iff)
  from runFaults_conserves [OF this r] show "mset out + mset (fa_pending f' point) = add_mset p (mset (fa_pending f point))"
    by (simp add: f')
  show "list_all (reordering \<circ> fs_fault) (fa_steps f')" using assms(1) by (simp add: f' list_all_iff)
qed

lemma Apply_script: "Faults_Apply wait (Some f) point p = (r, g) \<Longrightarrow> \<exists>f'. g = Some f' \<and> fa_steps f' = map (countStep point p) (fa_steps f)"
  by (auto simp: Faults_Apply_def split: prod.splits)

lemma map_sum_Inr: "map_sum f g x = Inr y \<longleftrightarrow> (\<exists>z. x = Inr z \<and> y = g z)"
  by (cases x) auto

lemma relay_conserves:
  assumes "list_all (reordering \<circ> fs_fault) (fa_steps f)" "relay wait point ps (Some f) = (Inr out, g)"
  shows "mset out = mset ps + mset (fa_pending f point)"
  using assms
proof (induction ps arbitrary: f out)
  case Nil
  then show ?case by (simp add: Faults_Flush_def)
next
  case (Cons p ps)
  obtain frames f' rest where a: "Faults_Apply wait (Some f) point p = (Inr frames, Some f')"
    and rest: "relay wait point ps (Some f') = (Inr rest, g)" "out = frames @ rest"
    using Cons.prems(2) Apply_script [of wait f point p] by (auto simp: apfst_def map_prod_def map_sum_Inr split: prod.splits sum.splits)
  have "mset rest = mset ps + mset (fa_pending f' point)" using Cons.IH [OF Apply_conserves(2) [OF Cons.prems(1) a] rest(1)] .
  then show ?case using Apply_conserves(1) [OF Cons.prems(1) a] rest(2) by (simp add: union_assoc)
qed

text \<open>A step counts the matching frames up to its occurrence.\<close>

definition hits :: "Fault \<Rightarrow> string list \<Rightarrow> nat" where
  "hits f ps = length (filter (\<lambda>p. \<not> (fl_Contains f \<noteq> [] \<and> \<not> contains p (fl_Contains f))) ps)"

lemma countStep_counts:
  assumes "fl_Point (fs_fault s) = point" "unat (fs_seen s) < unat (fl_Occurrence (fs_fault s))" "\<not> fs_used s"
  shows "let s' = fold (countStep point) ps s; n = unat (fs_seen s) + hits (fs_fault s) ps
    in unat (fs_seen s') = min n (unat (fl_Occurrence (fs_fault s))) \<and> (fs_used s' \<longleftrightarrow> unat (fl_Occurrence (fs_fault s)) \<le> n)"
  using assms
proof (induction ps arbitrary: s)
  case Nil
  then show ?case by (simp add: hits_def)
next
  case (Cons p ps)
  let ?s = "countStep point p s"
  have used: "fold (countStep point) qs t = t" if "fs_used t" for qs t
    using that by (induction qs) (simp_all add: countStep_def matches_def)
  show ?case
  proof (cases "fl_Contains (fs_fault s) \<noteq> [] \<and> \<not> contains p (fl_Contains (fs_fault s))")
    case True
    then have "?s = s" by (simp add: countStep_def matches_def)
    then show ?thesis using Cons.IH [OF Cons.prems] True by (simp add: hits_def)
  next
    case False
    have m: "matches point p s" using Cons.prems False by (auto simp: matches_def)
    have succ: "unat (fs_seen s + 1) = unat (fs_seen s) + 1"
    proof -
      have "unat (fl_Occurrence (fs_fault s)) < 2 ^ 64" by (rule order.strict_trans2 [OF unsigned_less]) simp
      then have "unat (fs_seen s) + 1 < 2 ^ 64" using Cons.prems(2) by simp
      then show ?thesis by (simp add: unat_word_ariths)
    qed
    show ?thesis
    proof (cases "fs_seen s + 1 = fl_Occurrence (fs_fault s)")
      case True
      then have "fs_used ?s" "unat (fs_seen ?s) = unat (fl_Occurrence (fs_fault s))" using m by (simp_all add: countStep_def)
      then show ?thesis using used [of ?s ps] succ True False by (simp add: hits_def)
    next
      case ne: False
      have s: "?s = s\<lparr>fs_seen := fs_seen s + 1, fs_used := False\<rparr>" using m ne by (simp add: countStep_def)
      have "unat (fs_seen s) + 1 \<noteq> unat (fl_Occurrence (fs_fault s))" using ne succ by (metis word_unat_eq_iff)
      then have "unat (fs_seen ?s) < unat (fl_Occurrence (fs_fault ?s))" using s succ Cons.prems(2) by simp
      from Cons.IH [OF _ this] have "let s' = fold (countStep point) ps ?s; n = unat (fs_seen ?s) + hits (fs_fault ?s) ps
        in unat (fs_seen s') = min n (unat (fl_Occurrence (fs_fault s))) \<and> (fs_used s' \<longleftrightarrow> unat (fl_Occurrence (fs_fault s)) \<le> n)"
        using Cons.prems(1) s by simp
      then show ?thesis using s succ False by (simp add: hits_def Let_def)
    qed
  qed
qed

lemma duplicates_bounded:
  assumes "2 \<le> c" "int (length frames) \<le> int maxFaultOutputFrames div c"
  shows "length (concat (map (replicate (nat c)) frames)) \<le> maxFaultOutputFrames"
proof -
  have "length (concat (map (replicate (nat c)) frames)) = nat c * length frames"
    by (simp add: length_concat comp_def sum_list_triv)
  moreover have "c * int (length frames) \<le> c * (int maxFaultOutputFrames div c)" using assms by (intro mult_left_mono) simp_all
  moreover have "c * (int maxFaultOutputFrames div c) \<le> int maxFaultOutputFrames"
    using pos_mod_sign [of c "int maxFaultOutputFrames"] assms(1) mult_div_mod_eq [of c "int maxFaultOutputFrames"] by linarith
  moreover have "int (nat c * length frames) = c * int (length frames)" using assms(1) by simp
  ultimately show ?thesis by linarith
qed

lemma runFaults_bounded:
  assumes "maxFaultOutputFrames \<le> n"
  shows "runFaults wait point fs frames pending = (Inr out, pending') \<Longrightarrow> length frames \<le> n \<Longrightarrow> length out \<le> n"
proof (induction fs arbitrary: frames pending)
  case (Cons f fs)
  consider (wait) "runFaults wait point fs frames pending = (Inr out, pending')"
    | (dup) "runFaults wait point fs (concat (map (replicate (nat (fl_Copies f))) frames)) pending = (Inr out, pending')"
        "2 \<le> fl_Copies f" "int (length frames) \<le> int maxFaultOutputFrames div fl_Copies f"
    | (hold) pend where "runFaults wait point fs [] pend = (Inr out, pending')"
    | (each) g where "runFaults wait point fs (map g frames) pending = (Inr out, pending')"
    using Cons.prems(1) by (simp add: not_less del: of_nat_numeral split: if_split_asm option.split_asm)
  then show ?case
  proof cases
    case dup
    have "length (concat (map (replicate (nat (fl_Copies f))) frames)) \<le> n"
      using duplicates_bounded [OF dup(2,3)] assms by (rule order_trans)
    then show ?thesis by (rule Cons.IH [OF dup(1)])
  qed (use Cons assms in auto)
qed simp

section \<open>Properties\<close>

text \<open>
  A script that only delays, applies backpressure or reorders neither loses, duplicates nor alters anything:
  whatever the waits, when the frames of a point have all been relayed and the boundary is flushed, the frames
  delivered are exactly the frames sent, in some order.
\<close>

theorem reordering_lossless:
  assumes "NewFaults script = Inr f" "list_all reordering script" "relay wait point ps (Some f) = (Inr out, g)"
  shows "mset out = mset ps"
proof -
  have f: "f = \<lparr>fa_steps = map (\<lambda>f. \<lparr>fs_fault = f, fs_seen = 0, fs_used = False\<rparr>) script, fa_pending = (\<lambda>_. [])\<rparr>"
    using assms(1) by (auto simp: NewFaults_def split: option.splits)
  have "list_all (reordering \<circ> fs_fault) (fa_steps f)" using assms(2) by (simp add: f list_all_iff)
  from relay_conserves [OF this assms(3)] show ?thesis by (simp add: f)
qed

definition sampleFault :: "string \<Rightarrow> string \<Rightarrow> uint64 \<Rightarrow> Fault" where
  "sampleFault point action n =
     \<lparr>fl_Point = point, fl_Occurrence = n, fl_Action = action, fl_Contains = [], fl_Delay = 0, fl_Copies = 2, fl_Size = 8,
      fl_Match = ''x'', fl_Replacement = [], fl_Gate = True\<rparr>"

theorem reordering_lossless_witness:
  "\<exists>f. NewFaults [sampleFault PointGatewayToProvider ActionOutOfOrder 1] = Inr f \<and>
     (\<exists>out g. relay (\<lambda>_. nil) PointGatewayToProvider [''a'', ''b''] (Some f) = (Inr out, g) \<and> out = [''b'', ''a''] \<and>
        mset out = mset [''a'', ''b''])"
proof -
  let ?script = "[sampleFault PointGatewayToProvider ActionOutOfOrder 1]"
  obtain f where f: "NewFaults ?script = Inr f"
    "f = \<lparr>fa_steps = [\<lparr>fs_fault = sampleFault PointGatewayToProvider ActionOutOfOrder 1, fs_seen = 0, fs_used = False\<rparr>], fa_pending = (\<lambda>_. [])\<rparr>"
    by (simp add: NewFaults_def each_err.simps Fault_validate_def sampleFault_def)
  obtain g where run: "relay (\<lambda>_. nil) PointGatewayToProvider [''a'', ''b''] (Some f) = (Inr [''b'', ''a''], g)"
    by (simp add: f(2) Faults_Apply_def Faults_Flush_def fires_def matches_def countStep_def sampleFault_def)
  have "list_all reordering ?script" by (simp add: reordering_def sampleFault_def)
  from reordering_lossless [OF f(1) this run] show ?thesis using f(1) run by blast
qed

text \<open>
  Over any frames at its point, whatever the other faults do, a scripted fault is used exactly when as many
  frames that match it have passed as its occurrence says, and it has then counted no further frame.
\<close>

theorem fault_fires_at_occurrence:
  assumes "NewFaults script = Inr f" "i < length script"
  shows "\<exists>f'. fold (\<lambda>p g. snd (Faults_Apply wait g (fl_Point (script ! i)) p)) ps (Some f) = Some f' \<and>
    fs_fault (fa_steps f' ! i) = script ! i \<and>
    unat (fs_seen (fa_steps f' ! i)) = min (hits (script ! i) ps) (unat (fl_Occurrence (script ! i))) \<and>
    (fs_used (fa_steps f' ! i) \<longleftrightarrow> unat (fl_Occurrence (script ! i)) \<le> hits (script ! i) ps)"
proof -
  let ?point = "fl_Point (script ! i)"
  let ?new = "\<lparr>fs_fault = script ! i, fs_seen = 0, fs_used = False\<rparr>"
  have f: "fa_steps f = map (\<lambda>f. \<lparr>fs_fault = f, fs_seen = 0, fs_used = False\<rparr>) script" and valid: "Fault_validate (script ! i) = nil"
    using assms by (auto simp: NewFaults_def each_err_nil split: option.splits)
  have pos: "0 < unat (fl_Occurrence (script ! i))"
    using valid by (auto simp: Fault_validate_def unat_gt_0 split: if_splits)
  have steps: "\<exists>f'. fold (\<lambda>p g. snd (Faults_Apply wait g point p)) qs (Some h) = Some f' \<and>
      fa_steps f' = map (fold (countStep point) qs) (fa_steps h)" for point qs h
  proof (induction qs arbitrary: h)
    case (Cons q qs)
    obtain h' where h': "snd (Faults_Apply wait (Some h) point q) = Some h'" "fa_steps h' = map (countStep point q) (fa_steps h)"
      using Apply_script [of wait h point q] by (cases "Faults_Apply wait (Some h) point q") auto
    then show ?case using Cons.IH [of h'] by (simp add: comp_def)
  qed simp
  obtain f' where f': "fold (\<lambda>p g. snd (Faults_Apply wait g ?point p)) ps (Some f) = Some f'"
    "fa_steps f' ! i = fold (countStep ?point) ps ?new"
    using steps [of ?point ps f] assms(2) by (auto simp: f)
  have "fs_fault (fold (countStep ?point) qs s) = fs_fault s" for qs s by (induction qs arbitrary: s) simp_all
  then show ?thesis using f' countStep_counts [of ?new ?point ps] pos by (simp add: Let_def)
qed

theorem fault_fires_at_occurrence_witness:
  "\<exists>f f'. NewFaults [sampleFault PointGatewayToProvider ActionReplayGap 2] = Inr f \<and>
     fold (\<lambda>p g. snd (Faults_Apply (\<lambda>_. nil) g PointGatewayToProvider p)) [''a'', ''b'', ''c''] (Some f) = Some f' \<and> fs_used (fa_steps f' ! 0)"
proof -
  let ?script = "[sampleFault PointGatewayToProvider ActionReplayGap 2]"
  obtain f where f: "NewFaults ?script = Inr f" by (simp add: NewFaults_def each_err.simps Fault_validate_def sampleFault_def)
  have "fl_Point (?script ! 0) = PointGatewayToProvider" "unat (fl_Occurrence (?script ! 0)) \<le> hits (?script ! 0) [''a'', ''b'', ''c'']"
    by (simp_all add: sampleFault_def hits_def)
  then show ?thesis using fault_fires_at_occurrence [OF f, of 0 "\<lambda>_. nil" "[''a'', ''b'', ''c'']"] f by auto
qed

text \<open>
  C0: One call of \<open>Apply\<close> never delivers more than 1024 frames, or than the frame and the ones that were held back,
  if those are more.
\<close>

theorem fault_output_bounded:
  assumes "Faults_Apply wait faults point payload = (Inr frames, faults')"
  shows "length frames \<le> max maxFaultOutputFrames (1 + (case faults of None \<Rightarrow> 0 | Some f \<Rightarrow> length (fa_pending f point)))"
proof (cases faults)
  case (Some f)
  obtain pending where "runFaults wait point (map fs_fault (filter (fires point payload) (fa_steps f)))
      (payload # fa_pending f point) ((fa_pending f)(point := [])) = (Inr frames, pending)"
    using assms Some by (auto simp: Faults_Apply_def split: prod.splits)
  from runFaults_bounded [OF _ this, of "max maxFaultOutputFrames (1 + length (fa_pending f point))"] show ?thesis using Some by simp
qed (use assms in \<open>auto simp: Faults_Apply_def\<close>)

end
