(* ===== verification/Mock_ControlPlane.thy ===== *)
theory Mock_ControlPlane
  imports Mock_Faults Proto_Event
begin

text \<open>
  \<open>mock/controlplane.go\<close>: the sink that journals canonical events. It applies the fault script of its boundary,
  decodes what is delivered with the protocol's decoder, and lets the sequence tracker decide what is committed.
  The encoder and the reflection of \<open>encoding/json\<close>, and SHA-256, are arguments.
\<close>

section \<open>State\<close>

record ControlPlaneRecord =
  cr_JournalSequence :: uint64
  cr_Event :: CanonicalEvent

definition ControlPlaneRecord_Validate :: "payloadCodec \<Rightarrow> ControlPlaneRecord \<Rightarrow> verr" where
  "ControlPlaneRecord_Validate codec r =
     (if cr_JournalSequence r = 0 then errorf ''mock journal sequence must be positive'' else CanonicalEvent_Validate codec (cr_Event r))"

record IngestResult =
  ig_Outcome :: SequenceOutcome
  ig_JournalSequence :: uint64
  ig_Event :: CanonicalEvent

record ControlPlane =
  cp_faults :: "Faults option"
  cp_tracker :: SequenceTracker
  cp_next :: uint64
  cp_records :: "ControlPlaneRecord list"

definition NewControlPlane :: "Faults option \<Rightarrow> ControlPlane" where
  "NewControlPlane faults = \<lparr>cp_faults = faults, cp_tracker = NewSequenceTracker, cp_next = 0, cp_records = []\<rparr>"

record journalLib =
  jl_codec :: payloadCodec
  jl_marshal :: "CanonicalEvent \<Rightarrow> go_error + string"
  jl_unmarshal :: "bool \<Rightarrow> string \<Rightarrow> CanonicalEvent option"
  jl_normal :: "ProviderEvent \<Rightarrow> go_error + string"
  jl_sha256 :: "string \<Rightarrow> string"
  jl_marshalRecord :: "ControlPlaneRecord \<Rightarrow> go_error + string"
  jl_unmarshalRecord :: "bool \<Rightarrow> string \<Rightarrow> ControlPlaneRecord option"

text \<open>\<open>protocol.Decode\<close> into a canonical event: its payload and extensions are compacted.\<close>

definition eventDocument :: "CanonicalEvent \<Rightarrow> CanonicalEvent document" where
  "eventDocument e =
     \<lparr>d_kind = DCanonicalEvent, d_raw = ev_Payload (ce_ProviderEvent e), d_extensions = ev_Extensions (ce_ProviderEvent e), d_rest = e\<rparr>"

definition documentEvent :: "CanonicalEvent document \<Rightarrow> CanonicalEvent" where
  "documentEvent d =
     (d_rest d)\<lparr>ce_ProviderEvent := (ce_ProviderEvent (d_rest d))\<lparr>ev_Payload := d_raw d, ev_Extensions := d_extensions d\<rparr>\<rparr>"

definition decodeEvent :: "journalLib \<Rightarrow> string \<Rightarrow> go_error + CanonicalEvent" where
  "decodeEvent lib data =
     map_sum id documentEvent
      (Decode (\<lambda>strict text. map_option eventDocument (jl_unmarshal lib strict text))
         (\<lambda>d. CanonicalEvent_Validate (jl_codec lib) (documentEvent d)) data DCanonicalEvent)"

definition decodeControlPlaneRecord :: "journalLib \<Rightarrow> string \<Rightarrow> go_error + ControlPlaneRecord" where
  "decodeControlPlaneRecord lib data =
     map_sum id d_rest
      (Decode (\<lambda>strict text. map_option (\<lambda>r. \<lparr>d_kind = DOther, d_raw = [], d_extensions = [], d_rest = r\<rparr>) (jl_unmarshalRecord lib strict text))
         (\<lambda>d. ControlPlaneRecord_Validate (jl_codec lib) (d_rest d)) data DOther)"

section \<open>Ingest\<close>

definition cursorFor :: "journalLib \<Rightarrow> string \<Rightarrow> ProviderEvent \<Rightarrow> EventCursor" where
  "cursorFor lib normalized p = eventCursor (\<lambda>_. ''sha256:'' @ hexEncode (jl_sha256 lib normalized)) p"

fun ingestLoop :: "journalLib \<Rightarrow> string list \<Rightarrow> IngestResult list \<Rightarrow> ControlPlane \<Rightarrow> (go_error + IngestResult list) \<times> ControlPlane" where
  "ingestLoop lib [] results c = (Inr results, c)"
| "ingestLoop lib (delivery # deliveries) results c =
     (case decodeEvent lib delivery of
        Inl e \<Rightarrow> (Inl e, c)
      | Inr delivered \<Rightarrow>
          (case jl_normal lib (ce_ProviderEvent delivered) of
             Inl e \<Rightarrow> (Inl e, c)
           | Inr normalized \<Rightarrow>
               (case Observe (cp_tracker c) (cursorFor lib normalized (ce_ProviderEvent delivered)) of
                  (Inl e, t) \<Rightarrow> (Inl e, c\<lparr>cp_tracker := t\<rparr>)
                | (Inr outcome, t) \<Rightarrow>
                    if outcome \<noteq> SequenceDuplicate
                    then ingestLoop lib deliveries
                           (results @ [\<lparr>ig_Outcome = outcome, ig_JournalSequence = cp_next c + 1, ig_Event = delivered\<rparr>])
                           (c\<lparr>cp_tracker := t, cp_next := cp_next c + 1,
                              cp_records := cp_records c @ [\<lparr>cr_JournalSequence = cp_next c + 1, cr_Event = delivered\<rparr>]\<rparr>)
                    else ingestLoop lib deliveries
                           (results @ [\<lparr>ig_Outcome = outcome, ig_JournalSequence = 0, ig_Event = delivered\<rparr>]) (c\<lparr>cp_tracker := t\<rparr>))))"

definition Ingest :: "journalLib \<Rightarrow> (Fault \<Rightarrow> verr) \<Rightarrow> ControlPlane \<Rightarrow> CanonicalEvent \<Rightarrow> (go_error + IngestResult list) \<times> ControlPlane" where
  "Ingest lib wait c event =
     (case jl_marshal lib event of
        Inl e \<Rightarrow> (Inl e, c)
      | Inr encoded \<Rightarrow>
          (case Faults_Apply wait (cp_faults c) PointControlPlaneIngest encoded of
             (Inl e, faults) \<Rightarrow> (Inl e, c\<lparr>cp_faults := faults\<rparr>)
           | (Inr deliveries, faults) \<Rightarrow> ingestLoop lib deliveries [] (c\<lparr>cp_faults := faults\<rparr>)))"

section \<open>Replay\<close>

fun decodeAll :: "journalLib \<Rightarrow> string list \<Rightarrow> go_error + ControlPlaneRecord list" where
  "decodeAll lib [] = Inr []"
| "decodeAll lib (d # ds) =
     (case decodeControlPlaneRecord lib d of Inl e \<Rightarrow> Inl e | Inr r \<Rightarrow> map_sum id ((#) r) (decodeAll lib ds))"

fun replayLoop :: "journalLib \<Rightarrow> (Fault \<Rightarrow> verr) \<Rightarrow> uint64 \<Rightarrow> ControlPlaneRecord list \<Rightarrow> ControlPlaneRecord list \<Rightarrow> Faults option
    \<Rightarrow> (go_error + ControlPlaneRecord list) \<times> Faults option" where
  "replayLoop lib wait after [] result faults =
     (case Faults_Flush faults PointControlPlaneReplay of
        (frames, faults') \<Rightarrow> (map_sum id ((@) result) (decodeAll lib frames), faults'))"
| "replayLoop lib wait after (r # rs) result faults =
     (if cr_JournalSequence r \<le> after then replayLoop lib wait after rs result faults
      else case jl_marshalRecord lib r of
        Inl e \<Rightarrow> (Inl e, faults)
      | Inr encoded \<Rightarrow>
          (case Faults_Apply wait faults PointControlPlaneReplay encoded of
             (Inl e, faults') \<Rightarrow> (Inl e, faults')
           | (Inr deliveries, faults') \<Rightarrow>
               (case decodeAll lib deliveries of
                  Inl e \<Rightarrow> (Inl e, faults')
                | Inr decoded \<Rightarrow> replayLoop lib wait after rs (result @ decoded) faults')))"

definition Replay :: "journalLib \<Rightarrow> (Fault \<Rightarrow> verr) \<Rightarrow> ControlPlane \<Rightarrow> uint64 \<Rightarrow> (go_error + ControlPlaneRecord list) \<times> ControlPlane" where
  "Replay lib wait c after =
     (case replayLoop lib wait after (cp_records c) [] (cp_faults c) of (r, faults) \<Rightarrow> (r, c\<lparr>cp_faults := faults\<rparr>))"

inductive journalReach :: "journalLib \<Rightarrow> ControlPlane \<Rightarrow> bool" for lib :: journalLib where
  new: "journalReach lib (NewControlPlane faults)"
| ingest: "journalReach lib c \<Longrightarrow> journalReach lib (snd (Ingest lib wait c event))"
| replay: "journalReach lib c \<Longrightarrow> journalReach lib (snd (Replay lib wait c after))"

section \<open>Invariant\<close>

text \<open>The cursor of a record that was committed.\<close>

definition recordCursor :: "journalLib \<Rightarrow> ControlPlaneRecord \<Rightarrow> EventCursor" where
  "recordCursor lib r =
     (let p = ce_ProviderEvent (cr_Event r) in cursorFor lib (case jl_normal lib p of Inr n \<Rightarrow> n | Inl _ \<Rightarrow> []) p)"

definition journalInv :: "journalLib \<Rightarrow> ControlPlane \<Rightarrow> bool" where
  "journalInv lib c \<longleftrightarrow>
     tracker_inv (cp_tracker c) \<and>
     map cr_JournalSequence (cp_records c) = map (\<lambda>i. of_nat (Suc i)) [0..<length (cp_records c)] \<and>
     cp_next c = of_nat (length (cp_records c)) \<and>
     recordCursor lib ` set (cp_records c) = logOf (cp_tracker c) \<and> distinct (map (recordCursor lib) (cp_records c)) \<and>
     list_all (\<lambda>r. CanonicalEvent_Validate (jl_codec lib) (cr_Event r) = nil) (cp_records c)"

lemma decodeEvent_valid: "decodeEvent lib data = Inr e \<Longrightarrow> CanonicalEvent_Validate (jl_codec lib) e = nil"
  by (auto simp: decodeEvent_def map_sum_Inr Decode_Inr)

lemma journal_keeps:
  assumes inv: "journalInv lib c" and ev: "CanonicalEvent_Validate (jl_codec lib) delivered = nil"
    "jl_normal lib (ce_ProviderEvent delivered) = Inr normalized"
    "Observe (cp_tracker c) (cursorFor lib normalized (ce_ProviderEvent delivered)) = (r, t)"
  shows "r = Inl e \<or> r = Inr SequenceDuplicate \<Longrightarrow> journalInv lib (c\<lparr>cp_tracker := t\<rparr>)"
    "r = Inr outcome \<Longrightarrow> outcome \<noteq> SequenceDuplicate \<Longrightarrow>
       journalInv lib (c\<lparr>cp_tracker := t, cp_next := cp_next c + 1,
         cp_records := cp_records c @ [\<lparr>cr_JournalSequence = cp_next c + 1, cr_Event = delivered\<rparr>]\<rparr>)"
proof -
  let ?cur = "cursorFor lib normalized (ce_ProviderEvent delivered)"
  let ?new = "\<lparr>cr_JournalSequence = cp_next c + 1, cr_Event = delivered\<rparr>"
  have t: "tracker_inv t" "logOf t = snd (observe_spec (logOf (cp_tracker c)) ?cur)"
    using tracker.keeps [of "cp_tracker c" ?cur] tracker.logs [of "cp_tracker c" ?cur] inv ev(3) by (simp_all add: journalInv_def)
  have cur: "recordCursor lib ?new = ?cur" using ev(2) by (simp add: recordCursor_def Let_def)
  have commits: "(\<exists>q. r = Inr q \<and> q \<noteq> SequenceDuplicate) \<longleftrightarrow>
      cursorValid ?cur \<and> ?cur \<notin> logOf (cp_tracker c) \<and> \<not> conflicts (logOf (cp_tracker c)) ?cur"
    using tracker.commits [of "cp_tracker c" ?cur] inv ev(3) by (simp add: journalInv_def)
  show "journalInv lib (c\<lparr>cp_tracker := t\<rparr>)" if "r = Inl e \<or> r = Inr SequenceDuplicate"
  proof -
    have "logOf t = logOf (cp_tracker c)" using t(2) commits that by (auto simp: observe_spec_def)
    then show ?thesis using inv t(1) by (simp add: journalInv_def)
  qed
  show "journalInv lib (c\<lparr>cp_tracker := t, cp_next := cp_next c + 1, cp_records := cp_records c @ [?new]\<rparr>)"
    if "r = Inr outcome" "outcome \<noteq> SequenceDuplicate"
  proof -
    have fresh: "?cur \<notin> logOf (cp_tracker c)" "logOf t = insert ?cur (logOf (cp_tracker c))"
      using t(2) commits that by (auto simp: observe_spec_def)
    then show ?thesis using inv t(1) cur ev(1) by (auto simp: journalInv_def ac_simps)
  qed
qed

lemma ingestLoop_keeps: "journalInv lib c \<Longrightarrow> journalInv lib (snd (ingestLoop lib ds results c))"
proof (induction ds arbitrary: results c)
  case (Cons d ds)
  show ?case
  proof (cases "decodeEvent lib d")
    case (Inr delivered)
    show ?thesis
    proof (cases "jl_normal lib (ce_ProviderEvent delivered)")
      case (Inr normalized)
      obtain r t where o: "Observe (cp_tracker c) (cursorFor lib normalized (ce_ProviderEvent delivered)) = (r, t)" by fastforce
      note keeps = journal_keeps [OF Cons.prems decodeEvent_valid [OF \<open>decodeEvent lib d = Inr delivered\<close>] Inr o]
      show ?thesis
        using \<open>decodeEvent lib d = Inr delivered\<close> Inr o keeps Cons.IH by (cases r) auto
    qed (use \<open>decodeEvent lib d = Inr delivered\<close> Cons.prems in simp)
  qed (use Cons.prems in simp)
qed simp

lemma journalReach_inv: "journalReach lib c \<Longrightarrow> journalInv lib c"
proof (induction rule: journalReach.induct)
  case (new faults)
  then show ?case by (simp add: journalInv_def NewControlPlane_def tracker_inv_new)
next
  case (ingest c wait event)
  have frame: "journalInv lib (c\<lparr>cp_faults := g\<rparr>)" for g using ingest.IH by (simp add: journalInv_def)
  then show ?case using ingest.IH ingestLoop_keeps [OF frame]
    by (auto simp: Ingest_def split: sum.splits prod.splits)
next
  case (replay c wait after)
  then show ?case by (simp add: Replay_def journalInv_def split: prod.splits)
qed

section \<open>Properties\<close>

text \<open>
  C16: However events are ingested and replayed, and whatever the fault script does to the deliveries, the journal
  stays consistent with the tracker: its records are numbered from one without a gap, every record is a valid
  canonical event, no event is committed twice, two records of a stream share neither identifier nor sequence, and
  the events that the tracker has accepted are exactly those in the journal.
\<close>

theorem journal_exactly_once:
  assumes "journalReach lib c"
  shows "(\<forall>i < length (cp_records c). cr_JournalSequence (cp_records c ! i) = of_nat (Suc i) \<and>
      CanonicalEvent_Validate (jl_codec lib) (cr_Event (cp_records c ! i)) = nil) \<and>
    distinct (map (recordCursor lib) (cp_records c)) \<and> recordCursor lib ` set (cp_records c) = logOf (cp_tracker c) \<and>
    (\<forall>i < length (cp_records c). \<forall>j < length (cp_records c).
       let a = recordCursor lib (cp_records c ! i); b = recordCursor lib (cp_records c ! j)
       in streamKey a = streamKey b \<and> (ec_EventID a = ec_EventID b \<or> ec_Sequence a = ec_Sequence b) \<longrightarrow> i = j)"
proof (intro conjI allI impI)
  have inv: "journalInv lib c" by (rule journalReach_inv [OF assms])
  then have parts: "tracker_inv (cp_tracker c)" "recordCursor lib ` set (cp_records c) = logOf (cp_tracker c)"
    "distinct (map (recordCursor lib) (cp_records c))"
    "map cr_JournalSequence (cp_records c) = map (\<lambda>i. of_nat (Suc i)) [0..<length (cp_records c)]"
    by (simp_all add: journalInv_def)
  show "distinct (map (recordCursor lib) (cp_records c))" "recordCursor lib ` set (cp_records c) = logOf (cp_tracker c)" by fact+
  fix i assume i: "i < length (cp_records c)"
  show "CanonicalEvent_Validate (jl_codec lib) (cr_Event (cp_records c ! i)) = nil" using inv i by (simp add: journalInv_def list_all_iff)
  have "map cr_JournalSequence (cp_records c) ! i = of_nat (Suc i)" using parts(4) i by (metis (no_types, lifting) add.left_neutral diff_zero length_upt nth_map nth_upt)
  then show "cr_JournalSequence (cp_records c ! i) = of_nat (Suc i)" using i by simp
  fix j assume j: "j < length (cp_records c)"
  show "let a = recordCursor lib (cp_records c ! i); b = recordCursor lib (cp_records c ! j)
       in streamKey a = streamKey b \<and> (ec_EventID a = ec_EventID b \<or> ec_Sequence a = ec_Sequence b) \<longrightarrow> i = j"
  proof -
    have mem: "recordCursor lib (cp_records c ! i) \<in> logOf (cp_tracker c)" "recordCursor lib (cp_records c ! j) \<in> logOf (cp_tracker c)"
      using parts(2) i j by auto
    then show ?thesis
      using log_unique [OF parts(1) mem] nth_eq_iff_index_eq [OF parts(3), of i j] i j by (auto simp: Let_def)
  qed
qed

text \<open>
  At a boundary without faults, ingesting is idempotent: after an event was ingested, ingesting it again reports
  it as a duplicate with no journal number and leaves the control plane exactly as it was.
\<close>

theorem ingest_idempotent:
  assumes "journalReach lib c" "cp_faults c = None" "Ingest lib wait c event = (Inr results, c1)"
  shows "\<exists>r. results = [r] \<and>
    Ingest lib wait' c1 event = (Inr [r\<lparr>ig_Outcome := SequenceDuplicate, ig_JournalSequence := 0\<rparr>], c1)"
proof -
  have t: "tracker_inv (cp_tracker c)" using journalReach_inv [OF assms(1)] by (simp add: journalInv_def)
  have same: "c\<lparr>cp_faults := None\<rparr> = c" using assms(2) by simp
  obtain encoded where enc: "jl_marshal lib event = Inr encoded"
    and run: "ingestLoop lib [encoded] [] (c\<lparr>cp_faults := None\<rparr>) = (Inr results, c1)"
    using assms(2,3) by (auto simp: Ingest_def Faults_Apply_def simp del: ingestLoop.simps split: sum.splits)
  have loop: "ingestLoop lib [encoded] [] c = (Inr results, c1)" using run by (simp only: same)
  obtain delivered where d: "decodeEvent lib encoded = Inr delivered" using loop by (auto split: sum.splits)
  obtain normalized where n: "jl_normal lib (ce_ProviderEvent delivered) = Inr normalized" using loop d by (auto split: sum.splits)
  let ?cur = "cursorFor lib normalized (ce_ProviderEvent delivered)"
  obtain outcome t1 where o: "Observe (cp_tracker c) ?cur = (Inr outcome, t1)"
    using loop d n by (auto split: sum.splits prod.splits)
  have "tracker_inv t1" using tracker.keeps [OF t, of ?cur] o by simp
  moreover have "cursorValid ?cur \<and> ?cur \<in> logOf t1"
    using tracker.logs [OF t, of ?cur] tracker.repeats [OF t, of ?cur] tracker.commits [OF t, of ?cur] o
    by (cases "outcome = SequenceDuplicate") (auto simp: observe_spec_def)
  ultimately have again: "Observe t1 ?cur = (Inr SequenceDuplicate, t1)" by (elim Observe_cases [of t1 ?cur]) auto
  have c1: "cp_tracker c1 = t1" "cp_faults c1 = None" using loop d n o assms(2) by (auto split: if_splits)
  have rec: "c1\<lparr>cp_tracker := t1\<rparr> = c1" "c1\<lparr>cp_faults := None\<rparr> = c1" using c1 by auto
  obtain j where "results = [\<lparr>ig_Outcome = outcome, ig_JournalSequence = j, ig_Event = delivered\<rparr>]"
    using loop d n o by (auto split: if_splits)
  moreover have "Ingest lib wait' c1 event = (Inr [\<lparr>ig_Outcome = SequenceDuplicate, ig_JournalSequence = 0, ig_Event = delivered\<rparr>], c1)"
    using enc c1 d n again rec by (simp add: Ingest_def Faults_Apply_def)
  ultimately show ?thesis by simp
qed

lemma replayLoop_plain:
  assumes "\<forall>r \<in> set rs. \<exists>text. jl_marshalRecord lib r = Inr text \<and> decodeControlPlaneRecord lib text = Inr r"
  shows "replayLoop lib wait after rs result None = (Inr (result @ filter (\<lambda>r. cr_JournalSequence r > after) rs), None)"
  using assms
proof (induction rs arbitrary: result)
  case (Cons r rs)
  then show ?case by (cases "cr_JournalSequence r \<le> after") (auto simp: Faults_Apply_def not_le)
qed (simp add: Faults_Flush_def)

lemma filter_index:
  "\<forall>i < length xs. P (xs ! i) \<longleftrightarrow> n \<le> i \<Longrightarrow> filter P xs = drop n xs"
proof (induction xs arbitrary: n)
  case (Cons x xs)
  have "P (xs ! i) \<longleftrightarrow> n - 1 \<le> i" if "i < length xs" for i
    using Cons.prems [rule_format, of "Suc i"] that by auto
  then have "filter P xs = drop (n - 1) xs" using Cons.IH by blast
  moreover have "P x \<longleftrightarrow> n = 0" using Cons.prems by force
  ultimately show ?case by (cases n) simp_all
qed simp

text \<open>
  At a boundary without faults, and when the encoder and decoder agree on the records, replaying after a journal
  number returns exactly the records behind it, in order and complete, so that a reader resumes where it stopped.
\<close>

theorem replay_resumes:
  assumes "journalReach lib c" "cp_faults c = None" "length (cp_records c) < 2 ^ 64"
    "\<forall>r \<in> set (cp_records c). \<exists>text. jl_marshalRecord lib r = Inr text \<and> decodeControlPlaneRecord lib text = Inr r"
  shows "Replay lib wait c after = (Inr (drop (unat after) (cp_records c)), c)"
proof -
  have seq: "map cr_JournalSequence (cp_records c) = map (\<lambda>i. of_nat (Suc i)) [0..<length (cp_records c)]"
    using journalReach_inv [OF assms(1)] by (simp add: journalInv_def)
  have "cr_JournalSequence (cp_records c ! i) > after \<longleftrightarrow> unat after \<le> i" if "i < length (cp_records c)" for i
  proof -
    have "map cr_JournalSequence (cp_records c) ! i = of_nat (Suc i)"
      using seq that by (metis (no_types, lifting) add.left_neutral diff_zero length_upt nth_map nth_upt)
    then have "cr_JournalSequence (cp_records c ! i) = of_nat (Suc i)" using that by simp
    moreover have "unat (of_nat (Suc i) :: uint64) = Suc i" using that assms(3) by (simp only: unat_of_nat) simp
    ultimately show ?thesis by (simp add: word_less_nat_alt less_Suc_eq_le del: of_nat_Suc)
  qed
  then have "filter (\<lambda>r. cr_JournalSequence r > after) (cp_records c) = drop (unat after) (cp_records c)" by (intro filter_index) blast
  then show ?thesis using replayLoop_plain [OF assms(4)] assms(2) by (simp add: Replay_def)
qed

section \<open>A sample control plane\<close>

definition sampleJournal :: journalLib where
  "sampleJournal =
     \<lparr>jl_codec = noCodec, jl_marshal = (\<lambda>_. Inr ''{}''), jl_unmarshal = (\<lambda>_ _. Some (sampleEvent ''event-1'' 1)),
      jl_normal = (\<lambda>_. Inr ''{}''), jl_sha256 = (\<lambda>_. replicate 32 (CHR ''x'')),
      jl_marshalRecord = (\<lambda>_. Inr ''{}''),
      jl_unmarshalRecord = (\<lambda>_ _. Some \<lparr>cr_JournalSequence = 1, cr_Event = sampleEvent ''event-1'' 1\<rparr>)\<rparr>"

definition sampleIngested :: ControlPlane where
  "sampleIngested = snd (Ingest sampleJournal (\<lambda>_. nil) (NewControlPlane None) (sampleEvent ''event-1'' 1))"

lemma sampleJournal_decodes: "decodeEvent sampleJournal ''{}'' = Inr (sampleEvent ''event-1'' 1)"
  by code_simp

lemma sampleJournal_record: "decodeControlPlaneRecord sampleJournal ''{}'' = Inr \<lparr>cr_JournalSequence = 1, cr_Event = sampleEvent ''event-1'' 1\<rparr>"
  by code_simp

lemma sampleIngest:
  "\<exists>t. Ingest sampleJournal (\<lambda>_. nil) (NewControlPlane None) (sampleEvent ''event-1'' 1) =
    (Inr [\<lparr>ig_Outcome = SequenceAccepted, ig_JournalSequence = 1, ig_Event = sampleEvent ''event-1'' 1\<rparr>],
     \<lparr>cp_faults = None, cp_tracker = t, cp_next = 1, cp_records = [\<lparr>cr_JournalSequence = 1, cr_Event = sampleEvent ''event-1'' 1\<rparr>]\<rparr>)"
proof -
  let ?cur = "cursorFor sampleJournal ''{}'' (ce_ProviderEvent (sampleEvent ''event-1'' 1))"
  have v: "cursorValid ?cur" by code_simp
  obtain t where o: "Observe NewSequenceTracker ?cur = (Inr SequenceAccepted, t)"
    using v by (simp add: Observe_def NewSequenceTracker_def Let_def)
  have n: "jl_normal sampleJournal p = Inr ''{}''" "jl_marshal sampleJournal e = Inr ''{}''" for p e by (simp_all add: sampleJournal_def)
  show ?thesis using o by (simp add: Ingest_def NewControlPlane_def Faults_Apply_def n sampleJournal_decodes)
qed

lemma sampleIngested_reached: "journalReach sampleJournal sampleIngested"
  unfolding sampleIngested_def by (intro journalReach.intros)

lemma sampleIngested_state:
  "cp_faults sampleIngested = None" "cp_records sampleIngested = [\<lparr>cr_JournalSequence = 1, cr_Event = sampleEvent ''event-1'' 1\<rparr>]"
  using sampleIngest by (auto simp: sampleIngested_def)

theorem journal_exactly_once_witness:
  "length (cp_records sampleIngested) = 1 \<and> recordCursor sampleJournal ` set (cp_records sampleIngested) = logOf (cp_tracker sampleIngested)"
  using journal_exactly_once [OF sampleIngested_reached] sampleIngested_state(2) by simp

theorem ingest_idempotent_witness:
  "\<exists>r. Ingest sampleJournal (\<lambda>_. nil) sampleIngested (sampleEvent ''event-1'' 1) =
     (Inr [r\<lparr>ig_Outcome := SequenceDuplicate, ig_JournalSequence := 0\<rparr>], sampleIngested)"
proof -
  obtain res where "Ingest sampleJournal (\<lambda>_. nil) (NewControlPlane None) (sampleEvent ''event-1'' 1) = (Inr res, sampleIngested)"
    using sampleIngest by (auto simp: sampleIngested_def)
  moreover have "cp_faults (NewControlPlane None) = None" by (simp add: NewControlPlane_def)
  ultimately show ?thesis using ingest_idempotent [OF journalReach.new] by blast
qed

theorem replay_resumes_witness:
  "Replay sampleJournal (\<lambda>_. nil) sampleIngested 0 = (Inr [\<lparr>cr_JournalSequence = 1, cr_Event = sampleEvent ''event-1'' 1\<rparr>], sampleIngested)"
proof -
  have "\<forall>r \<in> set (cp_records sampleIngested). \<exists>text. jl_marshalRecord sampleJournal r = Inr text \<and> decodeControlPlaneRecord sampleJournal text = Inr r"
    using sampleJournal_record by (simp add: sampleIngested_state) (simp add: sampleJournal_def)
  from replay_resumes [OF sampleIngested_reached sampleIngested_state(1) _ this] show ?thesis by (simp add: sampleIngested_state(2))
qed

end
