(* ===== verification/Mock_Gateway.thy ===== *)
theory Mock_Gateway
  imports Mock_Faults Rpc_Frame
begin

text \<open>
  \<open>mock/gateway.go\<close>: the byte proxy between a client and a provider. The client's writes are cut into frames, each
  frame passes the fault script and goes to the upstream; what the upstream sends is pumped back in the same way.
  Readers and writers are those of \<open>Rpc_Frame\<close>. The effect of \<open>Crash\<close> on the process is outside the model.
\<close>

section \<open>State\<close>

abbreviation ErrFrameTooLarge :: go_error where "ErrFrameTooLarge \<equiv> Sentinel ''mock boundary frame exceeds protocol limit''"

record Gateway =
  gw_faults :: "Faults option"
  gw_writeBuffer :: string
  gw_closed :: bool
  gw_err :: verr
  gw_upstream :: ioWriter

definition NewGateway :: "ioWriter option \<Rightarrow> Faults option \<Rightarrow> go_error + Gateway" where
  "NewGateway upstream faults =
     (case upstream of
        None \<Rightarrow> Inl (Plain ''mock gateway upstream is required'')
      | Some w \<Rightarrow> Inr \<lparr>gw_faults = faults, gw_writeBuffer = [], gw_closed = False, gw_err = nil, gw_upstream = w\<rparr>)"

text \<open>\<open>terminate\<close> acts once; \<open>closeErr\<close> is what closing the upstream returns.\<close>

definition terminate :: "verr \<Rightarrow> verr \<Rightarrow> Gateway \<Rightarrow> Gateway" where
  "terminate closeErr err g =
     (if gw_closed g then g
      else g\<lparr>gw_closed := True, gw_err := (if err = nil \<and> closeErr \<noteq> nil then closeErr else err)\<rparr>)"

definition boundaryError :: "Gateway \<Rightarrow> verr" where
  "boundaryError g = (if gw_err g \<noteq> nil then gw_err g else Some (Sentinel ''io.ErrClosedPipe''))"

definition writeBoundaryFrame :: "ioWriter \<Rightarrow> string \<Rightarrow> verr \<times> ioWriter" where
  "writeBoundaryFrame w payload = writeAll w (payload @ [newline_ch])"

fun writeBoundaryFrames :: "ioWriter \<Rightarrow> string list \<Rightarrow> verr \<times> ioWriter" where
  "writeBoundaryFrames w [] = (nil, w)"
| "writeBoundaryFrames w (p # ps) =
     (case writeBoundaryFrame w p of (Some e, w') \<Rightarrow> (Some e, w') | (None, w') \<Rightarrow> writeBoundaryFrames w' ps)"

definition forward :: "(Fault \<Rightarrow> verr) \<Rightarrow> string \<Rightarrow> Faults option \<Rightarrow> ioWriter \<Rightarrow> string \<Rightarrow> verr \<times> Faults option \<times> ioWriter" where
  "forward wait point faults w payload =
     (case Faults_Apply wait faults point payload of
        (Inl e, faults') \<Rightarrow> (Some e, faults', w)
      | (Inr frames, faults') \<Rightarrow> (case writeBoundaryFrames w frames of (err, w') \<Rightarrow> (err, faults', w')))"

section \<open>From the client to the provider\<close>

function writeLoop :: "(Fault \<Rightarrow> verr) \<Rightarrow> verr \<Rightarrow> string \<Rightarrow> Gateway \<Rightarrow> verr \<times> Gateway" where
  "writeLoop wait closeErr data g =
     (if data = [] then (nil, g)
      else if newline_ch \<notin> set data
      then (if length data > MaxMessageBytes - length (gw_writeBuffer g)
            then (Some ErrFrameTooLarge, terminate closeErr (Some ErrFrameTooLarge) (g\<lparr>gw_writeBuffer := []\<rparr>))
            else (nil, g\<lparr>gw_writeBuffer := gw_writeBuffer g @ data\<rparr>))
      else
        (let line = takeWhile (\<lambda>c. c \<noteq> newline_ch) data in
         if length line > MaxMessageBytes - length (gw_writeBuffer g)
         then (Some ErrFrameTooLarge, terminate closeErr (Some ErrFrameTooLarge) (g\<lparr>gw_writeBuffer := []\<rparr>))
         else (case forward wait PointGatewayToProvider (gw_faults g) (gw_upstream g) (gw_writeBuffer g @ line) of
                 (err, faults, w) \<Rightarrow>
                   (let g' = g\<lparr>gw_writeBuffer := [], gw_faults := faults, gw_upstream := w\<rparr> in
                    if err \<noteq> nil then (err, terminate closeErr err g')
                    else writeLoop wait closeErr (drop (Suc (length line)) data) g'))))"
  by auto
termination by (relation "measure (\<lambda>(_, _, data, _). length data)") auto

declare writeLoop.simps [simp del]

definition Gateway_Write :: "(Fault \<Rightarrow> verr) \<Rightarrow> verr \<Rightarrow> Gateway \<Rightarrow> string \<Rightarrow> (int \<times> verr) \<times> Gateway" where
  "Gateway_Write wait closeErr g data =
     (if data = [] then ((0, nil), g)
      else if gw_closed g then ((0, boundaryError g), g)
      else case writeLoop wait closeErr data g of
        (None, g') \<Rightarrow> ((int (length data), nil), g')
      | (Some e, g') \<Rightarrow> ((0, Some e), g'))"

section \<open>From the provider to the client\<close>

abbreviation boundaryMaximum :: nat where "boundaryMaximum \<equiv> MaxMessageBytes + 1"

function readBoundaryFrame :: "string \<Rightarrow> bufReader \<Rightarrow> (string \<times> bool \<times> verr) \<times> bufReader" where
  "readBoundaryFrame frame b =
     (case readSlice b of
        ((fragment, ending), b') \<Rightarrow>
          (let payload = (if ending = Terminated then butlast fragment else fragment);
               remaining = boundaryMaximum - length frame
           in if length payload > remaining then ((frame @ take remaining payload, True, Some ErrFrameTooLarge), b')
              else case ending of
                Terminated \<Rightarrow> ((frame @ payload, True, nil), b')
              | BufferFull \<Rightarrow> readBoundaryFrame (frame @ payload) b'
              | Failed e \<Rightarrow> ((frame @ payload, False, Some (if errors_Is e io_EOF then Sentinel io_EOF else e)), b')))"
  by auto
termination
proof (relation "measure (\<lambda>(frame, b). Suc boundaryMaximum - length frame)", goal_cases)
  case 2
  then show ?case by (auto dest!: readSlice_full [OF sym])
qed simp

declare readBoundaryFrame.simps [simp del]

text \<open>
  \<open>pump\<close>, with the error that terminates the gateway; \<open>cancelled\<close> says whether the gateway was already closed. The
  fuel bounds the number of frames.
\<close>

definition quietEnd :: "go_error \<Rightarrow> bool" where
  "quietEnd e \<longleftrightarrow> errors_Is e io_EOF \<or> errors_Is e ''io.ErrClosedPipe'' \<or> errors_Is e ''net.ErrClosed'' \<or> errors_Is e ''os.ErrClosed''"

definition pumpEnd :: "bool \<Rightarrow> Faults option \<Rightarrow> ioWriter \<Rightarrow> string \<Rightarrow> bool \<Rightarrow> go_error \<Rightarrow> verr \<times> Faults option \<times> ioWriter" where
  "pumpEnd cancelled faults w frame terminated err =
     (case Faults_Flush faults PointProviderToGateway of
        (held, faults') \<Rightarrow>
          (case writeBoundaryFrames w held of
             (Some e, w') \<Rightarrow> (Some e, faults', w')
           | (None, w') \<Rightarrow>
               (case (if \<not> terminated \<and> frame \<noteq> [] then writeAll w' frame else (nil, w')) of
                  (Some e, w'') \<Rightarrow> (Some e, faults', w'')
                | (None, w'') \<Rightarrow> (if \<not> quietEnd err \<and> \<not> cancelled then Some err else nil, faults', w''))))"

fun pump :: "nat \<Rightarrow> (Fault \<Rightarrow> verr) \<Rightarrow> bool \<Rightarrow> Faults option \<Rightarrow> bufReader \<Rightarrow> ioWriter \<Rightarrow> (verr \<times> Faults option \<times> ioWriter) option" where
  "pump 0 wait cancelled faults b w = None"
| "pump (Suc n) wait cancelled faults b w =
     (case readBoundaryFrame [] b of
        ((frame, terminated, err), b') \<Rightarrow>
          (case (if terminated then forward wait PointProviderToGateway faults w frame else (nil, faults, w)) of
             (Some e, faults', w') \<Rightarrow> Some (Some e, faults', w')
           | (None, faults', w') \<Rightarrow>
               (case err of
                  Some e \<Rightarrow> Some (pumpEnd cancelled faults' w' frame terminated e)
                | None \<Rightarrow> pump n wait cancelled faults' b' w')))"

section \<open>Closing\<close>

definition Gateway_Disconnect :: "verr \<Rightarrow> Gateway \<Rightarrow> Gateway" where
  "Gateway_Disconnect closeErr g = terminate closeErr (Some ErrDisconnected) g"

definition Gateway_Close :: "verr \<Rightarrow> Gateway \<Rightarrow> Gateway" where
  "Gateway_Close closeErr g = terminate closeErr nil g"

text \<open>The first cause of a close is kept, and from then on nothing is forwarded.\<close>

lemma terminate_closed [simp]: "gw_closed (terminate closeErr err g)" and terminate_once [simp]: "terminate e' x (terminate e y g) = terminate e y g"
  and terminate_upstream [simp]: "gw_upstream (terminate closeErr err g) = gw_upstream g"
  by (simp_all add: terminate_def)

lemma closed_gateway_refuses:
  "data \<noteq> [] \<Longrightarrow> Gateway_Write wait closeErr (Gateway_Disconnect e g) data =
     ((0, boundaryError (Gateway_Disconnect e g)), Gateway_Disconnect e g)"
  by (simp add: Gateway_Write_def Gateway_Disconnect_def)

section \<open>Transparency\<close>

text \<open>The part of a text up to its last newline, and what follows it.\<close>

definition completeLines :: "string \<Rightarrow> string" where
  "completeLines s = rev (dropWhile (\<lambda>c. c \<noteq> newline_ch) (rev s))"

definition openLine :: "string \<Rightarrow> string" where
  "openLine s = rev (takeWhile (\<lambda>c. c \<noteq> newline_ch) (rev s))"

fun linesWithin :: "nat \<Rightarrow> nat \<Rightarrow> string \<Rightarrow> bool" where
  "linesWithin m n [] = True"
| "linesWithin m n (c # s) = (if c = newline_ch then linesWithin m 0 s else Suc n \<le> m \<and> linesWithin m (Suc n) s)"

lemma completeLines_line: "completeLines (p @ newline_ch # s) = p @ newline_ch # completeLines s"
proof (cases "newline_ch \<in> set s")
  case True
  then show ?thesis by (simp add: completeLines_def dropWhile_append)
next
  case False
  then have "dropWhile (\<lambda>c. c \<noteq> newline_ch) (rev s) = []" by auto
  moreover have "dropWhile (\<lambda>c. c \<noteq> newline_ch) (rev s @ newline_ch # rev p) = newline_ch # rev p"
    using False by (subst dropWhile_append2) auto
  ultimately show ?thesis by (simp add: completeLines_def)
qed

lemma openLine_line: "openLine (p @ newline_ch # s) = openLine s"
proof (cases "newline_ch \<in> set s")
  case True
  then have "\<exists>c \<in> set (rev s). \<not> c \<noteq> newline_ch" by simp
  then show ?thesis by (simp add: openLine_def takeWhile_append1)
next
  case False
  then have "takeWhile (\<lambda>c. c \<noteq> newline_ch) (rev s @ newline_ch # rev p) = rev s" by (subst takeWhile_append2) auto
  moreover have "takeWhile (\<lambda>c. c \<noteq> newline_ch) (rev s) = rev s" using False by auto
  ultimately show ?thesis by (simp add: openLine_def del: takeWhile_eq_all_conv)
qed

lemma no_line: "newline_ch \<notin> set s \<Longrightarrow> completeLines s = [] \<and> openLine s = s"
proof -
  assume "newline_ch \<notin> set s"
  then have "dropWhile (\<lambda>c. c \<noteq> newline_ch) (rev s) = []" "takeWhile (\<lambda>c. c \<noteq> newline_ch) (rev s) = rev s"
    by auto
  then show ?thesis by (simp add: completeLines_def openLine_def del: takeWhile_eq_all_conv dropWhile_eq_Nil_conv)
qed

lemma completeLines_openLine: "completeLines s @ openLine s = s"
  unfolding completeLines_def openLine_def by (metis rev_append rev_rev_ident takeWhile_dropWhile_id)

lemma linesWithin_line:
  "newline_ch \<notin> set p \<Longrightarrow> linesWithin m n (p @ newline_ch # s) \<longleftrightarrow> (p = [] \<or> n + length p \<le> m) \<and> linesWithin m 0 s"
  by (induction p arbitrary: n) (auto split: if_splits)

lemma linesWithin_open: "newline_ch \<notin> set p \<Longrightarrow> linesWithin m n p \<longleftrightarrow> p = [] \<or> n + length p \<le> m"
  by (induction p arbitrary: n) auto

lemma writeAll_free: "w_replies w = [] \<Longrightarrow> writeAll w s = (nil, w\<lparr>w_out := w_out w @ s\<rparr>)"
proof (cases "s = []")
  case False
  assume w: "w_replies w = []"
  have "writeAll (w\<lparr>w_out := w_out w @ s\<rparr>) [] = (nil, w\<lparr>w_out := w_out w @ s\<rparr>)" by (simp add: writeAll.simps)
  then show ?thesis using w False by (subst writeAll.simps) (simp add: writer_Write_def)
qed (simp add: writeAll.simps)

lemma forward_plain:
  "w_replies w = [] \<Longrightarrow> forward wait point None w payload = (nil, None, w\<lparr>w_out := w_out w @ payload @ [newline_ch]\<rparr>)"
  by (simp add: forward_def Faults_Apply_def writeBoundaryFrame_def writeAll_free)

text \<open>A gateway without faults over an upstream that takes everything.\<close>

definition plainGateway :: "Gateway \<Rightarrow> bool" where
  "plainGateway g \<longleftrightarrow> \<not> gw_closed g \<and> gw_faults g = None \<and> w_replies (gw_upstream g) = [] \<and> newline_ch \<notin> set (gw_writeBuffer g) \<and>
     length (gw_writeBuffer g) \<le> MaxMessageBytes"

definition relayed :: "Gateway \<Rightarrow> string \<Rightarrow> Gateway" where
  "relayed g data =
     g\<lparr>gw_writeBuffer := openLine (gw_writeBuffer g @ data),
       gw_upstream := (gw_upstream g)\<lparr>w_out := w_out (gw_upstream g) @ completeLines (gw_writeBuffer g @ data)\<rparr>\<rparr>"

lemma writeLoop_plain:
  "plainGateway g \<Longrightarrow> linesWithin MaxMessageBytes (length (gw_writeBuffer g)) data \<Longrightarrow>
     writeLoop wait closeErr data g = (nil, relayed g data)"
proof (induction data arbitrary: g rule: length_induct)
  case (1 data)
  let ?b = "gw_writeBuffer g"
  have g: "w_replies (gw_upstream g) = []" "gw_faults g = None" "newline_ch \<notin> set ?b" "length ?b \<le> MaxMessageBytes"
    using 1(2) by (simp_all add: plainGateway_def)
  show ?case
  proof (cases "newline_ch \<in> set data")
    case False
    have len: "data = [] \<or> length ?b + length data \<le> MaxMessageBytes" using 1(3) linesWithin_open [OF False] by simp
    have none: "completeLines (?b @ data) = []" "openLine (?b @ data) = ?b @ data" using False g(3) no_line [of "?b @ data"] by auto
    have "relayed g data = g\<lparr>gw_writeBuffer := ?b @ data\<rparr>" by (simp add: relayed_def none)
    then show ?thesis using False len by (auto simp: writeLoop.simps [of wait closeErr data g])
  next
    case True
    let ?line = "takeWhile (\<lambda>c. c \<noteq> newline_ch) data" and ?rest = "drop (Suc (length (takeWhile (\<lambda>c. c \<noteq> newline_ch) data))) data"
    have split: "data = ?line @ newline_ch # ?rest" by (rule split_at_newline [OF True])
    have nl: "newline_ch \<notin> set ?line" using set_takeWhileD by fastforce
    have within: "?line = [] \<or> length ?b + length ?line \<le> MaxMessageBytes" "linesWithin MaxMessageBytes 0 ?rest"
      using 1(3) linesWithin_line [OF nl, of MaxMessageBytes "length ?b" ?rest] split by simp_all
    let ?g = "g\<lparr>gw_writeBuffer := [], gw_faults := None,
        gw_upstream := (gw_upstream g)\<lparr>w_out := w_out (gw_upstream g) @ (?b @ ?line) @ [newline_ch]\<rparr>\<rparr>"
    have "data \<noteq> []" using True by auto
    then have step: "writeLoop wait closeErr data g = writeLoop wait closeErr ?rest ?g"
      using True within(1) g by (subst writeLoop.simps) (auto simp: forward_plain Let_def)
    have "length ?rest < length data" using \<open>data \<noteq> []\<close> by simp
    moreover have "plainGateway ?g" using 1(2) by (simp add: plainGateway_def)
    ultimately have "writeLoop wait closeErr ?rest ?g = (nil, relayed ?g ?rest)" using 1(1) within(2) by simp
    moreover have "relayed ?g ?rest = relayed g data"
    proof -
      have "?b @ data = (?b @ ?line) @ newline_ch # ?rest" using split by simp
      then have "completeLines (?b @ data) = (?b @ ?line) @ newline_ch # completeLines ?rest" "openLine (?b @ data) = openLine ?rest"
        by (simp_all only: completeLines_line openLine_line)
      then show ?thesis using g(2) by (simp add: relayed_def)
    qed
    ultimately show ?thesis using step by simp
  qed
qed


subsection \<open>The other direction\<close>

text \<open>What is read off a stream: a line, the start of a line that is too long, or the unterminated end.\<close>

definition boundaryOf :: "string \<Rightarrow> go_error \<Rightarrow> string \<times> bool \<times> verr" where
  "boundaryOf text e =
     (let line = takeWhile (\<lambda>c. c \<noteq> newline_ch) text in
      if length line > boundaryMaximum then (take boundaryMaximum line, True, Some ErrFrameTooLarge)
      else if newline_ch \<in> set text then (line, True, nil)
      else (line, False, Some (if errors_Is e io_EOF then Sentinel io_EOF else e)))"

lemma takeWhile_line: "newline_ch \<notin> set p \<Longrightarrow> takeWhile (\<lambda>c. c \<noteq> newline_ch) (p @ s) = p @ takeWhile (\<lambda>c. c \<noteq> newline_ch) s"
  by (rule takeWhile_append2) auto

lemma boundaryOf_long:
  "takeWhile (\<lambda>c. c \<noteq> newline_ch) s = line \<Longrightarrow> length line > boundaryMaximum \<Longrightarrow>
    boundaryOf s e = (take boundaryMaximum line, True, Some ErrFrameTooLarge)"
  by (simp only: boundaryOf_def Let_def if_P)

lemma boundaryOf_short:
  "takeWhile (\<lambda>c. c \<noteq> newline_ch) s = line \<Longrightarrow> length line \<le> boundaryMaximum \<Longrightarrow> newline_ch \<in> set s \<Longrightarrow>
    boundaryOf s e = (line, True, nil)"
  by (simp only: boundaryOf_def Let_def if_P if_not_P not_less)

lemma boundaryOf_open:
  assumes "newline_ch \<notin> set s" "length s \<le> boundaryMaximum"
  shows "boundaryOf s e = (s, False, Some (if errors_Is e io_EOF then Sentinel io_EOF else e))"
proof -
  have "takeWhile (\<lambda>c. c \<noteq> newline_ch) s = s" using assms(1) by (auto simp: takeWhile_eq_all_conv)
  then show ?thesis using assms by (simp only: boundaryOf_def Let_def if_not_P not_less if_False)
qed

lemma readBoundaryFrame_correct:
  assumes "readerOk b" "newline_ch \<notin> set frame" "length frame \<le> boundaryMaximum"
  shows "fst (readBoundaryFrame frame b) = boundaryOf (frame @ readerText b) (rd_end b) \<and>
    (\<forall>line. fst (readBoundaryFrame frame b) = (line, True, nil) \<longrightarrow>
       frame @ readerText b = line @ newline_ch # readerText (snd (readBoundaryFrame frame b)) \<and>
       newline_ch \<notin> set line \<and> readerOk (snd (readBoundaryFrame frame b)) \<and> rd_end (snd (readBoundaryFrame frame b)) = rd_end b)"
  using assms
proof (induction frame b rule: readBoundaryFrame.induct)
  case (1 frame b)
  obtain fragment ending b' where rs: "readSlice b = ((fragment, ending), b')" by (metis surj_pair)
  have t: "sliceTakes b fragment ending b'" using readSlice_takes [OF 1(2) rs] .
  let ?payload = "if ending = Terminated then butlast fragment else fragment"
  have stream: "readerText b = fragment @ readerText b'" using t by (simp add: sliceTakes_def)
  have pay: "newline_ch \<notin> set ?payload" using t by (auto simp: sliceTakes_def split: slice_end.splits)
  have frag: "fragment = ?payload @ (if ending = Terminated then [newline_ch] else [])"
    using t by (auto simp: sliceTakes_def)
  have nl: "newline_ch \<notin> set (frame @ ?payload)" using pay 1(3) by simp
  have line: "takeWhile (\<lambda>c. c \<noteq> newline_ch) (frame @ readerText b) =
      (frame @ ?payload) @ takeWhile (\<lambda>c. c \<noteq> newline_ch) ((if ending = Terminated then [newline_ch] else []) @ readerText b')"
    using takeWhile_line [OF nl] stream frag by (metis append.assoc)
  note unfold = readBoundaryFrame.simps [of frame b]
  show ?case
  proof (cases "length ?payload > boundaryMaximum - length frame")
    case True
    then have res: "readBoundaryFrame frame b = ((frame @ take (boundaryMaximum - length frame) ?payload, True, Some ErrFrameTooLarge), b')"
      unfolding unfold rs by (simp add: Let_def)
    have "take boundaryMaximum ((frame @ ?payload) @ x) = frame @ take (boundaryMaximum - length frame) ?payload" for x
      using True 1(4) by simp
    moreover have "length ((frame @ p) @ x) > boundaryMaximum" if long: "length p > boundaryMaximum - length frame" for p x
      using long 1(4) by (simp only: length_append)
    ultimately have "boundaryOf (frame @ readerText b) (rd_end b) = (frame @ take (boundaryMaximum - length frame) ?payload, True, Some ErrFrameTooLarge)"
      using True boundaryOf_long line by (metis (no_types, lifting))
    then show ?thesis using res by simp
  next
    case False
    have short: "length (frame @ ?payload) \<le> boundaryMaximum" using False 1(4) by simp
    show ?thesis
    proof (cases ending)
      case Terminated
      then have res: "readBoundaryFrame frame b = ((frame @ ?payload, True, nil), b')"
        using False unfolding unfold rs by (simp add: Let_def)
      have split: "frame @ readerText b = (frame @ ?payload) @ newline_ch # readerText b'" using stream frag Terminated by simp
      moreover have "boundaryOf (frame @ readerText b) (rd_end b) = (frame @ ?payload, True, nil)"
      proof (rule boundaryOf_short [OF _ short])
        show "takeWhile (\<lambda>c. c \<noteq> newline_ch) (frame @ readerText b) = frame @ ?payload" unfolding split takeWhile_line [OF nl] by simp
        show "newline_ch \<in> set (frame @ readerText b)" unfolding split by simp
      qed
      ultimately show ?thesis using res nl t by (auto simp: sliceTakes_def)
    next
      case BufferFull
      then have res: "readBoundaryFrame frame b = readBoundaryFrame (frame @ ?payload) b'"
        using False unfolding unfold rs by (simp add: Let_def)
      have "readerOk b'" "rd_end b' = rd_end b" using t by (simp_all add: sliceTakes_def)
      moreover have "frame @ readerText b = (frame @ ?payload) @ readerText b'" using stream frag BufferFull by simp
      ultimately have split: "frame @ readerText b = (frame @ ?payload) @ readerText b'" "readerOk b'" "rd_end b' = rd_end b" by simp_all
      show ?thesis unfolding res split(1) split(3) [symmetric]
        by (rule 1(1) [OF rs [symmetric] refl refl refl]) (fact False split(2) nl short BufferFull)+
    next
      case (Failed e)
      then have res: "readBoundaryFrame frame b = ((frame @ ?payload, False, Some (if errors_Is e io_EOF then Sentinel io_EOF else e)), b')"
        using False unfolding unfold rs by (simp add: Let_def)
      have "readerText b' = []" "e = rd_end b" using t Failed by (simp_all add: sliceTakes_def)
      then have whole: "frame @ readerText b = frame @ ?payload" using stream frag Failed by simp
      from boundaryOf_open [OF nl short] show ?thesis unfolding res whole \<open>e = rd_end b\<close> by (simp only: fst_conv prod.inject simp_thms)
    qed
  qed
qed

lemma pump_plain:
  assumes "readerOk b" "linesWithin boundaryMaximum 0 (readerText b)" "w_replies w = []" "length (readerText b) < n"
  shows "pump n wait cancelled None b w =
    Some (if quietEnd (rd_end b) \<or> cancelled then nil else Some (rd_end b), None, w\<lparr>w_out := w_out w @ readerText b\<rparr>)"
  using assms
proof (induction n arbitrary: b w)
  case (Suc n)
  have read: "fst (readBoundaryFrame [] b) = boundaryOf (readerText b) (rd_end b)"
    "fst (readBoundaryFrame [] b) = (line, True, nil) \<Longrightarrow>
      readerText b = line @ newline_ch # readerText (snd (readBoundaryFrame [] b)) \<and> newline_ch \<notin> set line \<and>
      readerOk (snd (readBoundaryFrame [] b)) \<and> rd_end (snd (readBoundaryFrame [] b)) = rd_end b" for line
    using readBoundaryFrame_correct [OF Suc.prems(1), of "[]"] by (simp_all only: append_Nil list.set empty_iff not_False_eq_True list.size le0 simp_thms)
  show ?case
  proof (cases "newline_ch \<in> set (readerText b)")
    case True
    obtain line s where ls: "readerText b = line @ newline_ch # s" "newline_ch \<notin> set line" using split_list_first [OF True] by blast
    have len: "length line \<le> boundaryMaximum" and within: "linesWithin boundaryMaximum 0 s"
      using Suc.prems(2) linesWithin_line [OF ls(2), of boundaryMaximum 0 s] ls(1) by auto
    have "takeWhile (\<lambda>c. c \<noteq> newline_ch) (readerText b) = line" using takeWhile_line [OF ls(2)] ls(1) by simp
    then have "boundaryOf (readerText b) (rd_end b) = (line, True, nil)" using boundaryOf_short len True by blast
    then have got: "fst (readBoundaryFrame [] b) = (line, True, nil)" using read(1) by (simp only:)
    then obtain b' where b': "readBoundaryFrame [] b = ((line, True, nil), b')" by (metis prod.collapse)
    have "readerText b = line @ newline_ch # readerText b' \<and> readerOk b' \<and> rd_end b' = rd_end b"
      using read(2) [OF got] by (simp only: b' snd_conv simp_thms)
    then have rest: "readerText b' = s" "readerOk b'" "rd_end b' = rd_end b" using ls(1) by simp_all
    let ?w = "w\<lparr>w_out := w_out w @ line @ [newline_ch]\<rparr>"
    have "length s < n" using Suc.prems(4) ls(1) by simp
    then have "pump n wait cancelled None b' ?w = Some (if quietEnd (rd_end b') \<or> cancelled then nil else Some (rd_end b'), None,
        ?w\<lparr>w_out := w_out ?w @ readerText b'\<rparr>)" using Suc.IH [OF rest(2), of ?w] Suc.prems(3) within rest(1) by simp
    then show ?thesis using b' forward_plain [OF Suc.prems(3), of wait PointProviderToGateway line] rest ls(1) by simp
  next
    case False
    have tw: "takeWhile (\<lambda>c. c \<noteq> newline_ch) (readerText b) = readerText b" using False by auto
    have len: "length (readerText b) \<le> boundaryMaximum" using Suc.prems(2) linesWithin_open [OF False, of boundaryMaximum 0] by auto
    let ?e = "if errors_Is (rd_end b) io_EOF then Sentinel io_EOF else rd_end b"
    have "fst (readBoundaryFrame [] b) = (readerText b, False, Some ?e)"
      unfolding read(1) by (rule boundaryOf_open [OF False len])
    then obtain b' where b': "readBoundaryFrame [] b = ((readerText b, False, Some ?e), b')" by (metis prod.collapse)
    have "pumpEnd cancelled None w (readerText b) False ?e =
        (if quietEnd (rd_end b) \<or> cancelled then nil else Some (rd_end b), None, w\<lparr>w_out := w_out w @ readerText b\<rparr>)"
      using Suc.prems(3) by (auto simp: pumpEnd_def Faults_Flush_def writeAll_free quietEnd_def)
    then show ?thesis using b' by simp
  qed
qed simp

subsection \<open>Writes in pieces\<close>

lemma openLine_append: "newline_ch \<notin> set b \<Longrightarrow> openLine (b @ s) = (if newline_ch \<in> set s then openLine s else b @ s)"
proof (cases "newline_ch \<in> set s")
  case True
  then obtain p t where "s = p @ newline_ch # t" using split_list by fastforce
  then show ?thesis using True openLine_line [of "b @ p" t] openLine_line [of p t] by simp
qed (simp add: no_line)

lemma linesWithin_append:
  "linesWithin m n (s @ t) \<longleftrightarrow> linesWithin m n s \<and> linesWithin m (if newline_ch \<in> set s then length (openLine s) else n + length s) t"
proof (induction s arbitrary: n)
  case (Cons c s)
  have "openLine (newline_ch # s) = openLine s" using openLine_line [of "[]" s] by simp
  moreover have "openLine (c # s) = openLine s" if "newline_ch \<in> set s" "c \<noteq> newline_ch" using that openLine_append [of "[c]" s] by simp
  ultimately show ?case using Cons.IH no_line [of s] by auto
qed simp

lemma openLine_within: "linesWithin m n s \<Longrightarrow> n \<le> m \<Longrightarrow> (if newline_ch \<in> set s then length (openLine s) else n + length s) \<le> m"
proof (induction s arbitrary: n)
  case (Cons c s)
  have "openLine (newline_ch # s) = openLine s" using openLine_line [of "[]" s] by simp
  moreover have "openLine (c # s) = openLine s" if "newline_ch \<in> set s" "c \<noteq> newline_ch" using that openLine_append [of "[c]" s] by simp
  ultimately show ?case
    using Cons.prems Cons.IH [of 0] Cons.IH [of "Suc n"] no_line [of s] by (auto split: if_splits)
qed simp

lemma relayed_buffer:
  assumes "plainGateway g" "linesWithin MaxMessageBytes (length (gw_writeBuffer g)) (s @ t)"
  shows "plainGateway (relayed g s)" "linesWithin MaxMessageBytes (length (gw_writeBuffer (relayed g s))) t"
proof -
  have b: "newline_ch \<notin> set (gw_writeBuffer g)" "length (gw_writeBuffer g) \<le> MaxMessageBytes" using assms(1) by (simp_all add: plainGateway_def)
  have len: "length (openLine (gw_writeBuffer g @ s)) = (if newline_ch \<in> set s then length (openLine s) else length (gw_writeBuffer g) + length s)"
    using openLine_append [OF b(1)] by simp
  have "linesWithin MaxMessageBytes (length (gw_writeBuffer g)) s" using assms(2) linesWithin_append by blast
  from openLine_within [OF this b(2)] have "length (openLine (gw_writeBuffer g @ s)) \<le> MaxMessageBytes" using len by simp
  moreover have "newline_ch \<notin> set (openLine x)" for x using set_takeWhileD by (fastforce simp: openLine_def)
  ultimately show "plainGateway (relayed g s)" using assms(1) by (simp add: plainGateway_def relayed_def)
  show "linesWithin MaxMessageBytes (length (gw_writeBuffer (relayed g s))) t"
    using assms(2) linesWithin_append [of MaxMessageBytes _ s t] len by (simp add: relayed_def)
qed

lemma completeLines_append: "completeLines (s @ t) = completeLines s @ completeLines (openLine s @ t)"
proof (cases "newline_ch \<in> set t")
  case True
  then obtain p u where t: "t = p @ newline_ch # u" using split_list by fastforce
  have "s @ t = (s @ p) @ newline_ch # u" "openLine s @ t = (openLine s @ p) @ newline_ch # u" by (simp_all add: t)
  then have "completeLines (s @ t) = (s @ p) @ newline_ch # completeLines u" "completeLines (openLine s @ t) = (openLine s @ p) @ newline_ch # completeLines u"
    by (simp_all only: completeLines_line)
  then show ?thesis using completeLines_openLine [of s] by (metis append.assoc)
next
  case False
  have o: "newline_ch \<notin> set (openLine s)" using set_takeWhileD by (fastforce simp: openLine_def)
  have "completeLines (s @ t) = completeLines s"
    unfolding completeLines_def rev_append using False by (subst dropWhile_append2) auto
  moreover have "completeLines (openLine s @ t) = []" using o False no_line [of "openLine s @ t"] by simp
  ultimately show ?thesis by simp
qed

lemma openLine_openLine: "openLine (s @ t) = openLine (openLine s @ t)"
proof (cases "newline_ch \<in> set t")
  case True
  then obtain p u where t: "t = p @ newline_ch # u" using split_list by fastforce
  have "s @ t = (s @ p) @ newline_ch # u" "openLine s @ t = (openLine s @ p) @ newline_ch # u" by (simp_all add: t)
  then show ?thesis by (simp only: openLine_line)
next
  case False
  have "completeLines (s @ t) = completeLines s"
    unfolding completeLines_def rev_append using False by (subst dropWhile_append2) auto
  moreover have "newline_ch \<notin> set (openLine s @ t)" using False set_takeWhileD by (fastforce simp: openLine_def)
  ultimately show ?thesis using completeLines_openLine [of "s @ t"] completeLines_openLine [of s] no_line [of "openLine s @ t"]
    by (metis append.assoc same_append_eq)
qed

lemma relayed_append: "relayed (relayed g s) t = relayed g (s @ t)"
  using completeLines_append [of "gw_writeBuffer g @ s" t] openLine_openLine [of "gw_writeBuffer g @ s" t]
  by (simp add: relayed_def)

lemma relayed_nothing: "plainGateway g \<Longrightarrow> relayed g [] = g"
  using no_line [of "gw_writeBuffer g"] by (simp add: plainGateway_def relayed_def)

definition writeStepOk :: "(Fault \<Rightarrow> verr) \<Rightarrow> verr \<Rightarrow> string \<Rightarrow> bool \<times> Gateway \<Rightarrow> bool \<times> Gateway" where
  "writeStepOk wait closeErr chunk p =
     (case Gateway_Write wait closeErr (snd p) chunk of
        ((written, err), g) \<Rightarrow> (fst p \<and> written = int (length chunk) \<and> err = nil, g))"

lemma Gateway_Write_plain:
  assumes "plainGateway g" "linesWithin MaxMessageBytes (length (gw_writeBuffer g)) chunk"
  shows "Gateway_Write wait closeErr g chunk = ((int (length chunk), nil), relayed g chunk)"
  using writeLoop_plain [OF assms] relayed_nothing [OF assms(1)] assms(1) by (auto simp: Gateway_Write_def plainGateway_def)

lemma writes_plain:
  "plainGateway g \<Longrightarrow> linesWithin MaxMessageBytes (length (gw_writeBuffer g)) (concat chunks) \<Longrightarrow>
     fold (writeStepOk wait closeErr) chunks (True, g) = (True, relayed g (concat chunks))"
proof (induction chunks arbitrary: g)
  case Nil
  then show ?case by (simp add: relayed_nothing)
next
  case (Cons c cs)
  have c: "linesWithin MaxMessageBytes (length (gw_writeBuffer g)) c" using Cons.prems(2) linesWithin_append by auto
  have next_ok: "plainGateway (relayed g c)" "linesWithin MaxMessageBytes (length (gw_writeBuffer (relayed g c))) (concat cs)"
    using relayed_buffer [OF Cons.prems(1)] Cons.prems(2) by simp_all
  have "writeStepOk wait closeErr c (True, g) = (True, relayed g c)"
    using Gateway_Write_plain [OF Cons.prems(1) c] by (simp add: writeStepOk_def)
  then show ?case using Cons.IH [OF next_ok] by (simp add: relayed_append)
qed

section \<open>Properties\<close>



end
