(* ===== verification/Conformance_Matrix.thy ===== *)
theory Conformance_Matrix
  imports Proto_Manifest Proto_Custody Json_Print
begin

text \<open>
  \<open>conformance/case.go\<close>, \<open>matrix.go\<close> and \<open>report.go\<close>: the cases of the conformance suite, the matrix that holds them,
  which cases speak about which capability, and the report. The embedded file, the JSON decoder and the encoders of the
  report are outside the model; the JUnit document they print is in it.
\<close>

section \<open>Cases\<close>

abbreviation CaseInitializeRequired :: string where "CaseInitializeRequired \<equiv> ''initialize_required''"
abbreviation CaseOptionalCapabilities :: string where "CaseOptionalCapabilities \<equiv> ''optional_capabilities''"
abbreviation CaseCapabilityMapping :: string where "CaseCapabilityMapping \<equiv> ''capability_mapping''"
abbreviation CaseNotSupported :: string where "CaseNotSupported \<equiv> ''not_supported''"
abbreviation CaseEventDuplicate :: string where "CaseEventDuplicate \<equiv> ''event_duplicate''"
abbreviation CaseEventOutOfOrder :: string where "CaseEventOutOfOrder \<equiv> ''event_out_of_order''"
abbreviation CaseReplayGap :: string where "CaseReplayGap \<equiv> ''replay_gap''"
abbreviation CaseReconnect :: string where "CaseReconnect \<equiv> ''reconnect''"
abbreviation CaseCancellation :: string where "CaseCancellation \<equiv> ''cancellation''"
abbreviation CaseDeadline :: string where "CaseDeadline \<equiv> ''deadline''"
abbreviation CaseBackpressure :: string where "CaseBackpressure \<equiv> ''backpressure''"
abbreviation CaseOversizedFrame :: string where "CaseOversizedFrame \<equiv> ''oversized_frame''"
abbreviation CaseCrashRecovery :: string where "CaseCrashRecovery \<equiv> ''crash_recovery''"
abbreviation CaseRedaction :: string where "CaseRedaction \<equiv> ''redaction''"
abbreviation CaseDeliveryClass :: string where "CaseDeliveryClass \<equiv> ''delivery_class''"

definition caseKinds :: "string list" where
  "caseKinds =
     [CaseInitializeRequired, CaseOptionalCapabilities, CaseCapabilityMapping, CaseNotSupported,
      CaseEventDuplicate, CaseEventOutOfOrder, CaseReplayGap, CaseReconnect, CaseCancellation,
      CaseDeadline, CaseBackpressure, CaseOversizedFrame, CaseCrashRecovery, CaseRedaction, CaseDeliveryClass]"

text \<open>\<open>^[a-z][a-z0-9_.-]{2,127}$\<close>\<close>

definition caseIDPattern :: regex where
  "caseIDPattern =
     RSeq (RCls [(CHR ''a'', CHR ''z'')]) (RSeq (RCls cls_token) (RSeq (RCls cls_token) (RUpTo 125 (RCls cls_token))))"

record Case =
  cs_ID :: string
  cs_Description :: string
  cs_Kind :: string
  cs_Required :: bool
  cs_Capability :: string
  cs_DeliveryClass :: string
  cs_WhenAdvertised :: bool
  cs_RequiresReplay :: bool
  cs_ExpectedCode :: string

definition Case_Validate :: "Case \<Rightarrow> verr" where
  "Case_Validate c =
     first_err
      [if \<not> matchString caseIDPattern (cs_ID c) then errorf ''conformance case ID is invalid'' else nil,
       if length (cs_Description c) = 0 \<or> length (cs_Description c) > 512
         then errorf ''conformance case description is invalid'' else nil,
       if cs_Kind c \<notin> set caseKinds then errorf ''conformance case kind is invalid'' else nil,
       if cs_Capability c \<noteq> [] \<and> Capability (cs_Capability c) = None \<and>
          \<not> matchString Proto_Capability.extensionCapabilityPattern (cs_Capability c)
         then errorf ''conformance case capability is invalid'' else nil,
       if cs_DeliveryClass c \<noteq> []
         then (if cs_Kind c \<noteq> CaseDeliveryClass then errorf ''delivery class selector is valid only for delivery cases''
               else if cs_DeliveryClass c \<notin> {DeliveryProviderIdempotent, DeliveryStateReconciled, DeliveryAtMostOnce}
               then errorf ''conformance delivery class is invalid'' else nil)
         else if cs_Kind c = CaseDeliveryClass then errorf ''delivery class case requires a delivery selector'' else nil,
       if cs_WhenAdvertised c \<and> cs_Capability c = [] \<and> cs_DeliveryClass c = []
         then errorf ''advertised-only case requires a capability or delivery selector'' else nil,
       if cs_RequiresReplay c \<and> cs_Kind c \<noteq> CaseReplayGap then errorf ''replay requirement is valid only for replay cases'' else nil,
       if cs_ExpectedCode c \<noteq> [] \<and> ErrorCode_Validate (cs_ExpectedCode c) \<noteq> nil
         then errorf ''conformance expected error code is invalid'' else nil]"

definition preferredTargets :: "string \<Rightarrow> string list" where
  "preferredTargets deliveryClass =
     (if deliveryClass = DeliveryProviderIdempotent then [''runtime.stop_session'']
      else if deliveryClass = DeliveryStateReconciled then [''runtime.create_session'']
      else if deliveryClass = DeliveryAtMostOnce then [''runtime.terminate_session'']
      else [])"

definition deliveryTargetCapability :: "ProviderManifest \<Rightarrow> string \<Rightarrow> string option" where
  "deliveryTargetCapability manifest deliveryClass = find (Manifest_Supports manifest) (preferredTargets deliveryClass)"

definition appliesTo :: "Case \<Rightarrow> ProviderManifest \<Rightarrow> bool" where
  "appliesTo c manifest \<longleftrightarrow>
     (if cs_Capability c \<noteq> [] \<and> cs_WhenAdvertised c \<and> \<not> Manifest_Supports manifest (cs_Capability c) then False
      else if cs_DeliveryClass c \<noteq> [] \<and> cs_WhenAdvertised c
      then deliveryTargetCapability manifest (cs_DeliveryClass c) \<noteq> None
      else True)"

section \<open>The matrix\<close>

abbreviation CaseSchemaVersion :: string where "CaseSchemaVersion \<equiv> ''mission-control.conformance.cases.v1alpha1''"

record Matrix =
  mx_SchemaVersion :: string
  mx_SuiteVersion :: string
  mx_Cases :: "Case list"

text \<open>\<open>strings.Split(value, ".")\<close>.\<close>

fun splitDots :: "string \<Rightarrow> string list" where
  "splitDots [] = [[]]"
| "splitDots (c # cs) =
     (if c = CHR ''.'' then [] # splitDots cs
      else case splitDots cs of part # parts \<Rightarrow> (c # part) # parts | [] \<Rightarrow> [[c]])"

definition validVersionPart :: "string \<Rightarrow> bool" where
  "validVersionPart part \<longleftrightarrow>
     \<not> (part = [] \<or> length part > 9) \<and>
     list_all (\<lambda>character. \<not> (byte character < 48 \<or> byte character > 57)) part \<and>
     \<not> (length part > 1 \<and> hd part = CHR ''0'')"

definition validSuiteVersion :: "string \<Rightarrow> bool" where
  "validSuiteVersion s \<longleftrightarrow> (let parts = splitDots s in length parts = 3 \<and> list_all validVersionPart parts)"

text \<open>The errors about a case also quote its identifier in the code.\<close>

definition Matrix_Validate :: "Matrix \<Rightarrow> verr" where
  "Matrix_Validate m =
     first_err
      [if mx_SchemaVersion m \<noteq> CaseSchemaVersion then errorf ''conformance matrix schema version is unsupported'' else nil,
       if \<not> validSuiteVersion (mx_SuiteVersion m) then errorf ''conformance suite version is invalid'' else nil,
       if length (mx_Cases m) = 0 \<or> length (mx_Cases m) > 1024 then errorf ''conformance matrix cases are invalid'' else nil,
       each_unique (\<lambda>c. wrapf ''conformance case'' (Case_Validate c)) cs_ID ''conformance case is duplicated'' (mx_Cases m)]"

definition HasKind :: "Matrix \<Rightarrow> string \<Rightarrow> bool" where
  "HasKind m kind \<longleftrightarrow> list_ex (\<lambda>c. cs_Kind c = kind) (mx_Cases m)"

definition HasDeliveryClass :: "Matrix \<Rightarrow> string \<Rightarrow> bool" where
  "HasDeliveryClass m deliveryClass \<longleftrightarrow> list_ex (\<lambda>c. cs_Kind c = CaseDeliveryClass \<and> cs_DeliveryClass c = deliveryClass) (mx_Cases m)"

definition covers :: "ProviderManifest \<Rightarrow> string \<Rightarrow> Case \<Rightarrow> bool" where
  "covers manifest name c \<longleftrightarrow>
     cs_Kind c = CaseCapabilityMapping \<or> cs_Capability c = name \<or>
     cs_Kind c = CaseDeliveryClass \<and> deliveryTargetCapability manifest (cs_DeliveryClass c) = Some name"

definition CapabilityCaseMap :: "Matrix \<Rightarrow> ProviderManifest \<Rightarrow> string \<Rightarrow> string list option" where
  "CapabilityCaseMap m manifest =
     foldl (\<lambda>result capability.
         result(cap_Name capability \<mapsto>
           remdups_adj (sort (map cs_ID (filter (covers manifest (cap_Name capability)) (mx_Cases m))))))
       (\<lambda>_. None) (m_Capabilities manifest)"

section \<open>Reports\<close>

abbreviation StatusPassed :: string where "StatusPassed \<equiv> ''passed''"
abbreviation StatusFailed :: string where "StatusFailed \<equiv> ''failed''"
abbreviation StatusSkipped :: string where "StatusSkipped \<equiv> ''skipped''"

record CaseResult =
  res_ID :: string
  res_Description :: string
  res_Capability :: string
  res_Required :: bool
  res_Status :: string
  res_DurationMillis :: int
  res_ErrorCode :: string
  res_Summary :: string

record Report =
  rp_SchemaVersion :: string
  rp_SuiteVersion :: string
  rp_ProviderID :: string
  rp_ProviderVersion :: string
  rp_ProtocolVersion :: string
  rp_StartedAt :: gotime
  rp_FinishedAt :: gotime
  rp_Results :: "CaseResult list"
  rp_CapabilityCases :: "string \<Rightarrow> string list option"

definition HasRequiredFailures :: "Report \<Rightarrow> bool" where
  "HasRequiredFailures r \<longleftrightarrow> list_ex (\<lambda>result. res_Required result \<and> res_Status result = StatusFailed) (rp_Results r)"

definition Report_Result :: "Report \<Rightarrow> string \<Rightarrow> CaseResult" where
  "Report_Result r name =
     (case find (\<lambda>result. res_ID result = name) (rp_Results r) of
        Some result \<Rightarrow> result
      | None \<Rightarrow> \<lparr>res_ID = [], res_Description = [], res_Capability = [], res_Required = False, res_Status = [],
                 res_DurationMillis = 0, res_ErrorCode = [], res_Summary = []\<rparr>)"

text \<open>
  The JUnit document. The formatting of times is an argument. \<open>slices.SortFunc\<close> leaves the order of equal identifiers
  open; a report of \<open>Run\<close> has none.
\<close>

record junitCase =
  ju_Name :: string
  ju_Classname :: string
  ju_Time :: string
  ju_Failure :: "(string \<times> string) option"
  ju_Skipped :: "string option"

record junitSuite =
  js_Name :: string
  js_Tests :: nat
  js_Failures :: nat
  js_Skipped :: nat
  js_Timestamp :: string
  js_Time :: string
  js_Cases :: "junitCase list"

definition seconds :: "(int \<Rightarrow> string) \<Rightarrow> int \<Rightarrow> string" where
  "seconds formatFloat duration = formatFloat (if duration < 0 then 0 else duration)"

definition compareStrings :: "string \<Rightarrow> string \<Rightarrow> int" where
  "compareStrings left right = (if left < right then - 1 else if left > right then 1 else 0)"

definition junitEntry :: "(int \<Rightarrow> string) \<Rightarrow> CaseResult \<Rightarrow> junitCase" where
  "junitEntry formatFloat result =
     \<lparr>ju_Name = res_Description result, ju_Classname = res_ID result,
      ju_Time = seconds formatFloat (res_DurationMillis result * 1000000),
      ju_Failure = (if res_Status result = StatusFailed then Some (res_Summary result, res_ErrorCode result) else None),
      ju_Skipped = (if res_Status result = StatusSkipped then Some (res_Summary result) else None)\<rparr>"

definition junitAdd :: "(int \<Rightarrow> string) \<Rightarrow> CaseResult \<Rightarrow> junitSuite \<Rightarrow> junitSuite" where
  "junitAdd formatFloat result suite =
     suite\<lparr>js_Failures := js_Failures suite + (if res_Status result = StatusFailed then 1 else 0),
           js_Skipped := js_Skipped suite + (if res_Status result = StatusSkipped then 1 else 0),
           js_Cases := js_Cases suite @ [junitEntry formatFloat result]\<rparr>"

definition WriteJUnit :: "(int \<Rightarrow> string) \<Rightarrow> (gotime \<Rightarrow> string) \<Rightarrow> Report \<Rightarrow> junitSuite" where
  "WriteJUnit formatFloat formatTime report =
     fold (junitAdd formatFloat) (sort_key res_ID (rp_Results report))
       \<lparr>js_Name = ''mission-control-provider-conformance'', js_Tests = length (rp_Results report), js_Failures = 0,
        js_Skipped = 0, js_Timestamp = formatTime (rp_StartedAt report),
        js_Time = seconds formatFloat (t_instant (rp_FinishedAt report) - t_instant (rp_StartedAt report)), js_Cases = []\<rparr>"

section \<open>Versions\<close>

lemma length_decimal: "n < 10 ^ Suc k \<Longrightarrow> length (decimal n) \<le> Suc k"
proof (induction k arbitrary: n)
  case 0
  then show ?case by (simp add: decimal_small)
next
  case (Suc k)
  show ?case
  proof (cases "n < 10")
    case False
    have "n div 10 < 10 ^ Suc k" using Suc.prems by (simp add: less_mult_imp_div_less)
    then show ?thesis using Suc.IH False by (simp add: decimal_big)
  qed (simp add: decimal_small)
qed

lemma decimalText_decimal_ex: "decimalText d \<Longrightarrow> \<exists>n < 10 ^ length d. d = decimal n"
proof (induction d rule: rev_induct)
  case (snoc c d)
  let ?v = "byte c - 48"
  have c: "isDigit c" using snoc.prems by (simp add: decimalText_def)
  then have v: "?v < 10" "hexDigit ?v = c" by (auto simp: isDigit_def hexDigit_def)
  show ?case
  proof (cases "d = []")
    case True
    then show ?thesis using v by (intro exI [of _ ?v]) (simp add: decimal_small)
  next
    case False
    have hd0: "hd d \<noteq> CHR ''0''" using snoc.prems False by (cases d) (auto simp: decimalText_def)
    then have "decimalText d" using snoc.prems False by (simp add: decimalText_def)
    then obtain n where n: "n < 10 ^ length d" "d = decimal n" using snoc.IH by auto
    have "n \<noteq> 0" using hd0 n(2) by (cases "n = 0") (simp_all add: decimal_small hexDigit_0)
    then have "decimal (10 * n + ?v) = d @ [c]" using v n(2) by (subst decimal_big) auto
    moreover have "10 * n + ?v < 10 ^ length (d @ [c])" using n(1) v(1) by simp
    ultimately show ?thesis by metis
  qed
qed (simp add: decimalText_def)

lemma validVersionPart_decimal: "validVersionPart p \<longleftrightarrow> (\<exists>n < 10 ^ 9. p = decimal n)"
proof
  assume p: "validVersionPart p"
  have "\<forall>c \<in> set p. isDigit c" using p by (auto simp: validVersionPart_def list_all_iff isDigit_def)
  moreover have "p = ''0'' \<or> hd p \<noteq> CHR ''0''"
    using p by (cases p rule: list.exhaust [case_names Nil Cons]) (auto simp: validVersionPart_def)
  moreover have "p \<noteq> []" "length p \<le> 9" using p by (auto simp: validVersionPart_def)
  ultimately obtain n where "n < 10 ^ length p" "p = decimal n" using decimalText_decimal_ex [of p] by (auto simp: decimalText_def)
  moreover have "(10::nat) ^ length p \<le> 10 ^ 9" using \<open>length p \<le> 9\<close> by (intro power_increasing) auto
  ultimately show "\<exists>n < 10 ^ 9. p = decimal n" using order.strict_trans2 by blast
next
  assume "\<exists>n < 10 ^ 9. p = decimal n"
  then obtain n where n: "n < 10 ^ 9" "p = decimal n" by auto
  have "length p \<le> 9" using length_decimal [of n 8] n by simp
  moreover have "list_all (\<lambda>c. \<not> (byte c < 48 \<or> byte c > 57)) p"
    using decimal_digits [of n] n(2) by (auto simp: list_all_iff isDigit_def not_less)
  moreover have "\<not> (length p > 1 \<and> hd p = CHR ''0'')" using decimal_hd [of n] n(2) by (cases "n = 0") (auto simp: decimal_small)
  ultimately show "validVersionPart p" using n(2) by (simp add: validVersionPart_def)
qed

lemma splitDots_part: "CHR ''.'' \<notin> set p \<Longrightarrow> splitDots p = [p]"
  by (induction p) auto

lemma splitDots_dot: "CHR ''.'' \<notin> set p \<Longrightarrow> splitDots (p @ CHR ''.'' # s) = p # splitDots s"
  by (induction p) auto

lemma splitDots_Cons:
  "splitDots s = p # ps \<Longrightarrow> CHR ''.'' \<notin> set p \<and> (ps = [] \<and> s = p \<or> (\<exists>t. s = p @ CHR ''.'' # t \<and> splitDots t = ps))"
proof (cases "CHR ''.'' \<in> set s")
  case True
  assume a: "splitDots s = p # ps"
  obtain q t where "s = q @ CHR ''.'' # t" "CHR ''.'' \<notin> set q" using split_list_first [OF True] by blast
  then show ?thesis using a splitDots_dot by auto
qed (auto simp: splitDots_part)

lemma splitDots_Nil [simp]: "splitDots s \<noteq> []"
  by (cases s) (auto split: list.splits)

lemma splitDots_three:
  "splitDots s = [a, b, c] \<longleftrightarrow>
     s = a @ CHR ''.'' # b @ CHR ''.'' # c \<and> CHR ''.'' \<notin> set a \<and> CHR ''.'' \<notin> set b \<and> CHR ''.'' \<notin> set c"
proof
  assume "splitDots s = [a, b, c]"
  then obtain t where t: "s = a @ CHR ''.'' # t" "splitDots t = [b, c]" "CHR ''.'' \<notin> set a" using splitDots_Cons by blast
  then obtain u where u: "t = b @ CHR ''.'' # u" "splitDots u = [c]" "CHR ''.'' \<notin> set b" using splitDots_Cons by blast
  then have "u = c" "CHR ''.'' \<notin> set c" using splitDots_Cons [OF u(2)] by auto
  then show "s = a @ CHR ''.'' # b @ CHR ''.'' # c \<and> CHR ''.'' \<notin> set a \<and> CHR ''.'' \<notin> set b \<and> CHR ''.'' \<notin> set c"
    using t u by simp
qed (simp add: splitDots_part splitDots_dot)

lemma decimal_dotless: "CHR ''.'' \<notin> set (decimal n)"
  using decimal_digits [of n] by (auto simp: isDigit_def)

section \<open>Which cases speak about a capability\<close>

lemma foldl_update:
  "foldl (\<lambda>result x. result(key x \<mapsto> f (key x))) m xs = (\<lambda>k. if k \<in> key ` set xs then Some (f k) else m k)"
  by (induction xs arbitrary: m) auto

lemma distinct_remdups_adj: "sorted xs \<Longrightarrow> distinct (remdups_adj xs)" for xs :: "'a::linorder list"
  by (induction xs rule: remdups_adj.induct) (auto simp: order.antisym)

lemma remdups_adj_sort: "remdups_adj (sort xs) = sorted_list_of_set (set xs)"
proof -
  have "sorted_list_of_set (set (remdups_adj (sort xs))) = remdups_adj (sort xs)"
    by (rule sorted_list_of_set.idem_if_sorted_distinct) (simp_all add: distinct_remdups_adj)
  then show ?thesis by simp
qed

section \<open>Properties\<close>

text \<open>
  C0: The suite version check accepts exactly the texts \<open>a.b.c\<close> that are the plain decimal spelling of three numbers
  below a billion.
\<close>

theorem validSuiteVersion_exact:
  "validSuiteVersion s \<longleftrightarrow>
     (\<exists>a b c. a < 10 ^ 9 \<and> b < 10 ^ 9 \<and> c < 10 ^ 9 \<and> s = decimal a @ ''.'' @ decimal b @ ''.'' @ decimal c)"
proof
  assume v: "validSuiteVersion s"
  then obtain x y z where xyz: "splitDots s = [x, y, z]" by (auto simp: validSuiteVersion_def Let_def length_Suc_conv numeral_3_eq_3)
  then have "validVersionPart x" "validVersionPart y" "validVersionPart z" using v by (auto simp: validSuiteVersion_def)
  then show "\<exists>a b c. a < 10 ^ 9 \<and> b < 10 ^ 9 \<and> c < 10 ^ 9 \<and> s = decimal a @ ''.'' @ decimal b @ ''.'' @ decimal c"
    using xyz by (fastforce simp: validVersionPart_decimal splitDots_three)
next
  assume "\<exists>a b c. a < 10 ^ 9 \<and> b < 10 ^ 9 \<and> c < 10 ^ 9 \<and> s = decimal a @ ''.'' @ decimal b @ ''.'' @ decimal c"
  then obtain a b c where abc: "a < 10 ^ 9" "b < 10 ^ 9" "c < 10 ^ 9" "s = decimal a @ CHR ''.'' # decimal b @ CHR ''.'' # decimal c"
    by auto
  then have "splitDots s = [decimal a, decimal b, decimal c]" by (simp add: splitDots_three decimal_dotless)
  then show "validSuiteVersion s" using abc by (auto simp: validSuiteVersion_def validVersionPart_decimal)
qed

text \<open>
  The capability map of a report has an entry for exactly the advertised capabilities, and the entry is the
  duplicate-free sorted list of the identifiers of all cases that speak about the capability.
\<close>

theorem CapabilityCaseMap_exact:
  "CapabilityCaseMap m manifest name =
     (if Manifest_Supports manifest name
      then Some (sorted_list_of_set (cs_ID ` {c. c \<in> set (mx_Cases m) \<and> covers manifest name c})) else None)"
proof -
  have "CapabilityCaseMap m manifest =
      foldl (\<lambda>result capability. result(cap_Name capability \<mapsto>
          sorted_list_of_set (cs_ID ` {c. c \<in> set (mx_Cases m) \<and> covers manifest (cap_Name capability) c}))) (\<lambda>_. None) (m_Capabilities manifest)"
    by (simp add: CapabilityCaseMap_def remdups_adj_sort)
  also have "\<dots> = (\<lambda>k. if k \<in> cap_Name ` set (m_Capabilities manifest)
      then Some (sorted_list_of_set (cs_ID ` {c. c \<in> set (mx_Cases m) \<and> covers manifest k c})) else None)"
    by (rule foldl_update)
  finally show ?thesis by (auto simp: Manifest_Supports_def list_ex_iff)
qed

lemma junitAdd_counts:
  "let suite' = fold (junitAdd f) results suite in
     js_Tests suite' = js_Tests suite \<and>
     js_Failures suite' = js_Failures suite + length (filter (\<lambda>r. res_Status r = StatusFailed) results) \<and>
     js_Skipped suite' = js_Skipped suite + length (filter (\<lambda>r. res_Status r = StatusSkipped) results) \<and>
     js_Cases suite' = js_Cases suite @ map (junitEntry f) results"
  by (induction results arbitrary: suite) (simp_all add: junitAdd_def Let_def)

text \<open>
  The JUnit document counts what the report says: one test per result, its failures and its skips, and the test cases
  are the results in the order of their identifiers.
\<close>

theorem junit_counts:
  fixes report formatFloat formatTime
  defines "suite \<equiv> WriteJUnit formatFloat formatTime report"
  shows "js_Tests suite = length (rp_Results report) \<and> length (js_Cases suite) = js_Tests suite \<and>
    js_Failures suite = length (filter (\<lambda>r. res_Status r = StatusFailed) (rp_Results report)) \<and>
    js_Skipped suite = length (filter (\<lambda>r. res_Status r = StatusSkipped) (rp_Results report)) \<and>
    js_Cases suite = map (junitEntry formatFloat) (sort_key res_ID (rp_Results report))"
proof -
  have count: "length (filter P (sort_key res_ID (rp_Results report))) = length (filter P (rp_Results report))" for P
    by (metis mset_filter mset_sort size_mset)
  show ?thesis unfolding suite_def WriteJUnit_def
    using junitAdd_counts [of formatFloat "sort_key res_ID (rp_Results report)"] count by (simp add: Let_def)
qed

end
