(* ===== verification/Conformance_Runner.thy ===== *)
theory Conformance_Runner
  imports Conformance_Matrix Provider_Documents Mock_Faults
begin

text \<open>
  \<open>conformance/runner.go\<close>: the runs of the conformance cases against an external provider. The provider process with the
  SDK client in front of it is the argument \<open>peer\<close>, a record of the calls that the runner makes on a session, over a
  state of its own; so the results hold for every provider, misbehaving ones included. What a loop receives before its
  context ends is the list of arrivals. Times are in nanoseconds.
\<close>

section \<open>What the runner calls\<close>

datatype arrival = Arrived Notification | ChannelClosed

record 's peer =
  pe_start :: "string list \<Rightarrow> string list \<Rightarrow> string \<Rightarrow> Faults option \<Rightarrow> 's \<Rightarrow> verr \<times> 's"
  pe_initialize :: "ProviderInitializeRequest \<Rightarrow> 's \<Rightarrow> (go_error + ProviderInitializeResult) \<times> 's"
  pe_health :: "'s \<Rightarrow> verr \<times> 's"
  pe_capabilities :: "'s \<Rightarrow> (go_error + ProviderCapabilitiesResult) \<times> 's"
  pe_cancelled :: "'s \<Rightarrow> (go_error + ProviderCapabilitiesResult) \<times> 's"
  pe_mutate :: "Command \<Rightarrow> 's \<Rightarrow> (go_error + string) \<times> 's"
  pe_subscribeTerminal :: "TerminalSubscribeRequest \<Rightarrow> 's \<Rightarrow> verr \<times> 's"
  pe_subscribeEvents :: "EventsSubscribeRequest \<Rightarrow> 's \<Rightarrow> verr \<times> 's"
  pe_credit :: "TerminalCredit \<Rightarrow> 's \<Rightarrow> verr \<times> 's"
  pe_arrivals :: "'s \<Rightarrow> arrival list"
  pe_probe :: "'s \<Rightarrow> arrival list \<times> verr"
  pe_stderr :: "'s \<Rightarrow> string list"
  pe_crash :: "'s \<Rightarrow> 's"
  pe_close :: "'s \<Rightarrow> 's"
  pe_now :: "'s \<Rightarrow> gotime"
  pe_millis :: "'s \<Rightarrow> int"

record runnerLib =
  li_sha256 :: "string \<Rightarrow> string"
  li_event :: "ProviderEvent \<Rightarrow> string"
  li_platform :: Platform

record RunnerConfig =
  rc_ProviderCommand :: "string list"
  rc_Environment :: "string list"
  rc_Directory :: string
  rc_Matrix :: Matrix
  rc_CaseTimeout :: int
  rc_FaultPlan :: "(Case \<Rightarrow> go_error + Faults option) option"

section \<open>Diagnostics\<close>

abbreviation stderrLimit :: nat where "stderrLimit \<equiv> 65536"
abbreviation redactionMarker :: string where "redactionMarker \<equiv> ''mc-conformance-secret-marker''"

record boundedBuffer =
  bb_maximum :: nat
  bb_data :: string
  bb_overflow :: bool

definition boundedBuffer_Write :: "string \<Rightarrow> boundedBuffer \<Rightarrow> boundedBuffer" where
  "boundedBuffer_Write bytes b =
     (let remaining = int (bb_maximum b) - int (length (bb_data b)) in
      b\<lparr>bb_data := (if remaining > 0 then bb_data b @ take (nat (min remaining (int (length bytes)))) bytes else bb_data b),
        bb_overflow := (if int (length bytes) > remaining then True else bb_overflow b)\<rparr>)"

definition diagnostics :: "string list \<Rightarrow> boundedBuffer" where
  "diagnostics writes = fold boundedBuffer_Write writes \<lparr>bb_maximum = stderrLimit, bb_data = [], bb_overflow = False\<rparr>"

section \<open>Outcomes\<close>

record caseOutcome =
  oc_status :: string
  oc_code :: string
  oc_summary :: string
  oc_capability :: string
  oc_initialized :: "ProviderInitializeResult option"

definition caseErrorCode :: "go_error \<Rightarrow> string" where
  "caseErrorCode err =
     (case errors_As err of
        Some structured \<Rightarrow>
          if ErrorCode_Validate (err_Code structured) = nil then err_Code structured
          else if errors_Is err context_DeadlineExceeded then CodeDeadlineExceeded
          else if errors_Is err context_Canceled then CodeCancelled
          else CodeUnavailable
      | None \<Rightarrow>
          if errors_Is err context_DeadlineExceeded then CodeDeadlineExceeded
          else if errors_Is err context_Canceled then CodeCancelled
          else CodeUnavailable)"

definition errorSummary :: "string \<Rightarrow> string" where
  "errorSummary code =
     (if code = CodeInvalidArgument then ''invalid_protocol_result''
      else if code = CodeMessageTooLarge then ''message_too_large''
      else if code = CodeNotSupported then ''capability_not_supported''
      else if code = CodeSequenceConflict then ''sequence_conflict''
      else if code = CodeDeadlineExceeded then ''case_deadline_exceeded''
      else if code = CodeCancelled then ''case_cancelled''
      else if code = CodeResourceExhausted then ''resource_exhausted''
      else if code = CodeOutcomeUnknown then ''outcome_unknown''
      else ''provider_unavailable'')"

definition passed :: "ProviderInitializeResult option \<Rightarrow> caseOutcome" where
  "passed initialized =
     \<lparr>oc_status = StatusPassed, oc_code = [], oc_summary = [], oc_capability = [], oc_initialized = initialized\<rparr>"

definition skipped :: "ProviderInitializeResult option \<Rightarrow> string \<Rightarrow> caseOutcome" where
  "skipped initialized summary =
     \<lparr>oc_status = StatusSkipped, oc_code = [], oc_summary = summary, oc_capability = [], oc_initialized = initialized\<rparr>"

definition failed :: "ProviderInitializeResult option \<Rightarrow> go_error \<Rightarrow> caseOutcome" where
  "failed initialized err =
     (let code = caseErrorCode err in
      \<lparr>oc_status = StatusFailed, oc_code = code, oc_summary = errorSummary code, oc_capability = [], oc_initialized = initialized\<rparr>)"

definition invalidProtocol :: "ProviderInitializeResult option \<Rightarrow> caseOutcome" where
  "invalidProtocol initialized =
     \<lparr>oc_status = StatusFailed, oc_code = CodeInvalidArgument, oc_summary = ''invalid_protocol_result'', oc_capability = [],
      oc_initialized = initialized\<rparr>"

definition sameProviderContract :: "ProviderInitializeResult \<Rightarrow> ProviderInitializeResult \<Rightarrow> bool" where
  "sameProviderContract left right \<longleftrightarrow>
     rs_ProtocolVersion left = rs_ProtocolVersion right \<and> rs_NativeRuntimeVersion left = rs_NativeRuntimeVersion right \<and>
     rs_ReplaySupported left = rs_ReplaySupported right \<and> rs_AuthenticationMode left = rs_AuthenticationMode right \<and>
     rs_Manifest left = rs_Manifest right"

section \<open>Sessions\<close>

abbreviation negotiatedMaximum :: uint64 where "negotiatedMaximum \<equiv> 65536"

definition initializeRequest :: "Platform \<Rightarrow> uint64 \<Rightarrow> string list option \<Rightarrow> string list \<Rightarrow> ProviderInitializeRequest" where
  "initializeRequest platform maximum required features =
     (let m = (if maximum = 0 then negotiatedMaximum else maximum) in
      \<lparr>rq_SupportedProtocolVersions = [ProtocolVersion], rq_GatewayVersion = ''0.1.0'', rq_Platform = platform,
       rq_RequiredCapabilities = (case required of None \<Rightarrow> [''provider.initialize'', ''provider.capabilities''] | Some names \<Rightarrow> names),
       rq_MaximumMessageBytes = m, rq_MaximumChunkBytes = min m (of_nat MaxTerminalChunkBytes), rq_ReplaySupported = True,
       rq_AuthenticationModes = [''none''], rq_ExperimentalFeatures = features\<rparr>)"

definition startSession :: "'s peer \<Rightarrow> RunnerConfig \<Rightarrow> Case \<Rightarrow> string list \<Rightarrow> 's \<Rightarrow> verr \<times> 's" where
  "startSession peer config testCase extraEnvironment s =
     (case (case rc_FaultPlan config of None \<Rightarrow> Inr None | Some plan \<Rightarrow> plan testCase) of
        Inl _ \<Rightarrow> (errorf ''conformance fault plan is invalid'', s)
      | Inr faults \<Rightarrow>
          pe_start peer (rc_ProviderCommand config) (rc_Environment config @ extraEnvironment) (rc_Directory config) faults s)"

definition startInitialized ::
  "runnerLib \<Rightarrow> 's peer \<Rightarrow> RunnerConfig \<Rightarrow> Case \<Rightarrow> uint64 \<Rightarrow> string list \<Rightarrow> 's \<Rightarrow> (go_error + ProviderInitializeResult) \<times> 's" where
  "startInitialized lib peer config testCase maximum extraEnvironment s =
     (case startSession peer config testCase extraEnvironment s of
        (Some e, s1) \<Rightarrow> (Inl e, s1)
      | (None, s1) \<Rightarrow>
          (case pe_initialize peer (initializeRequest (li_platform lib) maximum None []) s1 of
             (Inl e, s2) \<Rightarrow> (Inl e, pe_close peer s2)
           | (Inr r, s2) \<Rightarrow> (Inr r, s2)))"

definition ofKind :: "string \<Rightarrow> Case" where
  "ofKind kind =
     \<lparr>cs_ID = [], cs_Description = [], cs_Kind = kind, cs_Required = False, cs_Capability = [], cs_DeliveryClass = [],
      cs_WhenAdvertised = False, cs_RequiresReplay = False, cs_ExpectedCode = []\<rparr>"

section \<open>Commands\<close>

record commandTarget =
  ct_capability :: string
  ct_delivery :: string
  ct_sessionID :: string
  ct_payload :: string

definition targetCommand :: "commandTarget \<Rightarrow> string \<Rightarrow> gotime \<Rightarrow> Command" where
  "targetCommand t name deadline =
     \<lparr>c_ProtocolVersion = ProtocolVersion, c_CommandID = name, c_SessionID = ct_sessionID t, c_Capability = ct_capability t,
      c_IdempotencyKey = name @ ''-idempotency-key'', c_CancellationToken = name @ ''-cancellation-token'',
      c_Deadline = deadline\<lparr>t_utc := True\<rparr>, c_DeliveryClass = ct_delivery t, c_Payload = ct_payload t\<rparr>"

definition createSessionPayload :: "(string \<Rightarrow> string) \<Rightarrow> string" where
  "createSessionPayload sha256 =
     jprint (JObj [(''native_environment_id'', JStr ''conformance-environment''), (''configuration'', JObj []),
       (''configuration_digest'', JStr (''sha256:'' @ hexEncode (sha256 ''{}'')))])"

definition sessionPayload :: string where
  "sessionPayload = jprint (JObj [(''native_session_id'', JStr ''conformance-native-session'')])"

definition commandTargetForCapability :: "runnerLib \<Rightarrow> string \<Rightarrow> commandTarget option" where
  "commandTargetForCapability lib capability =
     (case Capability capability of
        None \<Rightarrow> None
      | Some descriptor \<Rightarrow>
          if \<not> cap_Mutating descriptor then None
          else
            (let target = \<lparr>ct_capability = capability, ct_delivery = cap_DeliveryClass descriptor, ct_sessionID = [], ct_payload = []\<rparr> in
             if capability = ''provider.shutdown'' then Some (target\<lparr>ct_payload := ''{}''\<rparr>)
             else if capability = ''runtime.create_session''
             then Some (target\<lparr>ct_sessionID := ''conformance-session'', ct_payload := createSessionPayload (li_sha256 lib)\<rparr>)
             else if capability \<in> {''runtime.stop_session'', ''runtime.terminate_session''}
             then Some (target\<lparr>ct_sessionID := ''conformance-session'', ct_payload := sessionPayload\<rparr>)
             else None))"

definition commandTargetForDeadline :: "runnerLib \<Rightarrow> ProviderManifest \<Rightarrow> commandTarget option" where
  "commandTargetForDeadline lib manifest =
     (case find (Manifest_Supports manifest)
         [''runtime.create_session'', ''runtime.stop_session'', ''runtime.terminate_session'', ''provider.shutdown''] of
        None \<Rightarrow> None
      | Some capability \<Rightarrow> commandTargetForCapability lib capability)"

definition commandTargetForDelivery :: "runnerLib \<Rightarrow> ProviderManifest \<Rightarrow> string \<Rightarrow> commandTarget option" where
  "commandTargetForDelivery lib manifest deliveryClass =
     (case deliveryTargetCapability manifest deliveryClass of
        None \<Rightarrow> None
      | Some capability \<Rightarrow> commandTargetForCapability lib capability)"

section \<open>Cases on a live session\<close>

definition runOptionalCapability :: "'s peer \<Rightarrow> ProviderInitializeResult \<Rightarrow> 's \<Rightarrow> caseOutcome \<times> 's" where
  "runOptionalCapability peer initialized s =
     (case pe_health peer s of
        (err, s1) \<Rightarrow>
          (if Manifest_Capability (rs_Manifest initialized) ''provider.health'' \<noteq> None
           then (case err of Some e \<Rightarrow> failed (Some initialized) e | None \<Rightarrow> passed (Some initialized))
           else case Option.bind err errors_As of
             None \<Rightarrow> failed (Some initialized) (Plain ''optional capability did not return not_supported'')
           | Some structured \<Rightarrow>
               if err_Code structured \<noteq> CodeNotSupported \<or> err_RequiredCapability structured \<noteq> ''provider.health''
               then failed (Some initialized) (Plain ''optional capability did not return not_supported'')
               else passed (Some initialized), s1))"

definition runCapabilityMapping :: "'s peer \<Rightarrow> ProviderInitializeResult \<Rightarrow> 's \<Rightarrow> caseOutcome \<times> 's" where
  "runCapabilityMapping peer initialized s =
     (case pe_capabilities peer s of
        (Inl e, s1) \<Rightarrow> (failed (Some initialized) e, s1)
      | (Inr capabilities, s1) \<Rightarrow>
          (if cr_ProviderID capabilities \<noteq> m_ID (rs_Manifest initialized) \<or>
              cr_Roles capabilities \<noteq> m_Roles (rs_Manifest initialized) \<or>
              cr_Capabilities capabilities \<noteq> m_Capabilities (rs_Manifest initialized)
           then failed (Some initialized) (Plain ''capability result does not match manifest'')
           else passed (Some initialized), s1))"

definition runCancellation :: "'s peer \<Rightarrow> ProviderInitializeResult \<Rightarrow> 's \<Rightarrow> caseOutcome \<times> 's" where
  "runCancellation peer initialized s =
     (case pe_cancelled peer s of
        (answer, s1) \<Rightarrow>
          (if \<not> IsCode (case answer of Inl e \<Rightarrow> Some e | Inr _ \<Rightarrow> nil) CodeCancelled
           then failed (Some initialized) (Plain ''cancellation was not structured'') else passed (Some initialized), s1))"

abbreviation after :: "gotime \<Rightarrow> int \<Rightarrow> gotime" where
  "after t nanoseconds \<equiv> t\<lparr>t_instant := t_instant t + nanoseconds, t_utc := True\<rparr>"

definition runDeadline :: "runnerLib \<Rightarrow> 's peer \<Rightarrow> ProviderInitializeResult \<Rightarrow> 's \<Rightarrow> caseOutcome \<times> 's" where
  "runDeadline lib peer initialized s =
     (case commandTargetForDeadline lib (rs_Manifest initialized) of
        None \<Rightarrow> (skipped (Some initialized) ''no_supported_deadline_target'', s)
      | Some target \<Rightarrow>
          (case pe_mutate peer (targetCommand target ''conformance-deadline-command'' (after (pe_now peer s) (- 1000000000))) s of
             (answer, s1) \<Rightarrow>
               ((if \<not> IsCode (case answer of Inl e \<Rightarrow> Some e | Inr _ \<Rightarrow> nil) CodeDeadlineExceeded
                 then failed (Some initialized) (Plain ''expired command was not rejected'')
                 else passed (Some initialized))\<lparr>oc_capability := ct_capability target\<rparr>, s1)))"

definition runDeliveryClass :: "runnerLib \<Rightarrow> 's peer \<Rightarrow> ProviderInitializeResult \<Rightarrow> string \<Rightarrow> 's \<Rightarrow> caseOutcome \<times> 's" where
  "runDeliveryClass lib peer initialized deliveryClass s =
     (case commandTargetForDelivery lib (rs_Manifest initialized) deliveryClass of
        None \<Rightarrow> (skipped (Some initialized) ''no_safe_delivery_target'', s)
      | Some target \<Rightarrow>
          (let command = targetCommand target (''conformance-delivery-command-'' @ deliveryClass) (after (pe_now peer s) 60000000000);
               report = (\<lambda>outcome. outcome\<lparr>oc_capability := ct_capability target\<rparr>) in
           case pe_mutate peer command s of
             (Inl e, s1) \<Rightarrow> (report (failed (Some initialized) e), s1)
           | (Inr first, s1) \<Rightarrow>
               (case pe_mutate peer command s1 of
                  (Inl e, s2) \<Rightarrow> (report (failed (Some initialized) e), s2)
                | (Inr second, s2) \<Rightarrow>
                    (if first \<noteq> second
                     then report (failed (Some initialized) (Plain ''exact retry produced a different result''))
                     else report (passed (Some initialized)), s2))))"

text \<open>\<open>terminalSize\<close> checks UTF-8, unlike \<open>terminalDataSize\<close> of package \<open>provider\<close>; it is \<open>terminalDataLength\<close>.\<close>

definition terminalSize :: "string \<Rightarrow> string \<Rightarrow> uint64 option" where
  "terminalSize encoding data =
     (if encoding = TerminalEncodingUTF8 then (if \<not> validString data then None else Some (byteCount data))
      else if encoding = TerminalEncodingBase64 then map_option byteCount (b64StdStrictDecode data)
      else None)"

fun backpressureLoop ::
  "'s peer \<Rightarrow> ProviderInitializeResult \<Rightarrow> TerminalSubscribeRequest \<Rightarrow> arrival list \<Rightarrow> 's \<Rightarrow> caseOutcome \<times> 's" where
  "backpressureLoop peer initialized request [] s = (skipped (Some initialized) ''terminal_output_not_observed'', s)"
| "backpressureLoop peer initialized request (ChannelClosed # _) s =
     (failed (Some initialized) (Plain ''terminal subscription disconnected''), s)"
| "backpressureLoop peer initialized request (Arrived n # rest) s =
     (case nt_TerminalChunk n of
        None \<Rightarrow> backpressureLoop peer initialized request rest s
      | Some chunk \<Rightarrow>
          (case terminalSize (tc_Encoding chunk) (tc_Data chunk) of
             None \<Rightarrow> (failed (Some initialized) (Plain ''terminal output violated credit window''), s)
           | Some n \<Rightarrow>
               if n > tsr_WindowBytes request \<or> tc_CreditRemaining chunk \<noteq> tsr_WindowBytes request - n
               then (failed (Some initialized) (Plain ''terminal output violated credit window''), s)
               else
                 (case pe_credit peer
                     \<lparr>cd_NativeSessionID = tc_NativeSessionID chunk, cd_StreamID = tc_StreamID chunk, cd_Bytes = n,
                      cd_ThroughOffset = tc_Offset chunk + n\<rparr> s of
                    (Some e, s1) \<Rightarrow> (failed (Some initialized) e, s1)
                  | (None, s1) \<Rightarrow> (passed (Some initialized), s1))))"

definition runBackpressure :: "'s peer \<Rightarrow> ProviderInitializeResult \<Rightarrow> 's \<Rightarrow> caseOutcome \<times> 's" where
  "runBackpressure peer initialized s =
     (let request = \<lparr>tsr_NativeSessionID = ''conformance-native-session'', tsr_StreamID = ''stdout'', tsr_AfterOffset = 0,
                     tsr_WindowBytes = 4\<rparr> in
      case pe_subscribeTerminal peer request s of
        (Some e, s1) \<Rightarrow> (failed (Some initialized) e, s1)
      | (None, s1) \<Rightarrow> backpressureLoop peer initialized request (pe_arrivals peer s1) s1)"

definition providerEventDigest :: "runnerLib \<Rightarrow> ProviderEvent \<Rightarrow> string" where
  "providerEventDigest lib event = ''sha256:'' @ hexEncode (li_sha256 lib (li_event lib event))"

definition patternObserved :: "string \<Rightarrow> SequenceOutcome \<Rightarrow> uint64 \<Rightarrow> uint64 \<Rightarrow> bool" where
  "patternObserved kind result highest sequence \<longleftrightarrow>
     (if kind = CaseEventDuplicate then result = SequenceDuplicate
      else if kind = CaseReplayGap then result = SequenceGap
      else if kind = CaseEventOutOfOrder then highest \<noteq> 0 \<and> sequence < highest
      else False)"

fun eventLoop ::
  "runnerLib \<Rightarrow> ProviderInitializeResult \<Rightarrow> string \<Rightarrow> arrival list \<Rightarrow> SequenceTracker \<Rightarrow> uint64 \<Rightarrow> caseOutcome" where
  "eventLoop lib initialized kind [] tracker highest = skipped (Some initialized) ''event_pattern_not_observed''"
| "eventLoop lib initialized kind (ChannelClosed # _) tracker highest =
     failed (Some initialized) (Plain ''event subscription disconnected'')"
| "eventLoop lib initialized kind (Arrived n # rest) tracker highest =
     (case nt_Event n of
        None \<Rightarrow> eventLoop lib initialized kind rest tracker highest
      | Some event \<Rightarrow>
          (case Observe tracker (eventCursor (providerEventDigest lib) event) of
             (Inl e, _) \<Rightarrow> failed (Some initialized) e
           | (Inr result, tracker') \<Rightarrow>
               if patternObserved kind result highest (ev_Sequence event) then passed (Some initialized)
               else eventLoop lib initialized kind rest tracker'
                 (if ev_Sequence event > highest then ev_Sequence event else highest)))"

definition runEventSequence :: "runnerLib \<Rightarrow> 's peer \<Rightarrow> ProviderInitializeResult \<Rightarrow> Case \<Rightarrow> 's \<Rightarrow> caseOutcome \<times> 's" where
  "runEventSequence lib peer initialized testCase s =
     (if cs_RequiresReplay testCase \<and> \<not> rs_ReplaySupported initialized
      then (skipped (Some initialized) ''replay_not_supported'', s)
      else case pe_subscribeEvents peer \<lparr>esq_Cursors = [], esq_EventTypes = [], esq_WindowSize = 16\<rparr> s of
        (Some e, s1) \<Rightarrow> (failed (Some initialized) e, s1)
      | (None, s1) \<Rightarrow>
          (eventLoop lib initialized (cs_Kind testCase) (pe_arrivals peer s1) NewSequenceTracker 0, s1))"

section \<open>Cases that start their own sessions\<close>

definition capabilityNames :: "ProviderManifest \<Rightarrow> string list" where
  "capabilityNames manifest = map cap_Name (m_Capabilities manifest)"

definition candidate :: "nat \<Rightarrow> string" where
  "candidate n =
     (if n > 0 then ''example.conformance/unsupported-'' @ decimal n else ''example.conformance/unsupported'')"

text \<open>The loop over the suffixes; \<open>None\<close> is the panic after it.\<close>

definition unsupportedCapability :: "ProviderManifest \<Rightarrow> string option" where
  "unsupportedCapability manifest =
     find (\<lambda>name. \<not> Manifest_Supports manifest name) (map candidate [0..<Suc (length (m_Capabilities manifest))])"

definition notSupportedVerdict :: "ProviderInitializeResult \<Rightarrow> string \<Rightarrow> go_error + ProviderInitializeResult \<Rightarrow> caseOutcome" where
  "notSupportedVerdict initialized unsupported answer =
     (case (case answer of Inl e \<Rightarrow> errors_As e | Inr _ \<Rightarrow> None) of
        None \<Rightarrow> failed (Some initialized) (Plain ''provider did not return structured not_supported'')
      | Some structured \<Rightarrow>
          if err_Code structured \<noteq> CodeNotSupported \<or> err_RequiredCapability structured \<noteq> unsupported
          then failed (Some initialized) (Plain ''provider did not return structured not_supported'')
          else if sort (capabilityNames (rs_Manifest initialized)) \<noteq> sort (err_AdvertisedCapabilities structured)
          then failed (Some initialized) (Plain ''not_supported capability inventory mismatch'')
          else passed (Some initialized))"

definition runNotSupported :: "runnerLib \<Rightarrow> 's peer \<Rightarrow> RunnerConfig \<Rightarrow> 's \<Rightarrow> caseOutcome option \<times> 's" where
  "runNotSupported lib peer config s =
     (case startInitialized lib peer config (ofKind CaseNotSupported) negotiatedMaximum [] s of
        (Inl e, s1) \<Rightarrow> (Some (failed None e), s1)
      | (Inr initialized, s1) \<Rightarrow>
          (case unsupportedCapability (rs_Manifest initialized) of
             None \<Rightarrow> (None, pe_close peer s1)
           | Some unsupported \<Rightarrow>
               (case startSession peer config (ofKind CaseNotSupported) [] (pe_close peer s1) of
                  (Some e, s2) \<Rightarrow> (Some (failed (Some initialized) e), s2)
                | (None, s2) \<Rightarrow>
                    (case pe_initialize peer (initializeRequest (li_platform lib) negotiatedMaximum
                        (Some [''provider.initialize'', ''provider.capabilities'', unsupported]) []) s2 of
                       (answer, s3) \<Rightarrow> (Some (notSupportedVerdict initialized unsupported answer), pe_close peer s3)))))"

definition runReconnect :: "runnerLib \<Rightarrow> 's peer \<Rightarrow> RunnerConfig \<Rightarrow> 's \<Rightarrow> caseOutcome \<times> 's" where
  "runReconnect lib peer config s =
     (case startInitialized lib peer config (ofKind CaseReconnect) negotiatedMaximum [] s of
        (Inl e, s1) \<Rightarrow> (failed None e, s1)
      | (Inr first, s1) \<Rightarrow>
          (case startInitialized lib peer config (ofKind CaseReconnect) negotiatedMaximum [] (pe_close peer s1) of
             (Inl e, s2) \<Rightarrow> (failed None e, s2)
           | (Inr second, s2) \<Rightarrow>
               (if \<not> sameProviderContract first second then invalidProtocol (Some first) else passed (Some first), pe_close peer s2)))"

definition runCrashRecovery :: "runnerLib \<Rightarrow> 's peer \<Rightarrow> RunnerConfig \<Rightarrow> 's \<Rightarrow> caseOutcome \<times> 's" where
  "runCrashRecovery lib peer config s =
     (case startInitialized lib peer config (ofKind CaseCrashRecovery) negotiatedMaximum [] s of
        (Inl e, s1) \<Rightarrow> (failed None e, s1)
      | (Inr initialized, s1) \<Rightarrow>
          (case pe_capabilities peer (pe_crash peer s1) of
             (Inr _, s2) \<Rightarrow> (failed (Some initialized) (Plain ''crashed provider remained available''), pe_close peer s2)
           | (Inl _, s2) \<Rightarrow>
               (case startInitialized lib peer config (ofKind CaseCrashRecovery) negotiatedMaximum [] (pe_close peer s2) of
                  (Inl e, s3) \<Rightarrow> (failed (Some initialized) e, s3)
                | (Inr recovered, s3) \<Rightarrow>
                    (if \<not> sameProviderContract initialized recovered then invalidProtocol (Some initialized)
                     else passed (Some initialized), pe_close peer s3))))"

fun probeLoop :: "ProviderInitializeResult \<Rightarrow> arrival list \<Rightarrow> verr \<Rightarrow> caseOutcome" where
  "probeLoop initialized [] None = passed (Some initialized)"
| "probeLoop initialized [] (Some e) = failed (Some initialized) e"
| "probeLoop initialized (ChannelClosed # _) stop =
     failed (Some initialized) (Plain ''oversized response terminated the provider client'')"
| "probeLoop initialized (Arrived _ # rest) stop = probeLoop initialized rest stop"

definition runOversized :: "runnerLib \<Rightarrow> 's peer \<Rightarrow> RunnerConfig \<Rightarrow> Case \<Rightarrow> 's \<Rightarrow> caseOutcome \<times> 's" where
  "runOversized lib peer config testCase s =
     (case startInitialized lib peer config testCase 512 [] s of
        (Inl e, s1) \<Rightarrow> (failed None e, s1)
      | (Inr initialized, s1) \<Rightarrow>
          (case pe_capabilities peer s1 of
             (Inr _, s2) \<Rightarrow> (passed (Some initialized), pe_close peer s2)
           | (Inl e, s2) \<Rightarrow>
               (if IsCode (Some e) CodeMessageTooLarge
                then (case pe_probe peer s2 of (arrivals, stop) \<Rightarrow> probeLoop initialized arrivals stop)
                else failed (Some initialized) e, pe_close peer s2)))"

definition redactionVerdict :: "go_error + ProviderInitializeResult \<Rightarrow> boundedBuffer \<Rightarrow> caseOutcome" where
  "redactionVerdict answer stderr =
     (case answer of
        Inl e \<Rightarrow> failed None e
      | Inr initialized \<Rightarrow>
          if bb_overflow stderr
          then \<lparr>oc_status = StatusFailed, oc_code = CodeResourceExhausted, oc_summary = ''diagnostics_limit_exceeded'',
                oc_capability = [], oc_initialized = Some initialized\<rparr>
          else if contains (bb_data stderr) redactionMarker
          then failed (Some initialized) (Plain ''provider diagnostics exposed secret content'')
          else passed (Some initialized))"

definition runRedaction :: "runnerLib \<Rightarrow> 's peer \<Rightarrow> RunnerConfig \<Rightarrow> Case \<Rightarrow> 's \<Rightarrow> caseOutcome \<times> 's" where
  "runRedaction lib peer config testCase s =
     (case startSession peer config testCase [''MC_CONFORMANCE_SECRET_MARKER='' @ redactionMarker] s of
        (Some e, s1) \<Rightarrow> (failed None e, s1)
      | (None, s1) \<Rightarrow>
          (case pe_initialize peer (initializeRequest (li_platform lib) negotiatedMaximum None [redactionMarker]) s1 of
             (answer, s2) \<Rightarrow>
               (let s3 = pe_close peer s2 in (redactionVerdict answer (diagnostics (pe_stderr peer s3)), s3))))"

section \<open>The run\<close>

text \<open>\<open>runCase\<close>; no result is a panic.\<close>

definition liveCase :: "runnerLib \<Rightarrow> 's peer \<Rightarrow> ProviderInitializeResult \<Rightarrow> Case \<Rightarrow> 's \<Rightarrow> caseOutcome \<times> 's" where
  "liveCase lib peer initialized testCase s =
     (let kind = cs_Kind testCase in
      if kind = CaseInitializeRequired then (passed (Some initialized), s)
      else if kind = CaseOptionalCapabilities then runOptionalCapability peer initialized s
      else if kind = CaseCapabilityMapping then runCapabilityMapping peer initialized s
      else if kind \<in> {CaseEventDuplicate, CaseEventOutOfOrder, CaseReplayGap} then runEventSequence lib peer initialized testCase s
      else if kind = CaseCancellation then runCancellation peer initialized s
      else if kind = CaseDeadline then runDeadline lib peer initialized s
      else if kind = CaseBackpressure then runBackpressure peer initialized s
      else if kind = CaseDeliveryClass then runDeliveryClass lib peer initialized (cs_DeliveryClass testCase) s
      else (failed (Some initialized) (Plain ''unsupported conformance case''), s))"

definition runCase :: "runnerLib \<Rightarrow> 's peer \<Rightarrow> RunnerConfig \<Rightarrow> Case \<Rightarrow> 's \<Rightarrow> caseOutcome option \<times> 's" where
  "runCase lib peer config testCase s =
     (if cs_Kind testCase = CaseNotSupported then runNotSupported lib peer config s
      else if cs_Kind testCase = CaseReconnect then apfst Some (runReconnect lib peer config s)
      else if cs_Kind testCase = CaseCrashRecovery then apfst Some (runCrashRecovery lib peer config s)
      else if cs_Kind testCase = CaseRedaction then apfst Some (runRedaction lib peer config testCase s)
      else if cs_Kind testCase = CaseOversizedFrame then apfst Some (runOversized lib peer config testCase s)
      else case startInitialized lib peer config testCase negotiatedMaximum [] s of
        (Inl e, s1) \<Rightarrow> (Some (failed None e), s1)
      | (Inr initialized, s1) \<Rightarrow>
          (if \<not> appliesTo testCase (rs_Manifest initialized)
           then (Some (skipped (Some initialized) ''capability_not_advertised''), pe_close peer s1)
           else case liveCase lib peer initialized testCase s1 of (outcome, s2) \<Rightarrow> (Some outcome, pe_close peer s2)))"

definition settleOutcome :: "ProviderInitializeResult option \<Rightarrow> Case \<Rightarrow> caseOutcome \<Rightarrow> ProviderInitializeResult option \<times> caseOutcome" where
  "settleOutcome discovered testCase outcome =
     (case oc_initialized outcome of
        None \<Rightarrow> (discovered, outcome)
      | Some initialized \<Rightarrow>
          (let outcome1 =
             (case discovered of
                None \<Rightarrow> outcome
              | Some d \<Rightarrow>
                  if \<not> sameProviderContract d initialized
                  then outcome\<lparr>oc_status := StatusFailed, oc_code := CodeInvalidArgument, oc_summary := ''invalid_protocol_result''\<rparr>
                  else outcome);
             outcome2 =
               (if oc_status outcome1 \<noteq> StatusFailed \<and> \<not> appliesTo testCase (rs_Manifest initialized)
                then outcome1\<lparr>oc_status := StatusSkipped, oc_summary := ''capability_not_advertised'', oc_code := []\<rparr>
                else outcome1)
           in (case discovered of None \<Rightarrow> Some initialized | Some d \<Rightarrow> Some d, outcome2)))"

definition resultOf :: "Case \<Rightarrow> int \<Rightarrow> caseOutcome \<Rightarrow> CaseResult" where
  "resultOf testCase duration outcome =
     \<lparr>res_ID = cs_ID testCase, res_Description = cs_Description testCase,
      res_Capability = (if oc_capability outcome \<noteq> [] then oc_capability outcome else cs_Capability testCase),
      res_Required = cs_Required testCase, res_Status = oc_status outcome, res_DurationMillis = duration,
      res_ErrorCode = oc_code outcome, res_Summary = oc_summary outcome\<rparr>"

fun runCases ::
  "runnerLib \<Rightarrow> 's peer \<Rightarrow> RunnerConfig \<Rightarrow> Case list \<Rightarrow> ProviderInitializeResult option \<Rightarrow> CaseResult list \<Rightarrow> 's
     \<Rightarrow> (ProviderInitializeResult option \<times> CaseResult list) option \<times> 's" where
  "runCases lib peer config [] discovered results s = (Some (discovered, results), s)"
| "runCases lib peer config (testCase # rest) discovered results s =
     (if (case discovered of None \<Rightarrow> False | Some d \<Rightarrow> \<not> appliesTo testCase (rs_Manifest d))
      then runCases lib peer config rest discovered
        (results @ [resultOf testCase 0 (skipped None ''capability_not_advertised'')]) s
      else case runCase lib peer config testCase s of
        (None, s1) \<Rightarrow> (None, s1)
      | (Some outcome, s1) \<Rightarrow>
          (case settleOutcome discovered testCase outcome of
             (discovered1, outcome1) \<Rightarrow>
               runCases lib peer config rest discovered1
                 (results @ [resultOf testCase (pe_millis peer s1 - pe_millis peer s) outcome1]) s1))"

abbreviation ReportSchemaVersion :: string where "ReportSchemaVersion \<equiv> ''mission-control.conformance.report.v1alpha1''"
abbreviation defaultCaseTimeout :: int where "defaultCaseTimeout \<equiv> 15000000000"

definition configCheck :: "RunnerConfig \<Rightarrow> verr" where
  "configCheck config =
     first_err
      [if rc_ProviderCommand config = [] \<or> trimSpace (hd (rc_ProviderCommand config)) = []
         then errorf ''external provider command is required'' else nil,
       each_err (\<lambda>argument. if char_of (0::nat) \<in> set argument then errorf ''external provider command contains NUL'' else nil)
         (rc_ProviderCommand config),
       each_err (\<lambda>v. if char_of (0::nat) \<in> set v \<or> \<not> contains v ''='' then errorf ''external provider environment is invalid'' else nil)
         (rc_Environment config)]"

definition Run :: "runnerLib \<Rightarrow> (go_error + Matrix) \<Rightarrow> 's peer \<Rightarrow> RunnerConfig \<Rightarrow> 's \<Rightarrow> (go_error + Report option) \<times> 's" where
  "Run lib DefaultMatrix peer config s =
     (case configCheck config of
        Some e \<Rightarrow> (Inl e, s)
      | None \<Rightarrow>
          (case (if mx_SchemaVersion (rc_Matrix config) = [] \<and> mx_SuiteVersion (rc_Matrix config) = [] \<and> mx_Cases (rc_Matrix config) = []
                 then DefaultMatrix else Inr (rc_Matrix config)) of
             Inl e \<Rightarrow> (Inl e, s)
           | Inr matrix \<Rightarrow>
               (case Matrix_Validate matrix of
                  Some e \<Rightarrow> (Inl e, s)
                | None \<Rightarrow>
                    (let timeout = (if rc_CaseTimeout config = 0 then defaultCaseTimeout else rc_CaseTimeout config) in
                     if timeout < 10000000 \<or> timeout > 300000000000
                     then (Inl (Plain ''conformance case timeout is invalid''), s)
                     else case runCases lib peer config (mx_Cases matrix) None [] s of
                       (None, s1) \<Rightarrow> (Inr None, s1)
                     | (Some (discovered, results), s1) \<Rightarrow>
                         (Inr (Some \<lparr>rp_SchemaVersion = ReportSchemaVersion, rp_SuiteVersion = mx_SuiteVersion matrix,
                            rp_ProviderID = (case discovered of None \<Rightarrow> [] | Some d \<Rightarrow> m_ID (rs_Manifest d)),
                            rp_ProviderVersion = (case discovered of None \<Rightarrow> [] | Some d \<Rightarrow> m_Version (rs_Manifest d)),
                            rp_ProtocolVersion = (case discovered of None \<Rightarrow> [] | Some d \<Rightarrow> rs_ProtocolVersion d),
                            rp_StartedAt = pe_now peer s, rp_FinishedAt = pe_now peer s1, rp_Results = results,
                            rp_CapabilityCases = (case discovered of None \<Rightarrow> (\<lambda>_. None)
                              | Some d \<Rightarrow> CapabilityCaseMap matrix (rs_Manifest d))\<rparr>), s1)))))"

section \<open>Every run gives an outcome\<close>

definition goodOutcome :: "caseOutcome \<Rightarrow> bool" where
  "goodOutcome oc \<longleftrightarrow> oc_status oc \<in> {StatusPassed, StatusFailed, StatusSkipped} \<and> (oc_status oc = StatusPassed \<longrightarrow> oc_initialized oc \<noteq> None)"

lemma good_simps [simp]: "goodOutcome (passed (Some i))" "goodOutcome (failed j e)" "goodOutcome (skipped j r)" "goodOutcome (invalidProtocol j)"
  by (simp_all add: goodOutcome_def passed_def failed_def skipped_def invalidProtocol_def Let_def)

lemma good_capability [simp]: "goodOutcome (oc\<lparr>oc_capability := name\<rparr>) = goodOutcome oc"
  by (simp add: goodOutcome_def)

lemma candidate_inj: "inj candidate"
  by (rule injI) (auto simp: candidate_def split: if_splits)

lemma image_covered: "\<forall>k \<in> A. \<exists>c \<in> S. f c = g k \<Longrightarrow> g ` A \<subseteq> f ` S"
  by (force simp: image_iff)

text \<open>A finite set of capabilities cannot contain one candidate more than its size.\<close>

lemma unsupportedCapability_Some: "\<exists>name. unsupportedCapability m = Some name \<and> \<not> Manifest_Supports m name"
proof (cases "unsupportedCapability m")
  case None
  let ?n = "length (m_Capabilities m)"
  have "\<forall>name \<in> set (map candidate [0..<Suc ?n]). Manifest_Supports m name"
    using None by (simp add: unsupportedCapability_def find_None_iff del: upt_Suc)
  then have "\<forall>k \<in> {0..<Suc ?n}. Manifest_Supports m (candidate k)" by (simp only: set_map set_upt ball_simps)
  then have "candidate ` {0..<Suc ?n} \<subseteq> cap_Name ` set (m_Capabilities m)"
    unfolding Manifest_Supports_def list_ex_iff by (rule image_covered)
  then have "card (candidate ` {0..<Suc ?n}) \<le> card (cap_Name ` set (m_Capabilities m))" by (intro card_mono) simp_all
  also have "\<dots> \<le> card (set (m_Capabilities m))" by (rule card_image_le) simp
  also have "\<dots> \<le> ?n" by (rule card_length)
  finally show ?thesis using card_image [OF inj_on_subset [OF candidate_inj], of "{0..<Suc ?n}"] by simp
next
  case (Some name)
  then show ?thesis by (auto simp: unsupportedCapability_def find_Some_iff)
qed

lemma eventLoop_good: "goodOutcome (eventLoop lib i kind as t h)"
proof (induction as arbitrary: t h)
  case (Cons a as)
  show ?case
  proof (cases a)
    case (Arrived n)
    then show ?thesis by (simp add: Cons.IH Let_def split: option.split prod.split sum.split)
  qed simp
qed simp

lemma backpressureLoop_good: "goodOutcome (fst (backpressureLoop peer i request as s))"
  by (induction peer i request as s rule: backpressureLoop.induct) (auto split: option.splits prod.splits)

lemma probeLoop_good: "goodOutcome (probeLoop i as stop)"
  by (induction i as stop rule: probeLoop.induct) auto

lemma liveCase_good: "goodOutcome (fst (liveCase lib peer i c s))"
proof -
  have "goodOutcome (fst (runOptionalCapability peer i s))"
    by (simp add: runOptionalCapability_def split: prod.split option.split)
  moreover have "goodOutcome (fst (runCapabilityMapping peer i s))"
    by (simp add: runCapabilityMapping_def split: prod.split sum.split)
  moreover have "goodOutcome (fst (runCancellation peer i s))" by (simp add: runCancellation_def split: prod.split)
  moreover have "goodOutcome (fst (runDeadline lib peer i s))" by (simp add: runDeadline_def split: prod.split option.split)
  moreover have "goodOutcome (fst (runDeliveryClass lib peer i d s))" for d
    by (simp add: runDeliveryClass_def Let_def split: prod.split option.split sum.split)
  moreover have "goodOutcome (fst (runBackpressure peer i s))"
    by (simp add: runBackpressure_def Let_def backpressureLoop_good split: prod.split option.split)
  moreover have "goodOutcome (fst (runEventSequence lib peer i c s))"
    by (simp add: runEventSequence_def eventLoop_good split: prod.split option.split)
  ultimately show ?thesis by (simp add: liveCase_def Let_def)
qed

lemma runNotSupported_good: "\<exists>oc. fst (runNotSupported lib peer config s) = Some oc \<and> goodOutcome oc"
proof -
  have "goodOutcome (notSupportedVerdict i u a)" for i u a by (simp add: notSupportedVerdict_def split: option.split)
  moreover obtain f where "unsupportedCapability m = Some (f m)" for m using unsupportedCapability_Some by metis
  ultimately show ?thesis by (simp add: runNotSupported_def split: prod.split sum.split option.split)
qed

lemma runCase_good: "\<exists>oc. fst (runCase lib peer config c s) = Some oc \<and> goodOutcome oc"
proof -
  have "goodOutcome (fst (runReconnect lib peer config s))"
    by (simp add: runReconnect_def split: prod.split sum.split)
  moreover have "goodOutcome (fst (runCrashRecovery lib peer config s))"
    by (simp add: runCrashRecovery_def split: prod.split sum.split)
  moreover have "goodOutcome (redactionVerdict a b)" for a b
    by (simp add: redactionVerdict_def split: sum.split) (simp add: goodOutcome_def)
  then have "goodOutcome (fst (runRedaction lib peer config c s))"
    by (simp add: runRedaction_def Let_def split: prod.split option.split)
  moreover have "goodOutcome (fst (runOversized lib peer config c s))"
    by (simp add: runOversized_def probeLoop_good split: prod.split sum.split)
  moreover have "goodOutcome oc" if "liveCase lib peer i c s1 = (oc, s2)" for i s1 s2 oc
    using liveCase_good [of lib peer i c s1] that by simp
  ultimately show ?thesis using runNotSupported_good [of lib peer config s]
    by (auto simp: runCase_def split: prod.split sum.split)
qed

section \<open>The report\<close>

text \<open>What the report says of a case, once the provider is known.\<close>

definition reported :: "ProviderInitializeResult option \<Rightarrow> Case \<Rightarrow> CaseResult \<Rightarrow> bool" where
  "reported discovered c r \<longleftrightarrow>
     res_ID r = cs_ID c \<and> res_Required r = cs_Required c \<and> res_Status r \<in> {StatusPassed, StatusFailed, StatusSkipped} \<and>
     (res_Status r = StatusPassed \<longrightarrow> (\<exists>d. discovered = Some d \<and> appliesTo c (rs_Manifest d)))"

lemma settleOutcome_reported:
  assumes "settleOutcome discovered c oc = (discovered', oc')" "goodOutcome oc"
  shows "reported discovered' c (resultOf c n oc')" "discovered \<noteq> None \<Longrightarrow> discovered' = discovered"
proof -
  show "discovered \<noteq> None \<Longrightarrow> discovered' = discovered"
    using assms(1) by (auto simp: settleOutcome_def Let_def split: option.splits)
  show "reported discovered' c (resultOf c n oc')"
  proof (cases "oc_initialized oc")
    case None
    then show ?thesis using assms by (auto simp: settleOutcome_def reported_def resultOf_def goodOutcome_def)
  next
    case (Some i)
    then show ?thesis using assms
      by (cases oc) (auto simp: settleOutcome_def reported_def resultOf_def goodOutcome_def sameProviderContract_def Let_def
          split: option.splits if_splits)
  qed
qed

lemma runCases_reported:
  "\<exists>discovered' results' s'. runCases lib peer config cases discovered results s = (Some (discovered', results @ results'), s') \<and>
     list_all2 (reported discovered') cases results' \<and> (discovered \<noteq> None \<longrightarrow> discovered' = discovered)"
proof (induction cases arbitrary: discovered results s)
  case (Cons c cs)
  show ?case
  proof (cases "case discovered of None \<Rightarrow> False | Some d \<Rightarrow> \<not> appliesTo c (rs_Manifest d)")
    case True
    let ?r = "resultOf c 0 (skipped None ''capability_not_advertised'')"
    have "reported d c ?r" for d by (simp add: reported_def resultOf_def skipped_def)
    then show ?thesis using True Cons.IH [of discovered "results @ [?r]" s] by auto
  next
    case False
    obtain oc s1 where oc: "runCase lib peer config c s = (Some oc, s1)" "goodOutcome oc"
      using runCase_good [of lib peer config c s] by (metis prod.collapse)
    obtain d1 oc1 where st: "settleOutcome discovered c oc = (d1, oc1)" by (metis surj_pair)
    let ?r = "resultOf c (pe_millis peer s1 - pe_millis peer s) oc1"
    note rep = settleOutcome_reported [OF st oc(2)]
    obtain d' rs' s' where ih: "runCases lib peer config cs d1 (results @ [?r]) s1 = (Some (d', (results @ [?r]) @ rs'), s')"
      "list_all2 (reported d') cs rs'" "d1 \<noteq> None \<longrightarrow> d' = d1" using Cons.IH [of d1 "results @ [?r]" s1] by blast
    have "reported d' c ?r" using rep(1) ih(3) by (cases d1) (auto simp: reported_def)
    moreover have "discovered \<noteq> None \<longrightarrow> d' = discovered" using rep(2) ih(3) by auto
    moreover have "runCases lib peer config (c # cs) discovered results s = (Some (d', results @ ?r # rs'), s')"
      using False oc(1) st ih(1) by simp
    ultimately show ?thesis using ih(2) by (intro exI [of _ d'] exI [of _ "?r # rs'"] exI [of _ s']) simp
  qed
qed simp

section \<open>Diagnostics are complete or flagged\<close>

lemma boundedBuffer_Write_take:
  assumes "bb_data b = take (bb_maximum b) w" "bb_overflow b \<longleftrightarrow> length w > bb_maximum b"
  shows "bb_data (boundedBuffer_Write v b) = take (bb_maximum b) (w @ v)"
    "bb_overflow (boundedBuffer_Write v b) \<longleftrightarrow> length (w @ v) > bb_maximum b"
    "bb_maximum (boundedBuffer_Write v b) = bb_maximum b"
proof -
  define m n where "m = bb_maximum b" and "n = length w"
  have len: "length (bb_data b) = min n m" by (simp add: assms(1) m_def n_def min.commute)
  have rest: "take (nat (min (int m - int n) (int (length v)))) v = take (m - n) v" if "n < m"
  proof (cases "m - n \<le> length v")
    case True
    then have "nat (min (int m - int n) (int (length v))) = m - n" using that by linarith
    then show ?thesis by (simp only:)
  next
    case False
    then have "nat (min (int m - int n) (int (length v))) = length v" using that by linarith
    then show ?thesis using False by simp
  qed
  show "bb_data (boundedBuffer_Write v b) = take (bb_maximum b) (w @ v)"
    using rest len assms(1) by (auto simp: boundedBuffer_Write_def Let_def m_def n_def min_def)
  show "bb_overflow (boundedBuffer_Write v b) \<longleftrightarrow> length (w @ v) > bb_maximum b"
    using len assms(2) by (auto simp: boundedBuffer_Write_def Let_def m_def n_def min_def)
qed (simp add: boundedBuffer_Write_def Let_def)

lemma boundedBuffer_writes:
  "bb_data b = take (bb_maximum b) w \<Longrightarrow> bb_overflow b \<longleftrightarrow> length w > bb_maximum b \<Longrightarrow>
     bb_data (fold boundedBuffer_Write vs b) = take (bb_maximum b) (w @ concat vs) \<and>
     (bb_overflow (fold boundedBuffer_Write vs b) \<longleftrightarrow> length (w @ concat vs) > bb_maximum b)"
proof (induction vs arbitrary: b w)
  case (Cons v vs)
  note step = boundedBuffer_Write_take [OF Cons.prems, of v]
  show ?case using Cons.IH [of "boundedBuffer_Write v b" "w @ v"] step by simp
qed simp

section \<open>Event patterns\<close>

fun arrivedCursors :: "runnerLib \<Rightarrow> arrival list \<Rightarrow> EventCursor list" where
  "arrivedCursors lib [] = []"
| "arrivedCursors lib (ChannelClosed # as) = []"
| "arrivedCursors lib (Arrived n # as) =
     (case nt_Event n of None \<Rightarrow> [] | Some event \<Rightarrow> [eventCursor (providerEventDigest lib) event]) @ arrivedCursors lib as"

lemma Observe_extends:
  assumes "tracker_inv t" "Observe t c = (Inr q, t')"
  shows "tracker_inv t'" "logOf t' = insert c (logOf t)" "q = SequenceDuplicate \<longleftrightarrow> c \<in> logOf t"
proof -
  show "tracker_inv t'" using Observe_inv [OF assms(1), of c] assms(2) by simp
  show "q = SequenceDuplicate \<longleftrightarrow> c \<in> logOf t"
    using tracker.repeats [OF assms(1), of c] log_valid [OF assms(1), of c] assms(2) by auto
  show "logOf t' = insert c (logOf t)"
  proof (cases "c \<in> logOf t")
    case True
    then show ?thesis using Observe_log [OF assms(1), of c] assms(2) by (auto simp: observe_spec_def)
  next
    case False
    then have "q \<noteq> SequenceDuplicate" using tracker.repeats [OF assms(1), of c] assms(2) by auto
    then have "cursorValid c" "\<not> conflicts (logOf t) c" using tracker.commits [OF assms(1), of c] assms(2) by auto
    then show ?thesis using Observe_log [OF assms(1), of c] assms(2) False by (auto simp: observe_spec_def)
  qed
qed

text \<open>A loop that passes has observed the pattern at some event, after the events before it.\<close>

lemma eventLoop_pattern:
  "eventLoop lib i kind as t h = passed (Some i) \<Longrightarrow> tracker_inv t \<Longrightarrow>
     \<exists>pre c post t' q h'. arrivedCursors lib as = pre @ c # post \<and> tracker_inv t' \<and> logOf t' = logOf t \<union> set pre \<and>
       fst (Observe t' c) = Inr q \<and> patternObserved kind q h' (ec_Sequence c)"
proof (induction as arbitrary: t h)
  case Nil
  then show ?case by (simp add: passed_def skipped_def)
next
  case (Cons a as)
  show ?case
  proof (cases a)
    case ChannelClosed
    then show ?thesis using Cons.prems(1) by (simp add: passed_def failed_def Let_def)
  next
    case a: (Arrived n)
    show ?thesis
    proof (cases "nt_Event n")
      case None
      then show ?thesis using Cons.IH Cons.prems a by simp
    next
      case (Some event)
      let ?c = "eventCursor (providerEventDigest lib) event"
      obtain q t' where ob: "Observe t ?c = (Inr q, t')" and
        go: "if patternObserved kind q h (ev_Sequence event) then True
             else eventLoop lib i kind as t' (if ev_Sequence event > h then ev_Sequence event else h) = passed (Some i)"
        using Cons.prems(1) a Some by (auto simp: passed_def failed_def Let_def split: prod.splits sum.splits if_splits)
      show ?thesis
      proof (cases "patternObserved kind q h (ev_Sequence event)")
        case True
        moreover have "ec_Sequence ?c = ev_Sequence event" by (simp add: eventCursor_def)
        ultimately show ?thesis using ob Cons.prems(2) a Some
          by (intro exI [of _ "[]"] exI [of _ ?c] exI [of _ "arrivedCursors lib as"] exI [of _ t] exI [of _ q] exI [of _ h]) simp
      next
        case False
        then obtain pre c post t2 q2 h2 where "arrivedCursors lib as = pre @ c # post" "tracker_inv t2"
          "logOf t2 = logOf t' \<union> set pre" "fst (Observe t2 c) = Inr q2" "patternObserved kind q2 h2 (ec_Sequence c)"
          using Cons.IH [of t' "if ev_Sequence event > h then ev_Sequence event else h"] go Observe_extends(1) [OF Cons.prems(2) ob] by auto
        then show ?thesis using a Some Observe_extends(2) [OF Cons.prems(2) ob]
          by (intro exI [of _ "?c # pre"] exI [of _ c] exI [of _ post] exI [of _ t2] exI [of _ q2] exI [of _ h2]) simp
      qed
    qed
  qed
qed

section \<open>Commands\<close>

lemma if_split_cases: "(if b then x else y) = z \<Longrightarrow> (b \<Longrightarrow> z = x \<Longrightarrow> P) \<Longrightarrow> (\<not> b \<Longrightarrow> y = z \<Longrightarrow> P) \<Longrightarrow> P"
  by (cases b) auto

lemma target_cases:
  assumes "commandTargetForCapability lib capability = Some t"
  shows "\<exists>known. Capability capability = Some known \<and> cap_Mutating known \<and> ct_capability t = capability \<and>
     ct_delivery t = cap_DeliveryClass known \<and>
     (ct_sessionID t = ''conformance-session'' \<or> ct_sessionID t = [] \<and> capability = ''provider.shutdown'') \<and>
     ct_payload t \<in> {''{}'', createSessionPayload (li_sha256 lib), sessionPayload}"
proof -
  obtain known where k: "Capability capability = Some known" "cap_Mutating known"
    using assms by (cases "Capability capability") (simp_all add: commandTargetForCapability_def split: if_split_asm)
  let ?target = "\<lparr>ct_capability = capability, ct_delivery = cap_DeliveryClass known, ct_sessionID = [], ct_payload = []\<rparr>"
  have "(if capability = ''provider.shutdown'' then Some (?target\<lparr>ct_payload := ''{}''\<rparr>)
      else if capability = ''runtime.create_session''
      then Some (?target\<lparr>ct_sessionID := ''conformance-session'', ct_payload := createSessionPayload (li_sha256 lib)\<rparr>)
      else if capability \<in> {''runtime.stop_session'', ''runtime.terminate_session''}
      then Some (?target\<lparr>ct_sessionID := ''conformance-session'', ct_payload := sessionPayload\<rparr>) else None) = Some t"
    using assms k by (simp only: commandTargetForCapability_def option.case Let_def if_True if_False not_True_eq_False)
  then show ?thesis using k by (elim if_split_cases) simp_all
qed

lemma hexEncode_plain: "plainText (hexEncode s)"
proof (induction s)
  case (Cons c s)
  have "plainByte (hexDigit n)" if "n < 16" for n
  proof -
    have "n \<in> {0..<16}" using that by simp
    moreover have "\<forall>k \<in> {0..<16}. plainByte (hexDigit k)" by code_simp
    ultimately show ?thesis by blast
  qed
  then show ?case using Cons.IH by simp
qed simp

lemma payload_valid:
  assumes "p \<in> {''{}'', createSessionPayload sha256, sessionPayload}"
  shows "p \<noteq> [] \<and> json_Valid p"
proof -
  have shallow: "jprint v \<noteq> [] \<and> json_Valid (jprint v)" if v: "printable v" "jdepth v \<le> 10000" for v
  proof -
    obtain c t where "jprint v = c # t" using jprint_hd [OF v(1)] by blast
    then show ?thesis using parse_jprint [OF v(1)] v(2) by (simp only: json_Valid_def json_decode_def option.case if_True) simp
  qed
  have plain: "plainText ''native_environment_id''" "plainText ''conformance-environment''" "plainText ''configuration''"
    "plainText ''configuration_digest''" "plainText ''sha256:''" "plainText ''native_session_id''" "plainText ''conformance-native-session''"
    by code_simp+
  consider "p = ''{}''" | "p = createSessionPayload sha256" | "p = sessionPayload" using assms by auto
  then show ?thesis
  proof cases
    case 1
    have "json_Valid ''{}''" by code_simp
    then show ?thesis using 1 by simp
  next
    case 2
    have "printable (JObj [(''native_environment_id'', JStr ''conformance-environment''), (''configuration'', JObj []),
        (''configuration_digest'', JStr (''sha256:'' @ hexEncode (sha256 ''{}'')))])"
      by (simp only: printable.simps list.pred_inject case_prod_conv plain hexEncode_plain plainText_simps(3) simp_thms)
    then show ?thesis unfolding 2 createSessionPayload_def by (rule shallow) simp
  next
    case 3
    have "printable (JObj [(''native_session_id'', JStr ''conformance-native-session'')])"
      by (simp only: printable.simps list.pred_inject case_prod_conv plain simp_thms)
    then show ?thesis unfolding 3 sessionPayload_def by (rule shallow) simp
  qed
qed

text \<open>The commands that the runner sends are valid, and a valid manifest that supports their target accepts them.\<close>

definition commandName :: "string \<Rightarrow> bool" where
  "commandName name \<longleftrightarrow> matchString idPattern name \<and> length name \<le> 128"

lemma commandName_text:
  assumes "commandName name" "plainText suffix0" "16 \<le> length suffix0" "length suffix0 \<le> 32"
  shows "validateTextRange field (name @ suffix0) 16 256 = nil"
proof -
  have plain: "20 \<le> byte c \<and> byte c < 128" if "c \<in> set (name @ suffix0)" for c
  proof (cases "c \<in> set name")
    case True
    then have "in_class (classes idPattern) c" using assms(1) match_classes [of idPattern name c] unfolding commandName_def by blast
    then show ?thesis by (auto simp: idPattern_def in_class_def)
  next
    case False
    then have "c \<in> set suffix0" using that by simp
    then have "plainByte c" using assms(2) by (simp add: plainText_def)
    then show ?thesis by (simp add: plainByte_def)
  qed
  have "ascii (name @ suffix0)" using plain by (simp add: ascii_def list_all_iff)
  moreover have "\<not> containsAny (name @ suffix0) nulCRLF"
    using plain by (force simp: containsAny_def list_ex_iff)
  ultimately show ?thesis using assms unfolding validateTextRange_nil commandName_def by (simp add: validString_ascii del: matchString.simps)
qed

lemma targetCommand_valid:
  assumes t: "commandTargetForCapability lib capability = Some t" and name: "commandName name" and "t_instant deadline \<noteq> 0"
  shows "Command_Validate (targetCommand t name deadline) = nil"
proof -
  obtain known where k: "Capability capability = Some known" "cap_Mutating known" "ct_capability t = capability"
    "ct_delivery t = cap_DeliveryClass known" and
    session: "ct_sessionID t = ''conformance-session'' \<or> ct_sessionID t = [] \<and> capability = ''provider.shutdown''" and
    payload: "ct_payload t \<in> {''{}'', createSessionPayload (li_sha256 lib), sessionPayload}"
    using target_cases [OF t] by blast
  have catalog: "list_all (\<lambda>d. cap_Mutating d \<longrightarrow> validDeliveryClass (cap_DeliveryClass d)) capabilityCatalog" by code_simp
  have delivery: "validDeliveryClass (cap_DeliveryClass known)"
    using catalog k(1,2) by (auto simp: Capability_Some_iff list_all_iff)
  have texts: "plainText ''-idempotency-key''" "plainText ''-cancellation-token''" by code_simp+
  have keys: "validateTextRange ''idempotency_key'' (name @ ''-idempotency-key'') 16 256 = nil"
    "validateTextRange ''cancellation_token'' (name @ ''-cancellation-token'') 16 256 = nil"
    by (rule commandName_text [OF name texts(1)]; simp) (rule commandName_text [OF name texts(2)]; simp)
  have sid: "validateID ''session_id'' ''conformance-session'' = nil" by code_simp
  have need: "\<not> commandRequiresSession ''provider.shutdown''" by code_simp
  have s: "(if commandRequiresSession capability \<and> ct_sessionID t = [] then errorf m else nil) = nil"
    "ct_sessionID t \<noteq> [] \<longrightarrow> validateID ''session_id'' (ct_sessionID t) = nil" for m
    using session sid need by auto
  have cid: "validateID ''command_id'' name = nil" using name by (simp add: commandName_def validateID_nil del: matchString.simps)
  show ?thesis
    unfolding Command_Validate_def targetCommand_def
    using payload_valid [OF payload] k delivery keys s cid assms(3)
    by (simp add: validCapabilityName_def validateTime_nil validateProtocol_def del: matchString.simps append_Cons)
qed

lemma targetCommand_accepted:
  assumes "ProviderManifest_Validate m = nil" "Manifest_Supports m capability"
    "commandTargetForCapability lib capability = Some t" "commandName name" "t_instant deadline \<noteq> 0"
  shows "ValidateAgainstManifest (targetCommand t name deadline) m = nil"
proof -
  obtain known where k: "Capability capability = Some known" "cap_Mutating known" "ct_capability t = capability"
    "ct_delivery t = cap_DeliveryClass known" using target_cases [OF assms(3)] by blast
  obtain d where d: "d \<in> set (m_Capabilities m)" "cap_Name d = capability"
    using assms(2) by (auto simp: Manifest_Supports_def list_ex_iff)
  then have "Manifest_Capability m capability = Some d" using Manifest_Capability_Some manifest_facts(1) [OF assms(1)] by blast
  moreover have "cap_Mutating d \<and> cap_DeliveryClass d = cap_DeliveryClass known"
    using manifest_facts(3) [OF assms(1) d(1)] d(2) k(1) by (auto simp: validateAdvertised_nil equalCapabilityDefinition_def k(2))
  ultimately show ?thesis
    using targetCommand_valid [OF assms(3-5)] assms(1) k by (simp add: ValidateAgainstManifest_def targetCommand_def)
qed

section \<open>Properties\<close>


text \<open>
  C19: The redaction case passes only for a provider whose complete diagnostics never contain the secret: output beyond
  the buffer cannot hide a leak, because it fails the case.
\<close>

theorem redaction_pass_clean:
  assumes "runRedaction lib peer config testCase s = (outcome, s')" "oc_status outcome = StatusPassed"
  shows "\<not> contains (concat (pe_stderr peer s')) redactionMarker \<and> length (concat (pe_stderr peer s')) \<le> stderrLimit"
proof -
  let ?b = "diagnostics (pe_stderr peer s')"
  have all: "bb_data ?b = take stderrLimit (concat (pe_stderr peer s'))" "bb_overflow ?b \<longleftrightarrow> length (concat (pe_stderr peer s')) > stderrLimit"
    using boundedBuffer_writes [of "\<lparr>bb_maximum = stderrLimit, bb_data = [], bb_overflow = False\<rparr>" "[]" "pe_stderr peer s'"]
    by (simp_all add: diagnostics_def)
  have verdict: "oc_status (redactionVerdict a b) = StatusPassed \<Longrightarrow> \<not> bb_overflow b \<and> \<not> contains (bb_data b) redactionMarker" for a b
    by (simp add: redactionVerdict_def failed_def Let_def split: sum.split_asm if_split_asm)
  obtain answer where "outcome = redactionVerdict answer ?b"
    using assms unfolding runRedaction_def Let_def
    by (auto simp: failed_def Let_def simp del: append_Cons split: prod.splits option.splits)
  then have clean: "\<not> bb_overflow ?b" "\<not> contains (bb_data ?b) redactionMarker" using verdict assms(2) by simp_all
  then have "length (concat (pe_stderr peer s')) \<le> stderrLimit" using all(2) by simp
  moreover from this have "bb_data ?b = concat (pe_stderr peer s')" using all(1) by simp
  ultimately show ?thesis using clean(2) by simp
qed


lemma lang_seqI: "s \<in> lang a \<Longrightarrow> t \<in> lang b \<Longrightarrow> s @ t \<in> lang (RSeq a b)"
  by auto

lemma candidate_name:
  assumes "n < 10 ^ 9"
  shows "matchString extensionCapabilityPattern (candidate n)"
proof -
  have label: "''example'' \<in> lang dnsLabel" "''.conformance'' \<in> lang (RPlus (RSeq (RChr (CHR ''.'')) dnsLabel))"
    unfolding matchString_lang [symmetric] by code_simp+
  obtain rest where rest: "candidate n = ''example'' @ ''.conformance'' @ ''/'' @ ''u'' @ rest" "length rest \<le> 127" "list_all (in_class cls_token) rest"
  proof (cases "n = 0")
    case True
    then show thesis by (intro that [of "''nsupported''"]) (simp_all add: candidate_def in_class_def)
  next
    case False
    have "list_all (in_class cls_token) (decimal n)"
      using decimal_digits [of n] by (auto simp: list_all_iff isDigit_def in_class_def)
    then show thesis using False length_decimal [of n 8] assms
      by (intro that [of "''nsupported-'' @ decimal n"]) (simp_all add: candidate_def in_class_def)
  qed
  have "rest \<in> lang (RUpTo 127 (RCls cls_token))" using rest(2,3) by (simp only: lang_UpTo_Cls simp_thms)
  moreover have "''/'' \<in> lang (RChr (CHR ''/''))" "''u'' \<in> lang (RCls [(CHR ''a'', CHR ''z'')])"
    unfolding matchString_lang [symmetric] by code_simp+
  ultimately have "candidate n \<in> lang extensionCapabilityPattern"
    unfolding rest(1) extensionCapabilityPattern_def reverseDNSPattern_def using label by (intro lang_seqI)
  then show ?thesis unfolding matchString_lang .
qed

text \<open>
  The probe for an unsupported capability never runs out of names: for every valid manifest the loop finds one that
  the manifest does not have, and the request that asks for it is valid, so that only the missing capability can be what
  the provider refuses.
\<close>

theorem unsupportedCapability_found:
  assumes "ProviderManifest_Validate manifest = nil" "Platform_Validate platform = nil"
  shows "\<exists>name. unsupportedCapability manifest = Some name \<and> \<not> Manifest_Supports manifest name \<and>
     InitializeRequest_Validate (initializeRequest platform negotiatedMaximum
       (Some [''provider.initialize'', ''provider.capabilities'', name]) []) = nil"
proof -
  obtain name where n: "unsupportedCapability manifest = Some name" "\<not> Manifest_Supports manifest name"
    using unsupportedCapability_Some by blast
  then have "name \<in> set (map candidate [0..<Suc (length (m_Capabilities manifest))])"
    unfolding unsupportedCapability_def find_Some_iff by (metis nth_mem)
  then obtain k where k: "name = candidate k" "k < Suc (length (m_Capabilities manifest))" by (auto simp del: upt_Suc)
  then have "k < 10 ^ 9" using manifest_facts(2) [OF assms(1)] by simp
  then have valid: "validCapabilityName name" using candidate_name k(1) by (simp add: validCapabilityName_def del: matchString.simps)
  have names: "validCapabilityName ''provider.initialize''" "validCapabilityName ''provider.capabilities''" by code_simp+
  have other: "name \<noteq> ''provider.initialize''" "name \<noteq> ''provider.capabilities''" using k(1) by (auto simp: candidate_def split: if_splits)
  have "validateVersion ''gateway_version'' ''0.1.0'' = nil" "validateToken ''authentication_modes'' ''none'' = nil"
    "validateUniqueStrings ''supported_protocol_versions'' [ProtocolVersion] = nil"
    "validateVersion ''supported protocol version'' ProtocolVersion = nil" by code_simp+
  then show ?thesis using n valid names other assms(2)
    by (simp add: InitializeRequest_Validate_def initializeRequest_def Let_def each_unique_nil validateSizes_nil validateTokenSet_def
        del: matchString.simps)
qed

text \<open>
  The commands of the deadline and delivery cases are commands that a conforming provider accepts: they validate on
  their own and against every valid manifest from which the runner chose their target.
\<close>

theorem runner_commands_accepted:
  assumes "ProviderManifest_Validate m = nil" "t_instant deadline \<noteq> 0"
  shows "(commandTargetForDeadline lib m = Some t \<longrightarrow>
      ValidateAgainstManifest (targetCommand t ''conformance-deadline-command'' deadline) m = nil) \<and>
    (deliveryClass \<in> {DeliveryProviderIdempotent, DeliveryStateReconciled, DeliveryAtMostOnce} \<and>
       commandTargetForDelivery lib m deliveryClass = Some t \<longrightarrow>
      ValidateAgainstManifest (targetCommand t (''conformance-delivery-command-'' @ deliveryClass) deadline) m = nil)"
proof (intro conjI impI)
  assume "commandTargetForDeadline lib m = Some t"
  then obtain capability where "Manifest_Supports m capability" "commandTargetForCapability lib capability = Some t"
    by (auto simp: commandTargetForDeadline_def find_Some_iff simp del: find.simps split: option.splits)
  moreover have "commandName ''conformance-deadline-command''" by code_simp
  ultimately show "ValidateAgainstManifest (targetCommand t ''conformance-deadline-command'' deadline) m = nil"
    using targetCommand_accepted assms by blast
next
  assume d: "deliveryClass \<in> {DeliveryProviderIdempotent, DeliveryStateReconciled, DeliveryAtMostOnce} \<and>
    commandTargetForDelivery lib m deliveryClass = Some t"
  then obtain capability where "Manifest_Supports m capability" "commandTargetForCapability lib capability = Some t"
    by (auto simp: commandTargetForDelivery_def deliveryTargetCapability_def find_Some_iff simp del: find.simps split: option.splits)
  moreover have "\<forall>c \<in> {DeliveryProviderIdempotent, DeliveryStateReconciled, DeliveryAtMostOnce}. commandName (''conformance-delivery-command-'' @ c)"
    by code_simp
  then have "commandName (''conformance-delivery-command-'' @ deliveryClass)" using d by blast
  ultimately show "ValidateAgainstManifest (targetCommand t (''conformance-delivery-command-'' @ deliveryClass) deadline) m = nil"
    using targetCommand_accepted assms by blast
qed

section \<open>A provider to run against\<close>

definition sampleLibrary :: runnerLib where
  "sampleLibrary = \<lparr>li_sha256 = (\<lambda>_. replicate 32 (CHR ''d'')), li_event = (\<lambda>_. ''{}''), li_platform = \<lparr>pf_OS = ''linux'', pf_Architecture = ''amd64''\<rparr>\<rparr>"

definition samplePeer :: "unit peer" where
  "samplePeer =
     \<lparr>pe_start = (\<lambda>_ _ _ _ s. (nil, s)), pe_initialize = (\<lambda>_ s. (Inr sampleAnswer, s)), pe_health = (\<lambda>s. (nil, s)),
      pe_capabilities = (\<lambda>s. (Inl (Plain ''gone''), s)), pe_cancelled = (\<lambda>s. (Inl (Plain ''gone''), s)),
      pe_mutate = (\<lambda>_ s. (Inr ''{}'', s)), pe_subscribeTerminal = (\<lambda>_ s. (nil, s)), pe_subscribeEvents = (\<lambda>_ s. (nil, s)),
      pe_credit = (\<lambda>_ s. (nil, s)), pe_arrivals = (\<lambda>_. []), pe_probe = (\<lambda>_. ([], nil)), pe_stderr = (\<lambda>_. [''starting'']),
      pe_crash = (\<lambda>s. s), pe_close = (\<lambda>s. s), pe_now = (\<lambda>_. sampleTime 1), pe_millis = (\<lambda>_. 0)\<rparr>"

definition sampleSuite :: RunnerConfig where
  "sampleSuite =
     \<lparr>rc_ProviderCommand = [''provider''], rc_Environment = [], rc_Directory = [],
      rc_Matrix = \<lparr>mx_SchemaVersion = CaseSchemaVersion, mx_SuiteVersion = ''0.1.0'',
        mx_Cases = [(ofKind CaseInitializeRequired)\<lparr>cs_ID := ''protocol.initialize'', cs_Description := ''negotiates''\<rparr>,
                    (ofKind CaseRedaction)\<lparr>cs_ID := ''diagnostics.redacted'', cs_Description := ''redacts''\<rparr>]\<rparr>,
      rc_CaseTimeout = 0, rc_FaultPlan = None\<rparr>"

definition streamEvent :: "string \<Rightarrow> string \<Rightarrow> uint64 \<Rightarrow> arrival" where
  "streamEvent stream eid q =
     Arrived ((noPayload ''$mc/event'')\<lparr>nt_Event := Some ((ce_ProviderEvent (sampleEvent eid q))\<lparr>ev_StreamID := stream\<rparr>)\<rparr>)"


theorem redaction_pass_clean_witness: "\<not> contains (concat (pe_stderr samplePeer ())) redactionMarker"
proof -
  have "oc_status (fst (runRedaction sampleLibrary samplePeer sampleSuite (ofKind CaseRedaction) ())) = StatusPassed" by code_simp
  then show ?thesis using redaction_pass_clean [of sampleLibrary samplePeer sampleSuite "ofKind CaseRedaction" "()"]
    by (cases "runRedaction sampleLibrary samplePeer sampleSuite (ofKind CaseRedaction) ()") auto
qed


theorem unsupportedCapability_found_witness:
  "\<exists>name. unsupportedCapability sampleManifest = Some name \<and> \<not> Manifest_Supports sampleManifest name"
proof -
  have "Platform_Validate \<lparr>pf_OS = ''linux'', pf_Architecture = ''amd64''\<rparr> = nil" by code_simp
  from unsupportedCapability_found [OF sampleManifest_ok this] show ?thesis by blast
qed

theorem runner_commands_accepted_witness:
  "\<exists>t. commandTargetForDeadline sampleLibrary sampleManifest = Some t \<and>
     ValidateAgainstManifest (targetCommand t ''conformance-deadline-command'' (sampleTime 1)) sampleManifest = nil"
proof -
  have "\<not> (commandTargetForDeadline sampleLibrary sampleManifest = None)" by code_simp
  then obtain t where "commandTargetForDeadline sampleLibrary sampleManifest = Some t" by blast
  then show ?thesis using runner_commands_accepted [OF sampleManifest_ok, of "sampleTime 1" sampleLibrary t] by (simp add: sampleTime_def)
qed

text \<open>
  The out-of-order case compares sequence numbers across streams: two streams that are each in order pass it.
\<close>

theorem out_of_order_across_streams:
  "eventLoop sampleLibrary sampleAnswer CaseEventOutOfOrder [streamEvent ''a'' ''event-1'' 5, streamEvent ''b'' ''event-2'' 1]
     NewSequenceTracker 0 = passed (Some sampleAnswer)"
  by code_simp

end
