(* ===== verification/Spec2Isabelle.thy ===== *)
theory Spec2Isabelle
  imports Proto_Approval Proto_Verification Proto_Runtime Event_Sequence Server_Loops Client_Operations Mock_ControlPlane Mock_Gateway Conformance_Runner
begin

text \<open>
  Mission Control Edge, verified.

  The repository is the Go SDK of the Mission Control provider protocol: package \<open>protocol\<close> defines the
  documents exchanged by providers and gateways and validates them, package \<open>provider\<close> runs the
  JSON-RPC provider host and its client, package \<open>mock\<close> is the in-memory peer used by the tests.

  Layout: \<open>Edge_Prelude\<close>, \<open>Go_Strings\<close>, \<open>Go_Encoding\<close>, \<open>Go_Regex\<close>, \<open>Go_Json\<close>, \<open>Json_Raw\<close> model what
  the code uses of Go and its standard library; \<open>Proto_Capability\<close>, \<open>Proto_Validate\<close>, \<open>Json_Guard\<close> model
  \<open>protocol/capability.go\<close>, \<open>error.go\<close>, \<open>identity.go\<close> and \<open>validate.go\<close>.
\<close>

end
